(* ===== verification/Prelude.thy ===== *)
theory Prelude
  imports Main "HOL-Library.Word" "HOL-Library.Multiset"
begin

text \<open>
  Shared vocabulary of the development: the C scalar types the components use, the errno values
  they return, and the containers of the Open vSwitch base library that every component is
  written against (\<open>shash\<close>, \<open>smap\<close>, \<open>hmap\<close>, \<open>ovs_list\<close>, \<open>sset\<close>).  These containers are plain
  data to switchd: it inserts, looks up, removes and iterates.  They are represented by lists in
  iteration order; switchd never relies on that order, and the properties of the later theories
  are stated over the sets, maps or multisets the lists stand for.

  The locale \<open>string_table\<close> is the contract of a string-keyed table whose insertion keeps the
  first value of a key (\<open>shash_add_once\<close>); its lemma on collecting rows is what the components
  that diff the database against their local state (subsystems, VLANs, VRFs, routes, neighbors)
  rely on.

  The columns a component asks the OVSDB client for (\<open>ovsdb_idl_add_column\<close>, \<open>ovsdb_idl_omit\<close>,
  \<open>ovsdb_idl_omit_alert\<close>) are recorded as a list of calls, from which \<open>column_mode\<close> reads whether a
  change of the column reaches the client and whether it wakes the main loop.
\<close>

section \<open>Scalars and error numbers\<close>

type_synonym u32 = "32 word"
type_synonym u64 = "64 word"

definition EPERM :: int where "EPERM = 1"
definition EINVAL :: int where "EINVAL = 22"

text \<open>
  Where the code would dereference NULL, index past the end of an allocation or use freed memory, the model returns
  the fault instead of a result.  \<open>int32\<close> is the value a 32-bit signed computation wraps to.
\<close>

datatype fault = Null_dereference | Out_of_bounds | Use_after_free | Uninitialized_read

text \<open>The outcome of \<open>ovsdb_idl_txn_commit\<close>, lib/ovsdb-idl.h.\<close>

datatype txn_status = TXN_UNCOMMITTED | TXN_UNCHANGED | TXN_INCOMPLETE | TXN_ABORTED | TXN_SUCCESS | TXN_TRY_AGAIN | TXN_NOT_LOCKED | TXN_ERROR

definition int32 :: "int \<Rightarrow> int" where
  "int32 x = (x + 2 ^ 31) mod 2 ^ 32 - 2 ^ 31"

lemma int32_id: "- (2 ^ 31) \<le> x \<Longrightarrow> x < 2 ^ 31 \<Longrightarrow> int32 x = x"
  by (simp add: int32_def)

lemma int32_bounds: "- (2 ^ 31) \<le> int32 x" "int32 x < 2 ^ 31"
  using pos_mod_bound [of "2 ^ 32 :: int" "x + 2 ^ 31"] pos_mod_sign [of "2 ^ 32 :: int" "x + 2 ^ 31"]
  by (simp_all add: int32_def)

named_theorems errno_simps \<open>values of the errno constants\<close>
declare EPERM_def [errno_simps] EINVAL_def [errno_simps]

named_theorems container_simps \<open>definitions of the container operations\<close>

section \<open>List facts\<close>

lemma find_Some_conv: "List.find P xs = Some x \<Longrightarrow> x \<in> set xs \<and> P x"
  by (induction xs) (auto split: if_splits)

lemma find_None_conv: "List.find P xs = None \<longleftrightarrow> (\<forall>x\<in>set xs. \<not> P x)"
  by (auto simp: find_None_iff)

lemma find_distinct_key:
  "distinct (map f xs) \<Longrightarrow> x \<in> set xs \<Longrightarrow> List.find (\<lambda>y. f y = f x) xs = Some x"
  by (induction xs) (auto simp: image_iff)

lemma list_all2_right_in: "list_all2 P xs ys \<Longrightarrow> y \<in> set ys \<Longrightarrow> \<exists>x\<in>set xs. P x y"
  by (induction rule: list_all2_induct) auto

lemma filter_takeWhile_sorted:
  "sorted (map f xs) \<Longrightarrow> takeWhile (\<lambda>y. f y \<le> k) xs = filter (\<lambda>y. f y \<le> (k :: 'k :: linorder)) xs"
proof (induction xs)
  case (Cons y ys)
  have "filter (\<lambda>y. f y \<le> k) ys = []" if "\<not> f y \<le> k"
    using Cons.prems that by (auto simp: filter_empty_conv)
  with Cons show ?case by auto
qed simp

section \<open>String-keyed tables\<close>

locale string_table =
  fixes empty :: "'m"
    and find :: "'m \<Rightarrow> string \<Rightarrow> 'v option"
    and add_once :: "'m \<Rightarrow> string \<Rightarrow> 'v \<Rightarrow> bool \<times> 'm"
    and nodes :: "'m \<Rightarrow> (string \<times> 'v) list"
    and invar :: "'m \<Rightarrow> bool"
  assumes invar_empty: "invar empty"
    and find_empty: "find empty k = None"
    and add_once_fresh: "invar m \<Longrightarrow> find m k = None \<Longrightarrow>
          fst (add_once m k v) \<and> invar (snd (add_once m k v)) \<and>
          find (snd (add_once m k v)) = (find m)(k \<mapsto> v)"
    and add_once_dup: "find m k \<noteq> None \<Longrightarrow> add_once m k v = (False, m)"
    and find_nodes: "invar m \<Longrightarrow> find m k = Some v \<longleftrightarrow> (k, v) \<in> set (nodes m)"
begin

lemma find_add_all:
  assumes "invar m"
  shows "invar (foldl (\<lambda>m r. snd (add_once m (key r) r)) m rows) \<and>
         find (foldl (\<lambda>m r. snd (add_once m (key r) r)) m rows) k =
           (case find m k of Some v \<Rightarrow> Some v | None \<Rightarrow> map_of (map (\<lambda>r. (key r, r)) rows) k)"
  using assms
proof (induction rows arbitrary: m)
  case Nil
  then show ?case by (simp split: option.split)
next
  case (Cons r rows)
  show ?case
  proof (cases "find m (key r)")
    case None
    let ?m = "snd (add_once m (key r) r)"
    from add_once_fresh [OF Cons.prems None] have m: "invar ?m" "find ?m = (find m)(key r \<mapsto> r)"
      by auto
    from Cons.IH [OF m(1)] m(2) None show ?thesis
      by (auto split: option.split)
  next
    case (Some v)
    then have "snd (add_once m (key r) r) = m" by (simp add: add_once_dup)
    with Cons.IH [OF Cons.prems] Some show ?thesis
      by (auto split: option.split)
  qed
qed

lemma set_nodes_add_all:
  "(k, v) \<in> set (nodes (foldl (\<lambda>m r. snd (add_once m (key r) r)) empty rows)) \<longleftrightarrow>
     map_of (map (\<lambda>r. (key r, r)) rows) k = Some v"
  using find_add_all [OF invar_empty, where rows = rows and key = key and k = k]
  by (auto simp: find_nodes [symmetric] find_empty)

end

subsection \<open>struct shash\<close>

type_synonym 'v shash = "(string \<times> 'v) list"

definition shash_find_data :: "'v shash \<Rightarrow> string \<Rightarrow> 'v option" where
  [container_simps]: "shash_find_data sh k = map_of sh k"

definition shash_add_once :: "'v shash \<Rightarrow> string \<Rightarrow> 'v \<Rightarrow> bool \<times> 'v shash" where
  [container_simps]: "shash_add_once sh k v =
     (case map_of sh k of None \<Rightarrow> (True, sh @ [(k, v)]) | Some _ \<Rightarrow> (False, sh))"

definition shash_find_and_delete :: "'v shash \<Rightarrow> string \<Rightarrow> 'v option \<times> 'v shash" where
  [container_simps]: "shash_find_and_delete sh k = (map_of sh k, filter (\<lambda>(k', _). k' \<noteq> k) sh)"

definition shash_wf :: "'v shash \<Rightarrow> bool" where
  "shash_wf sh \<longleftrightarrow> distinct (map fst sh)"

text \<open>
  \<open>shash_collect key rows\<close> is the loop the reconfiguration code opens with: add every row of an
  array under its key, keeping the first row of a key and warning about the others.
\<close>

definition shash_collect :: "('r \<Rightarrow> string) \<Rightarrow> 'r list \<Rightarrow> 'r shash" where
  "shash_collect key rows = foldl (\<lambda>sh r. snd (shash_add_once sh (key r) r)) [] rows"

interpretation sh: string_table "[]" shash_find_data shash_add_once "\<lambda>sh. sh" shash_wf
proof unfold_locales
  show "shash_wf []" by (simp add: shash_wf_def)
  show "shash_find_data [] k = None" for k by (simp add: container_simps)
  show "fst (shash_add_once m k v) \<and> shash_wf (snd (shash_add_once m k v)) \<and>
      shash_find_data (snd (shash_add_once m k v)) = (shash_find_data m)(k \<mapsto> v)"
    if "shash_wf m" "shash_find_data m k = None" for m :: "'a shash" and k v
    using that
    by (auto simp: container_simps shash_wf_def map_add_def fun_eq_iff split: option.split)
  show "shash_add_once m k v = (False, m)" if "shash_find_data m k \<noteq> None"
    for m :: "'a shash" and k v
    using that by (auto simp: container_simps)
  show "shash_find_data m k = Some v \<longleftrightarrow> (k, v) \<in> set m" if "shash_wf m" for m :: "'a shash" and k v
    using that by (simp add: container_simps shash_wf_def)
qed

lemma shash_wf_collect [simp]: "shash_wf (shash_collect key rows)"
  using sh.find_add_all [OF sh.invar_empty] by (auto simp: shash_collect_def)

lemma shash_find_collect [simp]:
  "shash_find_data (shash_collect key rows) k = map_of (map (\<lambda>r. (key r, r)) rows) k"
  using sh.find_add_all [OF sh.invar_empty, where rows = rows and key = key and k = k]
  by (simp add: shash_collect_def sh.find_empty)

lemma set_shash_collect:
  "(k, v) \<in> set (shash_collect key rows) \<longleftrightarrow> map_of (map (\<lambda>r. (key r, r)) rows) k = Some v"
  using sh.set_nodes_add_all [where rows = rows and key = key and k = k and v = v]
  by (simp add: shash_collect_def)

lemma fst_set_shash_collect: "fst ` set (shash_collect key rows) = key ` set rows"
proof -
  have "k \<in> fst ` set (shash_collect key rows) \<longleftrightarrow> k \<in> key ` set rows" for k
  proof -
    have "k \<in> fst ` set (shash_collect key rows) \<longleftrightarrow>
        (\<exists>v. map_of (map (\<lambda>r. (key r, r)) rows) k = Some v)"
      by (force simp: set_shash_collect [symmetric] image_iff)
    also have "\<dots> \<longleftrightarrow> k \<in> key ` set rows"
      by (auto simp: map_of_eq_None_iff image_iff simp flip: not_None_eq)
    finally show ?thesis .
  qed
  then show ?thesis by blast
qed

lemma shash_collect_key:
  assumes "(k, v) \<in> set (shash_collect key rows)"
  shows "v \<in> set rows \<and> key v = k"
proof -
  from assms have "map_of (map (\<lambda>r. (key r, r)) rows) k = Some v"
    by (simp add: set_shash_collect)
  then have "(k, v) \<in> set (map (\<lambda>r. (key r, r)) rows)" by (rule map_of_SomeD)
  then show ?thesis by auto
qed

lemma foldl_add_fresh:
  assumes "distinct (map key rows)" "\<forall>r\<in>set rows. key r \<notin> fst ` set sh"
  shows "foldl (\<lambda>sh r. snd (shash_add_once sh (key r) r)) sh rows = sh @ map (\<lambda>r. (key r, r)) rows"
  using assms
proof (induction rows arbitrary: sh)
  case (Cons r rows)
  then have "map_of sh (key r) = None" by (simp add: map_of_eq_None_iff)
  then have "snd (shash_add_once sh (key r) r) = sh @ [(key r, r)]" by (simp add: shash_add_once_def)
  moreover have "\<forall>x\<in>set rows. key x \<notin> fst ` set (sh @ [(key r, r)])"
    using Cons.prems by (auto simp: image_iff)
  ultimately show ?case using Cons.IH [of "sh @ [(key r, r)]"] Cons.prems by simp
qed simp

lemma shash_collect_distinct:
  "distinct (map key rows) \<Longrightarrow> shash_collect key rows = map (\<lambda>r. (key r, r)) rows"
  using foldl_add_fresh [of key rows "[]"] by (simp add: shash_collect_def)

lemma collect_rows_subset:
  "r \<in> set (map snd (shash_collect key rows)) \<Longrightarrow> r \<in> set rows"
  using shash_collect_key by fastforce

lemma collect_row_keys:
  "key ` set (map snd (shash_collect key rows)) = key ` set rows"
proof -
  have "key ` set (map snd (shash_collect key rows)) = fst ` set (shash_collect key rows)"
    using shash_collect_key [of _ _ key rows] by (force simp: image_iff)
  then show ?thesis by (simp add: fst_set_shash_collect)
qed

subsection \<open>struct smap\<close>

type_synonym smap = "(string \<times> string) list"

definition smap_get :: "smap \<Rightarrow> string \<Rightarrow> string option" where
  [container_simps]: "smap_get m k = map_of m k"

definition smap_replace :: "smap \<Rightarrow> string \<Rightarrow> string \<Rightarrow> smap" where
  [container_simps]: "smap_replace m k v = (k, v) # filter (\<lambda>(k', _). k' \<noteq> k) m"

definition smap_remove :: "smap \<Rightarrow> string \<Rightarrow> smap" where
  [container_simps]: "smap_remove m k = filter (\<lambda>(k', _). k' \<noteq> k) m"

text \<open>
  \<open>atoi\<close> of the C library: leading white space, an optional sign, then digits up to the first other
  character.  \<open>smap_get_int\<close> applies it to the value of a key (lib/smap.h documents this).
\<close>

fun digits_value :: "int \<Rightarrow> string \<Rightarrow> int" where
  "digits_value acc [] = acc"
| "digits_value acc (c # cs) =
     (let d = (of_char c :: nat) in
      if 48 \<le> d \<and> d \<le> 57 then digits_value (acc * 10 + int (d - 48)) cs else acc)"

definition atoi :: "string \<Rightarrow> int" where
  "atoi s =
     (let t = dropWhile (\<lambda>c. c \<in> {CHR '' '', CHR 0x09, CHR 0x0A, CHR 0x0B, CHR 0x0C, CHR 0x0D}) s in
      case t of
        [] \<Rightarrow> 0
      | c # cs \<Rightarrow> if c = CHR ''-'' then - digits_value 0 cs
                  else if c = CHR ''+'' then digits_value 0 cs
                  else digits_value 0 t)"

definition smap_get_int :: "smap \<Rightarrow> string \<Rightarrow> int \<Rightarrow> int" where
  "smap_get_int m k def = (case smap_get m k of None \<Rightarrow> def | Some v \<Rightarrow> atoi v)"

text \<open>
  \<open>smap_get_bool m k def\<close>: with a false default only the string \<open>true\<close> reads as true, with a true
  default every string but \<open>false\<close> does (lib/smap.h documents exactly this).
\<close>

definition smap_get_bool :: "smap \<Rightarrow> string \<Rightarrow> bool \<Rightarrow> bool" where
  [container_simps]: "smap_get_bool m k def =
     (case smap_get m k of
        None \<Rightarrow> def
      | Some v \<Rightarrow> if def then v \<noteq> ''false'' else v = ''true'')"

lemma map_of_filter_neq: "map_of (filter (\<lambda>(k', _). k' \<noteq> k) m) j = (if j = k then None else map_of m j)"
  by (induction m) auto

lemma smap_get_replace [simp]: "smap_get (smap_replace m k v) j = (if j = k then Some v else smap_get m j)"
  by (simp add: container_simps map_of_filter_neq)

lemma smap_get_remove [simp]: "smap_get (smap_remove m k) j = (if j = k then None else smap_get m j)"
  by (simp add: container_simps map_of_filter_neq)

lemma shash_find_delete [simp]:
  "shash_find_data (snd (shash_find_and_delete sh k)) j = (if j = k then None else shash_find_data sh j)"
  by (simp add: container_simps map_of_filter_neq)

subsection \<open>Columns of the IDL\<close>

text \<open>
  \<open>ovsdb_idl_omit_alert\<close> and \<open>ovsdb_idl_omit\<close>, lib/ovsdb-idl.h: a column is replicated and its changes reported unless it was
  named in a call of the first, which keeps the replication, or of the second, which does not.
\<close>

datatype idl_call = Omit_alert string string | Omit string string

text \<open>The modes are ordered by how much of a column the IDL delivers.\<close>

datatype idl_mode = Alert | Monitor | Not_replicated

primrec mode_rank :: "idl_mode \<Rightarrow> nat" where
  "mode_rank Not_replicated = 0"
| "mode_rank Monitor = 1"
| "mode_rank Alert = 2"

instantiation idl_mode :: linorder
begin

definition less_eq_idl_mode :: "idl_mode \<Rightarrow> idl_mode \<Rightarrow> bool" where
  "m \<le> m' \<longleftrightarrow> mode_rank m \<le> mode_rank m'"

definition less_idl_mode :: "idl_mode \<Rightarrow> idl_mode \<Rightarrow> bool" where
  "m < m' \<longleftrightarrow> mode_rank m < mode_rank m'"

instance
proof
  fix a b :: idl_mode
  assume "a \<le> b" "b \<le> a"
  then show "a = b" by (cases a; cases b) (simp_all add: less_eq_idl_mode_def)
qed (auto simp: less_eq_idl_mode_def less_idl_mode_def)

end

fun column_mode :: "idl_call list \<Rightarrow> string \<Rightarrow> string \<Rightarrow> idl_mode \<Rightarrow> idl_mode" where
  "column_mode [] t c m = m"
| "column_mode (Omit_alert t' c' # cs) t c m = column_mode cs t c (if t = t' \<and> c = c' \<and> m = Alert then Monitor else m)"
| "column_mode (Omit t' c' # cs) t c m = column_mode cs t c (if t = t' \<and> c = c' then Not_replicated else m)"

lemma column_mode_meet:
  "column_mode cs t c m =
     (if Omit t c \<in> set cs then Not_replicated else if Omit_alert t c \<in> set cs then min m Monitor else m)"
proof (induction cs t c m rule: column_mode.induct)
  case (2 t' c' cs t c m)
  then show ?case by (cases m) (auto simp: min_def less_eq_idl_mode_def)
next
  case (3 t' c' cs t c m)
  then show ?case by (auto simp: min_def less_eq_idl_mode_def)
qed simp

text \<open>So the calls can only take away from a column, and neither their order nor a repetition matters.\<close>

lemma column_mode_le: "column_mode cs t c m \<le> m"
  by (cases m) (simp_all add: column_mode_meet min_def less_eq_idl_mode_def)

lemma column_mode_order: "set cs = set cs' \<Longrightarrow> column_mode cs t c m = column_mode cs' t c m"
  by (simp add: column_mode_meet)

end
