(* ===== verification/Blocks.thy ===== *)
theory Blocks
  imports Prelude
begin

text \<open>
  The callback blocks of plugins/reconfigure-blocks.c, plugins/run-blocks.c and
  plugins/stats-blocks.c.  A plugin registers a callback with a priority for one block of the
  main loop; \<open>execute_*_block\<close> runs the callbacks of a block.

  The three files keep the same state, a flag and an array of lists, in file-scope variables; here
  it is a record that the operations take and return.  A callback is opaque code that may change
  anything but the block lists: it is a function on a state \<open>'w\<close> of the rest of the daemon.
  An enumeration argument arrives as an \<open>int\<close>, since a caller may pass any value and the code
  checks the range.

  The locale \<open>priority_blocks\<close> is the contract plugins rely on: callbacks run in ascending order
  of priority, and in order of registration among equal priorities.  Its lemmas are proved once and
  its three interpretations are the three files.
\<close>

section \<open>Block identifiers\<close>

datatype block_id =
    BLK_BRIDGE_INIT | BLK_INIT_RECONFIGURE | BLK_BR_DELETE_PORTS | BLK_VRF_DELETE_PORTS
  | BLK_BR_RECONFIGURE_PORTS | BLK_VRF_RECONFIGURE_PORTS | BLK_BR_ADD_PORTS | BLK_VRF_ADD_PORTS
  | BLK_BR_PORT_UPDATE | BLK_BR_FEATURE_RECONFIG | BLK_VRF_PORT_UPDATE | BLK_VRF_ADD_NEIGHBORS
  | BLK_RECONFIGURE_NEIGHBORS

fun block_num :: "block_id \<Rightarrow> int" where
  "block_num BLK_BRIDGE_INIT = 0"
| "block_num BLK_INIT_RECONFIGURE = 1"
| "block_num BLK_BR_DELETE_PORTS = 2"
| "block_num BLK_VRF_DELETE_PORTS = 3"
| "block_num BLK_BR_RECONFIGURE_PORTS = 4"
| "block_num BLK_VRF_RECONFIGURE_PORTS = 5"
| "block_num BLK_BR_ADD_PORTS = 6"
| "block_num BLK_VRF_ADD_PORTS = 7"
| "block_num BLK_BR_PORT_UPDATE = 8"
| "block_num BLK_BR_FEATURE_RECONFIG = 9"
| "block_num BLK_VRF_PORT_UPDATE = 10"
| "block_num BLK_VRF_ADD_NEIGHBORS = 11"
| "block_num BLK_RECONFIGURE_NEIGHBORS = 12"

datatype run_block_id = BLK_INIT_RUN | BLK_RUN_COMPLETE | BLK_WAIT_COMPLETE

fun run_block_num :: "run_block_id \<Rightarrow> int" where
  "run_block_num BLK_INIT_RUN = 0"
| "run_block_num BLK_RUN_COMPLETE = 1"
| "run_block_num BLK_WAIT_COMPLETE = 2"

datatype stats_block_id =
    STATS_BRIDGE_CREATE_NETDEV | STATS_BEGIN | STATS_PER_BRIDGE | STATS_PER_BRIDGE_PORT
  | STATS_PER_BRIDGE_NETDEV | STATS_PER_VRF | STATS_PER_VRF_PORT | STATS_PER_VRF_NETDEV | STATS_END
  | STATS_SUBSYSTEM_CREATE_NETDEV | STATS_SUBSYSTEM_BEGIN | STATS_PER_SUBSYSTEM
  | STATS_PER_SUBSYSTEM_NETDEV | STATS_SUBSYSTEM_END

fun stats_block_num :: "stats_block_id \<Rightarrow> int" where
  "stats_block_num STATS_BRIDGE_CREATE_NETDEV = 0"
| "stats_block_num STATS_BEGIN = 1"
| "stats_block_num STATS_PER_BRIDGE = 2"
| "stats_block_num STATS_PER_BRIDGE_PORT = 3"
| "stats_block_num STATS_PER_BRIDGE_NETDEV = 4"
| "stats_block_num STATS_PER_VRF = 5"
| "stats_block_num STATS_PER_VRF_PORT = 6"
| "stats_block_num STATS_PER_VRF_NETDEV = 7"
| "stats_block_num STATS_END = 8"
| "stats_block_num STATS_SUBSYSTEM_CREATE_NETDEV = 9"
| "stats_block_num STATS_SUBSYSTEM_BEGIN = 10"
| "stats_block_num STATS_PER_SUBSYSTEM = 11"
| "stats_block_num STATS_PER_SUBSYSTEM_NETDEV = 12"
| "stats_block_num STATS_SUBSYSTEM_END = 13"

definition MAX_BLOCKS_NUM :: nat where "MAX_BLOCKS_NUM = 13"
definition MAX_RUN_BLOCKS_NUM :: nat where "MAX_RUN_BLOCKS_NUM = 3"
definition MAX_STATS_BLOCKS_NUM :: nat where "MAX_STATS_BLOCKS_NUM = 14"

definition NO_PRIORITY :: u32 where "NO_PRIORITY = - 1"

section \<open>State\<close>

record 'h blk_list_node =
  callback_handler :: "'h option"
  priority :: u32

record 'h blocks =
  blocks_init :: bool
  blk_list :: "'h blk_list_node list option list"

definition blocks_boot :: "'h blocks" where
  "blocks_boot = \<lparr>blocks_init = False, blk_list = []\<rparr>"

section \<open>reconfigure-blocks.c\<close>

text \<open>
  The walk of the list and the insertion before the first node of greater priority value;
  \<open>None\<close> is the fall through to the error label.
\<close>

fun list_insert_before :: "'h blk_list_node \<Rightarrow> 'h blk_list_node list \<Rightarrow> 'h blk_list_node list option" where
  "list_insert_before new [] = None"
| "list_insert_before new (n # ns) =
     (if priority n > priority new then Some (new # n # ns)
      else map_option ((#) n) (list_insert_before new ns))"

definition insert_node_on_blk ::
  "'h blk_list_node \<Rightarrow> 'h blk_list_node list option \<Rightarrow> int \<times> 'h blk_list_node list option" where
  "insert_node_on_blk new func_list =
     (case func_list of
        None \<Rightarrow> (EINVAL, None)
      | Some l \<Rightarrow>
          if l = [] then (0, Some [new])
          else if priority new \<ge> priority (last l) then (0, Some (l @ [new]))
          else (case list_insert_before new l of
                  Some l' \<Rightarrow> (0, Some l')
                | None \<Rightarrow> (EINVAL, Some l)))"

definition init_reconfigure_blocks :: "'h blocks \<Rightarrow> int \<times> 'h blocks" where
  "init_reconfigure_blocks s =
     (0, s\<lparr>blk_list := replicate MAX_BLOCKS_NUM (Some []), blocks_init := True\<rparr>)"

definition register_reconfigure_callback ::
  "'h option \<Rightarrow> int \<Rightarrow> u32 \<Rightarrow> 'h blocks \<Rightarrow> int \<times> 'h blocks" where
  "register_reconfigure_callback cb blk_id prio s0 =
     (let (rc, s) = if blocks_init s0 then (0, s0) else init_reconfigure_blocks s0 in
      if rc \<noteq> 0 then (EINVAL, s)
      else if cb = None then (EINVAL, s)
      else if blk_id < 0 \<or> blk_id \<ge> int MAX_BLOCKS_NUM then (EINVAL, s)
      else
        let new_node = \<lparr>callback_handler = cb, priority = prio\<rparr>;
            (rc, l) = insert_node_on_blk new_node (blk_list s ! nat blk_id) in
        if rc \<noteq> 0 then (EINVAL, s)
        else (0, s\<lparr>blk_list := (blk_list s)[nat blk_id := l]\<rparr>))"

fun run_reconfigure_handlers ::
  "'p \<Rightarrow> ('p \<Rightarrow> 'w \<Rightarrow> 'w) blk_list_node list \<Rightarrow> 'w \<Rightarrow> int \<times> 'w" where
  "run_reconfigure_handlers params [] w = (0, w)"
| "run_reconfigure_handlers params (n # ns) w =
     (case callback_handler n of
        None \<Rightarrow> (EINVAL, w)
      | Some cb \<Rightarrow> run_reconfigure_handlers params ns (cb params w))"

definition execute_reconfigure_block ::
  "'p option \<Rightarrow> int \<Rightarrow> ('p \<Rightarrow> 'w \<Rightarrow> 'w) blocks \<Rightarrow> 'w \<Rightarrow> int \<times> ('p \<Rightarrow> 'w \<Rightarrow> 'w) blocks \<times> 'w" where
  "execute_reconfigure_block params blk_id s0 w =
     (let (rc, s) = if blocks_init s0 then (0, s0) else init_reconfigure_blocks s0 in
      if rc \<noteq> 0 then (EINVAL, s, w)
      else case params of
        None \<Rightarrow> (EINVAL, s, w)
      | Some p \<Rightarrow>
          if blk_id < 0 \<or> blk_id \<ge> int MAX_BLOCKS_NUM then (EINVAL, s, w)
          else (case blk_list s ! nat blk_id of
                  None \<Rightarrow> (EINVAL, s, w)
                | Some l \<Rightarrow> let (rc, w') = run_reconfigure_handlers p l w in (rc, s, w')))"

section \<open>run-blocks.c\<close>

definition run_insert_node_on_blk ::
  "'h blk_list_node \<Rightarrow> 'h blk_list_node list option \<Rightarrow> int \<times> 'h blk_list_node list option" where
  "run_insert_node_on_blk new func_list =
     (case func_list of
        None \<Rightarrow> (EINVAL, None)
      | Some l \<Rightarrow>
          if l = [] then (0, Some [new])
          else if priority new \<ge> priority (last l) then (0, Some (l @ [new]))
          else (case list_insert_before new l of
                  Some l' \<Rightarrow> (0, Some l')
                | None \<Rightarrow> (EINVAL, Some l)))"

definition init_r_blocks :: "'h blocks \<Rightarrow> int \<times> 'h blocks" where
  "init_r_blocks s =
     (0, s\<lparr>blk_list := replicate MAX_RUN_BLOCKS_NUM (Some []), blocks_init := True\<rparr>)"

definition register_run_callback ::
  "'h option \<Rightarrow> int \<Rightarrow> u32 \<Rightarrow> 'h blocks \<Rightarrow> int \<times> 'h blocks" where
  "register_run_callback cb blk_id prio s0 =
     (let (rc, s) = if blocks_init s0 then (0, s0) else init_r_blocks s0 in
      if rc \<noteq> 0 then (EINVAL, s)
      else if cb = None then (EINVAL, s)
      else if blk_id < 0 \<or> blk_id \<ge> int MAX_RUN_BLOCKS_NUM then (EINVAL, s)
      else
        let new_node = \<lparr>callback_handler = cb, priority = prio\<rparr>;
            (rc, l) = run_insert_node_on_blk new_node (blk_list s ! nat blk_id) in
        if rc \<noteq> 0 then (EINVAL, s)
        else (0, s\<lparr>blk_list := (blk_list s)[nat blk_id := l]\<rparr>))"

fun run_run_handlers ::
  "'p \<Rightarrow> ('p \<Rightarrow> 'w \<Rightarrow> 'w) blk_list_node list \<Rightarrow> 'w \<Rightarrow> int \<times> 'w" where
  "run_run_handlers params [] w = (0, w)"
| "run_run_handlers params (n # ns) w =
     (case callback_handler n of
        None \<Rightarrow> (EINVAL, w)
      | Some cb \<Rightarrow> run_run_handlers params ns (cb params w))"

definition execute_run_block ::
  "'p option \<Rightarrow> int \<Rightarrow> ('p \<Rightarrow> 'w \<Rightarrow> 'w) blocks \<Rightarrow> 'w \<Rightarrow> int \<times> ('p \<Rightarrow> 'w \<Rightarrow> 'w) blocks \<times> 'w" where
  "execute_run_block params blk_id s0 w =
     (let (rc, s) = if blocks_init s0 then (0, s0) else init_r_blocks s0 in
      if rc \<noteq> 0 then (EINVAL, s, w)
      else case params of
        None \<Rightarrow> (EINVAL, s, w)
      | Some p \<Rightarrow>
          if blk_id < 0 \<or> blk_id \<ge> int MAX_RUN_BLOCKS_NUM then (EINVAL, s, w)
          else (case blk_list s ! nat blk_id of
                  None \<Rightarrow> (EINVAL, s, w)
                | Some l \<Rightarrow> let (rc, w') = run_run_handlers p l w in (rc, s, w')))"

section \<open>stats-blocks.c\<close>

text \<open>
  Unlike the other two files, \<open>execute_stats_block\<close> does not check its parameter structure for
  NULL: it hands the pointer, \<open>'p option\<close> here, to the callbacks together with the block id.
\<close>

definition stats_insert_node_on_blk ::
  "'h blk_list_node \<Rightarrow> 'h blk_list_node list option \<Rightarrow> int \<times> 'h blk_list_node list option" where
  "stats_insert_node_on_blk new func_list =
     (case func_list of
        None \<Rightarrow> (EINVAL, None)
      | Some l \<Rightarrow>
          if l = [] then (0, Some [new])
          else if priority new \<ge> priority (last l) then (0, Some (l @ [new]))
          else (case list_insert_before new l of
                  Some l' \<Rightarrow> (0, Some l')
                | None \<Rightarrow> (EINVAL, Some l)))"

definition init_s_blocks :: "'h blocks \<Rightarrow> int \<times> 'h blocks" where
  "init_s_blocks s =
     (0, s\<lparr>blk_list := replicate MAX_STATS_BLOCKS_NUM (Some []), blocks_init := True\<rparr>)"

definition register_stats_callback ::
  "'h option \<Rightarrow> int \<Rightarrow> u32 \<Rightarrow> 'h blocks \<Rightarrow> int \<times> 'h blocks" where
  "register_stats_callback cb blk_id prio s0 =
     (let (rc, s) = if blocks_init s0 then (0, s0) else init_s_blocks s0 in
      if rc \<noteq> 0 then (EINVAL, s)
      else if cb = None then (EINVAL, s)
      else if blk_id < 0 \<or> blk_id \<ge> int MAX_STATS_BLOCKS_NUM then (EINVAL, s)
      else
        let new_node = \<lparr>callback_handler = cb, priority = prio\<rparr>;
            (rc, l) = stats_insert_node_on_blk new_node (blk_list s ! nat blk_id) in
        if rc \<noteq> 0 then (EINVAL, s)
        else (0, s\<lparr>blk_list := (blk_list s)[nat blk_id := l]\<rparr>))"

fun run_stats_handlers ::
  "'p option \<Rightarrow> int \<Rightarrow> ('p option \<Rightarrow> int \<Rightarrow> 'w \<Rightarrow> 'w) blk_list_node list \<Rightarrow> 'w \<Rightarrow> int \<times> 'w" where
  "run_stats_handlers sblk blk_id [] w = (0, w)"
| "run_stats_handlers sblk blk_id (n # ns) w =
     (case callback_handler n of
        None \<Rightarrow> (EINVAL, w)
      | Some cb \<Rightarrow> run_stats_handlers sblk blk_id ns (cb sblk blk_id w))"

definition execute_stats_block ::
  "'p option \<Rightarrow> int \<Rightarrow> ('p option \<Rightarrow> int \<Rightarrow> 'w \<Rightarrow> 'w) blocks \<Rightarrow> 'w \<Rightarrow>
     int \<times> ('p option \<Rightarrow> int \<Rightarrow> 'w \<Rightarrow> 'w) blocks \<times> 'w" where
  "execute_stats_block sblk blk_id s0 w =
     (let (rc, s) = if blocks_init s0 then (0, s0) else init_s_blocks s0 in
      if rc \<noteq> 0 then (EINVAL, s, w)
      else if blk_id < 0 \<or> blk_id \<ge> int MAX_STATS_BLOCKS_NUM then (EINVAL, s, w)
      else (case blk_list s ! nat blk_id of
              None \<Rightarrow> (EINVAL, s, w)
            | Some l \<Rightarrow> let (rc, w') = run_stats_handlers sblk blk_id l w in (rc, s, w')))"

section \<open>The contract of a set of blocks\<close>

text \<open>
  \<open>insert_after_le\<close> is the reference insertion: after every node of smaller or equal priority
  value.  Repeating it sorts stably.
\<close>

definition insert_after_le :: "('a \<Rightarrow> 'k :: linorder) \<Rightarrow> 'a \<Rightarrow> 'a list \<Rightarrow> 'a list" where
  "insert_after_le f x xs = takeWhile (\<lambda>y. f y \<le> f x) xs @ x # dropWhile (\<lambda>y. f y \<le> f x) xs"

lemma sorted_split_le:
  assumes "sorted (map f xs)"
  shows "takeWhile (\<lambda>y. f y \<le> k) xs = filter (\<lambda>y. f y \<le> k) xs"
    and "dropWhile (\<lambda>y. f y \<le> k) xs = filter (\<lambda>y. \<not> f y \<le> k) xs"
proof -
  show take: "takeWhile (\<lambda>y. f y \<le> k) xs = filter (\<lambda>y. f y \<le> k) xs"
    using assms by (rule filter_takeWhile_sorted)
  show "dropWhile (\<lambda>y. f y \<le> k) xs = filter (\<lambda>y. \<not> f y \<le> k) xs"
    using assms
  proof (induction xs)
    case (Cons y ys)
    have "filter (\<lambda>y. \<not> f y \<le> k) ys = ys" if "\<not> f y \<le> k"
      using Cons.prems that by (auto simp: filter_id_conv)
    with Cons show ?case by auto
  qed simp
qed

lemma sorted_insert_after_le:
  assumes "sorted (map f xs)"
  shows "sorted (map f (insert_after_le f x xs))"
  using assms
  by (auto simp: insert_after_le_def sorted_split_le [OF assms] sorted_append sorted_filter)

lemma filter_split_key:
  "filter (\<lambda>y. k = f y \<and> f y \<le> m) ys @ filter (\<lambda>y. k = f y \<and> \<not> f y \<le> (m :: 'k :: linorder)) ys =
     filter (\<lambda>y. k = f y) ys"
proof -
  have "filter (\<lambda>y. k = f y \<and> f y \<le> m) ys = (if k \<le> m then filter (\<lambda>y. k = f y) ys else [])"
    "filter (\<lambda>y. k = f y \<and> \<not> f y \<le> m) ys = (if k \<le> m then [] else filter (\<lambda>y. k = f y) ys)"
    by (auto intro!: filter_cong simp: filter_empty_conv)
  then show ?thesis by simp
qed

lemma sort_key_snoc: "sort_key f (xs @ [x]) = insert_after_le f x (sort_key f xs)"
proof (rule properties_for_sort_key)
  let ?ys = "sort_key f xs"
  have sorted: "sorted (map f ?ys)" by simp
  show "mset (insert_after_le f x ?ys) = mset (xs @ [x])"
    by (simp add: insert_after_le_def sorted_split_le [OF sorted])
  show "sorted (map f (insert_after_le f x ?ys))"
    by (rule sorted_insert_after_le [OF sorted])
  show "filter (\<lambda>y. f k = f y) (insert_after_le f x ?ys) = filter (\<lambda>y. f k = f y) (xs @ [x])" for k
  proof -
    have "filter (\<lambda>y. f k = f y) ?ys = filter (\<lambda>y. f k = f y) xs"
      by (simp add: sort_key_stable eq_commute [of "f k"])
    moreover have "filter (\<lambda>y. f k = f y \<and> f y \<le> f x) ?ys @ filter (\<lambda>y. f k = f y \<and> \<not> f y \<le> f x) ?ys
        = filter (\<lambda>y. f k = f y) ?ys"
      by (rule filter_split_key)
    ultimately show ?thesis
      by (auto simp: insert_after_le_def sorted_split_le [OF sorted] filter_empty_conv conj_commute)
  qed
qed

locale priority_blocks =
  fixes n_blocks :: nat
    and boot :: "'s"
    and register :: "'h option \<Rightarrow> int \<Rightarrow> u32 \<Rightarrow> 's \<Rightarrow> int \<times> 's"
    and handlers :: "'s \<Rightarrow> int \<Rightarrow> ('h \<times> u32) list"
    and invar :: "'s \<Rightarrow> bool"
  assumes invar_boot: "invar boot"
    and handlers_boot: "handlers boot b = []"
    and register_ok: "invar s \<Longrightarrow> 0 \<le> b \<Longrightarrow> b < int n_blocks \<Longrightarrow>
          fst (register (Some h) b p s) = 0 \<and> invar (snd (register (Some h) b p s)) \<and>
          (\<forall>c. 0 \<le> c \<and> c < int n_blocks \<longrightarrow> handlers (snd (register (Some h) b p s)) c =
             (if c = b then insert_after_le snd (h, p) (handlers s b) else handlers s c))"
    and register_err: "invar s \<Longrightarrow> cb = None \<or> b < 0 \<or> b \<ge> int n_blocks \<Longrightarrow>
          fst (register cb b p s) = EINVAL \<and> invar (snd (register cb b p s)) \<and>
          (\<forall>c. 0 \<le> c \<and> c < int n_blocks \<longrightarrow> handlers (snd (register cb b p s)) c = handlers s c)"
begin

lemma invar_register: "invar s \<Longrightarrow> invar (snd (register cb b p s))"
  using register_ok [of s b] register_err [of s cb b p] by (cases cb) (meson linorder_not_le)+

lemma handlers_register_all:
  assumes "0 \<le> c" "c < int n_blocks"
  shows "invar (foldl (\<lambda>s (cb, b, p). snd (register cb b p s)) boot rs) \<and>
    handlers (foldl (\<lambda>s (cb, b, p). snd (register cb b p s)) boot rs) c =
      sort_key snd [(h, p). (Some h, b, p) \<leftarrow> rs, b = c]"
proof (induction rs rule: rev_induct)
  case Nil
  show ?case by (simp add: invar_boot handlers_boot)
next
  case (snoc r rs)
  obtain cb b p where r: "r = (cb, b, p)" by (cases r)
  let ?s = "foldl (\<lambda>s (cb, b, p). snd (register cb b p s)) boot rs"
  show ?case
  proof (cases "cb = None \<or> b < 0 \<or> b \<ge> int n_blocks")
    case True
    with register_err [of ?s cb b p] snoc assms show ?thesis by (auto simp: r split: option.split)
  next
    case False
    then obtain h where "cb = Some h" by auto
    with False register_ok [of ?s b h p] snoc assms show ?thesis
      by (auto simp: r sort_key_snoc)
  qed
qed

end

locale executable_blocks = priority_blocks n_blocks boot register handlers invar
  for n_blocks :: nat and boot :: "'s" and register :: "'h option \<Rightarrow> int \<Rightarrow> u32 \<Rightarrow> 's \<Rightarrow> int \<times> 's"
    and handlers :: "'s \<Rightarrow> int \<Rightarrow> ('h \<times> u32) list" and invar :: "'s \<Rightarrow> bool" +
  fixes execute :: "int \<Rightarrow> 's \<Rightarrow> 'w \<Rightarrow> int \<times> 's \<times> 'w"
    and call :: "int \<Rightarrow> 'h \<Rightarrow> 'w \<Rightarrow> 'w"
  assumes execute_ok: "invar s \<Longrightarrow> 0 \<le> b \<Longrightarrow> b < int n_blocks \<Longrightarrow>
      fst (execute b s w) = 0 \<and>
      snd (snd (execute b s w)) = fold (\<lambda>(h, p). call b h) (handlers s b) w \<and>
      invar (fst (snd (execute b s w))) \<and>
      (\<forall>c. 0 \<le> c \<and> c < int n_blocks \<longrightarrow> handlers (fst (snd (execute b s w))) c = handlers s c)"
begin

lemma execute_after_registrations:
  assumes "0 \<le> b" "b < int n_blocks"
    and "s = foldl (\<lambda>s (cb, b, p). snd (register cb b p s)) boot rs"
  shows "fst (execute b s w) = 0 \<and>
    snd (snd (execute b s w)) = fold (\<lambda>(h, p). call b h) (sort_key snd [(h, p). (Some h, c, p) \<leftarrow> rs, c = b]) w"
  using execute_ok [of s b w] handlers_register_all [OF assms(1,2), of rs] assms by simp

end

section \<open>The three files meet the contract\<close>

definition blk_ok :: "'h blk_list_node list option \<Rightarrow> bool" where
  "blk_ok l = (case l of
      None \<Rightarrow> False
    | Some ns \<Rightarrow> sorted (map priority ns) \<and> (\<forall>x\<in>set ns. callback_handler x \<noteq> None))"

definition blocks_wf :: "nat \<Rightarrow> 'h blocks \<Rightarrow> bool" where
  "blocks_wf n s \<longleftrightarrow> (blocks_init s \<longrightarrow> length (blk_list s) = n \<and> (\<forall>l\<in>set (blk_list s). blk_ok l))"

definition node_entry :: "'h blk_list_node \<Rightarrow> 'h \<times> u32" where
  "node_entry x = (the (callback_handler x), priority x)"

definition blk_handlers :: "'h blocks \<Rightarrow> int \<Rightarrow> ('h \<times> u32) list" where
  "blk_handlers s b =
     (if blocks_init s then (case blk_list s ! nat b of None \<Rightarrow> [] | Some l \<Rightarrow> map node_entry l) else [])"

lemma insert_node_variants:
  "run_insert_node_on_blk = insert_node_on_blk" "stats_insert_node_on_blk = insert_node_on_blk"
  by (rule ext, rule ext, simp add: run_insert_node_on_blk_def insert_node_on_blk_def stats_insert_node_on_blk_def)+

lemma list_insert_before_sorted:
  assumes "sorted (map priority l)" "\<exists>x\<in>set l. priority x > priority new"
  shows "list_insert_before new l = Some (insert_after_le priority new l)"
  using assms by (induction l) (auto simp: insert_after_le_def not_less)

lemma insert_node_sorted:
  assumes "sorted (map priority l)"
  shows "insert_node_on_blk new (Some l) = (0, Some (insert_after_le priority new l))"
proof (cases "l = [] \<or> priority new \<ge> priority (last l)")
  case True
  have "\<forall>x\<in>set l. priority x \<le> priority new" if "l \<noteq> []"
    using assms True that by (cases l rule: rev_cases) (auto simp: sorted_append)
  then have "insert_after_le priority new l = l @ [new]"
    by (cases "l = []") (auto simp: insert_after_le_def)
  with True show ?thesis by (auto simp: insert_node_on_blk_def)
next
  case False
  then have "last l \<in> set l" "priority (last l) > priority new" by auto
  then have "list_insert_before new l = Some (insert_after_le priority new l)"
    using assms by (intro list_insert_before_sorted) auto
  with False show ?thesis by (auto simp: insert_node_on_blk_def)
qed

lemma node_entry_insert:
  "map node_entry (insert_after_le priority x l) = insert_after_le snd (node_entry x) (map node_entry l)"
  by (simp add: insert_after_le_def takeWhile_map dropWhile_map node_entry_def comp_def)

lemma blk_ok_insert:
  "blk_ok (Some l) \<Longrightarrow> callback_handler x \<noteq> None \<Longrightarrow> blk_ok (Some (insert_after_le priority x l))"
  by (auto simp: blk_ok_def sorted_insert_after_le)
    (auto simp: insert_after_le_def dest: set_takeWhileD set_dropWhileD)

lemma blocks_wf_nth:
  assumes "blocks_wf n s" "blocks_init s" "0 \<le> b" "b < int n"
  obtains l where "blk_list s ! nat b = Some l" "sorted (map priority l)"
    "\<forall>x\<in>set l. callback_handler x \<noteq> None" "nat b < length (blk_list s)" "blk_ok (Some l)"
proof -
  from assms have len: "nat b < length (blk_list s)" by (auto simp: blocks_wf_def)
  then have "blk_ok (blk_list s ! nat b)" using assms by (auto simp: blocks_wf_def)
  with len that show ?thesis by (auto simp: blk_ok_def split: option.splits)
qed

text \<open>What a registration does once the lists exist, in terms of the reference insertion.\<close>

lemma blocks_insert:
  assumes "blocks_wf n s" "blocks_init s" "0 \<le> b" "b < int n" "x = \<lparr>callback_handler = Some h, priority = p\<rparr>"
  obtains l where "blk_list s ! nat b = Some l"
    and "insert_node_on_blk x (Some l) = (0, Some (insert_after_le priority x l))"
    and "blocks_wf n (s\<lparr>blk_list := (blk_list s)[nat b := Some (insert_after_le priority x l)]\<rparr>)"
    and "\<And>c. 0 \<le> c \<Longrightarrow> c < int n \<Longrightarrow>
      blk_handlers (s\<lparr>blk_list := (blk_list s)[nat b := Some (insert_after_le priority x l)]\<rparr>) c =
        (if c = b then insert_after_le snd (h, p) (blk_handlers s b) else blk_handlers s c)"
proof -
  obtain l where l: "blk_list s ! nat b = Some l" "sorted (map priority l)" "nat b < length (blk_list s)"
    "blk_ok (Some l)" using assms blocks_wf_nth by metis
  show ?thesis
  proof (rule that [OF l(1) insert_node_sorted [OF l(2)]])
    let ?s = "s\<lparr>blk_list := (blk_list s)[nat b := Some (insert_after_le priority x l)]\<rparr>"
    show "blocks_wf n ?s"
      using assms l by (auto simp: blocks_wf_def intro!: blk_ok_insert dest!: set_update_subset_insert [THEN subsetD])
    show "blk_handlers ?s c =
        (if c = b then insert_after_le snd (h, p) (blk_handlers s b) else blk_handlers s c)"
      if "0 \<le> c" "c < int n" for c
      using assms l that
      by (auto simp: blk_handlers_def node_entry_insert nth_list_update)
        (simp add: node_entry_def)
  qed
qed

lemma blocks_wf_init:
  assumes "blk_list s = replicate n (Some [])" "blocks_init s"
  shows "blocks_wf n s" "0 \<le> c \<Longrightarrow> c < int n \<Longrightarrow> blk_handlers s c = []"
  using assms by (auto simp: blocks_wf_def blk_ok_def blk_handlers_def)

text \<open>The state a call starts from: the lists are created on the first call of any entry point.\<close>

definition ensure_init :: "nat \<Rightarrow> 'h blocks \<Rightarrow> 'h blocks" where
  "ensure_init n s = (if blocks_init s then s else s\<lparr>blk_list := replicate n (Some []), blocks_init := True\<rparr>)"

lemma ensure_init_ok:
  assumes "blocks_wf n s"
  shows "blocks_wf n (ensure_init n s)" "blocks_init (ensure_init n s)"
    "0 \<le> c \<Longrightarrow> c < int n \<Longrightarrow> blk_handlers (ensure_init n s) c = blk_handlers s c"
  using assms blocks_wf_init [of "ensure_init n s" n]
  by (auto simp: ensure_init_def blk_handlers_def)

lemma handlers_fold:
  assumes "\<forall>x\<in>set l. callback_handler x \<noteq> None"
  shows "run_reconfigure_handlers p l w = (0, fold (\<lambda>(h, _). h p) (map node_entry l) w)"
    and "run_run_handlers p l w = (0, fold (\<lambda>(h, _). h p) (map node_entry l) w)"
  using assms by (induction l arbitrary: w) (auto simp: node_entry_def)

lemma stats_handlers_fold:
  assumes "\<forall>x\<in>set l. callback_handler x \<noteq> None"
  shows "run_stats_handlers sp b l w = (0, fold (\<lambda>(h, _). h sp b) (map node_entry l) w)"
  using assms by (induction l arbitrary: w) (auto simp: node_entry_def)

text \<open>Each register function, as one equation over \<open>ensure_init\<close> and the shared insertion.\<close>

definition register_spec :: "nat \<Rightarrow> 'h option \<Rightarrow> int \<Rightarrow> u32 \<Rightarrow> 'h blocks \<Rightarrow> int \<times> 'h blocks" where
  "register_spec n cb b p s0 =
     (let s = ensure_init n s0 in
      if cb = None \<or> b < 0 \<or> b \<ge> int n then (EINVAL, s)
      else let (rc, l) = insert_node_on_blk \<lparr>callback_handler = cb, priority = p\<rparr> (blk_list s ! nat b) in
        if rc \<noteq> 0 then (EINVAL, s) else (0, s\<lparr>blk_list := (blk_list s)[nat b := l]\<rparr>))"

lemma register_eqs:
  "register_reconfigure_callback = register_spec MAX_BLOCKS_NUM"
  "register_run_callback = register_spec MAX_RUN_BLOCKS_NUM"
  "register_stats_callback = register_spec MAX_STATS_BLOCKS_NUM"
  by (intro ext; simp add: register_reconfigure_callback_def register_run_callback_def
      register_stats_callback_def register_spec_def init_reconfigure_blocks_def init_r_blocks_def
      init_s_blocks_def ensure_init_def insert_node_variants Let_def)+

lemma register_spec_ok:
  assumes "blocks_wf n s" "0 \<le> b" "b < int n"
  shows "fst (register_spec n (Some h) b p s) = 0 \<and> blocks_wf n (snd (register_spec n (Some h) b p s)) \<and>
    (\<forall>c. 0 \<le> c \<and> c < int n \<longrightarrow> blk_handlers (snd (register_spec n (Some h) b p s)) c =
       (if c = b then insert_after_le snd (h, p) (blk_handlers s b) else blk_handlers s c))"
proof -
  note ei = ensure_init_ok [OF assms(1)]
  show ?thesis
    using assms ei(3)
    by (rule_tac blocks_insert [OF ei(1,2) assms(2,3) refl, of h p])
      (auto simp: register_spec_def Let_def)
qed

lemma register_spec_contract:
  "priority_blocks n blocks_boot (register_spec n) blk_handlers (blocks_wf n)"
proof unfold_locales
  show "blocks_wf n blocks_boot" "blk_handlers blocks_boot b = []" for b
    by (auto simp: blocks_wf_def blocks_boot_def blk_handlers_def)
  show "fst (register_spec n (Some h) b p s) = 0 \<and> blocks_wf n (snd (register_spec n (Some h) b p s)) \<and>
      (\<forall>c. 0 \<le> c \<and> c < int n \<longrightarrow> blk_handlers (snd (register_spec n (Some h) b p s)) c =
        (if c = b then insert_after_le snd (h, p) (blk_handlers s b) else blk_handlers s c))"
    if "blocks_wf n s" "0 \<le> b" "b < int n" for s :: "'a blocks" and b h p
    using that by (rule register_spec_ok)
  show "fst (register_spec n cb b p s) = EINVAL \<and> blocks_wf n (snd (register_spec n cb b p s)) \<and>
      (\<forall>c. 0 \<le> c \<and> c < int n \<longrightarrow> blk_handlers (snd (register_spec n cb b p s)) c = blk_handlers s c)"
    if "blocks_wf n s" "cb = None \<or> b < 0 \<or> b \<ge> int n" for s :: "'a blocks" and cb b p
    using that by (simp add: register_spec_def ensure_init_ok)
qed

text \<open>Likewise the execute functions, over the loop that calls the handlers.\<close>

definition execute_spec ::
  "nat \<Rightarrow> bool \<Rightarrow> ('h blk_list_node list \<Rightarrow> 'w \<Rightarrow> int \<times> 'w) \<Rightarrow> int \<Rightarrow> 'h blocks \<Rightarrow> 'w \<Rightarrow> int \<times> 'h blocks \<times> 'w" where
  "execute_spec n params_ok run b s0 w =
     (let s = ensure_init n s0 in
      if \<not> params_ok \<or> b < 0 \<or> b \<ge> int n then (EINVAL, s, w)
      else case blk_list s ! nat b of
        None \<Rightarrow> (EINVAL, s, w)
      | Some l \<Rightarrow> let (rc, w') = run l w in (rc, s, w'))"

lemma execute_eqs:
  "execute_reconfigure_block params b s w =
     execute_spec MAX_BLOCKS_NUM (params \<noteq> None) (run_reconfigure_handlers (the params)) b s w"
  "execute_run_block rparams b rs rw =
     execute_spec MAX_RUN_BLOCKS_NUM (rparams \<noteq> None) (run_run_handlers (the rparams)) b rs rw"
  "execute_stats_block sblk b ss sw =
     execute_spec MAX_STATS_BLOCKS_NUM True (run_stats_handlers sblk b) b ss sw"
  by (auto simp: execute_reconfigure_block_def execute_run_block_def execute_stats_block_def
      execute_spec_def init_reconfigure_blocks_def init_r_blocks_def init_s_blocks_def
      ensure_init_def Let_def split: option.split)

lemma execute_spec_ok:
  assumes "blocks_wf n s" "0 \<le> b" "b < int n"
    and run: "\<And>l w. \<forall>x\<in>set l. callback_handler x \<noteq> None \<Longrightarrow>
      run l w = (0, fold (\<lambda>(h, _). call h) (map node_entry l) w)"
  shows "execute_spec n True run b s w =
    (0, ensure_init n s, fold (\<lambda>(h, _). call h) (blk_handlers s b) w)"
proof -
  note ei = ensure_init_ok [OF assms(1)]
  obtain l where l: "blk_list (ensure_init n s) ! nat b = Some l" "\<forall>x\<in>set l. callback_handler x \<noteq> None"
    using blocks_wf_nth [OF ei(1,2) assms(2,3)] by metis
  have "blk_handlers s b = map node_entry l"
    using ei(2) ei(3) [OF assms(2,3)] l(1) by (simp add: blk_handlers_def)
  with l assms(2,3) run [OF l(2)] show ?thesis by (simp add: execute_spec_def Let_def)
qed

interpretation reconfigure: executable_blocks MAX_BLOCKS_NUM blocks_boot register_reconfigure_callback
  blk_handlers "blocks_wf MAX_BLOCKS_NUM" "execute_reconfigure_block (Some params)" "\<lambda>b h. h params"
  for params
  by (intro executable_blocks.intro executable_blocks_axioms.intro,
      simp only: register_eqs register_spec_contract,
      simp add: execute_eqs execute_spec_ok handlers_fold ensure_init_ok)

interpretation run: executable_blocks MAX_RUN_BLOCKS_NUM blocks_boot register_run_callback
  blk_handlers "blocks_wf MAX_RUN_BLOCKS_NUM" "execute_run_block (Some params)" "\<lambda>b h. h params"
  for params
  by (intro executable_blocks.intro executable_blocks_axioms.intro,
      simp only: register_eqs register_spec_contract,
      simp add: execute_eqs execute_spec_ok handlers_fold ensure_init_ok)

interpretation stats: executable_blocks MAX_STATS_BLOCKS_NUM blocks_boot register_stats_callback
  blk_handlers "blocks_wf MAX_STATS_BLOCKS_NUM" "execute_stats_block sblk" "\<lambda>b h. h sblk b"
  for sblk
  by (intro executable_blocks.intro executable_blocks_axioms.intro,
      simp only: register_eqs register_spec_contract,
      simp add: execute_eqs execute_spec_ok stats_handlers_fold ensure_init_ok)

section \<open>Properties\<close>

text \<open>
  C12: After any sequence of registrations, good and bad ones mixed, executing a reconfigure block
  succeeds and calls exactly the callbacks registered for that block, in ascending order of
  priority value and in order of registration among equal priorities.
\<close>

theorem reconfigure_block_order:
  assumes "0 \<le> b" "b < int MAX_BLOCKS_NUM"
    and "s = foldl (\<lambda>s (cb, b, p). snd (register_reconfigure_callback cb b p s)) blocks_boot rs"
  shows "fst (execute_reconfigure_block (Some params) b s w) = 0 \<and>
    snd (snd (execute_reconfigure_block (Some params) b s w)) =
      fold (\<lambda>(h, p). h params) (sort_key snd [(h, p). (Some h, c, p) \<leftarrow> rs, c = b]) w"
  using assms by (rule reconfigure.execute_after_registrations)

definition sample_handler :: "nat \<Rightarrow> nat \<Rightarrow> nat list \<Rightarrow> nat list" where
  "sample_handler tag params w = w @ [tag + params]"

theorem reconfigure_block_order_witness:
  "snd (snd (execute_reconfigure_block (Some 100) 2
     (foldl (\<lambda>s (cb, b, p). snd (register_reconfigure_callback cb b p s)) blocks_boot
       [(Some (sample_handler 1), 2, 5), (Some (sample_handler 2), 2, 3), (None, 2, 0),
        (Some (sample_handler 3), 4, 0), (Some (sample_handler 4), 2, 5), (Some (sample_handler 5), 13, 0)]) []))
   = [102, 101, 104]"
  using reconfigure_block_order [where b = 2 and params = 100 and w = "[]", OF _ _ refl,
      where rs = "[(Some (sample_handler 1), 2, 5), (Some (sample_handler 2), 2, 3), (None, 2, 0),
        (Some (sample_handler 3), 4, 0), (Some (sample_handler 4), 2, 5), (Some (sample_handler 5), 13, 0)]"]
  by (simp add: MAX_BLOCKS_NUM_def sample_handler_def)

text \<open>
  The same for the run blocks.
\<close>

theorem run_block_order:
  assumes "0 \<le> b" "b < int MAX_RUN_BLOCKS_NUM"
    and "s = foldl (\<lambda>s (cb, b, p). snd (register_run_callback cb b p s)) blocks_boot rs"
  shows "fst (execute_run_block (Some params) b s w) = 0 \<and>
    snd (snd (execute_run_block (Some params) b s w)) =
      fold (\<lambda>(h, p). h params) (sort_key snd [(h, p). (Some h, c, p) \<leftarrow> rs, c = b]) w"
  using assms by (rule run.execute_after_registrations)

theorem run_block_order_witness:
  "snd (snd (execute_run_block (Some 100) 1
     (foldl (\<lambda>s (cb, b, p). snd (register_run_callback cb b p s)) blocks_boot
       [(Some (sample_handler 1), 1, NO_PRIORITY), (Some (sample_handler 2), 1, 0), (Some (sample_handler 3), 3, 0)]) []))
   = [102, 101]"
  using run_block_order [where b = 1 and params = 100 and w = "[]", OF _ _ refl,
      where rs = "[(Some (sample_handler 1), 1, NO_PRIORITY), (Some (sample_handler 2), 1, 0),
        (Some (sample_handler 3), 3, 0)]"]
  by (simp add: MAX_RUN_BLOCKS_NUM_def sample_handler_def NO_PRIORITY_def)

text \<open>
  The same for the stats blocks, whose callbacks also receive the block id and the
  unchecked parameter pointer.
\<close>

theorem stats_block_order:
  assumes "0 \<le> b" "b < int MAX_STATS_BLOCKS_NUM"
    and "s = foldl (\<lambda>s (cb, b, p). snd (register_stats_callback cb b p s)) blocks_boot rs"
  shows "fst (execute_stats_block sblk b s w) = 0 \<and>
    snd (snd (execute_stats_block sblk b s w)) =
      fold (\<lambda>(h, p). h sblk b) (sort_key snd [(h, p). (Some h, c, p) \<leftarrow> rs, c = b]) w"
  using assms by (rule stats.execute_after_registrations)

definition sample_stats_handler :: "nat \<Rightarrow> unit option \<Rightarrow> int \<Rightarrow> int list \<Rightarrow> int list" where
  "sample_stats_handler tag sblk blk_id w = w @ [int tag + blk_id]"

theorem stats_block_order_witness:
  "snd (snd (execute_stats_block None 13
     (foldl (\<lambda>s (cb, b, p). snd (register_stats_callback cb b p s)) blocks_boot
       [(Some (sample_stats_handler 1), 13, 7), (Some (sample_stats_handler 2), 13, 6)]) []))
   = [15, 14]"
  using stats_block_order [where b = 13 and sblk = None and w = "[]", OF _ _ refl,
      where rs = "[(Some (sample_stats_handler 1), 13, 7), (Some (sample_stats_handler 2), 13, 6)]"]
  by (simp add: MAX_STATS_BLOCKS_NUM_def sample_stats_handler_def)

text \<open>
  A registration with a NULL callback or a block id outside the enumeration, and an execution
  with NULL parameters or such a block id, return EINVAL; no list of callbacks changes, the lists
  stay sorted and no callback runs.
\<close>

theorem reconfigure_bad_arguments:
  assumes "blocks_wf MAX_BLOCKS_NUM s" "cb = None \<or> b < 0 \<or> b \<ge> int MAX_BLOCKS_NUM"
    "params = None \<or> e < 0 \<or> e \<ge> int MAX_BLOCKS_NUM" "0 \<le> c" "c < int MAX_BLOCKS_NUM"
  shows "fst (register_reconfigure_callback cb b p s) = EINVAL \<and>
    blocks_wf MAX_BLOCKS_NUM (snd (register_reconfigure_callback cb b p s)) \<and>
    blk_handlers (snd (register_reconfigure_callback cb b p s)) c = blk_handlers s c \<and>
    fst (execute_reconfigure_block params e s w) = EINVAL \<and>
    blk_handlers (fst (snd (execute_reconfigure_block params e s w))) c = blk_handlers s c \<and>
    snd (snd (execute_reconfigure_block params e s w)) = w"
  using assms reconfigure.register_err [OF assms(1,2), of p]
  by (auto simp: execute_eqs execute_spec_def ensure_init_ok)

theorem reconfigure_bad_arguments_witness:
  "fst (register_reconfigure_callback (None :: (nat \<Rightarrow> nat list \<Rightarrow> nat list) option) 2 7 blocks_boot) = EINVAL"
  using reconfigure_bad_arguments [OF reconfigure.invar_boot, where cb = "None :: (nat \<Rightarrow> nat list \<Rightarrow> nat list) option"
      and b = 2 and params = None and e = 13 and c = 0 and p = 7 and w = "[]"]
  by (simp add: MAX_BLOCKS_NUM_def)

end
