(* ===== verification/Plugin_Extensions.thy ===== *)
theory Plugin_Extensions
  imports Prelude
begin

text \<open>
  The extension registry of plugins/plugin-extensions.c: a plugin publishes an interface under a
  name with a major and a minor version, and its clients ask for it by name and version.  The two
  file-scope variables \<open>init_done\<close> and \<open>sh_extensions\<close> are the record \<open>extensions\<close>.

  \<open>one\<close> is the value \<open>shash_init\<close> leaves in \<open>sh_extensions.map.one\<close>, which the code tests; the
  hash map of the base library documents it to be zero, and the properties that need this say so.
\<close>

record 'i plugin_extension_interface =
  plugin_name :: string
  major :: int
  minor :: int
  plugin_interface :: "'i option"

record 'i extensions =
  init_done :: bool
  sh_extensions :: "'i plugin_extension_interface shash"

definition extensions_boot :: "'i extensions" where
  "extensions_boot = \<lparr>init_done = False, sh_extensions = []\<rparr>"

section \<open>Operations\<close>

definition plugin_extensions_init :: "u64 \<Rightarrow> 'i extensions \<Rightarrow> int \<times> 'i extensions" where
  "plugin_extensions_init one s =
     (if init_done s then (0, s)
      else let s = s\<lparr>sh_extensions := []\<rparr> in
        if one \<noteq> 0 then (EPERM, s)
        else (0, s\<lparr>init_done := True\<rparr>))"

definition register_plugin_extension ::
  "u64 \<Rightarrow> 'i plugin_extension_interface option \<Rightarrow> 'i extensions \<Rightarrow> int \<times> 'i extensions" where
  "register_plugin_extension one new_extension s0 =
     (let (rc, s) = plugin_extensions_init one s0 in
      if rc \<noteq> 0 then (EINVAL, s)
      else case new_extension of
        None \<Rightarrow> (EINVAL, s)
      | Some new \<Rightarrow>
          (case shash_find_data (sh_extensions s) (plugin_name new) of
             None \<Rightarrow>
               let extension = \<lparr>plugin_name = plugin_name new, major = major new, minor = minor new,
                                plugin_interface = plugin_interface new\<rparr>;
                   (added, sh) = shash_add_once (sh_extensions s) (plugin_name new) extension in
               if \<not> added then (EINVAL, s) else (0, s\<lparr>sh_extensions := sh\<rparr>)
           | Some _ \<Rightarrow> (EINVAL, s)))"

definition unregister_plugin_extension :: "u64 \<Rightarrow> string \<Rightarrow> 'i extensions \<Rightarrow> int \<times> 'i extensions" where
  "unregister_plugin_extension one name s0 =
     (let (rc, s) = plugin_extensions_init one s0 in
      if rc \<noteq> 0 then (EINVAL, s)
      else case shash_find_data (sh_extensions s) name of
        None \<Rightarrow> (EINVAL, s)
      | Some _ \<Rightarrow>
          let (deleted, sh) = shash_find_and_delete (sh_extensions s) name in
          if deleted = None then (EINVAL, s) else (0, s\<lparr>sh_extensions := sh\<rparr>))"

text \<open>The result carries the value the code stores in \<open>*plugin_interface\<close>.\<close>

definition find_plugin_extension ::
  "u64 \<Rightarrow> string \<Rightarrow> int \<Rightarrow> int \<Rightarrow> 'i extensions \<Rightarrow>
     (int \<times> 'i plugin_extension_interface option) \<times> 'i extensions" where
  "find_plugin_extension one name req_major req_minor s0 =
     (let (rc, s) = plugin_extensions_init one s0 in
      if rc \<noteq> 0 then ((EINVAL, None), s)
      else case shash_find_data (sh_extensions s) name of
        None \<Rightarrow> ((EINVAL, None), s)
      | Some extension \<Rightarrow>
          if req_major \<noteq> major extension then ((EINVAL, None), s)
          else if req_minor > minor extension then ((EINVAL, None), s)
          else ((0, Some extension), s))"

section \<open>The contract of a registry\<close>

text \<open>
  \<open>published\<close> is the abstract state: which extension, if any, is published under a name.  The
  locale states each operation as an update of it.
\<close>

locale extension_registry =
  fixes register :: "'i plugin_extension_interface option \<Rightarrow> 's \<Rightarrow> int \<times> 's"
    and unregister :: "string \<Rightarrow> 's \<Rightarrow> int \<times> 's"
    and find :: "string \<Rightarrow> int \<Rightarrow> int \<Rightarrow> 's \<Rightarrow> (int \<times> 'i plugin_extension_interface option) \<times> 's"
    and published :: "'s \<Rightarrow> string \<rightharpoonup> 'i plugin_extension_interface"
    and invar :: "'s \<Rightarrow> bool"
  assumes register_new: "invar s \<Longrightarrow> published s (plugin_name e) = None \<Longrightarrow>
        fst (register (Some e) s) = 0 \<and> invar (snd (register (Some e) s)) \<and>
        published (snd (register (Some e) s)) = (published s)(plugin_name e \<mapsto> e)"
    and register_dup: "invar s \<Longrightarrow> published s (plugin_name e) \<noteq> None \<Longrightarrow>
        fst (register (Some e) s) = EINVAL \<and> invar (snd (register (Some e) s)) \<and>
        published (snd (register (Some e) s)) = published s"
    and register_null: "invar s \<Longrightarrow>
        fst (register None s) = EINVAL \<and> invar (snd (register None s)) \<and>
        published (snd (register None s)) = published s"
    and unregister: "invar s \<Longrightarrow>
        fst (unregister k s) = (if published s k = None then EINVAL else 0) \<and>
        invar (snd (unregister k s)) \<and>
        published (snd (unregister k s)) = (published s)(k := None)"
    and find: "invar s \<Longrightarrow> published (snd (find k ma mi s)) = published s \<and>
        invar (snd (find k ma mi s)) \<and>
        fst (find k ma mi s) =
          (case published s k of
             None \<Rightarrow> (EINVAL, None)
           | Some e \<Rightarrow> if ma = major e \<and> mi \<le> minor e then (0, Some e) else (EINVAL, None))"
    and published_name: "invar s \<Longrightarrow> published s k = Some e \<Longrightarrow> plugin_name e = k"
begin

lemma register_find:
  assumes "invar s" "published s (plugin_name e) = None"
  shows "fst (find (plugin_name e) ma mi (snd (register (Some e) s))) =
    (if ma = major e \<and> mi \<le> minor e then (0, Some e) else (EINVAL, None))"
  using register_new [OF assms] find [of "snd (register (Some e) s)" "plugin_name e" ma mi] by auto

lemma unregister_find:
  assumes "invar s"
  shows "fst (find k ma mi (snd (unregister k s))) = (EINVAL, None)"
  using unregister [OF assms, of k] find [of "snd (unregister k s)" k ma mi] by simp

lemma others_untouched:
  assumes "invar s" "k \<noteq> plugin_name e"
  shows "fst (find k ma mi (snd (register (Some e) s))) = fst (find k ma mi s)"
    and "fst (find k ma mi (snd (unregister (plugin_name e) s))) = fst (find k ma mi s)"
  using assms register_new [OF assms(1), of e] register_dup [OF assms(1), of e]
    unregister [OF assms(1), of "plugin_name e"] find [OF assms(1), of k ma mi]
    find [of "snd (register (Some e) s)" k ma mi] find [of "snd (unregister (plugin_name e) s)" k ma mi]
  by (cases "published s (plugin_name e)"; auto)+

lemma register_unregister:
  assumes "invar s" "published s (plugin_name e) = None"
  shows "published (snd (unregister (plugin_name e) (snd (register (Some e) s)))) = published s"
  using assms register_new [OF assms] unregister by (simp add: fun_upd_idem)

end

section \<open>The registry meets the contract\<close>

definition extensions_wf :: "'i extensions \<Rightarrow> bool" where
  "extensions_wf s \<longleftrightarrow> (init_done s \<longrightarrow>
     shash_wf (sh_extensions s) \<and> (\<forall>(k, e)\<in>set (sh_extensions s). plugin_name e = k))"

definition published :: "'i extensions \<Rightarrow> string \<rightharpoonup> 'i plugin_extension_interface" where
  "published s k = (if init_done s then shash_find_data (sh_extensions s) k else None)"

lemma published_init: "init_done s \<Longrightarrow> published s = shash_find_data (sh_extensions s)"
  by (simp add: published_def fun_eq_iff)

lemma plugin_extensions_init_ok:
  assumes "one = 0"
  obtains s' where "plugin_extensions_init one s = (0, s')" "init_done s'"
    "shash_find_data (sh_extensions s') = published s" "extensions_wf s \<Longrightarrow> extensions_wf s'"
proof (rule that)
  let ?s = "if init_done s then s else s\<lparr>sh_extensions := [], init_done := True\<rparr>"
  show "plugin_extensions_init one s = (0, ?s)" using assms by (auto simp: plugin_extensions_init_def)
qed (auto simp: published_def fun_eq_iff container_simps extensions_wf_def shash_wf_def)

lemma extensions_wf_add:
  assumes "extensions_wf s" "init_done s" "shash_find_data (sh_extensions s) (plugin_name e) = None"
  shows "fst (shash_add_once (sh_extensions s) (plugin_name e) e)"
    and "extensions_wf (s\<lparr>sh_extensions := snd (shash_add_once (sh_extensions s) (plugin_name e) e)\<rparr>)"
    and "shash_find_data (snd (shash_add_once (sh_extensions s) (plugin_name e) e)) =
          (shash_find_data (sh_extensions s))(plugin_name e \<mapsto> e)"
proof -
  from assms have wf: "shash_wf (sh_extensions s)" by (simp add: extensions_wf_def)
  note add = sh.add_once_fresh [OF wf assms(3), of e]
  then show "fst (shash_add_once (sh_extensions s) (plugin_name e) e)"
    "shash_find_data (snd (shash_add_once (sh_extensions s) (plugin_name e) e)) =
          (shash_find_data (sh_extensions s))(plugin_name e \<mapsto> e)" by auto
  from assms add show "extensions_wf (s\<lparr>sh_extensions := snd (shash_add_once (sh_extensions s) (plugin_name e) e)\<rparr>)"
    by (auto simp: extensions_wf_def shash_add_once_def split: option.splits)
qed

lemma extensions_wf_delete:
  assumes "extensions_wf s"
  shows "extensions_wf (s\<lparr>sh_extensions := snd (shash_find_and_delete (sh_extensions s) k)\<rparr>)"
  using assms
  by (auto simp: extensions_wf_def shash_find_and_delete_def shash_wf_def distinct_map_filter)

lemma register_Some:
  assumes "one = 0" "extensions_wf s"
  shows "fst (register_plugin_extension one (Some e) s) = (if published s (plugin_name e) = None then 0 else EINVAL)"
    and "extensions_wf (snd (register_plugin_extension one (Some e) s))"
    and "published (snd (register_plugin_extension one (Some e) s)) =
      (if published s (plugin_name e) = None then (published s)(plugin_name e \<mapsto> e) else published s)"
proof -
  obtain s' where s': "plugin_extensions_init one s = (0, s')" "init_done s'"
    "shash_find_data (sh_extensions s') = published s" "extensions_wf s'"
    using plugin_extensions_init_ok [OF assms(1), of s] assms(2) by metis
  note add = extensions_wf_add [OF s'(4,2), of e]
  have e: "\<lparr>plugin_name = plugin_name e, major = major e, minor = minor e, plugin_interface = plugin_interface e\<rparr> = e"
    by simp
  have "register_plugin_extension one (Some e) s =
      (if published s (plugin_name e) = None
       then (0, s'\<lparr>sh_extensions := snd (shash_add_once (sh_extensions s') (plugin_name e) e)\<rparr>) else (EINVAL, s'))"
    using s'(1,3) add(1)
    by (auto simp: register_plugin_extension_def Let_def e split: option.split prod.split)
  with s' add(2,3) published_init [of "s'\<lparr>sh_extensions := _\<rparr>"] published_init [of s']
  show "fst (register_plugin_extension one (Some e) s) = (if published s (plugin_name e) = None then 0 else EINVAL)"
    "extensions_wf (snd (register_plugin_extension one (Some e) s))"
    "published (snd (register_plugin_extension one (Some e) s)) =
      (if published s (plugin_name e) = None then (published s)(plugin_name e \<mapsto> e) else published s)"
    by auto
qed

interpretation ext: extension_registry "register_plugin_extension 0" "unregister_plugin_extension 0"
  "find_plugin_extension 0" published extensions_wf
proof unfold_locales
  fix s :: "'i extensions" and e :: "'i plugin_extension_interface" and k ma mi
  assume wf: "extensions_wf s"
  obtain s' where s': "plugin_extensions_init 0 s = (0, s')" "init_done s'"
    "shash_find_data (sh_extensions s') = published s" "extensions_wf s'"
    using plugin_extensions_init_ok [OF refl, of s] wf by metis
  have pub: "published s' = published s" using s' by (auto simp: published_def fun_eq_iff)
  show "fst (register_plugin_extension 0 (Some e) s) = 0 \<and> extensions_wf (snd (register_plugin_extension 0 (Some e) s)) \<and>
      published (snd (register_plugin_extension 0 (Some e) s)) = (published s)(plugin_name e \<mapsto> e)"
    if "published s (plugin_name e) = None"
    using register_Some [OF refl wf, of e] that by simp
  show "fst (register_plugin_extension 0 (Some e) s) = EINVAL \<and> extensions_wf (snd (register_plugin_extension 0 (Some e) s)) \<and>
      published (snd (register_plugin_extension 0 (Some e) s)) = published s"
    if "published s (plugin_name e) \<noteq> None"
    using register_Some [OF refl wf, of e] that by simp
  show "fst (register_plugin_extension 0 None s) = EINVAL \<and> extensions_wf (snd (register_plugin_extension 0 None s)) \<and>
      published (snd (register_plugin_extension 0 None s)) = published s"
    using s' pub by (simp add: register_plugin_extension_def)
  show "fst (unregister_plugin_extension 0 k s) = (if published s k = None then EINVAL else 0) \<and>
      extensions_wf (snd (unregister_plugin_extension 0 k s)) \<and>
      published (snd (unregister_plugin_extension 0 k s)) = (published s)(k := None)"
    using s' pub extensions_wf_delete [OF s'(4), of k]
    by (auto simp: unregister_plugin_extension_def Let_def fun_eq_iff published_def [of "s'\<lparr>sh_extensions := _\<rparr>"]
        shash_find_and_delete_def map_of_filter_neq shash_find_data_def split: option.splits)
  show "published (snd (find_plugin_extension 0 k ma mi s)) = published s \<and>
      extensions_wf (snd (find_plugin_extension 0 k ma mi s)) \<and>
      fst (find_plugin_extension 0 k ma mi s) =
        (case published s k of
           None \<Rightarrow> (EINVAL, None)
         | Some e \<Rightarrow> if ma = major e \<and> mi \<le> minor e then (0, Some e) else (EINVAL, None))"
    using s' pub by (auto simp: find_plugin_extension_def split: option.splits)
  show "plugin_name e = k" if "published s k = Some e"
    using wf that by (auto simp: published_def extensions_wf_def shash_find_data_def split: if_splits dest!: map_of_SomeD)
qed

section \<open>Properties\<close>

text \<open>
  An extension registered under a fresh name is found again by exactly the requests with its
  major version and at most its minor version; every other request for it gets EINVAL and NULL.
\<close>

theorem register_then_find:
  assumes "extensions_wf s" "published s (plugin_name e) = None"
  shows "fst (register_plugin_extension 0 (Some e) s) = 0 \<and>
    fst (find_plugin_extension 0 (plugin_name e) req_major req_minor (snd (register_plugin_extension 0 (Some e) s))) =
      (if req_major = major e \<and> req_minor \<le> minor e then (0, Some e) else (EINVAL, None))"
  using ext.register_new [OF assms] ext.register_find [OF assms] by simp

definition sample_extension :: "nat plugin_extension_interface" where
  "sample_extension = \<lparr>plugin_name = ''ASIC_PLUGIN'', major = 1, minor = 4, plugin_interface = Some 7\<rparr>"

theorem register_then_find_witness:
  "fst (find_plugin_extension 0 ''ASIC_PLUGIN'' 1 2 (snd (register_plugin_extension 0 (Some sample_extension) extensions_boot)))
   = (0, Some sample_extension)"
  using register_then_find [where s = extensions_boot and e = sample_extension and req_major = 1 and req_minor = 2]
  by (simp add: extensions_wf_def extensions_boot_def published_def sample_extension_def)

text \<open>
  C19: The registry refines a partial map from names to extensions: registering adds to it (and
  refuses a name in use), unregistering removes (and reports a name not in use), finding reads it,
  each keeping the table well formed.
\<close>

theorem registry_refines_map:
  assumes "extensions_wf s"
  shows "published (snd (register_plugin_extension 0 (Some e) s)) =
      (if published s (plugin_name e) = None then (published s)(plugin_name e \<mapsto> e) else published s)
    \<and> fst (register_plugin_extension 0 (Some e) s) = (if published s (plugin_name e) = None then 0 else EINVAL)
    \<and> extensions_wf (snd (register_plugin_extension 0 (Some e) s))
    \<and> published (snd (unregister_plugin_extension 0 k s)) = (published s)(k := None)
    \<and> fst (unregister_plugin_extension 0 k s) = (if published s k = None then EINVAL else 0)
    \<and> extensions_wf (snd (unregister_plugin_extension 0 k s))
    \<and> published (snd (find_plugin_extension 0 k req_major req_minor s)) = published s
    \<and> fst (find_plugin_extension 0 k req_major req_minor s) =
        (case published s k of
           None \<Rightarrow> (EINVAL, None)
         | Some e \<Rightarrow> if req_major = major e \<and> req_minor \<le> minor e then (0, Some e) else (EINVAL, None))"
  using register_Some [OF refl assms, of e] ext.unregister [OF assms, of k] ext.find [OF assms, of k req_major req_minor]
  by blast

theorem registry_refines_map_witness:
  "published (snd (register_plugin_extension 0 (Some sample_extension) extensions_boot)) =
     [''ASIC_PLUGIN'' \<mapsto> sample_extension]"
  using registry_refines_map [where s = extensions_boot and e = sample_extension]
  by (auto simp: extensions_wf_def extensions_boot_def published_def sample_extension_def fun_eq_iff)

end
