(* ===== verification/Vrf.thy ===== *)
theory Vrf
  imports Prelude
begin

text \<open>
  The routing table of a VRF, src/vrf.c: the local cache of routes and nexthops, the routes pushed
  to the switch, and the ECMP settings.

  A \<open>struct route\<close> or \<open>struct nexthop\<close> is referred to by pointer from two hash maps; a record of the
  model carries its address (\<open>rid\<close>, \<open>nid\<close>), a back pointer is an address, and \<open>next_ptr\<close> is the
  allocator.  The cached strings of both structures never change after creation, so a nexthop is
  stored by value in \<open>all_nexthops\<close> and in its route.  The record \<open>l3\<close> extends one VRF by what
  its operations share with the other VRFs: the allocator, the status column of the Nexthop table,
  the file-scope \<open>ecmp_config\<close>, and the log of the calls into the ofproto layer.

  Code outside the repository is the record \<open>l3_env\<close>: the hash function, the ofproto provider (a
  call may depend on every earlier call, hence on the log) and the string constants of the
  generated schema header.  A row of the database carries the change flags of the IDL relative to
  the current \<open>idl_seqno\<close>.  A reference array of a row holds no NULL, so the ports of a nexthop row
  are names.
\<close>

section \<open>Data\<close>

datatype route_action = OFPROTO_ROUTE_ADD | OFPROTO_ROUTE_DELETE | OFPROTO_ROUTE_DELETE_NH
datatype route_family = OFPROTO_ROUTE_IPV4 | OFPROTO_ROUTE_IPV6
datatype nh_state = OFPROTO_NH_UNRESOLVED | OFPROTO_NH_RESOLVED
datatype nh_type = OFPROTO_NH_IPADDR | OFPROTO_NH_PORT
datatype ecmp_hash =
    OFPROTO_ECMP_HASH_SRCIP | OFPROTO_ECMP_HASH_DSTIP | OFPROTO_ECMP_HASH_SRCPORT
  | OFPROTO_ECMP_HASH_DSTPORT | OFPROTO_ECMP_HASH_RESILIENT

text \<open>\<open>on_egress_id\<close> is \<open>None\<close> where the code leaves the field of the stack variable unset.\<close>

record ofproto_route_nexthop =
  on_state :: nh_state
  on_type :: nh_type
  on_id :: string
  on_egress_id :: "int option"

record ofproto_route =
  or_family :: route_family
  or_prefix :: string
  or_nexthops :: "ofproto_route_nexthop list"

datatype l3_call =
    RouteAction route_action ofproto_route
  | EcmpSet bool
  | EcmpHashSet ecmp_hash bool
  | AddHost string bool string "string option"
  | DeleteHost string bool string
  | GetHostHit string bool string

record nexthop_row =
  nhr_uuid :: nat
  nhr_ip_address :: "string option"
  nhr_ports :: "string list"
  nhr_selected :: "bool option"
  nhr_modified :: bool
  nhr_inserted :: bool

record route_row =
  rr_uuid :: nat
  rr_vrf :: string
  rr_from :: string
  rr_prefix :: string
  rr_address_family :: "string option"
  rr_nexthops :: "nexthop_row list"
  rr_selected :: "bool option"
  rr_modified :: bool
  rr_inserted :: bool

record neighbor_row =
  nbr_vrf :: string
  nbr_ip_address :: string
  nbr_mac :: "string option"
  nbr_address_family :: "string option"
  nbr_port :: "string option"
  nbr_modified :: bool
  nbr_inserted :: bool
  nbr_status :: smap

record l3_env =
  hash_string :: "string \<Rightarrow> u32"
  has_l3_route_action :: bool
  ofproto_l3_route_action :: "l3_call list \<Rightarrow> route_action \<Rightarrow> ofproto_route \<Rightarrow> int \<times> (nat \<Rightarrow> int \<times> string)"
  ofproto_add_l3_host_entry :: "l3_call list \<Rightarrow> string \<Rightarrow> bool \<Rightarrow> string \<Rightarrow> string option \<Rightarrow> int \<Rightarrow> int \<times> int"
  ofproto_delete_l3_host_entry :: "l3_call list \<Rightarrow> string \<Rightarrow> bool \<Rightarrow> string \<Rightarrow> int \<Rightarrow> int \<times> int"
  ofproto_get_l3_host_hit :: "l3_call list \<Rightarrow> string \<Rightarrow> bool \<Rightarrow> string \<Rightarrow> bool \<Rightarrow> int \<times> bool"
  ether_aton_ok :: "string \<Rightarrow> bool"
  inet_pton6_ok :: "string \<Rightarrow> bool"
  ADDRESS_FAMILY_IPV6 :: string
  NEXTHOP_STATUS_ERROR :: string
  NEIGHBOR_STATUS_DP_HIT :: string
  ECMP_CONFIG_STATUS :: string
  ECMP_CONFIG_HASH_SRC_IP :: string
  ECMP_CONFIG_HASH_DST_IP :: string
  ECMP_CONFIG_HASH_SRC_PORT :: string
  ECMP_CONFIG_HASH_DST_PORT :: string
  ECMP_CONFIG_ENABLE_DEFAULT :: bool

record route_idl =
  idl_system_ecmp_config :: "smap option"
  idl_ecmp_modified :: bool
  idl_routes :: "route_row list"
  idl_routes_modified :: bool
  idl_routes_deleted :: bool
  idl_routes_inserted :: bool
  idl_has_nexthops :: bool
  idl_nexthops_modified :: bool

record nexthop =
  nid :: nat
  ip_addr :: "string option"
  port_name :: "string option"
  hw_programmed :: bool
  nh_route :: nat
  nh_idl_row_uuid :: nat

record route =
  rid :: nat
  rt_prefix :: string
  rt_from :: string
  is_ipv6 :: bool
  nexthops :: "nexthop list"
  rt_idl_row_uuid :: nat

record neighbor =
  nb_ip_address :: string
  nb_mac :: "string option"
  nb_cfg :: "neighbor_row option"
  is_ipv6_addr :: bool
  hit_bit :: bool
  nb_port_name :: "string option"
  l3_egress_id :: int

record ecmp =
  enabled :: bool
  src_port_enabled :: bool
  dst_port_enabled :: bool
  src_ip_enabled :: bool
  dst_ip_enabled :: bool
  resilient_hash_enabled :: bool

record vrf =
  vrf_name :: string
  vrf_ports :: "string list"
  all_neighbors :: "neighbor list"
  all_routes :: "route list"
  all_nexthops :: "nexthop list"

record l3 = vrf +
  next_ptr :: nat
  nh_status :: "nat \<Rightarrow> smap option"
  ecmp_config :: ecmp
  l3_log :: "l3_call list"

definition VRF_ROUTE_HASH_MAXSIZE :: nat where "VRF_ROUTE_HASH_MAXSIZE = 64"

section \<open>Rows, keys and lookups\<close>

definition vrf_is_nh_row_selected :: "nexthop_row \<Rightarrow> bool" where
  "vrf_is_nh_row_selected r = (case nhr_selected r of None \<Rightarrow> True | Some b \<Rightarrow> b)"

definition vrf_is_route_row_selected :: "route_row \<Rightarrow> bool" where
  "vrf_is_route_row_selected r = (case rr_selected r of None \<Rightarrow> False | Some b \<Rightarrow> b)"

text \<open>\<open>snprintf\<close> into a buffer of \<open>hashlen\<close> bytes keeps the first \<open>hashlen - 1\<close> characters.\<close>

definition vrf_route_hash :: "string \<Rightarrow> string \<Rightarrow> nat \<Rightarrow> string" where
  "vrf_route_hash from prefix hashlen = take (hashlen - 1) (from @ '':'' @ prefix)"

definition vrf_nh_hash :: "string option \<Rightarrow> string option \<Rightarrow> string option" where
  "vrf_nh_hash ip port = (case ip of Some a \<Rightarrow> Some a | None \<Rightarrow> port)"

definition nh_key :: "nexthop \<Rightarrow> string" where
  "nh_key nh = (case ip_addr nh of Some a \<Rightarrow> a | None \<Rightarrow> the (port_name nh))"

text \<open>
  The nodes of the bucket chain whose stored hash equals the wanted one, compared by address or by
  port name.  \<open>strcmp\<close> against a NULL argument, which the code reaches when two keys of different
  kinds collide, is no match here.
\<close>

definition vrf_route_nexthop_lookup ::
  "l3_env \<Rightarrow> route \<Rightarrow> string option \<Rightarrow> string option \<Rightarrow> nexthop option" where
  "vrf_route_nexthop_lookup env rt ip port =
     (case vrf_nh_hash ip port of
        None \<Rightarrow> None
      | Some hashstr \<Rightarrow>
          List.find (\<lambda>nh. hash_string env (nh_key nh) = hash_string env hashstr \<and>
              (ip_addr nh \<noteq> None \<and> ip_addr nh = ip \<or> port_name nh \<noteq> None \<and> port_name nh = port))
            (nexthops rt))"

definition neighbor_hash_lookup :: "l3_env \<Rightarrow> ('a) vrf_scheme \<Rightarrow> string \<Rightarrow> neighbor option" where
  "neighbor_hash_lookup env s ip =
     List.find (\<lambda>n. hash_string env (nb_ip_address n) = hash_string env ip \<and> nb_ip_address n = ip)
       (all_neighbors s)"

definition vrf_route_hash_lookup :: "l3_env \<Rightarrow> 'a vrf_scheme \<Rightarrow> route_row \<Rightarrow> route option" where
  "vrf_route_hash_lookup env s row =
     List.find (\<lambda>rt.
         hash_string env (vrf_route_hash (rt_from rt) (rt_prefix rt) VRF_ROUTE_HASH_MAXSIZE) =
         hash_string env (vrf_route_hash (rr_from row) (rr_prefix row) VRF_ROUTE_HASH_MAXSIZE) \<and>
         rt_prefix rt = rr_prefix row \<and> rt_from rt = rr_from row)
       (all_routes s)"

text \<open>\<open>nh_row->ip_address || (nh_row->n_ports > 0 && nh_row->ports[0])\<close>, and the key of such a row.\<close>

definition nh_row_valid :: "nexthop_row \<Rightarrow> bool" where
  "nh_row_valid r \<longleftrightarrow> nhr_ip_address r \<noteq> None \<or> nhr_ports r \<noteq> []"

definition nh_row_port :: "nexthop_row \<Rightarrow> string option" where
  "nh_row_port r = (case nhr_ports r of [] \<Rightarrow> None | p # _ \<Rightarrow> Some p)"

definition nh_row_key :: "nexthop_row \<Rightarrow> string" where
  "nh_row_key r = (case nhr_ip_address r of Some a \<Rightarrow> a | None \<Rightarrow> hd (nhr_ports r))"

section \<open>Calls into the ofproto layer\<close>

definition log_call :: "l3_call \<Rightarrow> l3 \<Rightarrow> l3" where
  "log_call c s = s\<lparr>l3_log := l3_log s @ [c]\<rparr>"

definition vrf_l3_route_action ::
  "l3_env \<Rightarrow> route_action \<Rightarrow> ofproto_route \<Rightarrow> l3 \<Rightarrow> (int \<times> (nat \<Rightarrow> int \<times> string)) \<times> l3" where
  "vrf_l3_route_action env action r s =
     (ofproto_l3_route_action env (l3_log s) action r, log_call (RouteAction action r) s)"

definition vrf_has_l3_route_action :: "l3_env \<Rightarrow> bool" where
  "vrf_has_l3_route_action env = has_l3_route_action env"

definition vrf_l3_ecmp_set :: "bool \<Rightarrow> l3 \<Rightarrow> l3" where
  "vrf_l3_ecmp_set enable s = log_call (EcmpSet enable) s"

definition vrf_l3_ecmp_hash_set :: "ecmp_hash \<Rightarrow> bool \<Rightarrow> l3 \<Rightarrow> l3" where
  "vrf_l3_ecmp_hash_set hash enable s = log_call (EcmpHashSet hash enable) s"

definition ofp_route_of :: "route \<Rightarrow> ofproto_route_nexthop list \<Rightarrow> ofproto_route" where
  "ofp_route_of rt nhs =
     \<lparr>or_family = (if is_ipv6 rt then OFPROTO_ROUTE_IPV6 else OFPROTO_ROUTE_IPV4),
      or_prefix = rt_prefix rt, or_nexthops = nhs\<rparr>"

text \<open>One turn of the loop that records what the provider said about a nexthop in its row.\<close>

definition record_nh_result ::
  "l3_env \<Rightarrow> route \<Rightarrow> ofproto_route_nexthop \<Rightarrow> int \<times> string \<Rightarrow> l3 \<Rightarrow> l3" where
  "record_nh_result env rt onh res s =
     (let nh = (if on_type onh = OFPROTO_NH_IPADDR
                then vrf_route_nexthop_lookup env rt (Some (on_id onh)) None
                else vrf_route_nexthop_lookup env rt None (Some (on_id onh))) in
      case nh of
        None \<Rightarrow> s
      | Some nh \<Rightarrow>
          (case nh_status s (nh_idl_row_uuid nh) of
             None \<Rightarrow> s
           | Some status \<Rightarrow>
               if fst res \<noteq> 0
               then s\<lparr>nh_status := (nh_status s)(nh_idl_row_uuid nh \<mapsto> [(NEXTHOP_STATUS_ERROR env, snd res)])\<rparr>
               else if smap_get status (NEXTHOP_STATUS_ERROR env) \<noteq> None
               then s\<lparr>nh_status := (nh_status s)(nh_idl_row_uuid nh \<mapsto> [])\<rparr>
               else s))"

fun record_nh_results ::
  "l3_env \<Rightarrow> route \<Rightarrow> (nat \<Rightarrow> int \<times> string) \<Rightarrow> nat \<Rightarrow> ofproto_route_nexthop list \<Rightarrow> l3 \<Rightarrow> l3" where
  "record_nh_results env rt res i [] s = s"
| "record_nh_results env rt res i (onh # onhs) s =
     record_nh_results env rt res (Suc i) onhs (record_nh_result env rt onh (res i) s)"

definition vrf_ofproto_route_add :: "l3_env \<Rightarrow> ofproto_route_nexthop list \<Rightarrow> route \<Rightarrow> l3 \<Rightarrow> l3" where
  "vrf_ofproto_route_add env onhs rt s =
     (let ((rc, res), s) = vrf_l3_route_action env OFPROTO_ROUTE_ADD (ofp_route_of rt onhs) s in
      record_nh_results env rt res 0 onhs s)"

definition vrf_ofproto_route_delete ::
  "l3_env \<Rightarrow> ofproto_route_nexthop list \<Rightarrow> route \<Rightarrow> bool \<Rightarrow> l3 \<Rightarrow> l3" where
  "vrf_ofproto_route_delete env onhs rt del_route s =
     (let action = if del_route then OFPROTO_ROUTE_DELETE else OFPROTO_ROUTE_DELETE_NH in
      snd (vrf_l3_route_action env action (ofp_route_of rt onhs) s))"

text \<open>
  The walk over the nexthops of the VRF that have the neighbor's address.  The route of a nexthop
  is read through its back pointer.
\<close>

definition deref_route :: "'a vrf_scheme \<Rightarrow> nat \<Rightarrow> route option" where
  "deref_route s p = List.find (\<lambda>rt. rid rt = p) (all_routes s)"

definition neighbor_nh :: "neighbor \<Rightarrow> bool \<Rightarrow> nexthop \<Rightarrow> ofproto_route_nexthop" where
  "neighbor_nh n resolved nh =
     \<lparr>on_state = (if resolved then OFPROTO_NH_RESOLVED else OFPROTO_NH_UNRESOLVED),
      on_type = OFPROTO_NH_IPADDR, on_id = the (ip_addr nh),
      on_egress_id = (if resolved then Some (l3_egress_id n) else None)\<rparr>"

fun update_routes_of_nexthops :: "l3_env \<Rightarrow> neighbor \<Rightarrow> bool \<Rightarrow> nexthop list \<Rightarrow> l3 \<Rightarrow> l3" where
  "update_routes_of_nexthops env n resolved [] s = s"
| "update_routes_of_nexthops env n resolved (nh # nhs) s =
     update_routes_of_nexthops env n resolved nhs
       (if hash_string env (nh_key nh) = hash_string env (nb_ip_address n) \<and>
           ip_addr nh = Some (nb_ip_address n)
        then (case deref_route s (nh_route nh) of
                None \<Rightarrow> s
              | Some rt \<Rightarrow> vrf_ofproto_route_add env [neighbor_nh n resolved nh] rt s)
        else s)"

definition vrf_ofproto_update_route_with_neighbor :: "l3_env \<Rightarrow> neighbor \<Rightarrow> bool \<Rightarrow> l3 \<Rightarrow> l3" where
  "vrf_ofproto_update_route_with_neighbor env n resolved s =
     update_routes_of_nexthops env n resolved (all_nexthops s) s"

text \<open>
  \<open>neighbor && neighbor->l3_egress_id > 0\<close>: the egress id under which an address is resolved.
\<close>

definition resolved_egress :: "l3_env \<Rightarrow> 'a vrf_scheme \<Rightarrow> string \<Rightarrow> int option" where
  "resolved_egress env s ip =
     (case neighbor_hash_lookup env s ip of
        None \<Rightarrow> None
      | Some n \<Rightarrow> if l3_egress_id n > 0 then Some (l3_egress_id n) else None)"

definition port_nh :: "string \<Rightarrow> ofproto_route_nexthop" where
  "port_nh p = \<lparr>on_state = OFPROTO_NH_UNRESOLVED, on_type = OFPROTO_NH_PORT, on_id = p, on_egress_id = None\<rparr>"

definition vrf_ofproto_set_nh :: "l3_env \<Rightarrow> 'a vrf_scheme \<Rightarrow> nexthop \<Rightarrow> ofproto_route_nexthop" where
  "vrf_ofproto_set_nh env s nh =
     (case port_name nh of
        Some p \<Rightarrow> port_nh p
      | None \<Rightarrow>
          (case resolved_egress env s (the (ip_addr nh)) of
             Some e \<Rightarrow> \<lparr>on_state = OFPROTO_NH_RESOLVED, on_type = OFPROTO_NH_IPADDR,
                        on_id = the (ip_addr nh), on_egress_id = Some e\<rparr>
           | None \<Rightarrow> \<lparr>on_state = OFPROTO_NH_UNRESOLVED, on_type = OFPROTO_NH_IPADDR,
                      on_id = the (ip_addr nh), on_egress_id = None\<rparr>))"

text \<open>\<open>None\<close> where the code does not advance \<open>n_nexthops\<close>, so that the slot is reused.\<close>

definition vrf_ofproto_update_resolved_nh ::
  "l3_env \<Rightarrow> 'a vrf_scheme \<Rightarrow> nexthop \<Rightarrow> ofproto_route_nexthop option" where
  "vrf_ofproto_update_resolved_nh env s nh =
     (case port_name nh of
        Some p \<Rightarrow> Some (port_nh p)
      | None \<Rightarrow>
          (case resolved_egress env s (the (ip_addr nh)) of
             Some e \<Rightarrow> Some \<lparr>on_state = OFPROTO_NH_RESOLVED, on_type = OFPROTO_NH_IPADDR,
                             on_id = the (ip_addr nh), on_egress_id = Some e\<rparr>
           | None \<Rightarrow> None))"

section \<open>The route cache\<close>

text \<open>
  The operations on a route take and return the route; \<open>vrf_route_modify\<close> stores the result back
  under its address, \<open>vrf_route_add\<close> inserts it last, as the code does.
\<close>

definition vrf_nexthop_delete :: "route \<Rightarrow> nexthop \<Rightarrow> l3 \<Rightarrow> route \<times> l3" where
  "vrf_nexthop_delete rt nh s =
     (rt\<lparr>nexthops := filter (\<lambda>x. nid x \<noteq> nid nh) (nexthops rt)\<rparr>,
      if ip_addr nh \<noteq> None
      then s\<lparr>all_nexthops := filter (\<lambda>x. nid x \<noteq> nid nh) (all_nexthops s)\<rparr> else s)"

definition vrf_nexthop_add :: "route \<Rightarrow> nexthop_row \<Rightarrow> l3 \<Rightarrow> nexthop option \<times> route \<times> l3" where
  "vrf_nexthop_add rt row s =
     (if \<not> nh_row_valid row then (None, rt, s)
      else
        let nh = \<lparr>nid = next_ptr s, ip_addr = nhr_ip_address row,
                  port_name = (if nhr_ip_address row = None then nh_row_port row else None),
                  hw_programmed = False, nh_route = rid rt, nh_idl_row_uuid = nhr_uuid row\<rparr>;
            rt = rt\<lparr>nexthops := nexthops rt @ [nh]\<rparr>;
            s = s\<lparr>next_ptr := Suc (next_ptr s)\<rparr>;
            s = (if nhr_ip_address row \<noteq> None then s\<lparr>all_nexthops := all_nexthops s @ [nh]\<rparr> else s)
        in (Some nh, rt, s))"

text \<open>The rows both functions consider: selected, with an address or a port.\<close>

definition nh_row_usable :: "nexthop_row \<Rightarrow> bool" where
  "nh_row_usable r \<longleftrightarrow> vrf_is_nh_row_selected r \<and> nh_row_valid r"

fun add_selected_nhs :: "nexthop_row list \<Rightarrow> route \<Rightarrow> l3 \<Rightarrow> route \<times> l3" where
  "add_selected_nhs [] rt s = (rt, s)"
| "add_selected_nhs (row # rows) rt s =
     (if nh_row_usable row
      then let (nh, rt, s) = vrf_nexthop_add rt row s in add_selected_nhs rows rt s
      else add_selected_nhs rows rt s)"

definition ecmp_nh :: "l3_env \<Rightarrow> 'a vrf_scheme \<Rightarrow> route \<Rightarrow> nexthop_row \<Rightarrow> ofproto_route_nexthop option" where
  "ecmp_nh env s rt row =
     (if nh_row_usable row
      then (case vrf_route_nexthop_lookup env rt (nhr_ip_address row) (nh_row_port row) of
              None \<Rightarrow> None
            | Some nh \<Rightarrow> vrf_ofproto_update_resolved_nh env s nh)
      else None)"

fun first_unresolved_nh :: "l3_env \<Rightarrow> route \<Rightarrow> nexthop_row list \<Rightarrow> ofproto_route_nexthop list" where
  "first_unresolved_nh env rt [] = []"
| "first_unresolved_nh env rt (row # rows) =
     (if vrf_is_nh_row_selected row \<and> nhr_ip_address row \<noteq> None
      then (case vrf_route_nexthop_lookup env rt (nhr_ip_address row) None of
              None \<Rightarrow> first_unresolved_nh env rt rows
            | Some nh \<Rightarrow> [\<lparr>on_state = OFPROTO_NH_UNRESOLVED, on_type = OFPROTO_NH_IPADDR,
                           on_id = the (ip_addr nh), on_egress_id = None\<rparr>])
      else first_unresolved_nh env rt rows)"

definition vrf_ofproto_add_resolved_nh ::
  "l3_env \<Rightarrow> route_row \<Rightarrow> route \<Rightarrow> l3 \<Rightarrow> ofproto_route_nexthop list \<times> route \<times> l3" where
  "vrf_ofproto_add_resolved_nh env row rt s =
     (let (rt, s) = add_selected_nhs (rr_nexthops row) rt s;
          onhs = List.map_filter (ecmp_nh env s rt) (rr_nexthops row);
          onhs = (if onhs = [] then first_unresolved_nh env rt (rr_nexthops row) else onhs)
      in (onhs, rt, s))"

fun delete_route_nhs ::
  "l3_env \<Rightarrow> nexthop list \<Rightarrow> route \<Rightarrow> l3 \<Rightarrow> ofproto_route_nexthop list \<times> route \<times> l3" where
  "delete_route_nhs env [] rt s = ([], rt, s)"
| "delete_route_nhs env (nh # nhs) rt s =
     (let onh = vrf_ofproto_set_nh env s nh;
          (rt, s) = vrf_nexthop_delete rt nh s;
          (onhs, rt, s) = delete_route_nhs env nhs rt s
      in (onh # onhs, rt, s))"

definition vrf_route_delete :: "l3_env \<Rightarrow> route \<Rightarrow> l3 \<Rightarrow> l3" where
  "vrf_route_delete env rt s =
     (let s = s\<lparr>all_routes := filter (\<lambda>x. rid x \<noteq> rid rt) (all_routes s)\<rparr>;
          (onhs, rt, s) = delete_route_nhs env (nexthops rt) rt s
      in if onhs \<noteq> [] then vrf_ofproto_route_delete env onhs rt True s else s)"

fun add_single_nhs ::
  "l3_env \<Rightarrow> nexthop_row list \<Rightarrow> route \<Rightarrow> l3 \<Rightarrow> ofproto_route_nexthop list \<times> route \<times> l3" where
  "add_single_nhs env [] rt s = ([], rt, s)"
| "add_single_nhs env (row # rows) rt s =
     (if nh_row_usable row
      then (case vrf_nexthop_add rt row s of
              (None, rt, s) \<Rightarrow> add_single_nhs env rows rt s
            | (Some nh, rt, s) \<Rightarrow>
                let onh = vrf_ofproto_set_nh env s nh;
                    (onhs, rt, s) = add_single_nhs env rows rt s
                in (onh # onhs, rt, s))
      else add_single_nhs env rows rt s)"

definition vrf_route_add :: "l3_env \<Rightarrow> route_row \<Rightarrow> l3 \<Rightarrow> l3" where
  "vrf_route_add env row s =
     (let rt = \<lparr>rid = next_ptr s, rt_prefix = rr_prefix row, rt_from = rr_from row,
                is_ipv6 = (rr_address_family row = Some (ADDRESS_FAMILY_IPV6 env)),
                nexthops = [], rt_idl_row_uuid = rr_uuid row\<rparr>;
          s = s\<lparr>next_ptr := Suc (next_ptr s)\<rparr>;
          (onhs, rt, s) =
            (if length (rr_nexthops row) > 1 then vrf_ofproto_add_resolved_nh env row rt s
             else add_single_nhs env (rr_nexthops row) rt s);
          s = (if onhs \<noteq> [] then vrf_ofproto_route_add env onhs rt s else s)
      in s\<lparr>all_routes := all_routes s @ [rt]\<rparr>)"

fun add_new_nhs ::
  "l3_env \<Rightarrow> bool \<Rightarrow> nexthop_row list \<Rightarrow> route \<Rightarrow> l3 \<Rightarrow> ofproto_route_nexthop list \<times> route \<times> l3" where
  "add_new_nhs env is_ecmp [] rt s = ([], rt, s)"
| "add_new_nhs env is_ecmp (row # rows) rt s =
     (case vrf_route_nexthop_lookup env rt (nhr_ip_address row) (nh_row_port row) of
        Some _ \<Rightarrow> add_new_nhs env is_ecmp rows rt s
      | None \<Rightarrow>
          (case vrf_nexthop_add rt row s of
             (None, rt, s) \<Rightarrow> add_new_nhs env is_ecmp rows rt s
           | (Some nh, rt, s) \<Rightarrow>
               let onh = (if is_ecmp then vrf_ofproto_update_resolved_nh env s nh
                          else Some (vrf_ofproto_set_nh env s nh));
                   (onhs, rt, s) = add_new_nhs env is_ecmp rows rt s
               in (case onh of None \<Rightarrow> onhs | Some o' \<Rightarrow> o' # onhs, rt, s)))"

definition put_route :: "route \<Rightarrow> l3 \<Rightarrow> l3" where
  "put_route rt s = s\<lparr>all_routes := map (\<lambda>x. if rid x = rid rt then rt else x) (all_routes s)\<rparr>"

definition vrf_route_modify :: "l3_env \<Rightarrow> route \<Rightarrow> route_row \<Rightarrow> l3 \<Rightarrow> l3" where
  "vrf_route_modify env rt row s =
     (let current_idl_nhs = shash_collect nh_row_key (filter nh_row_usable (rr_nexthops row));
          gone = filter (\<lambda>nh. shash_find_data current_idl_nhs (nh_key nh) = None) (nexthops rt);
          (onhs, rt, s) = delete_route_nhs env gone rt s;
          s = (if onhs \<noteq> [] then vrf_ofproto_route_delete env onhs rt False s else s);
          (onhs, rt, s) = add_new_nhs env (length (rr_nexthops row) > 1) (map snd current_idl_nhs) rt s;
          s = put_route rt s
      in if onhs \<noteq> [] then vrf_ofproto_route_add env onhs rt s else s)"

section \<open>Reconfiguration\<close>

definition vrf_reconfigure_ecmp :: "l3_env \<Rightarrow> route_idl \<Rightarrow> l3 \<Rightarrow> l3" where
  "vrf_reconfigure_ecmp env idl s =
     (case idl_system_ecmp_config idl of
        None \<Rightarrow> s
      | Some cfg \<Rightarrow>
          if \<not> idl_ecmp_modified idl then s
          else
            let get = (\<lambda>k. smap_get_bool cfg k (ECMP_CONFIG_ENABLE_DEFAULT env));
                v = get (ECMP_CONFIG_STATUS env);
                s = (if v \<noteq> enabled (ecmp_config s)
                     then (vrf_l3_ecmp_set v s)\<lparr>ecmp_config := (ecmp_config s)\<lparr>enabled := v\<rparr>\<rparr> else s);
                v = get (ECMP_CONFIG_HASH_SRC_IP env);
                s = (if v \<noteq> src_ip_enabled (ecmp_config s)
                     then (vrf_l3_ecmp_hash_set OFPROTO_ECMP_HASH_SRCIP v s)
                            \<lparr>ecmp_config := (ecmp_config s)\<lparr>src_ip_enabled := v\<rparr>\<rparr> else s);
                v = get (ECMP_CONFIG_HASH_DST_IP env);
                s = (if v \<noteq> dst_ip_enabled (ecmp_config s)
                     then (vrf_l3_ecmp_hash_set OFPROTO_ECMP_HASH_DSTIP v s)
                            \<lparr>ecmp_config := (ecmp_config s)\<lparr>dst_ip_enabled := v\<rparr>\<rparr> else s);
                v = get (ECMP_CONFIG_HASH_SRC_PORT env);
                s = (if v \<noteq> src_port_enabled (ecmp_config s)
                     then (vrf_l3_ecmp_hash_set OFPROTO_ECMP_HASH_SRCPORT v s)
                            \<lparr>ecmp_config := (ecmp_config s)\<lparr>src_port_enabled := v\<rparr>\<rparr> else s);
                v = get (ECMP_CONFIG_HASH_DST_PORT env);
                s = (if v \<noteq> dst_port_enabled (ecmp_config s)
                     then (vrf_l3_ecmp_hash_set OFPROTO_ECMP_HASH_DSTPORT v s)
                            \<lparr>ecmp_config := (ecmp_config s)\<lparr>dst_port_enabled := v\<rparr>\<rparr> else s);
                v = get ''resilient_hash_enabled''
            in if v \<noteq> resilient_hash_enabled (ecmp_config s)
               then (vrf_l3_ecmp_hash_set OFPROTO_ECMP_HASH_RESILIENT v s)
                      \<lparr>ecmp_config := (ecmp_config s)\<lparr>resilient_hash_enabled := v\<rparr>\<rparr> else s)"

definition is_route_nh_rows_modified :: "route_row \<Rightarrow> bool" where
  "is_route_nh_rows_modified row \<longleftrightarrow>
     list_ex (\<lambda>nh. nhr_modified nh \<and> \<not> nhr_inserted nh) (rr_nexthops row)"

fun vrf_delete_routes :: "l3_env \<Rightarrow> route list \<Rightarrow> l3 \<Rightarrow> l3" where
  "vrf_delete_routes env [] s = s"
| "vrf_delete_routes env (rt # rts) s = vrf_delete_routes env rts (vrf_route_delete env rt s)"

fun add_missing_routes :: "l3_env \<Rightarrow> route_row list \<Rightarrow> l3 \<Rightarrow> l3" where
  "add_missing_routes env [] s = s"
| "add_missing_routes env (row # rows) s =
     add_missing_routes env rows
       (case vrf_route_hash_lookup env s row of None \<Rightarrow> vrf_route_add env row s | Some _ \<Rightarrow> s)"

definition modify_route_row :: "l3_env \<Rightarrow> route_row \<Rightarrow> l3 \<Rightarrow> l3" where
  "modify_route_row env row s =
     (if vrf_name s = rr_vrf row \<and> rr_modified row \<and> \<not> rr_inserted row
      then (case vrf_route_hash_lookup env s row of
              Some rt \<Rightarrow> if vrf_is_route_row_selected row then vrf_route_modify env rt row s
                         else vrf_route_delete env rt s
            | None \<Rightarrow> if vrf_is_route_row_selected row then vrf_route_add env row s else s)
      else s)"

fun modify_routes :: "l3_env \<Rightarrow> route_row list \<Rightarrow> l3 \<Rightarrow> l3" where
  "modify_routes env [] s = s"
| "modify_routes env (row # rows) s = modify_routes env rows (modify_route_row env row s)"

definition rr_hash :: "route_row \<Rightarrow> string" where
  "rr_hash row = vrf_route_hash (rr_from row) (rr_prefix row) VRF_ROUTE_HASH_MAXSIZE"

definition rt_hash :: "route \<Rightarrow> string" where
  "rt_hash rt = vrf_route_hash (rt_from rt) (rt_prefix rt) VRF_ROUTE_HASH_MAXSIZE"

definition vrf_reconfigure_routes :: "l3_env \<Rightarrow> route_idl \<Rightarrow> l3 \<Rightarrow> l3" where
  "vrf_reconfigure_routes env idl s =
     (let s = vrf_reconfigure_ecmp env idl s in
      if \<not> vrf_has_l3_route_action env then s
      else if idl_routes idl = [] then vrf_delete_routes env (all_routes s) s
      else if \<not> idl_routes_modified idl \<and> \<not> idl_routes_deleted idl \<and> \<not> idl_routes_inserted idl then s
      else
        let current = shash_collect rr_hash
              (filter (\<lambda>row. vrf_is_route_row_selected row \<and> vrf_name s = rr_vrf row) (idl_routes idl));
            s = (if idl_routes_deleted idl
                 then vrf_delete_routes env
                        (filter (\<lambda>rt. shash_find_data current (rt_hash rt) = None) (all_routes s)) s
                 else s);
            s = (if idl_routes_inserted idl then add_missing_routes env (map snd current) s else s)
        in if idl_routes_modified idl then modify_routes env (idl_routes idl) s else s)"

fun modify_routes_of_nexthops :: "l3_env \<Rightarrow> route_row list \<Rightarrow> l3 \<Rightarrow> l3" where
  "modify_routes_of_nexthops env [] s = s"
| "modify_routes_of_nexthops env (row # rows) s =
     modify_routes_of_nexthops env rows
       (if rr_nexthops row \<noteq> [] \<and> is_route_nh_rows_modified row
        then (case vrf_route_hash_lookup env s row of
                Some rt \<Rightarrow> vrf_route_modify env rt row s
              | None \<Rightarrow> s)
        else s)"

definition vrf_reconfigure_nexthops :: "l3_env \<Rightarrow> route_idl \<Rightarrow> l3 \<Rightarrow> l3" where
  "vrf_reconfigure_nexthops env idl s =
     (if \<not> idl_has_nexthops idl then s
      else if idl_nexthops_modified idl then modify_routes_of_nexthops env (idl_routes idl) s
      else s)"

section \<open>Addresses of a port\<close>

text \<open>
  The settings handed to the ofproto layer for a port, as far as \<open>vrf_port_reconfig_ipaddr\<close> writes them.
  The change bits are constants of the ofproto header; the four flags say which address columns the IDL
  reports as modified.
\<close>

record ip_change_bits =
  PORT_PRIMARY_IPv4_CHANGED :: u32
  PORT_PRIMARY_IPv6_CHANGED :: u32
  PORT_SECONDARY_IPv4_CHANGED :: u32
  PORT_SECONDARY_IPv6_CHANGED :: u32

record port_addresses =
  ip4_address :: "string option"
  ip6_address :: "string option"
  ip4_address_secondary :: "string list"
  ip6_address_secondary :: "string list"

record bundle_addresses = port_addresses +
  ip_change :: u32

record address_flags =
  ip4_modified :: bool
  ip6_modified :: bool
  ip4_secondary_modified :: bool
  ip6_secondary_modified :: bool

definition vrf_port_reconfig_ipaddr ::
  "ip_change_bits \<Rightarrow> address_flags \<Rightarrow> port_addresses \<Rightarrow> bundle_addresses \<Rightarrow> bundle_addresses" where
  "vrf_port_reconfig_ipaddr k fl port b =
     (let b = b\<lparr>ip_change := 0\<rparr>;
          b = (if ip4_modified fl
               then b\<lparr>ip_change := or (ip_change b) (PORT_PRIMARY_IPv4_CHANGED k), ip4_address := ip4_address port\<rparr> else b);
          b = (if ip6_modified fl
               then b\<lparr>ip_change := or (ip_change b) (PORT_PRIMARY_IPv6_CHANGED k), ip6_address := ip6_address port\<rparr> else b);
          b = (if ip4_secondary_modified fl
               then b\<lparr>ip_change := or (ip_change b) (PORT_SECONDARY_IPv4_CHANGED k),
                      ip4_address_secondary := ip4_address_secondary port\<rparr> else b)
      in if ip6_secondary_modified fl
         then b\<lparr>ip_change := or (ip_change b) (PORT_SECONDARY_IPv6_CHANGED k),
                ip6_address_secondary := ip6_address_secondary port\<rparr> else b)"

section \<open>Frame facts\<close>

text \<open>A push to the ofproto layer touches the call log and the nexthop status column only.\<close>

lemma log_call_frame [simp]:
  "vrf_name (log_call c s) = vrf_name s" "vrf_ports (log_call c s) = vrf_ports s"
  "all_neighbors (log_call c s) = all_neighbors s" "all_routes (log_call c s) = all_routes s"
  "all_nexthops (log_call c s) = all_nexthops s" "next_ptr (log_call c s) = next_ptr s"
  "ecmp_config (log_call c s) = ecmp_config s" "l3_log (log_call c s) = l3_log s @ [c]"
  "nh_status (log_call c s) = nh_status s"
  by (simp_all add: log_call_def)

lemma nh_status_self: "\<exists>st. s = s\<lparr>nh_status := st\<rparr>"
  by (rule exI [of _ "nh_status s"]) simp

lemma record_nh_result_status: "\<exists>st. record_nh_result env rt onh res s = s\<lparr>nh_status := st\<rparr>"
  by (auto simp: record_nh_result_def Let_def nh_status_self split: option.split)

lemma record_nh_results_status: "\<exists>st. record_nh_results env rt res i onhs s = s\<lparr>nh_status := st\<rparr>"
proof (induction onhs arbitrary: i s)
  case (Cons onh onhs)
  obtain st where "record_nh_result env rt onh (res i) s = s\<lparr>nh_status := st\<rparr>"
    using record_nh_result_status by metis
  with Cons.IH [of "Suc i" "s\<lparr>nh_status := st\<rparr>"] show ?case by auto
qed (simp add: nh_status_self)

lemma vrf_ofproto_route_add_effect:
  "\<exists>st. vrf_ofproto_route_add env onhs rt s =
     s\<lparr>l3_log := l3_log s @ [RouteAction OFPROTO_ROUTE_ADD (ofp_route_of rt onhs)], nh_status := st\<rparr>"
proof -
  let ?c = "RouteAction OFPROTO_ROUTE_ADD (ofp_route_of rt onhs)"
  let ?res = "snd (ofproto_l3_route_action env (l3_log s) OFPROTO_ROUTE_ADD (ofp_route_of rt onhs))"
  obtain st where "record_nh_results env rt ?res 0 onhs (log_call ?c s) = (log_call ?c s)\<lparr>nh_status := st\<rparr>"
    using record_nh_results_status by metis
  then show ?thesis
    by (auto simp: vrf_ofproto_route_add_def vrf_l3_route_action_def log_call_def split: prod.splits)
qed

lemma vrf_ofproto_route_add_frame [simp]:
  "vrf_name (vrf_ofproto_route_add env onhs rt s) = vrf_name s"
  "vrf_ports (vrf_ofproto_route_add env onhs rt s) = vrf_ports s"
  "all_neighbors (vrf_ofproto_route_add env onhs rt s) = all_neighbors s"
  "all_routes (vrf_ofproto_route_add env onhs rt s) = all_routes s"
  "all_nexthops (vrf_ofproto_route_add env onhs rt s) = all_nexthops s"
  "next_ptr (vrf_ofproto_route_add env onhs rt s) = next_ptr s"
  "ecmp_config (vrf_ofproto_route_add env onhs rt s) = ecmp_config s"
  "l3_log (vrf_ofproto_route_add env onhs rt s) =
     l3_log s @ [RouteAction OFPROTO_ROUTE_ADD (ofp_route_of rt onhs)]"
  using vrf_ofproto_route_add_effect [of env onhs rt s] by auto

lemma vrf_ofproto_route_delete_frame [simp]:
  "vrf_name (vrf_ofproto_route_delete env onhs rt d s) = vrf_name s"
  "vrf_ports (vrf_ofproto_route_delete env onhs rt d s) = vrf_ports s"
  "all_neighbors (vrf_ofproto_route_delete env onhs rt d s) = all_neighbors s"
  "all_routes (vrf_ofproto_route_delete env onhs rt d s) = all_routes s"
  "all_nexthops (vrf_ofproto_route_delete env onhs rt d s) = all_nexthops s"
  "next_ptr (vrf_ofproto_route_delete env onhs rt d s) = next_ptr s"
  "ecmp_config (vrf_ofproto_route_delete env onhs rt d s) = ecmp_config s"
  "nh_status (vrf_ofproto_route_delete env onhs rt d s) = nh_status s"
  "l3_log (vrf_ofproto_route_delete env onhs rt d s) =
     l3_log s @ [RouteAction (if d then OFPROTO_ROUTE_DELETE else OFPROTO_ROUTE_DELETE_NH) (ofp_route_of rt onhs)]"
  by (simp_all add: vrf_ofproto_route_delete_def vrf_l3_route_action_def Let_def)

section \<open>The cache invariant\<close>

text \<open>
  \<open>cache_inv rts s\<close>: \<open>rts\<close> are the live routes, those of the hash map and possibly one that is being
  built or taken apart.  Addresses are distinct and below the allocator, a nexthop points back to
  its route and has either an address or a port, and \<open>all_nexthops\<close> holds exactly the nexthops of the
  live routes that have an address.
\<close>

definition nh_ok :: "nat \<Rightarrow> route \<Rightarrow> nexthop \<Rightarrow> bool" where
  "nh_ok p rt nh \<longleftrightarrow> nid nh < p \<and> nh_route nh = rid rt \<and> (ip_addr nh = None \<longleftrightarrow> port_name nh \<noteq> None)"

definition has_ip :: "nexthop \<Rightarrow> bool" where "has_ip nh \<longleftrightarrow> ip_addr nh \<noteq> None"

definition cache_inv :: "route list \<Rightarrow> l3 \<Rightarrow> bool" where
  "cache_inv rts s \<longleftrightarrow>
     distinct (map rid rts) \<and> distinct (map nid (concat (map nexthops rts))) \<and>
     (\<forall>rt\<in>set rts. rid rt < next_ptr s \<and> (\<forall>nh\<in>set (nexthops rt). nh_ok (next_ptr s) rt nh)) \<and>
     mset (all_nexthops s) = mset (filter has_ip (concat (map nexthops rts)))"

definition cache_wf :: "l3 \<Rightarrow> bool" where
  "cache_wf s \<longleftrightarrow> cache_inv (all_routes s) s"

lemma mset_concat_map_perm:
  assumes "mset rts = mset rts'"
  shows "mset (concat (map f rts)) = mset (concat (map f rts'))"
proof -
  have "mset (concat (map f xs)) = (\<Sum>x\<in>#mset xs. mset (f x))" for xs by (induction xs) auto
  with assms show ?thesis by simp
qed

lemma cache_inv_perm:
  assumes "mset rts = mset rts'" "cache_inv rts s"
  shows "cache_inv rts' s"
proof -
  note conc = mset_concat_map_perm [OF assms(1), of nexthops]
  have "mset (map rid rts) = mset (map rid rts')"
    "mset (map nid (concat (map nexthops rts))) = mset (map nid (concat (map nexthops rts')))"
    using assms(1) conc by (simp_all only: mset_map)
  then have "distinct (map rid rts')" "distinct (map nid (concat (map nexthops rts')))"
    using assms(2) by (auto simp only: cache_inv_def dest: mset_eq_imp_distinct_iff)
  moreover have "set rts' = set rts" using assms(1) by (metis set_mset_mset)
  ultimately show ?thesis
    using assms(2) conc by (simp add: cache_inv_def del: mset_map)
qed

lemma cache_inv_cong:
  assumes "all_nexthops s' = all_nexthops s" "next_ptr s' = next_ptr s"
  shows "cache_inv rts s' = cache_inv rts s"
  using assms by (simp add: cache_inv_def)

lemma cache_wf_cong:
  assumes "all_nexthops s' = all_nexthops s" "next_ptr s' = next_ptr s" "all_routes s' = all_routes s"
  shows "cache_wf s' = cache_wf s"
  using assms by (simp add: cache_wf_def cache_inv_def)

lemma filter_nid_fresh:
  "nid nh \<notin> nid ` set xs \<Longrightarrow> filter (\<lambda>x. nid x \<noteq> nid nh) xs = xs"
  by (auto simp: filter_id_conv image_iff)

lemma distinct_nid_unique:
  "distinct (map nid xs) \<Longrightarrow> x \<in> set xs \<Longrightarrow> y \<in> set xs \<Longrightarrow> nid x = nid y \<Longrightarrow> x = y"
  by (auto simp: distinct_map inj_on_def)

lemma nexthop_delete_inv:
  assumes "cache_inv (rt # rts) s" "nh \<in> set (nexthops rt)" "vrf_nexthop_delete rt nh s = (rt', s')"
  shows "cache_inv (rt' # rts) s'"
proof -
  let ?rest = "concat (map nexthops rts)" and ?keep = "\<lambda>x. nid x \<noteq> nid nh"
  from assms(1) have dist: "distinct (map nid (nexthops rt))" "distinct (map nid ?rest)"
      "nid ` set (nexthops rt) \<inter> nid ` set ?rest = {}"
    and all: "mset (all_nexthops s) = mset (filter has_ip (nexthops rt @ ?rest))"
    by (auto simp: cache_inv_def)
  have fresh: "nid nh \<notin> nid ` set ?rest" using dist(3) assms(2) by blast
  have rt': "rt' = rt\<lparr>nexthops := filter ?keep (nexthops rt)\<rparr>"
    and s': "s' = (if has_ip nh then s\<lparr>all_nexthops := filter ?keep (all_nexthops s)\<rparr> else s)"
    using assms(3) by (auto simp: vrf_nexthop_delete_def has_ip_def)
  have ip_filter: "filter has_ip (filter ?keep (nexthops rt)) = filter has_ip (nexthops rt)" if "\<not> has_ip nh"
    unfolding filter_filter using distinct_nid_unique [OF dist(1)] assms(2) that
    by (intro filter_cong) auto
  have "mset (filter ?keep (all_nexthops s)) = mset (filter has_ip (filter ?keep (nexthops rt) @ ?rest))"
  proof -
    have "mset (filter ?keep (all_nexthops s)) = filter_mset ?keep (mset (filter has_ip (nexthops rt @ ?rest)))"
      by (simp only: mset_filter all)
    also have "\<dots> = mset (filter has_ip (filter ?keep (nexthops rt) @ filter ?keep ?rest))"
      by (simp add: filter_filter_mset conj_commute)
    finally show ?thesis by (simp only: filter_nid_fresh [OF fresh])
  qed
  then have "mset (all_nexthops s') = mset (filter has_ip (concat (map nexthops (rt' # rts))))"
    using all ip_filter by (auto simp: s' rt' simp del: mset_filter filter_filter)
  moreover have "distinct (map nid (filter ?keep (nexthops rt)))"
    using dist(1) by (rule distinct_map_filter)
  ultimately show ?thesis
    using assms(1) by (auto simp: cache_inv_def rt' s' nh_ok_def)
qed

lemma nexthop_add_inv:
  assumes "cache_inv (rt # rts) s" "vrf_nexthop_add rt row s = (nh, rt', s')"
  shows "cache_inv (rt' # rts) s'"
proof (cases "nh_row_valid row")
  case True
  define h where "h = \<lparr>nid = next_ptr s, ip_addr = nhr_ip_address row,
      port_name = (if nhr_ip_address row = None then nh_row_port row else None),
      hw_programmed = False, nh_route = rid rt, nh_idl_row_uuid = nhr_uuid row\<rparr>"
  have rt': "rt' = rt\<lparr>nexthops := nexthops rt @ [h]\<rparr>"
    and s': "next_ptr s' = Suc (next_ptr s)"
      "all_nexthops s' = (if has_ip h then all_nexthops s @ [h] else all_nexthops s)"
    using assms(2) True by (auto simp: vrf_nexthop_add_def Let_def h_def has_ip_def)
  have h: "nid h = next_ptr s" "nh_ok (next_ptr s') rt' h"
    using True by (auto simp: h_def nh_ok_def rt' s' nh_row_valid_def nh_row_port_def split: list.split)
  have fresh: "next_ptr s \<notin> nid ` set (concat (map nexthops (rt # rts)))"
    using assms(1) by (fastforce simp: cache_inv_def nh_ok_def)
  then have "distinct (map nid (concat (map nexthops (rt' # rts))))"
    using assms(1) h(1) by (auto simp: cache_inv_def rt')
  moreover have "mset (all_nexthops s') = mset (filter has_ip (concat (map nexthops (rt' # rts))))"
    using assms(1) by (auto simp: cache_inv_def rt' s')
  moreover have "\<forall>r\<in>set (rt' # rts). rid r < next_ptr s' \<and> (\<forall>nh\<in>set (nexthops r). nh_ok (next_ptr s') r nh)"
  proof -
    have "\<forall>r\<in>set rts. \<forall>x\<in>set (nexthops r). nh_ok (next_ptr s') r x"
      using assms(1) s'(1) by (auto simp: cache_inv_def nh_ok_def less_Suc_eq)
    moreover have "\<forall>x\<in>set (nexthops rt). nh_ok (next_ptr s') rt' x"
      using assms(1) s'(1) by (auto simp: cache_inv_def rt' nh_ok_def less_Suc_eq)
    moreover have "\<forall>r\<in>set (rt # rts). rid r < next_ptr s'"
      using assms(1) s'(1) by (auto simp: cache_inv_def)
    moreover have "set (nexthops rt') = insert h (set (nexthops rt))" "rid rt' = rid rt"
      by (simp_all add: rt')
    ultimately show ?thesis using h(2) by simp
  qed
  ultimately show ?thesis using assms(1) by (simp add: cache_inv_def rt')
qed (use assms in \<open>simp add: vrf_nexthop_add_def\<close>)

lemma neighbor_hash_lookup_cong:
  "all_neighbors s' = all_neighbors s \<Longrightarrow> neighbor_hash_lookup env s' ip = neighbor_hash_lookup env s ip"
  by (simp add: neighbor_hash_lookup_def)

lemma set_nh_cong:
  assumes "all_neighbors s' = all_neighbors s"
  shows "vrf_ofproto_set_nh env s' nh = vrf_ofproto_set_nh env s nh"
    and "vrf_ofproto_update_resolved_nh env s' nh = vrf_ofproto_update_resolved_nh env s nh"
proof -
  have eq: "resolved_egress env s' = resolved_egress env s"
    by (rule ext) (simp add: resolved_egress_def neighbor_hash_lookup_cong [OF assms])
  show "vrf_ofproto_set_nh env s' nh = vrf_ofproto_set_nh env s nh"
    "vrf_ofproto_update_resolved_nh env s' nh = vrf_ofproto_update_resolved_nh env s nh"
    unfolding vrf_ofproto_set_nh_def vrf_ofproto_update_resolved_nh_def eq by (rule refl)+
qed

text \<open>What taking nexthops off a route does.\<close>

lemma delete_route_nhs_effect:
  assumes "delete_route_nhs env nhs rt s = (onhs, rt', s')"
  shows "onhs = map (vrf_ofproto_set_nh env s) nhs"
    and "rt' = rt\<lparr>nexthops := filter (\<lambda>x. nid x \<notin> nid ` set nhs) (nexthops rt)\<rparr>"
    and "\<exists>a. s' = s\<lparr>all_nexthops := a\<rparr>"
proof -
  have "onhs = map (vrf_ofproto_set_nh env s) nhs \<and>
      rt' = rt\<lparr>nexthops := filter (\<lambda>x. nid x \<notin> nid ` set nhs) (nexthops rt)\<rparr> \<and> (\<exists>a. s' = s\<lparr>all_nexthops := a\<rparr>)"
    using assms
  proof (induction nhs arbitrary: rt s onhs)
    case Nil
    have "s = s\<lparr>all_nexthops := all_nexthops s\<rparr>" by simp
    with Nil show ?case by (auto intro: exI [of _ "all_nexthops s"])
  next
    case (Cons nh nhs)
    obtain rt1 s1 where 1: "vrf_nexthop_delete rt nh s = (rt1, s1)" by (cases "vrf_nexthop_delete rt nh s")
    obtain onhs2 where 2: "delete_route_nhs env nhs rt1 s1 = (onhs2, rt', s')"
      "onhs = vrf_ofproto_set_nh env s nh # onhs2"
      using Cons.prems 1 by (auto simp: Let_def split: prod.splits)
    have s1: "\<exists>a. s1 = s\<lparr>all_nexthops := a\<rparr>" "all_neighbors s1 = all_neighbors s"
      using 1 by (auto simp: vrf_nexthop_delete_def split: if_splits intro: exI [of _ "all_nexthops s"])
    have "rt1 = rt\<lparr>nexthops := filter (\<lambda>x. nid x \<noteq> nid nh) (nexthops rt)\<rparr>"
      using 1 by (simp add: vrf_nexthop_delete_def)
    with Cons.IH [OF 2(1)] 2(2) s1 set_nh_cong(1) [OF s1(2)] show ?case
      by (auto intro!: filter_cong)
  qed
  then show "onhs = map (vrf_ofproto_set_nh env s) nhs"
    "rt' = rt\<lparr>nexthops := filter (\<lambda>x. nid x \<notin> nid ` set nhs) (nexthops rt)\<rparr>"
    "\<exists>a. s' = s\<lparr>all_nexthops := a\<rparr>" by blast+
qed

lemma delete_route_nhs_inv:
  assumes "cache_inv (rt # rts) s" "set nhs \<subseteq> set (nexthops rt)" "distinct (map nid nhs)"
    "delete_route_nhs env nhs rt s = (onhs, rt', s')"
  shows "cache_inv (rt' # rts) s'"
  using assms
proof (induction nhs arbitrary: rt s onhs)
  case (Cons nh nhs)
  obtain rt1 s1 where 1: "vrf_nexthop_delete rt nh s = (rt1, s1)" by (cases "vrf_nexthop_delete rt nh s")
  obtain onhs2 where 2: "delete_route_nhs env nhs rt1 s1 = (onhs2, rt', s')"
    using Cons.prems 1 by (auto simp: Let_def split: prod.splits)
  have "cache_inv (rt1 # rts) s1" using nexthop_delete_inv [OF Cons.prems(1) _ 1] Cons.prems(2) by simp
  moreover have "set nhs \<subseteq> set (nexthops rt1)"
  proof
    fix x assume "x \<in> set nhs"
    with Cons.prems(2,3) have "x \<in> set (nexthops rt)" "nid x \<noteq> nid nh" by (auto simp: image_iff)
    with 1 show "x \<in> set (nexthops rt1)" by (auto simp: vrf_nexthop_delete_def)
  qed
  ultimately show ?case using Cons.IH [OF _ _ _ 2] Cons.prems(3) by simp
qed simp

text \<open>What adding nexthops to a route does.\<close>

definition grows :: "route \<Rightarrow> l3 \<Rightarrow> route \<Rightarrow> l3 \<Rightarrow> bool" where
  "grows rt s rt' s' \<longleftrightarrow>
     rid rt' = rid rt \<and> rt_prefix rt' = rt_prefix rt \<and> rt_from rt' = rt_from rt \<and> is_ipv6 rt' = is_ipv6 rt \<and>
     vrf_name s' = vrf_name s \<and> vrf_ports s' = vrf_ports s \<and> all_routes s' = all_routes s \<and>
     all_neighbors s' = all_neighbors s \<and> l3_log s' = l3_log s \<and> nh_status s' = nh_status s \<and>
     ecmp_config s' = ecmp_config s"

lemma grows_refl [simp]: "grows rt s rt s"
  by (simp add: grows_def)

lemma grows_trans [trans]: "grows rt s rt1 s1 \<Longrightarrow> grows rt1 s1 rt2 s2 \<Longrightarrow> grows rt s rt2 s2"
  by (simp add: grows_def)

lemma nexthop_add_effect:
  assumes "vrf_nexthop_add rt row s = (nh, rt', s')"
  shows "grows rt s rt' s'"
    and "nh_row_valid row \<Longrightarrow> \<exists>h. nh = Some h \<and> nexthops rt' = nexthops rt @ [h] \<and> nh_key h = nh_row_key row \<and>
           (ip_addr h = None \<longleftrightarrow> port_name h \<noteq> None) \<and> ip_addr h = nhr_ip_address row \<and>
           (nhr_ip_address row = None \<longrightarrow> port_name h = nh_row_port row)"
    and "\<not> nh_row_valid row \<Longrightarrow> nh = None \<and> rt' = rt \<and> s' = s"
proof -
  show "grows rt s rt' s'"
    using assms by (auto simp: grows_def vrf_nexthop_add_def Let_def split: if_splits)
  show "\<not> nh_row_valid row \<Longrightarrow> nh = None \<and> rt' = rt \<and> s' = s"
    using assms by (simp add: vrf_nexthop_add_def)
  show "nh_row_valid row \<Longrightarrow> \<exists>h. nh = Some h \<and> nexthops rt' = nexthops rt @ [h] \<and> nh_key h = nh_row_key row \<and>
           (ip_addr h = None \<longleftrightarrow> port_name h \<noteq> None) \<and> ip_addr h = nhr_ip_address row \<and>
           (nhr_ip_address row = None \<longrightarrow> port_name h = nh_row_port row)"
    using assms
    by (cases nh; cases "nhr_ip_address row"; cases "nhr_ports row")
      (auto simp: vrf_nexthop_add_def Let_def nh_key_def nh_row_key_def nh_row_valid_def nh_row_port_def)
qed

lemma usable_valid: "nh_row_usable row \<Longrightarrow> nh_row_valid row"
  by (simp add: nh_row_usable_def)

lemma add_selected_nhs_effect:
  assumes "add_selected_nhs rows rt s = (rt', s')"
  shows "grows rt s rt' s' \<and> (cache_inv (rt # rts) s \<longrightarrow> cache_inv (rt' # rts) s') \<and>
    map nh_key (nexthops rt') = map nh_key (nexthops rt) @ map nh_row_key (filter nh_row_usable rows)"
  using assms
proof (induction rows arbitrary: rt s)
  case (Cons row rows)
  show ?case
  proof (cases "nh_row_usable row")
    case True
    obtain nh rt1 s1 where 1: "vrf_nexthop_add rt row s = (nh, rt1, s1)" by (cases "vrf_nexthop_add rt row s")
    with Cons.prems True have "add_selected_nhs rows rt1 s1 = (rt', s')" by simp
    from Cons.IH [OF this] nexthop_add_effect(1,2) [OF 1] usable_valid [OF True] nexthop_add_inv [OF _ 1, of rts]
    show ?thesis using grows_trans [of rt s rt1 s1 rt' s'] True by auto
  qed (use Cons in simp)
qed simp

lemma add_single_nhs_effect:
  assumes "add_single_nhs env rows rt s = (onhs, rt', s')"
  shows "grows rt s rt' s' \<and> (cache_inv (rt # rts) s \<longrightarrow> cache_inv (rt' # rts) s') \<and>
    map nh_key (nexthops rt') = map nh_key (nexthops rt) @ map nh_row_key (filter nh_row_usable rows)"
  using assms
proof (induction rows arbitrary: rt s onhs)
  case (Cons row rows)
  show ?case
  proof (cases "nh_row_usable row")
    case True
    obtain nh rt1 s1 where 1: "vrf_nexthop_add rt row s = (nh, rt1, s1)" by (cases "vrf_nexthop_add rt row s")
    obtain h where h: "nh = Some h" using nexthop_add_effect(2) [OF 1 usable_valid [OF True]] by auto
    with Cons.prems True 1 obtain onhs1 where "add_single_nhs env rows rt1 s1 = (onhs1, rt', s')"
      by (auto simp: Let_def split: prod.splits)
    from Cons.IH [OF this] nexthop_add_effect(1,2) [OF 1] usable_valid [OF True] nexthop_add_inv [OF _ 1, of rts]
    show ?thesis using grows_trans [of rt s rt1 s1 rt' s'] True by auto
  qed (use Cons in simp)
qed simp

lemma nexthop_lookup_SomeD:
  assumes "vrf_route_nexthop_lookup env rt ip port = Some nh"
  shows "nh \<in> set (nexthops rt)"
    and "ip_addr nh \<noteq> None \<and> ip_addr nh = ip \<or> port_name nh \<noteq> None \<and> port_name nh = port"
  using assms by (auto simp: vrf_route_nexthop_lookup_def split: option.splits dest!: find_Some_conv)

text \<open>
  The comment above the code: a nexthop has either an address or a port, but not both.
\<close>

definition nh_row_single :: "nexthop_row \<Rightarrow> bool" where
  "nh_row_single r \<longleftrightarrow> nhr_ip_address r = None \<or> nhr_ports r = []"

lemma nexthop_lookup_key:
  assumes "vrf_route_nexthop_lookup env rt (nhr_ip_address row) (nh_row_port row) = Some nh"
    and "nh_row_single row" "\<forall>nh\<in>set (nexthops rt). ip_addr nh = None \<longleftrightarrow> port_name nh \<noteq> None"
  shows "nh_key nh = nh_row_key row"
  using nexthop_lookup_SomeD [OF assms(1)] assms(2,3)
  by (auto simp: nh_row_single_def nh_key_def nh_row_key_def nh_row_port_def split: option.splits list.splits)

definition nhs_single :: "route \<Rightarrow> bool" where
  "nhs_single rt \<longleftrightarrow> (\<forall>nh\<in>set (nexthops rt). ip_addr nh = None \<longleftrightarrow> port_name nh \<noteq> None)"

lemma cache_inv_single: "cache_inv (rt # rts) s \<Longrightarrow> nhs_single rt"
  by (simp add: cache_inv_def nhs_single_def nh_ok_def)

lemma add_new_nhs_effect:
  assumes "add_new_nhs env is_ecmp rows rt s = (onhs, rt', s')"
  shows "grows rt s rt' s' \<and> (cache_inv (rt # rts) s \<longrightarrow> cache_inv (rt' # rts) s') \<and>
    (nhs_single rt \<longrightarrow> (\<forall>row\<in>set rows. nh_row_valid row \<and> nh_row_single row) \<longrightarrow>
       nhs_single rt' \<and> nh_key ` set (nexthops rt') = nh_key ` set (nexthops rt) \<union> nh_row_key ` set rows)"
  using assms
proof (induction rows arbitrary: rt s onhs)
  case (Cons row rows)
  let ?lookup = "vrf_route_nexthop_lookup env rt (nhr_ip_address row) (nh_row_port row)"
  obtain nh rt1 s1 where 1: "vrf_nexthop_add rt row s = (nh, rt1, s1)" by (cases "vrf_nexthop_add rt row s")
  note eff = nexthop_add_effect [OF 1]
  show ?case
  proof (cases ?lookup)
    case None
    obtain onhs1 where "add_new_nhs env is_ecmp rows rt1 s1 = (onhs1, rt', s')"
      using Cons.prems None 1 by (cases nh) (auto simp: Let_def split: prod.splits)
    note IH = Cons.IH [OF this]
    have "nhs_single rt1 \<and> nh_key ` set (nexthops rt1) = insert (nh_row_key row) (nh_key ` set (nexthops rt))"
      if "nhs_single rt" "nh_row_valid row"
      using eff(2) [OF that(2)] that(1) by (auto simp: nhs_single_def) metis
    then show ?thesis
      using IH eff(1) grows_trans [of rt s rt1 s1 rt' s'] nexthop_add_inv [OF _ 1, of rts] by auto
  next
    case (Some nh')
    then have "add_new_nhs env is_ecmp rows rt s = (onhs, rt', s')" using Cons.prems by simp
    note IH = Cons.IH [OF this]
    have "nh_row_key row \<in> nh_key ` set (nexthops rt)" if "nhs_single rt" "nh_row_single row"
      using nexthop_lookup_key [OF Some that(2)] nexthop_lookup_SomeD(1) [OF Some] that(1)
      by (metis nhs_single_def image_eqI)
    then show ?thesis using IH by auto
  qed
qed simp

section \<open>Routes in the cache\<close>

definition rt_key :: "route \<Rightarrow> string \<times> string" where "rt_key rt = (rt_from rt, rt_prefix rt)"
definition rr_key :: "route_row \<Rightarrow> string \<times> string" where "rr_key row = (rr_from row, rr_prefix row)"

lemma route_lookup_iff:
  "vrf_route_hash_lookup env s row = List.find (\<lambda>rt. rt_key rt = rr_key row) (all_routes s)"
proof -
  have "(\<lambda>rt. hash_string env (vrf_route_hash (rt_from rt) (rt_prefix rt) VRF_ROUTE_HASH_MAXSIZE) =
        hash_string env (vrf_route_hash (rr_from row) (rr_prefix row) VRF_ROUTE_HASH_MAXSIZE) \<and>
        rt_prefix rt = rr_prefix row \<and> rt_from rt = rr_from row) = (\<lambda>rt. rt_key rt = rr_key row)"
    by (auto simp: rt_key_def rr_key_def)
  then show ?thesis by (simp add: vrf_route_hash_lookup_def)
qed

text \<open>What the cache keeps of everything but its routes and nexthops.\<close>

definition keeps_vrf :: "l3 \<Rightarrow> l3 \<Rightarrow> bool" where
  "keeps_vrf s s' \<longleftrightarrow> vrf_name s' = vrf_name s \<and> vrf_ports s' = vrf_ports s \<and>
     all_neighbors s' = all_neighbors s \<and> ecmp_config s' = ecmp_config s"

lemma keeps_vrf_refl [simp]: "keeps_vrf s s"
  by (simp add: keeps_vrf_def)

lemma keeps_vrf_trans: "keeps_vrf s s1 \<Longrightarrow> keeps_vrf s1 s2 \<Longrightarrow> keeps_vrf s s2"
  by (simp add: keeps_vrf_def)

text \<open>The states inside \<open>vrf_route_add\<close>: the fresh route, its nexthops, the push, the insertion.\<close>

lemma route_add_parts:
  assumes "cache_wf s"
  obtains rt0 s0 onhs rt s1 where
    "nexthops rt0 = []" "rt_prefix rt0 = rr_prefix row" "rt_from rt0 = rr_from row"
    "keeps_vrf s s0" "all_routes s0 = all_routes s" "l3_log s0 = l3_log s"
    "(if length (rr_nexthops row) > 1 then vrf_ofproto_add_resolved_nh env row rt0 s0
      else add_single_nhs env (rr_nexthops row) rt0 s0) = (onhs, rt, s1)"
    "grows rt0 s0 rt s1" "cache_inv (rt # all_routes s) s1"
    "map nh_key (nexthops rt) = map nh_row_key (filter nh_row_usable (rr_nexthops row))"
    "vrf_route_add env row s =
       (let s2 = if onhs \<noteq> [] then vrf_ofproto_route_add env onhs rt s1 else s1 in s2\<lparr>all_routes := all_routes s @ [rt]\<rparr>)"
proof -
  define rt0 where "rt0 = \<lparr>rid = next_ptr s, rt_prefix = rr_prefix row, rt_from = rr_from row,
      is_ipv6 = (rr_address_family row = Some (ADDRESS_FAMILY_IPV6 env)), nexthops = [], rt_idl_row_uuid = rr_uuid row\<rparr>"
  define s0 where "s0 = s\<lparr>next_ptr := Suc (next_ptr s)\<rparr>"
  obtain onhs rt s1 where 1: "(if length (rr_nexthops row) > 1 then vrf_ofproto_add_resolved_nh env row rt0 s0
      else add_single_nhs env (rr_nexthops row) rt0 s0) = (onhs, rt, s1)"
    by (rule prod_cases3)
  have inv0: "cache_inv (rt0 # all_routes s) s0"
    using assms by (auto simp: cache_wf_def cache_inv_def rt0_def s0_def nh_ok_def less_Suc_eq)
  have 2: "grows rt0 s0 rt s1 \<and> (cache_inv (rt0 # all_routes s) s0 \<longrightarrow> cache_inv (rt # all_routes s) s1) \<and>
      map nh_key (nexthops rt) = map nh_key (nexthops rt0) @ map nh_row_key (filter nh_row_usable (rr_nexthops row))"
  proof (cases "length (rr_nexthops row) > 1")
    case True
    then have "add_selected_nhs (rr_nexthops row) rt0 s0 = (rt, s1)"
      using 1 by (auto simp: vrf_ofproto_add_resolved_nh_def Let_def split: prod.splits)
    then show ?thesis by (rule add_selected_nhs_effect)
  next
    case False
    with 1 have "add_single_nhs env (rr_nexthops row) rt0 s0 = (onhs, rt, s1)" by simp
    then show ?thesis by (rule add_single_nhs_effect)
  qed
  have "all_routes s1 = all_routes s" using 2 by (simp add: grows_def s0_def)
  with 1 have "vrf_route_add env row s =
      (let s2 = if onhs \<noteq> [] then vrf_ofproto_route_add env onhs rt s1 else s1 in s2\<lparr>all_routes := all_routes s @ [rt]\<rparr>)"
    unfolding vrf_route_add_def Let_def rt0_def [symmetric] s0_def [symmetric] by simp
  with 1 2 inv0 show thesis
    by (intro that [of rt0 s0 onhs rt s1]) (simp_all add: rt0_def s0_def keeps_vrf_def)
qed

lemma route_add_effect:
  assumes "cache_wf s"
  shows "cache_wf (vrf_route_add env row s)" "keeps_vrf s (vrf_route_add env row s)"
    "\<exists>rt. all_routes (vrf_route_add env row s) = all_routes s @ [rt] \<and> rt_key rt = rr_key row \<and>
       map nh_key (nexthops rt) = map nh_row_key (filter nh_row_usable (rr_nexthops row))"
proof -
  obtain rt0 s0 onhs rt s1 where parts: "rt_prefix rt0 = rr_prefix row" "rt_from rt0 = rr_from row" "keeps_vrf s s0"
    "grows rt0 s0 rt s1" "cache_inv (rt # all_routes s) s1"
    "map nh_key (nexthops rt) = map nh_row_key (filter nh_row_usable (rr_nexthops row))"
    "vrf_route_add env row s =
       (let s2 = if onhs \<noteq> [] then vrf_ofproto_route_add env onhs rt s1 else s1 in s2\<lparr>all_routes := all_routes s @ [rt]\<rparr>)"
    by (rule route_add_parts [OF assms, of row env])
  have "cache_inv (all_routes s @ [rt]) s1" using cache_inv_perm [OF _ parts(5)] by simp
  then show "cache_wf (vrf_route_add env row s)" by (simp add: cache_wf_def parts(7) Let_def cache_inv_def)
  show "keeps_vrf s (vrf_route_add env row s)"
    using parts(3,4) by (simp add: parts(7) Let_def keeps_vrf_def grows_def)
  have "rt_key rt = rr_key row" using parts(1,2,4) by (simp add: rt_key_def rr_key_def grows_def)
  with parts(6) show "\<exists>rt. all_routes (vrf_route_add env row s) = all_routes s @ [rt] \<and> rt_key rt = rr_key row \<and>
       map nh_key (nexthops rt) = map nh_row_key (filter nh_row_usable (rr_nexthops row))"
    by (auto simp: parts(7) Let_def)
qed

lemma filter_rid:
  assumes "distinct (map rid rts)" "rt \<in> set rts"
  shows "mset rts = add_mset rt (mset (filter (\<lambda>x. rid x \<noteq> rid rt) rts))"
    and "filter (\<lambda>x. rid x = rid rt) rts = [rt]"
proof -
  show 1: "filter (\<lambda>x. rid x = rid rt) rts = [rt]"
    using assms by (induction rts) (auto simp: filter_empty_conv image_iff)
  have "mset rts = mset (filter (\<lambda>x. rid x = rid rt) rts) + mset (filter (\<lambda>x. rid x \<noteq> rid rt) rts)"
    using multiset_partition [of "mset rts" "\<lambda>x. rid x = rid rt"] by simp
  then show "mset rts = add_mset rt (mset (filter (\<lambda>x. rid x \<noteq> rid rt) rts))" by (simp add: 1)
qed

lemma cache_wf_split:
  assumes "cache_wf s" "rt \<in> set (all_routes s)"
  shows "cache_inv (rt # filter (\<lambda>x. rid x \<noteq> rid rt) (all_routes s)) s"
proof -
  from assms have "distinct (map rid (all_routes s))" by (simp add: cache_wf_def cache_inv_def)
  with assms filter_rid(1) [OF this assms(2)] show ?thesis
    unfolding cache_wf_def by (auto intro: cache_inv_perm)
qed

lemma cache_inv_nhs: "cache_inv (rt # rts) s \<Longrightarrow> distinct (map nid (nexthops rt))"
  by (simp add: cache_inv_def)

lemma cache_inv_drop_empty: "cache_inv (rt # rts) s \<Longrightarrow> nexthops rt = [] \<Longrightarrow> cache_inv rts s"
  by (simp add: cache_inv_def)

lemma route_delete_effect:
  assumes "cache_wf s" "rt \<in> set (all_routes s)"
  shows "cache_wf (vrf_route_delete env rt s)" "keeps_vrf s (vrf_route_delete env rt s)"
    "all_routes (vrf_route_delete env rt s) = filter (\<lambda>x. rid x \<noteq> rid rt) (all_routes s)"
proof -
  let ?rts = "filter (\<lambda>x. rid x \<noteq> rid rt) (all_routes s)"
  define s0 where "s0 = s\<lparr>all_routes := ?rts\<rparr>"
  obtain onhs rt1 s1 where 1: "delete_route_nhs env (nexthops rt) rt s0 = (onhs, rt1, s1)"
    by (cases "delete_route_nhs env (nexthops rt) rt s0")
  have inv0: "cache_inv (rt # ?rts) s0"
    using cache_wf_split [OF assms] by (simp add: s0_def cache_inv_def)
  have "cache_inv (rt1 # ?rts) s1"
    using delete_route_nhs_inv [OF inv0 _ cache_inv_nhs [OF inv0] 1] by simp
  moreover have "nexthops rt1 = []"
    using delete_route_nhs_effect(2) [OF 1] by (auto simp: filter_empty_conv)
  ultimately have inv: "cache_inv ?rts s1" by (rule cache_inv_drop_empty)
  have s1: "all_routes s1 = ?rts" "keeps_vrf s s1"
    using delete_route_nhs_effect(3) [OF 1] by (auto simp: s0_def keeps_vrf_def)
  have res: "vrf_route_delete env rt s = (if onhs \<noteq> [] then vrf_ofproto_route_delete env onhs rt1 True s1 else s1)"
    using 1 by (simp add: vrf_route_delete_def Let_def s0_def)
  show "cache_wf (vrf_route_delete env rt s)"
    using inv s1(1) by (simp add: cache_wf_def res cache_inv_def)
  show "keeps_vrf s (vrf_route_delete env rt s)" "all_routes (vrf_route_delete env rt s) = ?rts"
    using s1 by (auto simp: res keeps_vrf_def)
qed

lemma mset_put:
  assumes "distinct (map rid rts)" "rt \<in> set rts"
  shows "mset (map (\<lambda>x. if rid x = rid rt then rt' else x) rts) = add_mset rt' (mset (filter (\<lambda>x. rid x \<noteq> rid rt) rts))"
proof -
  let ?put = "\<lambda>x. if rid x = rid rt then rt' else x"
  have "mset (map ?put rts) = image_mset ?put (add_mset rt (mset (filter (\<lambda>x. rid x \<noteq> rid rt) rts)))"
    by (simp only: mset_map filter_rid(1) [OF assms, symmetric])
  also have "image_mset ?put (mset (filter (\<lambda>x. rid x \<noteq> rid rt) rts)) = mset (filter (\<lambda>x. rid x \<noteq> rid rt) rts)"
    by (subst image_mset_cong [of _ _ id]) auto
  then have "image_mset ?put (add_mset rt (mset (filter (\<lambda>x. rid x \<noteq> rid rt) rts))) =
      add_mset rt' (mset (filter (\<lambda>x. rid x \<noteq> rid rt) rts))" by simp
  finally show ?thesis .
qed

text \<open>
  The states inside \<open>vrf_route_modify\<close>: the nexthops that lost their row leave, the new ones join, the
  route is stored.
\<close>

definition current_nhs :: "route_row \<Rightarrow> (string \<times> nexthop_row) list" where
  "current_nhs row = shash_collect nh_row_key (filter nh_row_usable (rr_nexthops row))"

definition gone_nhs :: "route \<Rightarrow> route_row \<Rightarrow> nexthop list" where
  "gone_nhs rt row = filter (\<lambda>nh. shash_find_data (current_nhs row) (nh_key nh) = None) (nexthops rt)"

lemma current_nhs_keys:
  "nh_row_key ` set (map snd (current_nhs row)) = nh_row_key ` {r \<in> set (rr_nexthops row). nh_row_usable r}"
  "r \<in> set (map snd (current_nhs row)) \<Longrightarrow> r \<in> set (rr_nexthops row) \<and> nh_row_valid r"
  "shash_find_data (current_nhs row) k \<noteq> None \<longleftrightarrow> k \<in> nh_row_key ` set (map snd (current_nhs row))"
  unfolding current_nhs_def using collect_row_keys [of nh_row_key "filter nh_row_usable (rr_nexthops row)"]
  by (auto simp: map_of_eq_None_iff image_iff simp flip: not_None_eq dest!: shash_collect_key intro: usable_valid)

lemma gone_nids:
  assumes "distinct (map nid (nexthops rt))" "x \<in> set (nexthops rt)"
  shows "nid x \<in> nid ` set (gone_nhs rt row) \<longleftrightarrow> shash_find_data (current_nhs row) (nh_key x) = None"
  using distinct_nid_unique [OF assms(1)] assms(2) by (auto simp: gone_nhs_def)

lemma route_modify_parts:
  assumes "cache_wf s" "rt \<in> set (all_routes s)"
  obtains s1 s2 rt1 onhs rt2 s3 where
    "rt1 = rt\<lparr>nexthops := filter (\<lambda>x. shash_find_data (current_nhs row) (nh_key x) \<noteq> None) (nexthops rt)\<rparr>"
    "\<exists>a. s1 = s\<lparr>all_nexthops := a\<rparr>"
    "s2 = (if gone_nhs rt row \<noteq> []
           then vrf_ofproto_route_delete env (map (vrf_ofproto_set_nh env s) (gone_nhs rt row)) rt1 False s1 else s1)"
    "add_new_nhs env (length (rr_nexthops row) > 1) (map snd (current_nhs row)) rt1 s2 = (onhs, rt2, s3)"
    "cache_inv (rt1 # filter (\<lambda>x. rid x \<noteq> rid rt) (all_routes s)) s2"
    "cache_inv (rt2 # filter (\<lambda>x. rid x \<noteq> rid rt) (all_routes s)) s3"
    "grows rt1 s2 rt2 s3"
    "vrf_route_modify env rt row s =
       (if onhs \<noteq> [] then vrf_ofproto_route_add env onhs rt2 (put_route rt2 s3) else put_route rt2 s3)"
proof -
  let ?rts = "filter (\<lambda>x. rid x \<noteq> rid rt) (all_routes s)" and ?gone = "gone_nhs rt row"
  obtain onhs1 rt1 s1 where 1: "delete_route_nhs env ?gone rt s = (onhs1, rt1, s1)" by (rule prod_cases3)
  define s2 where "s2 = (if onhs1 \<noteq> [] then vrf_ofproto_route_delete env onhs1 rt1 False s1 else s1)"
  obtain onhs rt2 s3 where 2: "add_new_nhs env (length (rr_nexthops row) > 1) (map snd (current_nhs row)) rt1 s2 = (onhs, rt2, s3)"
    by (rule prod_cases3)
  note eff = delete_route_nhs_effect [OF 1]
  note inv0 = cache_wf_split [OF assms]
  have "cache_inv (rt1 # ?rts) s1"
    using delete_route_nhs_inv [OF inv0 _ distinct_map_filter [OF cache_inv_nhs [OF inv0]] 1 [unfolded gone_nhs_def]]
    by simp
  then have inv1: "cache_inv (rt1 # ?rts) s2" by (simp add: s2_def cache_inv_def)
  note add = add_new_nhs_effect [OF 2, of ?rts]
  have rt1: "rt1 = rt\<lparr>nexthops := filter (\<lambda>x. shash_find_data (current_nhs row) (nh_key x) \<noteq> None) (nexthops rt)\<rparr>"
    unfolding eff(2) using gone_nids [OF cache_inv_nhs [OF inv0], of _ row] by (simp cong: filter_cong)
  have "vrf_route_modify env rt row s =
      (if onhs \<noteq> [] then vrf_ofproto_route_add env onhs rt2 (put_route rt2 s3) else put_route rt2 s3)"
    using 1 2 by (simp add: vrf_route_modify_def Let_def current_nhs_def gone_nhs_def s2_def)
  with rt1 eff(1,3) 2 inv1 add show thesis by (intro that [of rt1 s1 s2 onhs rt2 s3]) (simp_all add: s2_def)
qed

lemma put_route_effect:
  assumes "distinct (map rid (all_routes s))" "rt \<in> set (all_routes s)" "rid rt' = rid rt"
    "all_routes s' = all_routes s" "cache_inv (rt' # filter (\<lambda>x. rid x \<noteq> rid rt) (all_routes s)) s'"
  shows "cache_wf (put_route rt' s')"
    "all_routes (put_route rt' s') = map (\<lambda>x. if rid x = rid rt then rt' else x) (all_routes s)"
proof -
  show routes: "all_routes (put_route rt' s') = map (\<lambda>x. if rid x = rid rt then rt' else x) (all_routes s)"
    using assms(3,4) by (simp add: put_route_def)
  have "cache_inv (all_routes (put_route rt' s')) s'"
    unfolding routes by (intro cache_inv_perm [OF _ assms(5)]) (simp add: mset_put assms(1,2) del: mset_map)
  then show "cache_wf (put_route rt' s')"
    using cache_inv_cong [of "put_route rt' s'" s'] by (simp add: cache_wf_def put_route_def)
qed

lemma route_modify_effect:
  assumes "cache_wf s" "rt \<in> set (all_routes s)"
  shows "cache_wf (vrf_route_modify env rt row s) \<and> keeps_vrf s (vrf_route_modify env rt row s) \<and>
    (\<exists>rt'. all_routes (vrf_route_modify env rt row s) = map (\<lambda>x. if rid x = rid rt then rt' else x) (all_routes s) \<and>
       rt_key rt' = rt_key rt \<and> rid rt' = rid rt \<and>
       ((\<forall>r\<in>set (rr_nexthops row). nh_row_single r) \<longrightarrow>
          nh_key ` set (nexthops rt') = nh_row_key ` {r \<in> set (rr_nexthops row). nh_row_usable r}))"
proof -
  let ?rts = "filter (\<lambda>x. rid x \<noteq> rid rt) (all_routes s)"
  obtain s1 s2 rt1 onhs rt2 s3 where
    rt1: "rt1 = rt\<lparr>nexthops := filter (\<lambda>x. shash_find_data (current_nhs row) (nh_key x) \<noteq> None) (nexthops rt)\<rparr>"
    and s1: "\<exists>a. s1 = s\<lparr>all_nexthops := a\<rparr>"
    and s2: "s2 = (if gone_nhs rt row \<noteq> []
           then vrf_ofproto_route_delete env (map (vrf_ofproto_set_nh env s) (gone_nhs rt row)) rt1 False s1 else s1)"
    and add: "add_new_nhs env (length (rr_nexthops row) > 1) (map snd (current_nhs row)) rt1 s2 = (onhs, rt2, s3)"
    and inv: "cache_inv (rt1 # ?rts) s2" "cache_inv (rt2 # ?rts) s3" and g: "grows rt1 s2 rt2 s3"
    and res: "vrf_route_modify env rt row s =
       (if onhs \<noteq> [] then vrf_ofproto_route_add env onhs rt2 (put_route rt2 s3) else put_route rt2 s3)"
    by (rule route_modify_parts [OF assms, of row env])
  have s3: "all_routes s3 = all_routes s" "keeps_vrf s s3"
    using g s1 by (auto simp: s2 grows_def keeps_vrf_def)
  have rt2: "rid rt2 = rid rt" "rt_key rt2 = rt_key rt" using g by (auto simp: grows_def rt1 rt_key_def)
  have "distinct (map rid (all_routes s))" using assms by (simp add: cache_wf_def cache_inv_def)
  note put = put_route_effect [OF this assms(2) rt2(1) s3(1) inv(2)]
  have "nh_key ` set (nexthops rt2) = nh_row_key ` set (map snd (current_nhs row))"
    if "\<forall>r\<in>set (rr_nexthops row). nh_row_single r"
  proof -
    have "nh_key ` set (nexthops rt1) = nh_key ` set (nexthops rt) \<inter> nh_row_key ` set (map snd (current_nhs row))"
      using current_nhs_keys(3) by (auto simp: rt1)
    then show ?thesis
      using add_new_nhs_effect [OF add, of ?rts] cache_inv_single [OF inv(1)] that current_nhs_keys(2) by blast
  qed
  moreover have "cache_wf (vrf_route_modify env rt row s)"
    using put(1) cache_wf_cong [of "vrf_route_modify env rt row s" "put_route rt2 s3"] by (simp add: res)
  moreover have "keeps_vrf s (vrf_route_modify env rt row s)"
    using s3(2) by (simp add: res keeps_vrf_def put_route_def)
  moreover have "all_routes (vrf_route_modify env rt row s) = map (\<lambda>x. if rid x = rid rt then rt2 else x) (all_routes s)"
    using put(2) by (simp add: res)
  ultimately show ?thesis unfolding current_nhs_keys(1) using rt2 by blast
qed

section \<open>The set of cached routes\<close>

definition cache_keys :: "'a vrf_scheme \<Rightarrow> (string \<times> string) set" where
  "cache_keys s = rt_key ` set (all_routes s)"

definition cache_ok :: "l3 \<Rightarrow> bool" where
  "cache_ok s \<longleftrightarrow> cache_wf s \<and> distinct (map rt_key (all_routes s))"

lemma route_lookup_Some:
  "vrf_route_hash_lookup env s row = Some rt \<Longrightarrow> rt \<in> set (all_routes s) \<and> rt_key rt = rr_key row"
  by (auto simp: route_lookup_iff dest: find_Some_conv)

lemma route_lookup_None: "vrf_route_hash_lookup env s row = None \<longleftrightarrow> rr_key row \<notin> cache_keys s"
  by (auto simp: route_lookup_iff find_None_conv cache_keys_def image_iff)

lemma cache_add:
  assumes "cache_ok s" "rr_key row \<notin> cache_keys s"
  shows "cache_ok (vrf_route_add env row s)" "keeps_vrf s (vrf_route_add env row s)"
    "cache_keys (vrf_route_add env row s) = insert (rr_key row) (cache_keys s)"
proof -
  from assms have wf: "cache_wf s" by (simp add: cache_ok_def)
  note eff = route_add_effect [OF wf, of env row]
  from eff(3) obtain rt where rt: "all_routes (vrf_route_add env row s) = all_routes s @ [rt]" "rt_key rt = rr_key row"
    by auto
  with assms eff(1) show "cache_ok (vrf_route_add env row s)"
    by (auto simp: cache_ok_def cache_keys_def)
  show "keeps_vrf s (vrf_route_add env row s)" by (rule eff(2))
  show "cache_keys (vrf_route_add env row s) = insert (rr_key row) (cache_keys s)"
    using rt by (simp add: cache_keys_def)
qed

lemma cache_delete:
  assumes "cache_ok s" "rt \<in> set (all_routes s)"
  shows "cache_ok (vrf_route_delete env rt s)" "keeps_vrf s (vrf_route_delete env rt s)"
    "cache_keys (vrf_route_delete env rt s) = cache_keys s - {rt_key rt}"
proof -
  from assms have wf: "cache_wf s" and d: "distinct (map rt_key (all_routes s))" "distinct (map rid (all_routes s))"
    by (auto simp: cache_ok_def cache_wf_def cache_inv_def)
  note eff = route_delete_effect [OF wf assms(2), of env]
  show "cache_ok (vrf_route_delete env rt s)" "keeps_vrf s (vrf_route_delete env rt s)"
    using eff d by (auto simp: cache_ok_def distinct_map_filter)
  have "rid x = rid rt \<longleftrightarrow> rt_key x = rt_key rt" if "x \<in> set (all_routes s)" for x
    using d assms(2) that by (auto simp: distinct_map inj_on_def)
  then show "cache_keys (vrf_route_delete env rt s) = cache_keys s - {rt_key rt}"
    by (auto simp: cache_keys_def eff(3))
qed

lemma cache_modify:
  assumes "cache_ok s" "rt \<in> set (all_routes s)"
  shows "cache_ok (vrf_route_modify env rt row s)" "keeps_vrf s (vrf_route_modify env rt row s)"
    "cache_keys (vrf_route_modify env rt row s) = cache_keys s"
proof -
  from assms have wf: "cache_wf s" and d: "distinct (map rt_key (all_routes s))" "distinct (map rid (all_routes s))"
    by (auto simp: cache_ok_def cache_wf_def cache_inv_def)
  obtain rt' where eff: "cache_wf (vrf_route_modify env rt row s)" "keeps_vrf s (vrf_route_modify env rt row s)"
    "all_routes (vrf_route_modify env rt row s) = map (\<lambda>x. if rid x = rid rt then rt' else x) (all_routes s)"
    "rt_key rt' = rt_key rt"
    using route_modify_effect [OF wf assms(2), of env row] by auto
  have "rt_key (if rid x = rid rt then rt' else x) = rt_key x" if "x \<in> set (all_routes s)" for x
    using d(2) assms(2) that eff(4) by (auto simp: distinct_map inj_on_def)
  then have "map rt_key (all_routes (vrf_route_modify env rt row s)) = map rt_key (all_routes s)"
    by (simp add: eff(3))
  then show "cache_ok (vrf_route_modify env rt row s)" "cache_keys (vrf_route_modify env rt row s) = cache_keys s"
    using eff(1) d(1) by (simp_all add: cache_ok_def cache_keys_def flip: set_map)
  show "keeps_vrf s (vrf_route_modify env rt row s)" by (rule eff(2))
qed

lemma cache_delete_all:
  assumes "cache_ok s" "set rts \<subseteq> set (all_routes s)" "distinct (map rid rts)"
  shows "cache_ok (vrf_delete_routes env rts s) \<and> keeps_vrf s (vrf_delete_routes env rts s) \<and>
    cache_keys (vrf_delete_routes env rts s) = cache_keys s - rt_key ` set rts"
  using assms
proof (induction rts arbitrary: s)
  case (Cons rt rts)
  let ?s = "vrf_route_delete env rt s"
  from Cons.prems have rt: "rt \<in> set (all_routes s)" by simp
  note del = cache_delete [OF Cons.prems(1) rt, of env]
  have "set rts \<subseteq> set (all_routes ?s)"
    using Cons.prems route_delete_effect(3) [OF _ rt, of env] by (auto simp: cache_ok_def image_iff)
  with Cons.IH [OF del(1)] Cons.prems(3) del(2,3) show ?case
    by (auto intro: keeps_vrf_trans)
qed simp

lemma cache_add_missing:
  assumes "cache_ok s"
  shows "cache_ok (add_missing_routes env rows s) \<and> keeps_vrf s (add_missing_routes env rows s) \<and>
    cache_keys (add_missing_routes env rows s) = cache_keys s \<union> rr_key ` set rows"
  using assms
proof (induction rows arbitrary: s)
  case (Cons row rows)
  let ?s = "case vrf_route_hash_lookup env s row of None \<Rightarrow> vrf_route_add env row s | Some _ \<Rightarrow> s"
  have "cache_ok ?s \<and> keeps_vrf s ?s \<and> cache_keys ?s = insert (rr_key row) (cache_keys s)"
    using cache_add [OF Cons.prems, of row env] Cons.prems route_lookup_None [of env s row]
    by (auto split: option.split)
  with Cons.IH [of ?s] show ?case by (auto intro: keeps_vrf_trans)
qed simp

lemma cache_modify_row:
  assumes "cache_ok s"
  shows "cache_ok (modify_route_row env row s) \<and> keeps_vrf s (modify_route_row env row s) \<and>
    cache_keys (modify_route_row env row s) =
      (if vrf_name s = rr_vrf row \<and> rr_modified row \<and> \<not> rr_inserted row
       then if vrf_is_route_row_selected row then insert (rr_key row) (cache_keys s)
            else cache_keys s - {rr_key row}
       else cache_keys s)"
proof (cases "vrf_route_hash_lookup env s row")
  case None
  with cache_add [OF assms, of row env] assms route_lookup_None [of env s row] show ?thesis
    by (auto simp: modify_route_row_def)
next
  case (Some rt)
  then have rt: "rt \<in> set (all_routes s)" "rt_key rt = rr_key row" by (auto dest: route_lookup_Some)
  then have "rr_key row \<in> cache_keys s" by (metis cache_keys_def imageI)
  with cache_delete [OF assms rt(1), of env] cache_modify [OF assms rt(1), of env row] Some rt(2) assms
  show ?thesis by (simp add: modify_route_row_def insert_absorb)
qed

text \<open>The keys of the rows whose modification selects, or unselects, a route of a VRF.\<close>

definition changed_keys :: "string \<Rightarrow> bool \<Rightarrow> route_row list \<Rightarrow> (string \<times> string) set" where
  "changed_keys v sel rows =
     {rr_key r |r. r \<in> set rows \<and> rr_vrf r = v \<and> rr_modified r \<and> \<not> rr_inserted r \<and> vrf_is_route_row_selected r = sel}"

definition unique_keys :: "string \<Rightarrow> route_row list \<Rightarrow> bool" where
  "unique_keys v rows \<longleftrightarrow>
     (\<forall>r\<in>set rows. \<forall>r'\<in>set rows. rr_vrf r = v \<and> rr_vrf r' = v \<and> rr_key r = rr_key r' \<longrightarrow> r = r')"

lemma changed_keys_Cons:
  "changed_keys v sel (row # rows) =
     (if rr_vrf row = v \<and> rr_modified row \<and> \<not> rr_inserted row \<and> vrf_is_route_row_selected row = sel
      then insert (rr_key row) (changed_keys v sel rows) else changed_keys v sel rows)"
  by (auto simp: changed_keys_def)

lemma cache_modify_all:
  assumes "cache_ok s" "unique_keys (vrf_name s) rows"
  shows "cache_ok (modify_routes env rows s) \<and> keeps_vrf s (modify_routes env rows s) \<and>
    cache_keys (modify_routes env rows s) =
      cache_keys s \<union> changed_keys (vrf_name s) True rows - changed_keys (vrf_name s) False rows"
  using assms
proof (induction rows arbitrary: s)
  case (Cons row rows)
  let ?s = "modify_route_row env row s" and ?v = "vrf_name s"
  note row = cache_modify_row [OF Cons.prems(1), of env row]
  then have name: "vrf_name ?s = ?v" by (simp add: keeps_vrf_def)
  have "unique_keys ?v rows" using Cons.prems(2) by (simp add: unique_keys_def)
  with Cons.IH [of ?s] row name
  have IH: "cache_ok (modify_routes env rows ?s)" "keeps_vrf ?s (modify_routes env rows ?s)"
    "cache_keys (modify_routes env rows ?s) = cache_keys ?s \<union> changed_keys ?v True rows - changed_keys ?v False rows"
    by auto
  have fresh: "rr_key row \<notin> changed_keys ?v True rows"
    if "rr_vrf row = ?v" "\<not> vrf_is_route_row_selected row"
  proof
    assume "rr_key row \<in> changed_keys ?v True rows"
    then obtain r where "r \<in> set rows" "rr_vrf r = ?v" "rr_key r = rr_key row" "vrf_is_route_row_selected r"
      by (auto simp: changed_keys_def)
    with Cons.prems(2) that show False by (auto simp: unique_keys_def)
  qed
  have "cache_keys (modify_routes env (row # rows) s) =
      cache_keys s \<union> changed_keys ?v True (row # rows) - changed_keys ?v False (row # rows)"
    using IH(3) row fresh by (cases "vrf_is_route_row_selected row") (auto simp: changed_keys_Cons)
  then show ?case using IH(1,2) row keeps_vrf_trans [of s ?s] by simp
qed (simp add: changed_keys_def)

section \<open>Following the database\<close>

definition wanted_keys :: "string \<Rightarrow> route_row list \<Rightarrow> (string \<times> string) set" where
  "wanted_keys v rows = rr_key ` {r \<in> set rows. vrf_is_route_row_selected r \<and> v = rr_vrf r}"

text \<open>
  \<open>idl_reports old idl\<close>: the change flags of the IDL describe the step from the rows \<open>old\<close> to the rows
  of \<open>idl\<close>.  A row is known by its uuid, keeps its VRF, protocol and prefix, and is flagged when its
  selection changes; the table flags cover the rows.
\<close>

definition idl_reports :: "route_row list \<Rightarrow> route_idl \<Rightarrow> bool" where
  "idl_reports old idl \<longleftrightarrow>
     (\<forall>r\<in>set old. (\<forall>r'\<in>set (idl_routes idl). rr_uuid r' \<noteq> rr_uuid r) \<longrightarrow> idl_routes_deleted idl) \<and>
     (\<forall>r'\<in>set (idl_routes idl).
        (rr_inserted r' \<longleftrightarrow> (\<forall>r\<in>set old. rr_uuid r \<noteq> rr_uuid r')) \<and>
        (rr_inserted r' \<longrightarrow> idl_routes_inserted idl) \<and> (rr_modified r' \<longrightarrow> idl_routes_modified idl)) \<and>
     (\<forall>r\<in>set old. \<forall>r'\<in>set (idl_routes idl). rr_uuid r = rr_uuid r' \<longrightarrow>
        rr_key r = rr_key r' \<and> rr_vrf r = rr_vrf r' \<and>
        (vrf_is_route_row_selected r \<noteq> vrf_is_route_row_selected r' \<longrightarrow> rr_modified r'))"

text \<open>The concatenated key fits the buffer and the protocol name has no colon.\<close>

definition key_ok :: "string \<times> string \<Rightarrow> bool" where
  "key_ok k \<longleftrightarrow> CHR '':'' \<notin> set (fst k) \<and> length (fst k) + 1 + length (snd k) < VRF_ROUTE_HASH_MAXSIZE"

lemma append_sep_inj:
  assumes "c \<notin> set a" "c \<notin> set b" "a @ c # x = b @ c # y"
  shows "a = b \<and> x = y"
proof -
  have "takeWhile (\<lambda>z. z \<noteq> c) (d @ c # x) = d" if "c \<notin> set d" for d x
    using that by (induction d) auto
  with assms show ?thesis by (metis append_same_eq list.inject same_append_eq)
qed

lemma route_hash_inj:
  assumes "key_ok (f, p)" "key_ok (g, q)"
  shows "vrf_route_hash f p VRF_ROUTE_HASH_MAXSIZE = vrf_route_hash g q VRF_ROUTE_HASH_MAXSIZE \<longleftrightarrow> f = g \<and> p = q"
  using assms append_sep_inj [of "CHR '':''" f g p q]
  by (auto simp: vrf_route_hash_def key_ok_def)

lemma reconfigure_ecmp_frame [simp]:
  "all_routes (vrf_reconfigure_ecmp env idl s) = all_routes s"
  "all_nexthops (vrf_reconfigure_ecmp env idl s) = all_nexthops s"
  "next_ptr (vrf_reconfigure_ecmp env idl s) = next_ptr s"
  "vrf_name (vrf_reconfigure_ecmp env idl s) = vrf_name s"
  by (simp_all add: vrf_reconfigure_ecmp_def Let_def vrf_l3_ecmp_set_def vrf_l3_ecmp_hash_set_def split: option.split)

text \<open>The table of the wanted rows, keyed by the concatenated string, is faithful to the keys.\<close>

lemma current_keys:
  assumes "\<forall>r\<in>set rows. key_ok (rr_key r)"
  shows "rr_key ` set (map snd (shash_collect rr_hash rows)) = rr_key ` set rows"
proof -
  let ?cur = "set (map snd (shash_collect rr_hash rows))"
  have inj: "rr_key r = rr_key r'" if "r \<in> set rows" "r' \<in> set rows" "rr_hash r = rr_hash r'" for r r'
    using assms that route_hash_inj by (simp add: rr_hash_def rr_key_def)
  have sub: "?cur \<subseteq> set rows" by (auto dest!: shash_collect_key)
  have "rr_key r \<in> rr_key ` ?cur" if "r \<in> set rows" for r
  proof -
    have "rr_hash r \<in> rr_hash ` ?cur" using that by (simp only: collect_row_keys imageI)
    then obtain r' where "r' \<in> ?cur" "rr_hash r = rr_hash r'" by blast
    with inj [of r r'] that sub show ?thesis by blast
  qed
  with sub show ?thesis by blast
qed

lemma current_find:
  assumes "\<forall>r\<in>set rows. key_ok (rr_key r)" "key_ok (rt_key rt)"
  shows "shash_find_data (shash_collect rr_hash rows) (rt_hash rt) = None \<longleftrightarrow> rt_key rt \<notin> rr_key ` set rows"
proof -
  have "rr_hash r = rt_hash rt \<longleftrightarrow> rr_key r = rt_key rt" if "r \<in> set rows" for r
    using assms that route_hash_inj by (simp add: rr_hash_def rt_hash_def rr_key_def rt_key_def)
  then have "rt_hash rt \<in> rr_hash ` set rows \<longleftrightarrow> rt_key rt \<in> rr_key ` set rows"
    by (metis (no_types, lifting) image_iff)
  then show ?thesis by (simp add: map_of_eq_None_iff image_image comp_def)
qed

text \<open>The effect of one reconfiguration on the cached keys, flag by flag.\<close>

lemma reconfigure_routes_keys:
  assumes "cache_ok s" "unique_keys (vrf_name s) (idl_routes idl)" "has_l3_route_action env"
    and ok: "\<forall>k\<in>cache_keys s. key_ok k" "\<forall>r\<in>set (idl_routes idl). key_ok (rr_key r)"
  defines "K \<equiv> cache_keys s" and "C \<equiv> wanted_keys (vrf_name s) (idl_routes idl)"
  defines "K1 \<equiv> if idl_routes_deleted idl then K \<inter> C else K"
  defines "K2 \<equiv> if idl_routes_inserted idl then K1 \<union> C else K1"
  defines "K3 \<equiv> if idl_routes_modified idl
      then K2 \<union> changed_keys (vrf_name s) True (idl_routes idl) - changed_keys (vrf_name s) False (idl_routes idl) else K2"
  shows "cache_ok (vrf_reconfigure_routes env idl s)"
    "cache_keys (vrf_reconfigure_routes env idl s) = (if idl_routes idl = [] then {} else K3)"
proof -
  define s0 where "s0 = vrf_reconfigure_ecmp env idl s"
  have s0: "cache_ok s0" "cache_keys s0 = K" "vrf_name s0 = vrf_name s" "distinct (map rid (all_routes s0))"
    using assms(1) by (auto simp: s0_def cache_ok_def cache_wf_def cache_inv_def cache_keys_def K_def)
  define rows where "rows = filter (\<lambda>row. vrf_is_route_row_selected row \<and> vrf_name s0 = rr_vrf row) (idl_routes idl)"
  define cur where "cur = shash_collect rr_hash rows"
  have C: "C = rr_key ` set rows" by (auto simp: C_def wanted_keys_def rows_def s0(3))
  have okr: "\<forall>r\<in>set rows. key_ok (rr_key r)" using ok(2) by (simp add: rows_def)
  have "key_ok (rt_key rt)" if "rt \<in> set (all_routes s0)" for rt
    using ok(1) that by (simp add: cache_keys_def s0_def)
  with current_find [OF okr] have find:
    "shash_find_data cur (rt_hash rt) = None \<longleftrightarrow> rt_key rt \<notin> C" if "rt \<in> set (all_routes s0)" for rt
    using that by (simp add: cur_def C)
  have keysC: "rr_key ` set (map snd cur) = C" unfolding cur_def C by (rule current_keys [OF okr])
  define gone where "gone = filter (\<lambda>rt. shash_find_data cur (rt_hash rt) = None) (all_routes s0)"
  define s1 where "s1 = (if idl_routes_deleted idl then vrf_delete_routes env gone s0 else s0)"
  have "rt_key ` set gone = K - C" using find s0(2) by (auto simp: gone_def cache_keys_def)
  then have s1: "cache_ok s1" "keeps_vrf s0 s1" "cache_keys s1 = K1"
    using cache_delete_all [OF s0(1), of gone env] s0 distinct_map_filter [OF s0(4)]
    by (auto simp: s1_def K1_def gone_def)
  define s2 where "s2 = (if idl_routes_inserted idl then add_missing_routes env (map snd cur) s1 else s1)"
  have s2: "cache_ok s2" "keeps_vrf s1 s2" "cache_keys s2 = K2"
    using cache_add_missing [OF s1(1), of env "map snd cur"] s1 keysC by (auto simp: s2_def K2_def)
  have name: "vrf_name s2 = vrf_name s" using s1(2) s2(2) s0(3) by (simp add: keeps_vrf_def)
  define s3 where "s3 = (if idl_routes_modified idl then modify_routes env (idl_routes idl) s2 else s2)"
  have s3: "cache_ok s3" "cache_keys s3 = K3"
    using cache_modify_all [OF s2(1), of "idl_routes idl" env] assms(2) s2 name by (auto simp: s3_def K3_def)
  have all: "cache_ok (vrf_delete_routes env (all_routes s0) s0)" "cache_keys (vrf_delete_routes env (all_routes s0) s0) = {}"
    using cache_delete_all [OF s0(1) order_refl s0(4), of env] by (auto simp: cache_keys_def)
  have res: "vrf_reconfigure_routes env idl s =
      (if idl_routes idl = [] then vrf_delete_routes env (all_routes s0) s0
       else if \<not> idl_routes_modified idl \<and> \<not> idl_routes_deleted idl \<and> \<not> idl_routes_inserted idl then s0 else s3)"
    unfolding vrf_reconfigure_routes_def s0_def [symmetric] Let_def
    using assms(3) by (simp add: vrf_has_l3_route_action_def s3_def s2_def s1_def gone_def cur_def rows_def)
  show "cache_ok (vrf_reconfigure_routes env idl s)" using res all s0(1) s3 by simp
  show "cache_keys (vrf_reconfigure_routes env idl s) = (if idl_routes idl = [] then {} else K3)"
    using res all s0(2) s3 by (auto simp: K3_def K2_def K1_def)
qed

lemma cache_ok_modify_all: "cache_ok s \<Longrightarrow> cache_ok (modify_routes env rows s)"
  by (induction rows arbitrary: s) (auto simp: cache_modify_row)

lemma cache_ok_modify_nexthops: "cache_ok s \<Longrightarrow> cache_ok (modify_routes_of_nexthops env rows s)"
proof (induction rows arbitrary: s)
  case (Cons row rows)
  then show ?case
    by (auto simp: cache_modify(1) split: option.split dest: route_lookup_Some)
qed simp

lemma cache_ok_reconfigure_routes:
  assumes "cache_ok s"
  shows "cache_ok (vrf_reconfigure_routes env idl s)"
proof -
  define s0 where "s0 = vrf_reconfigure_ecmp env idl s"
  have s0: "cache_ok s0" "distinct (map rid (all_routes s0))"
    using assms by (auto simp: s0_def cache_ok_def cache_wf_def cache_inv_def)
  have del: "cache_ok (vrf_delete_routes env (filter P (all_routes s0)) s0)" for P
    using cache_delete_all [OF s0(1), of "filter P (all_routes s0)" env] distinct_map_filter [OF s0(2)] by auto
  from del [of "\<lambda>_. True"] s0(1) show ?thesis
    unfolding vrf_reconfigure_routes_def s0_def [symmetric] Let_def
    by (auto simp: del cache_add_missing cache_ok_modify_all)
qed

text \<open>A back pointer of \<open>all_nexthops\<close> always leads to the cached route that holds the nexthop.\<close>

lemma deref_all_nexthops:
  assumes "cache_wf s" "nh \<in> set (all_nexthops s)"
  obtains rt where "deref_route s (nh_route nh) = Some rt" "rt \<in> set (all_routes s)" "nh \<in> set (nexthops rt)"
    "nh_route nh = rid rt"
proof -
  have "set (all_nexthops s) = set (filter has_ip (concat (map nexthops (all_routes s))))"
    using assms(1) unfolding cache_wf_def cache_inv_def by (metis set_mset_mset)
  with assms(2) obtain rt where rt: "rt \<in> set (all_routes s)" "nh \<in> set (nexthops rt)" by auto
  with assms(1) have "nh_route nh = rid rt" "distinct (map rid (all_routes s))"
    by (auto simp: cache_wf_def cache_inv_def nh_ok_def)
  with rt that find_distinct_key [of rid "all_routes s" rt] show ?thesis by (simp add: deref_route_def)
qed

definition neighbor_pushes :: "'a vrf_scheme \<Rightarrow> neighbor \<Rightarrow> bool \<Rightarrow> nexthop list \<Rightarrow> l3_call list" where
  "neighbor_pushes s n resolved nhs =
     [RouteAction OFPROTO_ROUTE_ADD (ofp_route_of (the (deref_route s (nh_route nh))) [neighbor_nh n resolved nh]).
        nh \<leftarrow> nhs, ip_addr nh = Some (nb_ip_address n)]"

lemma update_routes_effect:
  assumes "\<forall>nh\<in>set nhs. deref_route s (nh_route nh) \<noteq> None"
  shows "all_routes (update_routes_of_nexthops env n b nhs s) = all_routes s \<and>
    all_nexthops (update_routes_of_nexthops env n b nhs s) = all_nexthops s \<and>
    next_ptr (update_routes_of_nexthops env n b nhs s) = next_ptr s \<and>
    keeps_vrf s (update_routes_of_nexthops env n b nhs s) \<and>
    l3_log (update_routes_of_nexthops env n b nhs s) = l3_log s @ neighbor_pushes s n b nhs"
  using assms
proof (induction nhs arbitrary: s)
  case (Cons nh nhs)
  let ?hit = "hash_string env (nh_key nh) = hash_string env (nb_ip_address n) \<and> ip_addr nh = Some (nb_ip_address n)"
  define s1 where "s1 = (if ?hit then (case deref_route s (nh_route nh) of
      None \<Rightarrow> s | Some rt \<Rightarrow> vrf_ofproto_route_add env [neighbor_nh n b nh] rt s) else s)"
  have hit: "?hit \<longleftrightarrow> ip_addr nh = Some (nb_ip_address n)" by (auto simp: nh_key_def)
  have s1: "all_routes s1 = all_routes s" "all_nexthops s1 = all_nexthops s" "next_ptr s1 = next_ptr s" "keeps_vrf s s1"
    by (auto simp: s1_def keeps_vrf_def split: option.split)
  then have d: "deref_route s1 = deref_route s" by (simp add: deref_route_def fun_eq_iff)
  have p: "neighbor_pushes s1 n b nhs = neighbor_pushes s n b nhs" unfolding neighbor_pushes_def d by (rule refl)
  have "l3_log s1 = l3_log s @ neighbor_pushes s n b [nh]"
    using Cons.prems hit by (auto simp: s1_def neighbor_pushes_def split: option.split)
  moreover have "neighbor_pushes s n b (nh # nhs) = neighbor_pushes s n b [nh] @ neighbor_pushes s n b nhs"
    by (simp add: neighbor_pushes_def)
  moreover have "update_routes_of_nexthops env n b (nh # nhs) s = update_routes_of_nexthops env n b nhs s1"
    by (simp add: s1_def)
  ultimately show ?case
    using Cons.IH [of s1] Cons.prems s1 p keeps_vrf_trans [OF s1(4)] by (simp add: d)
qed (simp add: neighbor_pushes_def)

lemma update_route_with_neighbor_effect:
  assumes "cache_wf s"
  shows "l3_log (vrf_ofproto_update_route_with_neighbor env n b s) = l3_log s @ neighbor_pushes s n b (all_nexthops s)"
    "cache_wf (vrf_ofproto_update_route_with_neighbor env n b s)"
    "keeps_vrf s (vrf_ofproto_update_route_with_neighbor env n b s)"
    "all_routes (vrf_ofproto_update_route_with_neighbor env n b s) = all_routes s"
proof -
  have "\<forall>nh\<in>set (all_nexthops s). deref_route s (nh_route nh) \<noteq> None"
    using deref_all_nexthops [OF assms] by (metis option.discI)
  from update_routes_effect [OF this, of env n b]
  show "l3_log (vrf_ofproto_update_route_with_neighbor env n b s) = l3_log s @ neighbor_pushes s n b (all_nexthops s)"
    "cache_wf (vrf_ofproto_update_route_with_neighbor env n b s)"
    "keeps_vrf s (vrf_ofproto_update_route_with_neighbor env n b s)"
    "all_routes (vrf_ofproto_update_route_with_neighbor env n b s) = all_routes s"
    using assms by (auto simp: vrf_ofproto_update_route_with_neighbor_def cache_wf_def cache_inv_def)
qed

end
