(* ===== verification/Vrf_Props.thy ===== *)
theory Vrf_Props
  imports Vrf
begin

text \<open>
  Properties of the routing table: the route cache follows the database, its two hash maps stay
  consistent, and what is pushed to the switch for multipath routes and for neighbors.
\<close>

section \<open>The contents of a multipath push\<close>

lemma lookup_of_added:
  assumes "nh_key nh = nh_row_key row" "nh \<in> set (nexthops rt)" "nh_row_single row" "nh_row_valid row"
    "ip_addr nh = nhr_ip_address row" "nhr_ip_address row = None \<longrightarrow> port_name nh = nh_row_port row"
  shows "vrf_route_nexthop_lookup env rt (nhr_ip_address row) (nh_row_port row) \<noteq> None"
proof -
  have "vrf_nh_hash (nhr_ip_address row) (nh_row_port row) = Some (nh_row_key row)"
    using assms(4) by (auto simp: vrf_nh_hash_def nh_row_key_def nh_row_port_def nh_row_valid_def
        split: option.split list.split)
  moreover have "ip_addr nh \<noteq> None \<and> ip_addr nh = nhr_ip_address row \<or>
      port_name nh \<noteq> None \<and> port_name nh = nh_row_port row"
    using assms(4-6) by (cases "nhr_ip_address row") (auto simp: nh_row_valid_def nh_row_port_def split: list.splits)
  ultimately show ?thesis
    using assms(1,2) by (auto simp: vrf_route_nexthop_lookup_def find_None_conv intro!: bexI [of _ nh])
qed

lemma add_selected_nhs_members:
  assumes "add_selected_nhs rows rt s = (rt', s')"
  shows "set (nexthops rt) \<subseteq> set (nexthops rt') \<and>
    (\<forall>row\<in>set rows. nh_row_usable row \<longrightarrow> (\<exists>nh\<in>set (nexthops rt'). nh_key nh = nh_row_key row \<and>
       ip_addr nh = nhr_ip_address row \<and> (nhr_ip_address row = None \<longrightarrow> port_name nh = nh_row_port row)))"
  using assms
proof (induction rows arbitrary: rt s)
  case (Cons row rows)
  show ?case
  proof (cases "nh_row_usable row")
    case True
    obtain nh rt1 s1 where 1: "vrf_nexthop_add rt row s = (nh, rt1, s1)" by (cases "vrf_nexthop_add rt row s")
    with Cons.prems True have 2: "add_selected_nhs rows rt1 s1 = (rt', s')" by simp
    obtain h where h: "nexthops rt1 = nexthops rt @ [h]" "nh_key h = nh_row_key row"
      "ip_addr h = nhr_ip_address row" "nhr_ip_address row = None \<longrightarrow> port_name h = nh_row_port row"
      using nexthop_add_effect(2) [OF 1 usable_valid [OF True]] by auto
    note IH = Cons.IH [OF 2]
    have "h \<in> set (nexthops rt')" "set (nexthops rt) \<subseteq> set (nexthops rt')" using IH h(1) by auto
    with IH h show ?thesis by auto
  qed (use Cons in simp)
qed simp

lemma first_unresolved_single:
  "first_unresolved_nh env rt rows = [] \<or>
     (\<exists>o'. first_unresolved_nh env rt rows = [o'] \<and> on_state o' = OFPROTO_NH_UNRESOLVED \<and> on_type o' = OFPROTO_NH_IPADDR)"
  by (induction rows) (auto split: option.split)

lemma first_unresolved_nonempty:
  assumes "row \<in> set rows" "vrf_is_nh_row_selected row" "nhr_ip_address row \<noteq> None"
    "vrf_route_nexthop_lookup env rt (nhr_ip_address row) None \<noteq> None"
  shows "first_unresolved_nh env rt rows \<noteq> []"
  using assms by (induction rows) (auto split: option.split)

lemma update_resolved_forms:
  assumes "vrf_ofproto_update_resolved_nh env s nh = Some o'"
  shows "on_type o' = OFPROTO_NH_PORT \<or>
    on_state o' = OFPROTO_NH_RESOLVED \<and> on_egress_id o' = resolved_egress env s (on_id o') \<and> on_egress_id o' \<noteq> None"
  using assms by (auto simp: vrf_ofproto_update_resolved_nh_def port_nh_def split: option.splits)

lemma set_map_filter: "set (List.map_filter f xs) = {y. \<exists>x\<in>set xs. f x = Some y}"
  by (induction xs) (auto simp: List.map_filter_def split: option.splits)

lemma first_unresolved_empty:
  "\<forall>r\<in>set rows. \<not> nh_row_usable r \<Longrightarrow> first_unresolved_nh env rt rows = []"
  by (induction rows) (auto simp: nh_row_usable_def nh_row_valid_def)

lemma multipath_nonempty:
  assumes "add_selected_nhs rows rt s = (rt', s')" "r \<in> set rows" "nh_row_usable r" "\<forall>r\<in>set rows. nh_row_single r"
  shows "List.map_filter (ecmp_nh env s' rt') rows \<noteq> [] \<or> first_unresolved_nh env rt' rows \<noteq> []"
proof -
  have found: "vrf_route_nexthop_lookup env rt' (nhr_ip_address r) (nh_row_port r) \<noteq> None"
    using add_selected_nhs_members [OF assms(1)] assms(2-4) lookup_of_added usable_valid by metis
  show ?thesis
  proof (cases "nhr_ip_address r")
    case None
    with found obtain nh p where "ecmp_nh env s' rt' r = vrf_ofproto_update_resolved_nh env s' nh" "port_name nh = Some p"
      using assms(3) nexthop_lookup_SomeD(2) by (fastforce simp: ecmp_nh_def split: option.splits)
    then have "ecmp_nh env s' rt' r \<noteq> None" by (simp add: vrf_ofproto_update_resolved_nh_def)
    then have "set (List.map_filter (ecmp_nh env s' rt') rows) \<noteq> {}" using assms(2) by (auto simp: set_map_filter)
    then show ?thesis by auto
  next
    case (Some ip)
    then have "nh_row_port r = None" using assms(2,4) by (auto simp: nh_row_single_def nh_row_port_def)
    with found assms(2,3) Some show ?thesis
      by (intro disjI2 first_unresolved_nonempty) (auto simp: nh_row_usable_def)
  qed
qed

section \<open>What the change flags say about a key\<close>

lemma unselected_or_deleted:
  assumes "cache_keys s = wanted_keys v old" "idl_reports old idl"
    and k: "k \<in> cache_keys s" "k \<notin> wanted_keys v (idl_routes idl)"
  shows "k \<in> changed_keys v False (idl_routes idl) \<or> idl_routes_deleted idl"
proof -
  obtain r where r: "r \<in> set old" "rr_key r = k" "vrf_is_route_row_selected r" "rr_vrf r = v"
    using k(1) assms(1) by (auto simp: wanted_keys_def)
  show ?thesis
  proof (cases "\<exists>r'\<in>set (idl_routes idl). rr_uuid r' = rr_uuid r")
    case True
    then obtain r' where r': "r' \<in> set (idl_routes idl)" "rr_uuid r = rr_uuid r'" by auto
    with r assms(2) have eq: "rr_key r' = k" "rr_vrf r' = v" "\<not> rr_inserted r'"
      by (auto simp: idl_reports_def)
    then have "\<not> vrf_is_route_row_selected r'" using k(2) r'(1) by (auto simp: wanted_keys_def)
    moreover from this have "rr_modified r'" using r r' assms(2) by (auto simp: idl_reports_def)
    ultimately show ?thesis using eq r' by (auto simp: changed_keys_def)
  next
    case False
    with r(1) assms(2) show ?thesis by (auto simp: idl_reports_def)
  qed
qed

lemma selected_or_inserted:
  assumes "cache_keys s = wanted_keys v old" "idl_reports old idl" "k \<in> wanted_keys v (idl_routes idl)"
  shows "k \<in> cache_keys s \<or> idl_routes_inserted idl \<or> k \<in> changed_keys v True (idl_routes idl)"
proof -
  obtain r' where r': "r' \<in> set (idl_routes idl)" "rr_key r' = k" "vrf_is_route_row_selected r'" "rr_vrf r' = v"
    using assms(3) by (auto simp: wanted_keys_def)
  show ?thesis
  proof (cases "\<exists>r\<in>set old. rr_uuid r = rr_uuid r'")
    case True
    then obtain r where r: "r \<in> set old" "rr_uuid r = rr_uuid r'" by auto
    with r' assms(2) have eq: "rr_key r = k" "rr_vrf r = v" "\<not> rr_inserted r'"
      and sel: "vrf_is_route_row_selected r \<or> rr_modified r'" by (auto simp: idl_reports_def)
    from sel show ?thesis
    proof
      assume "vrf_is_route_row_selected r"
      with eq r show ?thesis by (auto simp: assms(1) wanted_keys_def)
    next
      assume "rr_modified r'"
      with eq r' have "k \<in> changed_keys v True (idl_routes idl)" by (auto simp: changed_keys_def intro!: exI [of _ r'])
      then show ?thesis by simp
    qed
  next
    case False
    with r'(1) assms(2) show ?thesis by (auto simp: idl_reports_def)
  qed
qed

text \<open>The three phases of the reconfiguration on sets of keys.\<close>

lemma sync_sets:
  assumes "del \<or> K - C \<subseteq> D" "ins \<or> C \<subseteq> K \<union> U" "md \<or> U = {} \<and> D = {}" "U \<subseteq> C" "D \<inter> C = {}"
  shows "(let K1 = if del then K \<inter> C else K; K2 = if ins then K1 \<union> C else K1 in if md then K2 \<union> U - D else K2) = C"
  using assms by (cases del; cases ins; cases md; simp; blast)

section \<open>A small switch\<close>

text \<open>A concrete environment, database rows and an empty VRF, on which the properties are tried.\<close>

definition sample_env :: l3_env where
  "sample_env =
     \<lparr>hash_string = (\<lambda>s. of_nat (length s)), has_l3_route_action = True,
      ofproto_l3_route_action = (\<lambda>_ _ _. (0, \<lambda>_. (0, []))),
      ofproto_add_l3_host_entry = (\<lambda>_ _ _ _ _ _. (0, 100)),
      ofproto_delete_l3_host_entry = (\<lambda>_ _ _ _ _. (0, -1)),
      ofproto_get_l3_host_hit = (\<lambda>_ _ _ _ _. (0, True)),
      ether_aton_ok = (\<lambda>m. length m = 17), inet_pton6_ok = (\<lambda>a. CHR '':'' \<in> set a),
      ADDRESS_FAMILY_IPV6 = ''ipv6'', NEXTHOP_STATUS_ERROR = ''error'', NEIGHBOR_STATUS_DP_HIT = ''dp_hit'',
      ECMP_CONFIG_STATUS = ''enabled'', ECMP_CONFIG_HASH_SRC_IP = ''hash_srcip_enabled'',
      ECMP_CONFIG_HASH_DST_IP = ''hash_dstip_enabled'', ECMP_CONFIG_HASH_SRC_PORT = ''hash_srcport_enabled'',
      ECMP_CONFIG_HASH_DST_PORT = ''hash_dstport_enabled'', ECMP_CONFIG_ENABLE_DEFAULT = True\<rparr>"

definition ip_row :: "nat \<Rightarrow> string \<Rightarrow> nexthop_row" where
  "ip_row u ip = \<lparr>nhr_uuid = u, nhr_ip_address = Some ip, nhr_ports = [], nhr_selected = None,
     nhr_modified = False, nhr_inserted = False\<rparr>"

definition sample_row :: "nat \<Rightarrow> string \<Rightarrow> nexthop_row list \<Rightarrow> bool \<Rightarrow> bool \<Rightarrow> route_row" where
  "sample_row u v nhs modf ins = \<lparr>rr_uuid = u, rr_vrf = v, rr_from = ''static'', rr_prefix = ''10.0.0.0/8'',
     rr_address_family = Some ''ipv4'', rr_nexthops = nhs, rr_selected = Some True, rr_modified = modf, rr_inserted = ins\<rparr>"

definition sample_ecmp :: ecmp where
  "sample_ecmp = \<lparr>enabled = True, src_port_enabled = True, dst_port_enabled = True, src_ip_enabled = True,
     dst_ip_enabled = True, resilient_hash_enabled = True\<rparr>"

definition sample_idl :: "route_row list \<Rightarrow> bool \<Rightarrow> bool \<Rightarrow> bool \<Rightarrow> route_idl" where
  "sample_idl rows modf del ins =
     \<lparr>idl_system_ecmp_config = Some [], idl_ecmp_modified = False, idl_routes = rows, idl_routes_modified = modf,
      idl_routes_deleted = del, idl_routes_inserted = ins, idl_has_nexthops = True, idl_nexthops_modified = True\<rparr>"

definition sample_vrf :: l3 where
  "sample_vrf =
     \<lparr>vrf_name = ''red'', vrf_ports = [''1''], all_neighbors = [], all_routes = [], all_nexthops = [], next_ptr = 0,
      nh_status = (\<lambda>_. None), ecmp_config = sample_ecmp, l3_log = []\<rparr>"

lemma wanted_keys_set:
  "wanted_keys v rows = rr_key ` set (filter (\<lambda>r. vrf_is_route_row_selected r \<and> v = rr_vrf r) rows)"
  by (simp add: wanted_keys_def)

lemmas sample_defs = sample_env_def ip_row_def sample_row_def sample_ecmp_def sample_idl_def sample_vrf_def

lemma sample_vrf_ok: "cache_ok sample_vrf" "cache_wf sample_vrf" "cache_keys sample_vrf = {}"
  by (simp_all add: cache_ok_def cache_wf_def cache_inv_def cache_keys_def sample_vrf_def)

definition sample_vrf1 :: l3 where
  "sample_vrf1 = vrf_route_add sample_env (sample_row 5 ''red'' [ip_row 7 ''1.1.1.1''] False True) sample_vrf"

definition sample_nb :: neighbor where
  "sample_nb = \<lparr>nb_ip_address = ''1.1.1.1'', nb_mac = None, nb_cfg = None, is_ipv6_addr = False, hit_bit = False,
     nb_port_name = Some ''1'', l3_egress_id = 100\<rparr>"

lemma sample_vrf1_ok: "cache_ok sample_vrf1" "cache_wf sample_vrf1"
  using cache_add(1) [OF sample_vrf_ok(1), of "sample_row 5 ''red'' [ip_row 7 ''1.1.1.1''] False True" sample_env]
  by (simp_all add: sample_vrf_ok(3) sample_vrf1_def cache_ok_def)

section \<open>Properties\<close>

text \<open>
  C5: The route cache follows the database.  If it held the selected routes of the VRF before a
  change, and the change flags of the IDL describe the change, then after
  \<open>vrf_reconfigure_routes\<close> it holds exactly the selected routes of the new contents, whatever mix of
  insertions, deletions, selections and unselections the change was.
\<close>

theorem routes_follow_database:
  assumes "cache_ok s" "cache_keys s = wanted_keys (vrf_name s) old"
    and "idl_reports old idl" "unique_keys (vrf_name s) (idl_routes idl)" "has_l3_route_action env"
    and "\<forall>r\<in>set old. key_ok (rr_key r)" "\<forall>r\<in>set (idl_routes idl). key_ok (rr_key r)"
  shows "cache_ok (vrf_reconfigure_routes env idl s) \<and>
    cache_keys (vrf_reconfigure_routes env idl s) = wanted_keys (vrf_name s) (idl_routes idl)"
proof -
  let ?v = "vrf_name s" and ?new = "idl_routes idl"
  let ?K = "cache_keys s" and ?C = "wanted_keys ?v ?new"
  have "\<forall>k\<in>?K. key_ok k" using assms(2,6) by (auto simp: wanted_keys_def)
  note keys = reconfigure_routes_keys [OF assms(1,4,5) this assms(7)]
  note down = unselected_or_deleted [OF assms(2,3)] and up = selected_or_inserted [OF assms(2,3)]
  have mod: "idl_routes_modified idl" if "k \<in> changed_keys ?v b ?new" for k b
    using that assms(3) by (auto simp: changed_keys_def idl_reports_def)
  have upC: "changed_keys ?v True ?new \<subseteq> ?C" by (auto simp: changed_keys_def wanted_keys_def)
  have downC: "changed_keys ?v False ?new \<inter> ?C = {}"
    using assms(4) by (auto simp: changed_keys_def wanted_keys_def unique_keys_def)
  have sets: "(let K1 = if idl_routes_deleted idl then ?K \<inter> ?C else ?K;
        K2 = if idl_routes_inserted idl then K1 \<union> ?C else K1
      in if idl_routes_modified idl
        then K2 \<union> changed_keys ?v True ?new - changed_keys ?v False ?new else K2) = ?C"
    by (rule sync_sets) (use down up mod upC downC in blast)+
  have empty: "?C = {}" if "?new = []" using that by (simp add: wanted_keys_def)
  show ?thesis
  proof
    show "cache_ok (vrf_reconfigure_routes env idl s)" by (rule keys(1))
    show "cache_keys (vrf_reconfigure_routes env idl s) = ?C"
      unfolding keys(2) using sets [unfolded Let_def] empty by simp
  qed
qed

theorem routes_follow_database_witness:
  "cache_keys (vrf_reconfigure_routes sample_env
     (sample_idl [sample_row 5 ''red'' [ip_row 7 ''1.1.1.1''] False True] False False True) sample_vrf)
   = {(''static'', ''10.0.0.0/8'')}"
proof -
  let ?row = "sample_row 5 ''red'' [ip_row 7 ''1.1.1.1''] False True"
  let ?idl = "sample_idl [?row] False False True"
  have row: "rr_key ?row = (''static'', ''10.0.0.0/8'')" "rr_vrf ?row = ''red''" "rr_inserted ?row" "\<not> rr_modified ?row"
    "vrf_is_route_row_selected ?row" and idl: "idl_routes ?idl = [?row]" "idl_routes_inserted ?idl"
    and name: "vrf_name sample_vrf = ''red''" and env: "has_l3_route_action sample_env"
    by (simp_all add: sample_defs rr_key_def vrf_is_route_row_selected_def)
  have "key_ok (rr_key ?row)" by (simp add: row key_ok_def VRF_ROUTE_HASH_MAXSIZE_def)
  with routes_follow_database [OF sample_vrf_ok(1), of "[]" ?idl sample_env]
  show ?thesis
    by (simp add: sample_vrf_ok wanted_keys_set idl_reports_def unique_keys_def row idl name env)
qed

text \<open>
  C9: Every reconfiguration step keeps the cache consistent: addresses stay distinct, no two cached
  routes share protocol and prefix, a nexthop has either an address or a port and points back to its
  route, and \<open>all_nexthops\<close> is exactly the multiset of the cached nexthops that have an address.
\<close>

theorem cache_stays_consistent:
  assumes "cache_ok s"
  shows "cache_ok (vrf_reconfigure_routes env idl s) \<and> cache_ok (vrf_reconfigure_nexthops env idl s) \<and>
    cache_ok (vrf_ofproto_update_route_with_neighbor env n resolved s)"
  using assms cache_ok_reconfigure_routes [OF assms] cache_ok_modify_nexthops [OF assms]
    update_route_with_neighbor_effect [of s env n resolved]
  by (auto simp: vrf_reconfigure_nexthops_def cache_ok_def)

theorem cache_stays_consistent_witness:
  "cache_ok (vrf_reconfigure_routes sample_env (sample_idl [] False True False) sample_vrf1)"
  using cache_stays_consistent [OF sample_vrf1_ok(1)] by blast

text \<open>
  C11: After \<open>vrf_route_modify\<close> the cached route holds a nexthop for exactly the selected, usable
  nexthop rows of the route row (rows having an address or a port but not both, as the code assumes).
\<close>

theorem modified_route_matches_row:
  assumes "cache_wf s" "rt \<in> set (all_routes s)" "\<forall>r\<in>set (rr_nexthops row). nh_row_single r"
  shows "\<exists>rt'\<in>set (all_routes (vrf_route_modify env rt row s)). rid rt' = rid rt \<and> rt_key rt' = rt_key rt \<and>
    nh_key ` set (nexthops rt') = nh_row_key ` {r \<in> set (rr_nexthops row). nh_row_usable r}"
proof -
  obtain rt' where "all_routes (vrf_route_modify env rt row s) = map (\<lambda>x. if rid x = rid rt then rt' else x) (all_routes s)"
    "rid rt' = rid rt" "rt_key rt' = rt_key rt"
    "nh_key ` set (nexthops rt') = nh_row_key ` {r \<in> set (rr_nexthops row). nh_row_usable r}"
    using route_modify_effect [OF assms(1,2), of env row] assms(3) by auto
  with assms(2) show ?thesis by (auto intro!: bexI [of _ rt'] simp: image_iff)
qed

theorem modified_route_matches_row_witness:
  "\<exists>rt'\<in>set (all_routes (vrf_route_modify sample_env (hd (all_routes sample_vrf1))
        (sample_row 5 ''red'' [ip_row 8 ''2.2.2.2'', ip_row 9 ''3.3.3.3''] True False) sample_vrf1)).
     nh_key ` set (nexthops rt') = {''2.2.2.2'', ''3.3.3.3''}"
proof -
  obtain rt where rt: "all_routes sample_vrf1 = [rt]"
    using route_add_effect(3) [OF sample_vrf_ok(2), of sample_env] by (force simp: sample_vrf1_def sample_vrf_def)
  have "nh_row_key ` {r \<in> set [ip_row 8 ''2.2.2.2'', ip_row 9 ''3.3.3.3'']. nh_row_usable r} = {''2.2.2.2'', ''3.3.3.3''}"
    unfolding set_filter [symmetric]
    by (simp add: ip_row_def nh_row_usable_def nh_row_valid_def vrf_is_nh_row_selected_def nh_row_key_def)
  with modified_route_matches_row [where s = sample_vrf1 and rt = rt and env = sample_env and
      row = "sample_row 5 ''red'' [ip_row 8 ''2.2.2.2'', ip_row 9 ''3.3.3.3''] True False"]
  show ?thesis by (auto simp: sample_vrf1_ok rt nh_row_single_def ip_row_def sample_row_def)
qed



text \<open>
  When a neighbor is resolved or lost, one route push is made for each cached nexthop that has
  the neighbor's address, in the order of the nexthop table, and nothing else; each push concerns the
  cached route holding that nexthop.
\<close>

theorem neighbor_pushes_routes:
  assumes "cache_wf s"
  shows "l3_log (vrf_ofproto_update_route_with_neighbor env n resolved s) =
      l3_log s @ [RouteAction OFPROTO_ROUTE_ADD
        (ofp_route_of (the (deref_route s (nh_route nh))) [neighbor_nh n resolved nh]).
          nh \<leftarrow> all_nexthops s, ip_addr nh = Some (nb_ip_address n)] \<and>
    (\<forall>nh\<in>set (all_nexthops s). \<exists>rt\<in>set (all_routes s). deref_route s (nh_route nh) = Some rt \<and> nh \<in> set (nexthops rt)) \<and>
    all_routes (vrf_ofproto_update_route_with_neighbor env n resolved s) = all_routes s"
  using update_route_with_neighbor_effect [OF assms, of env n resolved] deref_all_nexthops [OF assms]
  unfolding neighbor_pushes_def by blast

theorem neighbor_pushes_routes_witness:
  "l3_log (vrf_ofproto_update_route_with_neighbor sample_env sample_nb True sample_vrf1) =
     l3_log sample_vrf1 @ [RouteAction OFPROTO_ROUTE_ADD
        (ofp_route_of (the (deref_route sample_vrf1 (nh_route nh))) [neighbor_nh sample_nb True nh]).
          nh \<leftarrow> all_nexthops sample_vrf1, ip_addr nh = Some ''1.1.1.1'']"
  using neighbor_pushes_routes [OF sample_vrf1_ok(2), of sample_env sample_nb True] by (simp add: sample_nb_def)

text \<open>
  When the ECMP column changed, the settings in force become the ones of the database, each
  missing key taking its default, and repeating the step sends nothing more to the switch.
\<close>

theorem ecmp_follows_database:
  assumes "idl_system_ecmp_config idl = Some cfg" "idl_ecmp_modified idl"
  shows "ecmp_config (vrf_reconfigure_ecmp env idl s) =
      (let get = \<lambda>k. smap_get_bool cfg k (ECMP_CONFIG_ENABLE_DEFAULT env) in
       \<lparr>enabled = get (ECMP_CONFIG_STATUS env),
        src_port_enabled = get (ECMP_CONFIG_HASH_SRC_PORT env), dst_port_enabled = get (ECMP_CONFIG_HASH_DST_PORT env),
        src_ip_enabled = get (ECMP_CONFIG_HASH_SRC_IP env), dst_ip_enabled = get (ECMP_CONFIG_HASH_DST_IP env),
        resilient_hash_enabled = get ''resilient_hash_enabled''\<rparr>) \<and>
    vrf_reconfigure_ecmp env idl (vrf_reconfigure_ecmp env idl s) = vrf_reconfigure_ecmp env idl s"
proof -
  let ?g = "\<lambda>k. smap_get_bool cfg k (ECMP_CONFIG_ENABLE_DEFAULT env)"
  have cfg: "ecmp_config (vrf_reconfigure_ecmp env idl s) =
      \<lparr>enabled = ?g (ECMP_CONFIG_STATUS env),
       src_port_enabled = ?g (ECMP_CONFIG_HASH_SRC_PORT env), dst_port_enabled = ?g (ECMP_CONFIG_HASH_DST_PORT env),
       src_ip_enabled = ?g (ECMP_CONFIG_HASH_SRC_IP env), dst_ip_enabled = ?g (ECMP_CONFIG_HASH_DST_IP env),
       resilient_hash_enabled = ?g ''resilient_hash_enabled''\<rparr>" for s
    using assms by (cases "ecmp_config s")
      (simp add: vrf_reconfigure_ecmp_def Let_def vrf_l3_ecmp_set_def vrf_l3_ecmp_hash_set_def)
  then show ?thesis
    using assms by (simp add: vrf_reconfigure_ecmp_def [of env idl "vrf_reconfigure_ecmp env idl s"] Let_def)
qed

theorem ecmp_follows_database_witness:
  "enabled (ecmp_config (vrf_reconfigure_ecmp sample_env
     ((sample_idl [] False False False)\<lparr>idl_system_ecmp_config := Some [(''enabled'', ''false'')], idl_ecmp_modified := True\<rparr>)
     sample_vrf)) = False"
  using ecmp_follows_database [where s = sample_vrf and env = sample_env and cfg = "[(''enabled'', ''false'')]" and
    idl = "(sample_idl [] False False False)\<lparr>idl_system_ecmp_config := Some [(''enabled'', ''false'')], idl_ecmp_modified := True\<rparr>"]
  by (simp add: sample_env_def smap_get_bool_def smap_get_def)

definition reinserted_idl :: route_idl where
  "reinserted_idl = sample_idl [sample_row 6 ''red'' [ip_row 8 ''9.9.9.9''] False True] False True True"

text \<open>
  A route row that is deleted and inserted again in one change, with other nexthops, leaves the
  cached route and the switch with the old nexthops: the key is found in both loops and neither the
  row nor its nexthops count as modified.
\<close>

theorem reinserted_route_keeps_old_nexthops:
  "map (\<lambda>rt. map nh_key (nexthops rt)) (all_routes (vrf_reconfigure_routes sample_env reinserted_idl sample_vrf1)) = [[''1.1.1.1'']]
   \<and> l3_log (vrf_reconfigure_routes sample_env reinserted_idl sample_vrf1) = l3_log sample_vrf1"
  by code_simp

definition other_vrf_idl :: route_idl where
  "other_vrf_idl = sample_idl [sample_row 9 ''blue'' [(ip_row 8 ''9.9.9.9'')\<lparr>nhr_modified := True\<rparr>] True False] True False False"

text \<open>
  \<open>vrf_reconfigure_nexthops\<close> does not compare the VRF of a route row: a nexthop change of a route of
  VRF \<open>blue\<close> rewrites the cached route of VRF \<open>red\<close> that has the same protocol and prefix.
\<close>

theorem nexthop_change_of_other_vrf:
  "vrf_name sample_vrf1 = ''red'' \<and>
   map (\<lambda>rt. map nh_key (nexthops rt)) (all_routes (vrf_reconfigure_nexthops sample_env other_vrf_idl sample_vrf1)) = [[''9.9.9.9'']]"
  by code_simp

end
