(* ===== verification/Neighbors.thy ===== *)
theory Neighbors
  imports Vrf_Props
begin

text \<open>
  The neighbor (host) table of a VRF, src/bridge.c: the cache of neighbors, the host entries
  programmed in the switch, and the periodic read of the hardware hit bits.

  A neighbor is known in its VRF by its address: \<open>neighbor_create\<close> asserts that the address is new.
  \<open>port_lookup\<close> searches the ports of the VRF's bridge by name.  The out parameter \<open>l3_egress_id\<close> of
  the provider calls is part of their result; a provider that fails may have written it too.
\<close>

section \<open>Host entries\<close>

definition put_neighbor :: "neighbor \<Rightarrow> l3 \<Rightarrow> l3" where
  "put_neighbor n s =
     s\<lparr>all_neighbors := map (\<lambda>x. if nb_ip_address x = nb_ip_address n then n else x) (all_neighbors s)\<rparr>"

definition neighbor_hash_delete :: "neighbor \<Rightarrow> l3 \<Rightarrow> l3" where
  "neighbor_hash_delete n s =
     s\<lparr>all_neighbors := filter (\<lambda>x. nb_ip_address x \<noteq> nb_ip_address n) (all_neighbors s)\<rparr>"

definition vrf_port_lookup :: "'a vrf_scheme \<Rightarrow> string option \<Rightarrow> string option" where
  "vrf_port_lookup s p = (case p of None \<Rightarrow> None | Some q \<Rightarrow> List.find (\<lambda>x. x = q) (vrf_ports s))"

text \<open>
  Returns the code's 0 or 1, and the neighbor as the caller sees it afterwards.  On failure it is
  freed, so it is gone from the cache.
\<close>

definition neighbor_set_l3_host_entry :: "l3_env \<Rightarrow> neighbor \<Rightarrow> l3 \<Rightarrow> int \<times> neighbor \<times> l3" where
  "neighbor_set_l3_host_entry env n s =
     (let idl_ip = (case nb_cfg n of Some c \<Rightarrow> nbr_ip_address c | None \<Rightarrow> []);
          idl_mac = (case nb_cfg n of Some c \<Rightarrow> nbr_mac c | None \<Rightarrow> None) in
      case vrf_port_lookup s (nb_port_name n) of
        None \<Rightarrow> (1, n, neighbor_hash_delete n s)
      | Some port \<Rightarrow>
          let (rc, e) = ofproto_add_l3_host_entry env (l3_log s) port (is_ipv6_addr n) idl_ip idl_mac (l3_egress_id n);
              s = log_call (AddHost port (is_ipv6_addr n) idl_ip idl_mac) s;
              n = n\<lparr>l3_egress_id := e\<rparr>
          in if rc = 0 then (0, n, put_neighbor n s) else (1, n, neighbor_hash_delete n s))"

definition neighbor_delete_l3_host_entry :: "l3_env \<Rightarrow> neighbor \<Rightarrow> l3 \<Rightarrow> int \<times> neighbor \<times> l3" where
  "neighbor_delete_l3_host_entry env n s =
     (case vrf_port_lookup s (nb_port_name n) of
        None \<Rightarrow> (1, n, s)
      | Some port \<Rightarrow>
          let (rc, e) = ofproto_delete_l3_host_entry env (l3_log s) port (is_ipv6_addr n) (nb_ip_address n) (l3_egress_id n);
              s = log_call (DeleteHost port (is_ipv6_addr n) (nb_ip_address n)) s;
              n = n\<lparr>l3_egress_id := e\<rparr>
          in (if rc = 0 then 0 else 1, n, put_neighbor n s))"

section \<open>Create, delete, modify\<close>

definition neighbor_is_ipv6 :: "l3_env \<Rightarrow> neighbor_row \<Rightarrow> bool" where
  "neighbor_is_ipv6 env row =
     (case nbr_address_family row of
        None \<Rightarrow> inet_pton6_ok env (nbr_ip_address row)
      | Some f \<Rightarrow> f = ADDRESS_FAMILY_IPV6 env)"

definition nonempty :: "string option \<Rightarrow> string option" where
  "nonempty x = (case x of Some a \<Rightarrow> if a = [] then None else Some a | None \<Rightarrow> None)"

definition program_neighbor :: "l3_env \<Rightarrow> neighbor \<Rightarrow> l3 \<Rightarrow> l3" where
  "program_neighbor env n s =
     (let (rc, n, s) = neighbor_set_l3_host_entry env n s in
      if rc = 0 then vrf_ofproto_update_route_with_neighbor env n True s else s)"

definition neighbor_create :: "l3_env \<Rightarrow> neighbor_row \<Rightarrow> l3 \<Rightarrow> l3" where
  "neighbor_create env row s =
     (let n = \<lparr>nb_ip_address = nbr_ip_address row, nb_mac = nonempty (nbr_mac row), nb_cfg = Some row,
               is_ipv6_addr = neighbor_is_ipv6 env row, hit_bit = False,
               nb_port_name = nonempty (nbr_port row), l3_egress_id = -1\<rparr>;
          s = s\<lparr>all_neighbors := all_neighbors s @ [n]\<rparr>
      in case nb_mac n of
           None \<Rightarrow> s
         | Some mac \<Rightarrow>
             if nb_port_name n \<noteq> None \<and> ether_aton_ok env mac then program_neighbor env n s else s)"

definition neighbor_delete :: "l3_env \<Rightarrow> neighbor \<Rightarrow> l3 \<Rightarrow> l3" where
  "neighbor_delete env n s =
     (let s = vrf_ofproto_update_route_with_neighbor env n False s;
          s = (if l3_egress_id n \<noteq> -1 then snd (snd (neighbor_delete_l3_host_entry env n s)) else s)
      in neighbor_hash_delete n s)"

text \<open>
  The two comparisons of \<open>neighbor_modify\<close>.  For the port: the name the neighbor carries until the
  old entry is deleted, the name afterwards, and the flags \<open>add_new\<close>, \<open>delete_old\<close>.  For the MAC: the
  new value and the flags.
\<close>

definition modify_port :: "string option \<Rightarrow> string option \<Rightarrow> string option \<times> string option \<times> bool \<times> bool" where
  "modify_port old row =
     (case row of
        Some p \<Rightarrow>
          (case old of
             None \<Rightarrow> (Some p, Some p, True, False)
           | Some q \<Rightarrow> if q \<noteq> p then (Some q, Some p, True, True) else (Some q, Some q, False, False))
      | None \<Rightarrow>
          (case old of
             None \<Rightarrow> (None, None, False, False)
           | Some q \<Rightarrow> (Some q, None, False, True)))"

definition modify_mac :: "string option \<Rightarrow> string option \<Rightarrow> string option \<times> bool \<times> bool" where
  "modify_mac old row =
     (case nonempty row of
        Some m \<Rightarrow>
          (case old of
             None \<Rightarrow> (Some m, True, False)
           | Some k \<Rightarrow> if k \<noteq> m then (Some m, True, True) else (Some k, False, False))
      | None \<Rightarrow> (None, False, old \<noteq> None))"

definition neighbor_modify :: "l3_env \<Rightarrow> neighbor \<Rightarrow> neighbor_row \<Rightarrow> l3 \<Rightarrow> l3" where
  "neighbor_modify env n row s =
     (let (port_before, port_after, add1, del1) = modify_port (nb_port_name n) (nbr_port row);
          (mac, add2, del2) = modify_mac (nb_mac n) (nbr_mac row);
          n = n\<lparr>nb_cfg := Some row, nb_port_name := port_before, nb_mac := mac\<rparr>;
          s = put_neighbor n s;
          (n, s) =
            (if (del1 \<or> del2) \<and> l3_egress_id n \<noteq> -1
             then let s = vrf_ofproto_update_route_with_neighbor env n False s;
                      (rc, n, s) = neighbor_delete_l3_host_entry env n s
                  in (n, s)
             else (n, s));
          n = n\<lparr>nb_port_name := port_after\<rparr>;
          s = put_neighbor n s
      in case nb_mac n of
           None \<Rightarrow> s
         | Some m \<Rightarrow>
             if (add1 \<or> add2) \<and> nb_port_name n \<noteq> None \<and> ether_aton_ok env m
             then program_neighbor env n s else s)"

section \<open>Following the Neighbor table\<close>

fun delete_neighbors :: "l3_env \<Rightarrow> neighbor list \<Rightarrow> l3 \<Rightarrow> l3" where
  "delete_neighbors env [] s = s"
| "delete_neighbors env (n # ns) s = delete_neighbors env ns (neighbor_delete env n s)"

definition vrf_delete_all_neighbors :: "l3_env \<Rightarrow> l3 \<Rightarrow> l3" where
  "vrf_delete_all_neighbors env s = delete_neighbors env (all_neighbors s) s"

definition vrf_delete_port_neighbors :: "l3_env \<Rightarrow> string \<Rightarrow> l3 \<Rightarrow> l3" where
  "vrf_delete_port_neighbors env port s =
     delete_neighbors env (filter (\<lambda>n. nb_port_name n = Some port) (all_neighbors s)) s"

definition add_neighbor :: "l3_env \<Rightarrow> neighbor_row \<Rightarrow> l3 \<Rightarrow> l3" where
  "add_neighbor env row s =
     (case neighbor_hash_lookup env s (nbr_ip_address row) of
        None \<Rightarrow> neighbor_create env row s
      | Some _ \<Rightarrow> s)"

fun vrf_add_neighbors :: "l3_env \<Rightarrow> neighbor_row list \<Rightarrow> l3 \<Rightarrow> l3" where
  "vrf_add_neighbors env [] s = s"
| "vrf_add_neighbors env (row # rows) s =
     vrf_add_neighbors env rows (if vrf_name s = nbr_vrf row then add_neighbor env row s else s)"

record neighbor_idl =
  idl_neighbors :: "neighbor_row list"
  idl_neighbors_modified :: bool
  idl_neighbors_deleted :: bool
  idl_neighbors_inserted :: bool

fun add_all_neighbors :: "l3_env \<Rightarrow> neighbor_row list \<Rightarrow> l3 \<Rightarrow> l3" where
  "add_all_neighbors env [] s = s"
| "add_all_neighbors env (row # rows) s = add_all_neighbors env rows (add_neighbor env row s)"

fun modify_neighbors :: "l3_env \<Rightarrow> neighbor_row list \<Rightarrow> l3 \<Rightarrow> l3" where
  "modify_neighbors env [] s = s"
| "modify_neighbors env (row # rows) s =
     modify_neighbors env rows
       (if nbr_modified row \<and> \<not> nbr_inserted row
        then (case neighbor_hash_lookup env s (nbr_ip_address row) of
                None \<Rightarrow> s
              | Some n \<Rightarrow> neighbor_modify env n row s)
        else s)"

definition vrf_reconfigure_neighbors :: "l3_env \<Rightarrow> neighbor_idl \<Rightarrow> l3 \<Rightarrow> l3" where
  "vrf_reconfigure_neighbors env idl s =
     (if idl_neighbors idl = [] then delete_neighbors env (all_neighbors s) s
      else if \<not> idl_neighbors_modified idl \<and> \<not> idl_neighbors_deleted idl \<and> \<not> idl_neighbors_inserted idl then s
      else
        let current = shash_collect nbr_ip_address (filter (\<lambda>row. vrf_name s = nbr_vrf row) (idl_neighbors idl));
            s = s\<lparr>all_neighbors := map (\<lambda>n. n\<lparr>nb_cfg := shash_find_data current (nb_ip_address n)\<rparr>) (all_neighbors s)\<rparr>;
            s = delete_neighbors env (filter (\<lambda>n. nb_cfg n = None) (all_neighbors s)) s;
            s = add_all_neighbors env (idl_neighbors idl) s
        in if idl_neighbors_modified idl then modify_neighbors env (idl_neighbors idl) s else s)"

section \<open>Hit bits\<close>

text \<open>
  \<open>run_neighbor_update\<close> walks the Neighbor table of all VRFs.  Its state is the VRFs, the call log, the
  status values it writes (by row, in order) and the two file-scope timer variables; \<open>now\<close> is
  \<open>time_msec()\<close>, read once before and once after the walk.  The result of \<open>vrf_lookup\<close> is used without a
  check: \<open>Inl\<close> is the NULL dereference.
\<close>

record hit_state =
  hs_vrfs :: "vrf list"
  hs_log :: "l3_call list"
  hs_status :: "(neighbor_row \<times> smap) list"
  neighbor_timer_interval :: int
  neighbor_timer :: int

definition NEIGHBOR_HIT_BIT_UPDATE_INTERVAL :: int where "NEIGHBOR_HIT_BIT_UPDATE_INTERVAL = 10000"
definition LLONG_MIN :: int where "LLONG_MIN = - (2 ^ 63)"

definition put_hit :: "string \<Rightarrow> string \<Rightarrow> bool \<Rightarrow> vrf \<Rightarrow> vrf" where
  "put_hit v ip hit x =
     (if vrf_name x = v
      then x\<lparr>all_neighbors := map (\<lambda>n. if nb_ip_address n = ip then n\<lparr>hit_bit := hit\<rparr> else n) (all_neighbors x)\<rparr> else x)"

definition read_hit_bit :: "l3_env \<Rightarrow> neighbor_row \<Rightarrow> hit_state \<Rightarrow> fault + hit_state" where
  "read_hit_bit env row h =
     (case List.find (\<lambda>v. vrf_name v = nbr_vrf row) (hs_vrfs h) of
        None \<Rightarrow> Inl Null_dereference
      | Some v \<Rightarrow>
          (case neighbor_hash_lookup env v (nbr_ip_address row) of
             None \<Rightarrow> Inr h
           | Some n \<Rightarrow>
               if l3_egress_id n = -1 then Inr h
               else (case vrf_port_lookup v (nb_port_name n) of
                       None \<Rightarrow> Inr h
                     | Some port \<Rightarrow>
                         let (rc, hit) = ofproto_get_l3_host_hit env (hs_log h) port (is_ipv6_addr n) (nbr_ip_address row) (hit_bit n);
                             h = h\<lparr>hs_log := hs_log h @ [GetHostHit port (is_ipv6_addr n) (nbr_ip_address row)],
                                   hs_vrfs := map (put_hit (vrf_name v) (nb_ip_address n) hit) (hs_vrfs h)\<rparr>
                         in if rc = 0
                            then Inr (h\<lparr>hs_status := hs_status h @
                                   [(row, smap_replace (nbr_status row) (NEIGHBOR_STATUS_DP_HIT env) (if hit then ''true'' else ''false''))]\<rparr>)
                            else Inr h)))"

fun read_hit_bits :: "l3_env \<Rightarrow> neighbor_row list \<Rightarrow> hit_state \<Rightarrow> fault + hit_state" where
  "read_hit_bits env [] h = Inr h"
| "read_hit_bits env (row # rows) h =
     (case read_hit_bit env row h of Inl f \<Rightarrow> Inl f | Inr h \<Rightarrow> read_hit_bits env rows h)"

definition run_neighbor_update ::
  "l3_env \<Rightarrow> neighbor_row list \<Rightarrow> int \<Rightarrow> int \<Rightarrow> hit_state \<Rightarrow> fault + hit_state" where
  "run_neighbor_update env rows now later h =
     (if rows = [] then Inr h
      else
        let interval = NEIGHBOR_HIT_BIT_UPDATE_INTERVAL;
            h = (if neighbor_timer_interval h \<noteq> interval
                 then h\<lparr>neighbor_timer_interval := interval, neighbor_timer := LLONG_MIN\<rparr> else h)
        in if now \<ge> neighbor_timer h
           then (case read_hit_bits env rows h of
                   Inl f \<Rightarrow> Inl f
                 | Inr h \<Rightarrow> Inr (h\<lparr>neighbor_timer := later + neighbor_timer_interval h\<rparr>))
           else Inr h)"

section \<open>Frame facts\<close>

definition nb_frame :: "l3 \<Rightarrow> l3 \<Rightarrow> bool" where
  "nb_frame s s' \<longleftrightarrow> vrf_name s' = vrf_name s \<and> vrf_ports s' = vrf_ports s \<and> all_routes s' = all_routes s \<and>
     all_nexthops s' = all_nexthops s \<and> next_ptr s' = next_ptr s \<and> ecmp_config s' = ecmp_config s"

lemma nb_frame_refl [simp]: "nb_frame s s"
  by (simp add: nb_frame_def)

lemma nb_frame_trans [trans]: "nb_frame s s1 \<Longrightarrow> nb_frame s1 s2 \<Longrightarrow> nb_frame s s2"
  by (simp add: nb_frame_def)

lemma nb_frame_cache: "nb_frame s s' \<Longrightarrow> cache_ok s \<Longrightarrow> cache_ok s'"
  by (simp add: nb_frame_def cache_ok_def cache_wf_def cache_inv_def)

lemma nb_frame_wf: "nb_frame s s' \<Longrightarrow> cache_wf s \<Longrightarrow> cache_wf s'"
  by (simp add: nb_frame_def cache_wf_def cache_inv_def)

lemma update_routes_frame:
  "nb_frame s (update_routes_of_nexthops env n b nhs s) \<and>
   all_neighbors (update_routes_of_nexthops env n b nhs s) = all_neighbors s"
proof (induction nhs arbitrary: s)
  case (Cons nh nhs)
  define s1 where "s1 = (if hash_string env (nh_key nh) = hash_string env (nb_ip_address n) \<and> ip_addr nh = Some (nb_ip_address n)
    then (case deref_route s (nh_route nh) of None \<Rightarrow> s | Some rt \<Rightarrow> vrf_ofproto_route_add env [neighbor_nh n b nh] rt s) else s)"
  have "nb_frame s s1 \<and> all_neighbors s1 = all_neighbors s"
    by (auto simp: s1_def nb_frame_def split: option.split)
  with Cons.IH [of s1] nb_frame_trans [of s s1] show ?case by (auto simp: s1_def [symmetric])
qed simp

lemma update_neighbor_frame [simp]:
  "nb_frame s (vrf_ofproto_update_route_with_neighbor env n b s') = nb_frame s s'"
  "all_neighbors (vrf_ofproto_update_route_with_neighbor env n b s) = all_neighbors s"
  using update_routes_frame [where s = s'] update_routes_frame [where s = s]
  by (auto simp: vrf_ofproto_update_route_with_neighbor_def nb_frame_def)

lemma put_neighbor_frame [simp]:
  "nb_frame s (put_neighbor n s') = nb_frame s s'" "nb_frame s (neighbor_hash_delete n s') = nb_frame s s'"
  "nb_frame s (log_call c s') = nb_frame s s'"
  "l3_log (put_neighbor n s) = l3_log s" "l3_log (neighbor_hash_delete n s) = l3_log s"
  by (simp_all add: put_neighbor_def neighbor_hash_delete_def nb_frame_def)

text \<open>The addresses of the cached neighbors, in order.\<close>

definition nb_ips :: "'a vrf_scheme \<Rightarrow> string list" where
  "nb_ips s = map nb_ip_address (all_neighbors s)"

lemma nb_ips_ops [simp]:
  "nb_ips (put_neighbor n s) = nb_ips s"
  "nb_ips (neighbor_hash_delete n s) = filter (\<lambda>x. x \<noteq> nb_ip_address n) (nb_ips s)"
  "nb_ips (log_call c s) = nb_ips s"
  "nb_ips (vrf_ofproto_update_route_with_neighbor env m b s) = nb_ips s"
  by (auto simp: nb_ips_def put_neighbor_def neighbor_hash_delete_def filter_map comp_def)

lemma set_host_effect:
  assumes "neighbor_set_l3_host_entry env n s = (rc, n', s')"
  shows "nb_frame s s'" "nb_ip_address n' = nb_ip_address n"
    "nb_ips s' = (if rc = 0 then nb_ips s else filter (\<lambda>x. x \<noteq> nb_ip_address n) (nb_ips s))"
  using assms
  by (auto simp: neighbor_set_l3_host_entry_def Let_def split: option.splits prod.splits if_splits)

lemma delete_host_effect:
  assumes "neighbor_delete_l3_host_entry env n s = (rc, n', s')"
  shows "nb_frame s s'" "nb_ip_address n' = nb_ip_address n" "nb_ips s' = nb_ips s"
  using assms
  by (auto simp: neighbor_delete_l3_host_entry_def Let_def split: option.splits prod.splits if_splits)

lemma program_neighbor_effect:
  "nb_frame s (program_neighbor env n s)"
  "nb_ips (program_neighbor env n s) = nb_ips s \<or>
   nb_ips (program_neighbor env n s) = filter (\<lambda>x. x \<noteq> nb_ip_address n) (nb_ips s)"
proof -
  obtain rc n' s' where 1: "neighbor_set_l3_host_entry env n s = (rc, n', s')" by (rule prod_cases3)
  note eff = set_host_effect [OF 1]
  show "nb_frame s (program_neighbor env n s)"
    using eff(1) by (simp add: program_neighbor_def 1)
  show "nb_ips (program_neighbor env n s) = nb_ips s \<or>
      nb_ips (program_neighbor env n s) = filter (\<lambda>x. x \<noteq> nb_ip_address n) (nb_ips s)"
    using eff(3) by (simp add: program_neighbor_def 1)
qed

lemma neighbor_create_effect:
  "nb_frame s (neighbor_create env row s)"
  "nbr_ip_address row \<notin> set (nb_ips s) \<Longrightarrow>
     nb_ips (neighbor_create env row s) = nb_ips s @ [nbr_ip_address row] \<or> nb_ips (neighbor_create env row s) = nb_ips s"
proof -
  define n where "n = \<lparr>nb_ip_address = nbr_ip_address row, nb_mac = nonempty (nbr_mac row), nb_cfg = Some row,
      is_ipv6_addr = neighbor_is_ipv6 env row, hit_bit = False, nb_port_name = nonempty (nbr_port row), l3_egress_id = -1\<rparr>"
  define s0 where "s0 = s\<lparr>all_neighbors := all_neighbors s @ [n]\<rparr>"
  have s0: "nb_frame s s0" "nb_ips s0 = nb_ips s @ [nbr_ip_address row]" "nb_ip_address n = nbr_ip_address row"
    by (simp_all add: s0_def n_def nb_frame_def nb_ips_def)
  have res: "neighbor_create env row s = s0 \<or> neighbor_create env row s = program_neighbor env n s0"
    unfolding neighbor_create_def n_def [symmetric] Let_def s0_def [symmetric] by (auto split: option.split)
  show "nb_frame s (neighbor_create env row s)"
    using res s0(1) nb_frame_trans [OF s0(1) program_neighbor_effect(1)] by auto
  assume new: "nbr_ip_address row \<notin> set (nb_ips s)"
  then have "filter (\<lambda>x. x \<noteq> nb_ip_address n) (nb_ips s0) = nb_ips s"
    by (auto simp: s0 filter_id_conv)
  then show "nb_ips (neighbor_create env row s) = nb_ips s @ [nbr_ip_address row] \<or> nb_ips (neighbor_create env row s) = nb_ips s"
    using res s0(2) program_neighbor_effect(2) [where s = s0 and env = env and n = n] by auto
qed

lemma neighbor_delete_effect:
  "nb_frame s (neighbor_delete env n s)"
  "nb_ips (neighbor_delete env n s) = filter (\<lambda>x. x \<noteq> nb_ip_address n) (nb_ips s)"
proof -
  let ?s = "vrf_ofproto_update_route_with_neighbor env n False s"
  obtain rc n' s' where 1: "neighbor_delete_l3_host_entry env n ?s = (rc, n', s')" by (rule prod_cases3)
  from delete_host_effect [OF 1] have "nb_frame s s'" "nb_ips s' = nb_ips s"
    using nb_frame_trans [of s ?s s'] by auto
  then show "nb_frame s (neighbor_delete env n s)"
    "nb_ips (neighbor_delete env n s) = filter (\<lambda>x. x \<noteq> nb_ip_address n) (nb_ips s)"
    by (auto simp: neighbor_delete_def 1 Let_def)
qed

lemma neighbor_modify_effect:
  "nb_frame s (neighbor_modify env n row s)"
  "nb_ips (neighbor_modify env n row s) = nb_ips s \<or>
   nb_ips (neighbor_modify env n row s) = filter (\<lambda>x. x \<noteq> nb_ip_address n) (nb_ips s)"
proof -
  obtain pb pa a1 d1 where p: "modify_port (nb_port_name n) (nbr_port row) = (pb, pa, a1, d1)" by (rule prod_cases4)
  obtain m a2 d2 where m: "modify_mac (nb_mac n) (nbr_mac row) = (m, a2, d2)" by (rule prod_cases3)
  define n1 where "n1 = n\<lparr>nb_cfg := Some row, nb_port_name := pb, nb_mac := m\<rparr>"
  define s1 where "s1 = put_neighbor n1 s"
  obtain rc n2 s2 where 2: "neighbor_delete_l3_host_entry env n1 (vrf_ofproto_update_route_with_neighbor env n1 False s1) = (rc, n2, s2)"
    by (rule prod_cases3)
  define c where "c = ((d1 \<or> d2) \<and> l3_egress_id n1 \<noteq> -1)"
  define n3 where "n3 = (if c then n2 else n1)\<lparr>nb_port_name := pa\<rparr>"
  define s3 where "s3 = put_neighbor n3 (if c then s2 else s1)"
  have "neighbor_modify env n row s =
      (case nb_mac n3 of None \<Rightarrow> s3
       | Some m \<Rightarrow> if (a1 \<or> a2) \<and> nb_port_name n3 \<noteq> None \<and> ether_aton_ok env m then program_neighbor env n3 s3 else s3)"
    unfolding neighbor_modify_def p m Let_def prod.case n1_def [symmetric] s1_def [symmetric] 2 c_def [symmetric]
      n3_def s3_def by (cases c) simp_all
  then have res: "neighbor_modify env n row s = s3 \<or> neighbor_modify env n row s = program_neighbor env n3 s3"
    by (auto split: option.splits)
  note d = delete_host_effect [OF 2]
  have s3: "nb_frame s s3" "nb_ips s3 = nb_ips s" "nb_ip_address n3 = nb_ip_address n"
    using d nb_frame_trans [OF _ d(1), of s] by (auto simp: s3_def s1_def n3_def n1_def simp del: update_neighbor_frame(1))
      (simp add: s1_def)
  show "nb_frame s (neighbor_modify env n row s)"
    using res s3(1) nb_frame_trans [OF s3(1) program_neighbor_effect(1)] by auto
  show "nb_ips (neighbor_modify env n row s) = nb_ips s \<or>
      nb_ips (neighbor_modify env n row s) = filter (\<lambda>x. x \<noteq> nb_ip_address n) (nb_ips s)"
    using res s3(2,3) program_neighbor_effect(2) [where s = s3 and env = env and n = n3] by auto
qed

section \<open>The set of cached neighbors\<close>

lemma lookup_neighbor_None:
  "neighbor_hash_lookup env s ip = None \<longleftrightarrow> ip \<notin> set (nb_ips s)"
  by (auto simp: neighbor_hash_lookup_def find_None_conv nb_ips_def)

lemma lookup_neighbor_Some:
  "neighbor_hash_lookup env s ip = Some n \<Longrightarrow> n \<in> set (all_neighbors s) \<and> nb_ip_address n = ip"
  by (auto simp: neighbor_hash_lookup_def dest: find_Some_conv)

lemma add_neighbor_effect:
  "nb_frame s (add_neighbor env row s)"
  "set (nb_ips s) \<subseteq> set (nb_ips (add_neighbor env row s))"
  "set (nb_ips (add_neighbor env row s)) \<subseteq> insert (nbr_ip_address row) (set (nb_ips s))"
  "distinct (nb_ips s) \<Longrightarrow> distinct (nb_ips (add_neighbor env row s))"
  using neighbor_create_effect [where s = s and env = env and row = row] lookup_neighbor_None [of env s "nbr_ip_address row"]
  by (auto simp: add_neighbor_def split: option.split)

lemma delete_neighbors_effect:
  "nb_frame s (delete_neighbors env ns s) \<and>
   nb_ips (delete_neighbors env ns s) = filter (\<lambda>x. x \<notin> nb_ip_address ` set ns) (nb_ips s)"
proof (induction ns arbitrary: s)
  case (Cons n ns)
  from Cons [of "neighbor_delete env n s"] neighbor_delete_effect [where s = s and env = env and n = n]
    nb_frame_trans [of s "neighbor_delete env n s"]
  show ?case by (auto intro!: filter_cong)
qed simp

lemma add_all_neighbors_effect:
  "nb_frame s (add_all_neighbors env rows s) \<and> set (nb_ips s) \<subseteq> set (nb_ips (add_all_neighbors env rows s)) \<and>
   set (nb_ips (add_all_neighbors env rows s)) \<subseteq> set (nb_ips s) \<union> nbr_ip_address ` set rows \<and>
   (distinct (nb_ips s) \<longrightarrow> distinct (nb_ips (add_all_neighbors env rows s)))"
proof (induction rows arbitrary: s)
  case (Cons row rows)
  note eff = add_neighbor_effect [where s = s and env = env and row = row]
  from Cons [of "add_neighbor env row s"] eff nb_frame_trans [OF eff(1)] show ?case by auto
qed simp

lemma modify_neighbors_effect:
  "nb_frame s (modify_neighbors env rows s) \<and> set (nb_ips (modify_neighbors env rows s)) \<subseteq> set (nb_ips s) \<and>
   (distinct (nb_ips s) \<longrightarrow> distinct (nb_ips (modify_neighbors env rows s)))"
proof (induction rows arbitrary: s)
  case (Cons row rows)
  define s1 where "s1 = (if nbr_modified row \<and> \<not> nbr_inserted row
    then (case neighbor_hash_lookup env s (nbr_ip_address row) of None \<Rightarrow> s | Some n \<Rightarrow> neighbor_modify env n row s) else s)"
  have "nb_frame s (neighbor_modify env n row s) \<and> set (nb_ips (neighbor_modify env n row s)) \<subseteq> set (nb_ips s) \<and>
      (distinct (nb_ips s) \<longrightarrow> distinct (nb_ips (neighbor_modify env n row s)))" for n
    using neighbor_modify_effect [where s = s and env = env and n = n and row = row] by auto
  then have s1: "nb_frame s s1 \<and> set (nb_ips s1) \<subseteq> set (nb_ips s) \<and> (distinct (nb_ips s) \<longrightarrow> distinct (nb_ips s1))"
    by (auto simp: s1_def split: option.split)
  have "modify_neighbors env (row # rows) s = modify_neighbors env rows s1" by (simp add: s1_def)
  with Cons [of s1] s1 nb_frame_trans [of s s1] show ?case by auto
qed simp

lemma nb_cfg_refresh:
  "nb_ips (s\<lparr>all_neighbors := map (\<lambda>n. n\<lparr>nb_cfg := f n\<rparr>) ns\<rparr>) = map nb_ip_address ns"
  by (simp add: nb_ips_def comp_def)

lemma reconfigure_neighbors_effect:
  "nb_frame s (vrf_reconfigure_neighbors env idl s)"
  "distinct (nb_ips s) \<Longrightarrow> distinct (nb_ips (vrf_reconfigure_neighbors env idl s))"
  "idl_neighbors idl = [] \<or> idl_neighbors_modified idl \<or> idl_neighbors_deleted idl \<or> idl_neighbors_inserted idl \<Longrightarrow>
     set (nb_ips (vrf_reconfigure_neighbors env idl s)) \<subseteq> nbr_ip_address ` set (idl_neighbors idl)"
proof -
  define cur where "cur = shash_collect nbr_ip_address (filter (\<lambda>row. vrf_name s = nbr_vrf row) (idl_neighbors idl))"
  define s1 where "s1 = s\<lparr>all_neighbors := map (\<lambda>n. n\<lparr>nb_cfg := shash_find_data cur (nb_ip_address n)\<rparr>) (all_neighbors s)\<rparr>"
  define gone where "gone = filter (\<lambda>n. nb_cfg n = None) (all_neighbors s1)"
  define s2 where "s2 = delete_neighbors env gone s1"
  define s3 where "s3 = add_all_neighbors env (idl_neighbors idl) s2"
  define s4 where "s4 = (if idl_neighbors_modified idl then modify_neighbors env (idl_neighbors idl) s3 else s3)"
  have s1: "nb_frame s s1" "nb_ips s1 = nb_ips s" by (auto simp: s1_def nb_frame_def nb_ips_def comp_def)
  have gone: "nb_ip_address ` set gone = {ip \<in> set (nb_ips s). shash_find_data cur ip = None}"
    by (auto simp: gone_def s1_def nb_ips_def filter_map comp_def image_image)
  have "ip \<in> nbr_ip_address ` set (idl_neighbors idl)" if "shash_find_data cur ip \<noteq> None" for ip
    using that by (auto simp: cur_def map_of_eq_None_iff image_iff simp flip: not_None_eq)
  then have s2: "nb_frame s1 s2" "set (nb_ips s2) \<subseteq> nbr_ip_address ` set (idl_neighbors idl)"
    "distinct (nb_ips s) \<Longrightarrow> distinct (nb_ips s2)"
    using delete_neighbors_effect [where s = s1 and env = env and ns = gone] by (auto simp: s2_def s1 gone)
  note s3 = add_all_neighbors_effect [where s = s2 and env = env and rows = "idl_neighbors idl", folded s3_def]
  have s4: "nb_frame s3 s4" "set (nb_ips s4) \<subseteq> set (nb_ips s3)" "distinct (nb_ips s3) \<Longrightarrow> distinct (nb_ips s4)"
    using modify_neighbors_effect [where s = s3 and env = env and rows = "idl_neighbors idl"] by (auto simp: s4_def)
  have "nb_frame s2 s3" using s3 by blast
  from nb_frame_trans [OF nb_frame_trans [OF nb_frame_trans [OF s1(1) s2(1)] this] s4(1)] have fr: "nb_frame s s4" .
  note del = delete_neighbors_effect [where s = s and env = env and ns = "all_neighbors s"]
  have empty: "nb_ips (delete_neighbors env (all_neighbors s) s) = []"
    using del by (auto simp: nb_ips_def filter_empty_conv)
  have res: "vrf_reconfigure_neighbors env idl s =
      (if idl_neighbors idl = [] then delete_neighbors env (all_neighbors s) s
       else if \<not> idl_neighbors_modified idl \<and> \<not> idl_neighbors_deleted idl \<and> \<not> idl_neighbors_inserted idl then s else s4)"
    by (simp add: vrf_reconfigure_neighbors_def Let_def s4_def s3_def s2_def gone_def s1_def cur_def)
  show "nb_frame s (vrf_reconfigure_neighbors env idl s)" using res fr del by simp
  show "distinct (nb_ips s) \<Longrightarrow> distinct (nb_ips (vrf_reconfigure_neighbors env idl s))"
    using res empty s2(3) s3 s4(3) by auto
  show "idl_neighbors idl = [] \<or> idl_neighbors_modified idl \<or> idl_neighbors_deleted idl \<or> idl_neighbors_inserted idl \<Longrightarrow>
     set (nb_ips (vrf_reconfigure_neighbors env idl s)) \<subseteq> nbr_ip_address ` set (idl_neighbors idl)"
    using res empty s2(2) s3 s4(2) by auto
qed

section \<open>Calls made for one neighbor\<close>

lemma neighbor_delete_log:
  assumes "cache_wf s"
  shows "l3_log (neighbor_delete env n s) =
    l3_log s @ neighbor_pushes s n False (all_nexthops s) @
      (if l3_egress_id n = -1 then []
       else case vrf_port_lookup s (nb_port_name n) of
         None \<Rightarrow> [] | Some port \<Rightarrow> [DeleteHost port (is_ipv6_addr n) (nb_ip_address n)])"
proof -
  let ?s = "vrf_ofproto_update_route_with_neighbor env n False s"
  note eff = update_route_with_neighbor_effect [OF assms, of env n False]
  have "vrf_ports ?s = vrf_ports s" using eff(3) by (simp add: keeps_vrf_def)
  then have "vrf_port_lookup ?s (nb_port_name n) = vrf_port_lookup s (nb_port_name n)"
    by (simp add: vrf_port_lookup_def split: option.split)
  with eff(1) show ?thesis
    by (auto simp: neighbor_delete_def Let_def neighbor_delete_l3_host_entry_def split: option.split prod.split)
qed

text \<open>Creating a neighbor that has a valid MAC and a known port, by the provider's answer.\<close>

lemma put_neighbor_snoc:
  assumes "nb_ip_address m = nb_ip_address n" "nb_ip_address n \<notin> set (nb_ips s)"
  shows "all_neighbors (put_neighbor m (s\<lparr>all_neighbors := all_neighbors s @ [n]\<rparr>)) = all_neighbors s @ [m]"
  using assms by (auto simp: put_neighbor_def nb_ips_def image_iff intro!: map_idI)

lemma hash_delete_snoc:
  assumes "nb_ip_address m = nb_ip_address n" "nb_ip_address n \<notin> set (nb_ips s)"
  shows "all_neighbors (neighbor_hash_delete m (s\<lparr>all_neighbors := all_neighbors s @ [n]\<rparr>)) = all_neighbors s"
  using assms by (auto simp: neighbor_hash_delete_def nb_ips_def image_iff filter_id_conv)

lemma log_call_neighbors: "(log_call c s)\<lparr>all_neighbors := ns\<rparr> = log_call c (s\<lparr>all_neighbors := ns\<rparr>)"
  by (simp add: log_call_def)

definition new_neighbor :: "l3_env \<Rightarrow> neighbor_row \<Rightarrow> int \<Rightarrow> neighbor" where
  "new_neighbor env row e =
     \<lparr>nb_ip_address = nbr_ip_address row, nb_mac = nonempty (nbr_mac row), nb_cfg = Some row,
      is_ipv6_addr = neighbor_is_ipv6 env row, hit_bit = False, nb_port_name = nonempty (nbr_port row), l3_egress_id = e\<rparr>"

lemma find_port: "p \<in> set (vrf_ports s) \<Longrightarrow> vrf_port_lookup s (Some p) = Some p"
  using find_None_conv [of "\<lambda>x. x = p" "vrf_ports s"]
  by (auto simp: vrf_port_lookup_def dest: find_Some_conv split: option.split
      intro: ccontr elim!: option.exhaust [of "List.find (\<lambda>x. x = p) (vrf_ports s)"])

lemma neighbor_pushes_cong:
  assumes "all_routes s' = all_routes s"
  shows "neighbor_pushes s' n b nhs = neighbor_pushes s n b nhs"
proof -
  have d: "deref_route s' = deref_route s" using assms by (simp add: deref_route_def fun_eq_iff)
  show ?thesis unfolding neighbor_pushes_def d by (rule refl)
qed

lemma neighbor_create_calls:
  assumes "cache_wf s" "nbr_ip_address row \<notin> set (nb_ips s)"
    and "nonempty (nbr_mac row) = Some m" "ether_aton_ok env m" "nonempty (nbr_port row) = Some p" "p \<in> set (vrf_ports s)"
    and "ofproto_add_l3_host_entry env (l3_log s) p (neighbor_is_ipv6 env row) (nbr_ip_address row) (nbr_mac row) (-1) = (rc, e)"
  shows "all_neighbors (neighbor_create env row s) = (if rc = 0 then all_neighbors s @ [new_neighbor env row e] else all_neighbors s) \<and>
    l3_log (neighbor_create env row s) =
      l3_log s @ [AddHost p (neighbor_is_ipv6 env row) (nbr_ip_address row) (nbr_mac row)] @
      (if rc = 0 then neighbor_pushes s (new_neighbor env row e) True (all_nexthops s) else [])"
proof -
  let ?n = "new_neighbor env row (-1)" and ?n' = "new_neighbor env row e"
  let ?c = "AddHost p (neighbor_is_ipv6 env row) (nbr_ip_address row) (nbr_mac row)"
  define s0 where "s0 = s\<lparr>all_neighbors := all_neighbors s @ [?n]\<rparr>"
  have n: "nb_ip_address ?n' = nb_ip_address ?n" "nb_ip_address ?n \<notin> set (nb_ips (log_call ?c s))"
    "?n\<lparr>l3_egress_id := e\<rparr> = ?n'" "nb_port_name ?n = Some p" "nb_mac ?n = Some m"
    using assms(2,3,5) by (simp_all add: new_neighbor_def)
  have create: "neighbor_create env row s = program_neighbor env ?n s0"
    using assms(3-5) by (simp add: neighbor_create_def Let_def s0_def new_neighbor_def)
  have port: "vrf_port_lookup s0 (Some p) = Some p" using assms(6) by (intro find_port) (simp add: s0_def)
  have log: "log_call ?c s0 = (log_call ?c s)\<lparr>all_neighbors := all_neighbors (log_call ?c s) @ [?n]\<rparr>"
    by (simp add: s0_def log_call_def)
  have set_host: "neighbor_set_l3_host_entry env ?n s0 =
      (if rc = 0 then (0, ?n', put_neighbor ?n' (log_call ?c s0)) else (1, ?n', neighbor_hash_delete ?n' (log_call ?c s0)))"
  proof -
    have "nb_cfg ?n = Some row" "is_ipv6_addr ?n = neighbor_is_ipv6 env row" "l3_egress_id ?n = -1" "l3_log s0 = l3_log s"
      by (simp_all add: new_neighbor_def s0_def)
    with assms(7) port n(3,4) show ?thesis by (simp add: neighbor_set_l3_host_entry_def Let_def)
  qed
  define s1 where "s1 = put_neighbor ?n' (log_call ?c s0)"
  have s1: "cache_wf s1" "l3_log s1 = l3_log s @ [?c]" "all_neighbors s1 = all_neighbors s @ [?n']"
    "all_routes s1 = all_routes s" "all_nexthops s1 = all_nexthops s"
    using put_neighbor_snoc [OF n(1,2)] assms(1)
    by (simp_all add: s1_def log put_neighbor_def cache_wf_def cache_inv_def)
  note upd = update_route_with_neighbor_effect [OF s1(1), of env ?n' True]
  show ?thesis
  proof (cases "rc = 0")
    case True
    then have "neighbor_create env row s = vrf_ofproto_update_route_with_neighbor env ?n' True s1"
      using create set_host by (simp add: program_neighbor_def s1_def)
    with True upd(1) s1 neighbor_pushes_cong [OF s1(4)] show ?thesis by simp
  next
    case False
    then have "neighbor_create env row s = neighbor_hash_delete ?n' (log_call ?c s0)"
      using create set_host by (simp add: program_neighbor_def)
    with False hash_delete_snoc [OF n(1,2)] show ?thesis by (simp add: log)
  qed
qed

text \<open>Which status values the hit-bit walk writes.\<close>

definition hit_write :: "l3_env \<Rightarrow> neighbor_row \<times> smap \<Rightarrow> bool" where
  "hit_write env w \<longleftrightarrow> (\<exists>b. snd w = smap_replace (nbr_status (fst w)) (NEIGHBOR_STATUS_DP_HIT env) (if b then ''true'' else ''false''))"

lemma read_hit_bits_writes:
  assumes "read_hit_bits env rows h = Inr h'"
  shows "\<exists>ws. hs_status h' = hs_status h @ ws \<and> (\<forall>w\<in>set ws. fst w \<in> set rows \<and> hit_write env w) \<and>
    neighbor_timer_interval h' = neighbor_timer_interval h"
  using assms
proof (induction rows arbitrary: h)
  case (Cons row rows)
  then obtain h1 where 1: "read_hit_bit env row h = Inr h1" "read_hit_bits env rows h1 = Inr h'"
    by (auto split: sum.splits)
  have "\<exists>w. hs_status h1 = hs_status h @ w \<and> (\<forall>x\<in>set w. fst x = row \<and> hit_write env x) \<and>
      neighbor_timer_interval h1 = neighbor_timer_interval h"
    using 1(1) by (auto simp: read_hit_bit_def Let_def hit_write_def split: option.splits if_splits prod.splits)
  with Cons.IH [OF 1(2)] show ?case by fastforce
qed simp

section \<open>Properties\<close>


definition sample_neighbor_row :: "string \<Rightarrow> string \<Rightarrow> neighbor_row" where
  "sample_neighbor_row v ip = \<lparr>nbr_vrf = v, nbr_ip_address = ip, nbr_mac = Some ''00:11:22:33:44:55'',
     nbr_address_family = Some ''ipv4'', nbr_port = Some ''1'', nbr_modified = False, nbr_inserted = True, nbr_status = []\<rparr>"

definition sample_neighbor_idl :: "neighbor_row list \<Rightarrow> neighbor_idl" where
  "sample_neighbor_idl rows = \<lparr>idl_neighbors = rows, idl_neighbors_modified = False, idl_neighbors_deleted = False,
     idl_neighbors_inserted = True\<rparr>"



definition sample_neighbor :: neighbor where
  "sample_neighbor = \<lparr>nb_ip_address = ''1.1.1.1'', nb_mac = Some ''00:11:22:33:44:55'', nb_cfg = None,
     is_ipv6_addr = False, hit_bit = False, nb_port_name = Some ''1'', l3_egress_id = 100\<rparr>"


text \<open>
  The loop that adds new neighbors does not compare the VRF of a row, although the comment says
  that only neighbors of this VRF are collected: a neighbor of VRF \<open>blue\<close> is created in VRF \<open>red\<close>, and
  a host entry is programmed for it there.
\<close>

theorem neighbor_of_other_vrf_is_added:
  "vrf_name sample_vrf = ''red'' \<and>
   nb_ips (vrf_reconfigure_neighbors sample_env (sample_neighbor_idl [sample_neighbor_row ''blue'' ''2.2.2.2'']) sample_vrf)
     = [''2.2.2.2''] \<and>
   l3_log (vrf_reconfigure_neighbors sample_env (sample_neighbor_idl [sample_neighbor_row ''blue'' ''2.2.2.2'']) sample_vrf)
     = [AddHost ''1'' False ''2.2.2.2'' (Some ''00:11:22:33:44:55'')]"
  by code_simp

text \<open>
  Creating a neighbor with a valid MAC on a known port makes one host-entry call.  If the provider
  accepts, the neighbor is cached with the egress id the provider returned and every cached route
  through its address is pushed as resolved with that id, in this order; if it refuses, the neighbor
  leaves the cache again and no route is pushed.
\<close>

theorem neighbor_create_programs:
  assumes "cache_wf s" "nbr_ip_address row \<notin> set (nb_ips s)"
    and "nonempty (nbr_mac row) = Some m" "ether_aton_ok env m" "nonempty (nbr_port row) = Some p" "p \<in> set (vrf_ports s)"
    and "ofproto_add_l3_host_entry env (l3_log s) p (neighbor_is_ipv6 env row) (nbr_ip_address row) (nbr_mac row) (-1) = (rc, e)"
  shows "all_neighbors (neighbor_create env row s) = (if rc = 0 then all_neighbors s @ [new_neighbor env row e] else all_neighbors s) \<and>
    l3_log (neighbor_create env row s) =
      l3_log s @ [AddHost p (neighbor_is_ipv6 env row) (nbr_ip_address row) (nbr_mac row)] @
      (if rc = 0 then neighbor_pushes s (new_neighbor env row e) True (all_nexthops s) else [])"
  using assms by (rule neighbor_create_calls)

theorem neighbor_create_programs_witness:
  "l3_egress_id (hd (all_neighbors (neighbor_create sample_env (sample_neighbor_row ''red'' ''1.1.1.1'') sample_vrf))) = 100"
proof -
  have "ofproto_add_l3_host_entry sample_env (l3_log sample_vrf) ''1'' (neighbor_is_ipv6 sample_env (sample_neighbor_row ''red'' ''1.1.1.1''))
      (nbr_ip_address (sample_neighbor_row ''red'' ''1.1.1.1'')) (nbr_mac (sample_neighbor_row ''red'' ''1.1.1.1'')) (-1) = (0, 100)"
    by (simp add: sample_env_def)
  from neighbor_create_programs [OF sample_vrf_ok(2) _ _ _ _ _ this, of "''00:11:22:33:44:55''"]
  show ?thesis
    by (simp add: sample_neighbor_row_def nb_ips_def sample_vrf_def nonempty_def sample_env_def new_neighbor_def)
qed

text \<open>
  The hit-bit walk runs at most once per interval of ten seconds and writes only the hit key of
  the status of rows of the Neighbor table, keeping the other keys.
\<close>

theorem hit_bits_rate_and_writes:
  assumes "run_neighbor_update env rows now later h = Inr h'"
  shows "(neighbor_timer_interval h = NEIGHBOR_HIT_BIT_UPDATE_INTERVAL \<and> now < neighbor_timer h \<longrightarrow> h' = h) \<and>
    (rows \<noteq> [] \<and> now \<ge> neighbor_timer h \<longrightarrow>
       now \<ge> LLONG_MIN \<longrightarrow> neighbor_timer h' = later + NEIGHBOR_HIT_BIT_UPDATE_INTERVAL) \<and>
    (\<exists>ws. hs_status h' = hs_status h @ ws \<and>
       (\<forall>w\<in>set ws. fst w \<in> set rows \<and>
          (\<forall>k. k \<noteq> NEIGHBOR_STATUS_DP_HIT env \<longrightarrow> smap_get (snd w) k = smap_get (nbr_status (fst w)) k) \<and>
          smap_get (snd w) (NEIGHBOR_STATUS_DP_HIT env) \<in> {Some ''true'', Some ''false''}))"
proof -
  let ?i = NEIGHBOR_HIT_BIT_UPDATE_INTERVAL
  define h0 where "h0 = (if neighbor_timer_interval h \<noteq> ?i
    then h\<lparr>neighbor_timer_interval := ?i, neighbor_timer := LLONG_MIN\<rparr> else h)"
  have h0: "hs_status h0 = hs_status h" "neighbor_timer_interval h0 = ?i" by (auto simp: h0_def)
  have key: "(\<forall>k. k \<noteq> NEIGHBOR_STATUS_DP_HIT env \<longrightarrow> smap_get (snd w) k = smap_get (nbr_status (fst w)) k) \<and>
      smap_get (snd w) (NEIGHBOR_STATUS_DP_HIT env) \<in> {Some ''true'', Some ''false''}" if "hit_write env w" for w
    using that by (auto simp: hit_write_def split: if_splits)
  consider "rows = []" "h' = h" | "rows \<noteq> []" "now < neighbor_timer h0" "h' = h0"
    | h1 where "rows \<noteq> []" "now \<ge> neighbor_timer h0" "read_hit_bits env rows h0 = Inr h1"
        "h' = h1\<lparr>neighbor_timer := later + neighbor_timer_interval h1\<rparr>"
    using assms by (auto simp: run_neighbor_update_def Let_def h0_def split: if_splits sum.splits)
  then show ?thesis
  proof cases
    case 3
    from read_hit_bits_writes [OF 3(3)] obtain ws where ws: "hs_status h1 = hs_status h @ ws"
      "\<forall>w\<in>set ws. fst w \<in> set rows \<and> hit_write env w" "neighbor_timer_interval h1 = ?i"
      using h0 by auto
    with 3 key show ?thesis by (auto simp: h0_def)
  qed (use h0 in \<open>auto simp: h0_def\<close>)
qed

definition sample_hits :: hit_state where
  "sample_hits = \<lparr>hs_vrfs = [], hs_log = [], hs_status = [], neighbor_timer_interval = 0, neighbor_timer = 0\<rparr>"

theorem hit_bits_rate_and_writes_witness:
  "\<exists>h'. run_neighbor_update sample_env [] 5 6 sample_hits = Inr h' \<and> hs_status h' = []"
  using hit_bits_rate_and_writes [of sample_env "[]" 5 6 sample_hits sample_hits]
  by (simp add: run_neighbor_update_def sample_hits_def)

text \<open>
  A neighbor row whose VRF is not known to the daemon makes the walk dereference NULL, since the
  result of \<open>vrf_lookup\<close> is not checked.
\<close>

theorem hit_bits_unknown_vrf:
  "run_neighbor_update sample_env [sample_neighbor_row ''blue'' ''2.2.2.2''] 5 6 sample_hits = Inl Null_dereference"
  by code_simp

definition refusing_env :: l3_env where
  "refusing_env = sample_env\<lparr>ofproto_add_l3_host_entry := (\<lambda>_ _ _ _ _ _. (22, -1))\<rparr>"

text \<open>
  The comment at the end of \<open>neighbor_modify\<close> says that the entry stays in the hash; when the
  provider refuses the changed entry, it does not.
\<close>

theorem refused_modification_drops_neighbor:
  "nb_ips (sample_vrf\<lparr>all_neighbors := [sample_neighbor]\<rparr>) = [''1.1.1.1''] \<and>
   nb_ips (neighbor_modify refusing_env sample_neighbor
     ((sample_neighbor_row ''red'' ''1.1.1.1'')\<lparr>nbr_mac := Some ''00:11:22:33:44:66''\<rparr>)
     (sample_vrf\<lparr>all_neighbors := [sample_neighbor]\<rparr>)) = []"
  by code_simp

end
