(* ===== verification/Vlans.thy ===== *)
theory Vlans
  imports Prelude
begin

text \<open>
  The VLANs of a bridge, src/bridge.c: the table \<open>br->vlans\<close> is brought in line with the VLAN rows of
  the bridge, and \<open>ofproto_set_vlan\<close> is called when a VLAN is enabled or disabled in hardware.

  The calls are logged in order; \<open>hw_vlan\<close> replays the log, the last call for an id deciding.  A VLAN is
  known in its bridge by its name: \<open>vlan_create\<close> is only reached for a name that is not in the table.
  The two strings of the schema that say how a row asks for hardware programming are the record
  \<open>vlan_names\<close>.
\<close>

section \<open>Data\<close>

record vlan_names =
  VLAN_HW_CONFIG_MAP_ENABLE :: string
  VLAN_HW_CONFIG_MAP_ENABLE_TRUE :: string

record vlan_row =
  vr_name :: string
  vr_id :: int
  vr_hw_vlan_config :: smap
  vr_oper_state :: "string option"
  vr_inserted :: bool
  vr_modified :: bool

record vlan =
  vl_name :: string
  vl_vid :: int
  vl_cfg :: "vlan_row option"
  vl_enable :: bool

record vlan_state =
  br_vlans :: "vlan list"
  vlan_log :: "(int \<times> bool) list"

section \<open>Operations\<close>

definition vlan_lookup_by_name :: "'a vlan_state_scheme \<Rightarrow> string \<Rightarrow> vlan option" where
  "vlan_lookup_by_name s name = List.find (\<lambda>v. vl_name v = name) (br_vlans s)"

definition vlan_lookup_by_vid :: "'a vlan_state_scheme \<Rightarrow> int \<Rightarrow> vlan option" where
  "vlan_lookup_by_vid s vid = List.find (\<lambda>v. vl_vid v = vid) (br_vlans s)"

definition vlan_create :: "vlan_row \<Rightarrow> vlan_state \<Rightarrow> vlan_state" where
  "vlan_create row s =
     s\<lparr>br_vlans := br_vlans s @ [\<lparr>vl_name = vr_name row, vl_vid = vr_id row, vl_cfg = Some row, vl_enable = False\<rparr>]\<rparr>"

definition vlan_destroy :: "vlan \<Rightarrow> vlan_state \<Rightarrow> vlan_state" where
  "vlan_destroy v s = s\<lparr>br_vlans := filter (\<lambda>x. vl_name x \<noteq> vl_name v) (br_vlans s)\<rparr>"

definition ofproto_set_vlan :: "int \<Rightarrow> bool \<Rightarrow> vlan_state \<Rightarrow> vlan_state" where
  "ofproto_set_vlan vid add s = s\<lparr>vlan_log := vlan_log s @ [(vid, add)]\<rparr>"

text \<open>\<open>is_vlan_up\<close>: some bridge has the VLAN and its row says \<open>up\<close>; the id arrives as text.\<close>

definition is_vlan_up :: "vlan_state list \<Rightarrow> string \<Rightarrow> bool" where
  "is_vlan_up bridges vid =
     list_ex (\<lambda>br. case vlan_lookup_by_vid br (atoi vid) of
         None \<Rightarrow> False
       | Some v \<Rightarrow> (case vl_cfg v of None \<Rightarrow> False | Some row \<Rightarrow> vr_oper_state row = Some ''up'')) bridges"

fun delete_old_vlans :: "vlan_row shash \<Rightarrow> vlan list \<Rightarrow> vlan_state \<Rightarrow> vlan_state" where
  "delete_old_vlans sh [] s = s"
| "delete_old_vlans sh (v # vs) s =
     delete_old_vlans sh vs
       (case shash_find_data sh (vl_name v) of
          None \<Rightarrow> vlan_destroy v (ofproto_set_vlan (vl_vid v) False s)
        | Some row \<Rightarrow> s\<lparr>br_vlans := map (\<lambda>x. if vl_name x = vl_name v then x\<lparr>vl_cfg := Some row\<rparr> else x) (br_vlans s)\<rparr>)"

fun add_new_vlans :: "(string \<times> vlan_row) list \<Rightarrow> vlan_state \<Rightarrow> vlan_state" where
  "add_new_vlans [] s = s"
| "add_new_vlans ((name, row) # rows) s =
     add_new_vlans rows (case vlan_lookup_by_name s name of None \<Rightarrow> vlan_create row s | Some _ \<Rightarrow> s)"

definition vlan_wanted :: "vlan_names \<Rightarrow> vlan_row \<Rightarrow> bool" where
  "vlan_wanted nm row =
     (case smap_get (vr_hw_vlan_config row) (VLAN_HW_CONFIG_MAP_ENABLE nm) of
        None \<Rightarrow> False
      | Some v \<Rightarrow> v = VLAN_HW_CONFIG_MAP_ENABLE_TRUE nm)"

definition check_vlan_row :: "vlan_names \<Rightarrow> vlan \<Rightarrow> vlan \<times> (int \<times> bool) list" where
  "check_vlan_row nm v =
     (case vl_cfg v of
        None \<Rightarrow> (v, [])
      | Some row \<Rightarrow>
          if vr_inserted row \<or> vr_modified row
          then let new_enable = vlan_wanted nm row in
               if new_enable \<noteq> vl_enable v
               then (v\<lparr>vl_enable := new_enable\<rparr>, [(vl_vid v, new_enable)]) else (v, [])
          else (v, []))"

definition check_vlan_changes :: "vlan_names \<Rightarrow> vlan_state \<Rightarrow> vlan_state" where
  "check_vlan_changes nm s =
     s\<lparr>br_vlans := map (\<lambda>v. fst (check_vlan_row nm v)) (br_vlans s),
       vlan_log := vlan_log s @ concat (map (\<lambda>v. snd (check_vlan_row nm v)) (br_vlans s))\<rparr>"

definition bridge_configure_vlans :: "vlan_names \<Rightarrow> vlan_row list \<Rightarrow> vlan_state \<Rightarrow> vlan_state" where
  "bridge_configure_vlans nm rows s =
     (let sh_idl_vlans = shash_collect vr_name rows;
          s = delete_old_vlans sh_idl_vlans (br_vlans s) s;
          s = add_new_vlans sh_idl_vlans s
      in check_vlan_changes nm s)"

section \<open>Hardware\<close>

definition hw_vlan :: "(int \<times> bool) list \<Rightarrow> int \<Rightarrow> bool" where
  "hw_vlan log vid = (case map_of (rev log) vid of None \<Rightarrow> False | Some b \<Rightarrow> b)"

lemma hw_vlan_append:
  "hw_vlan (log @ l) vid = (case map_of (rev l) vid of None \<Rightarrow> hw_vlan log vid | Some b \<Rightarrow> b)"
  by (auto simp: hw_vlan_def map_add_def split: option.split)

text \<open>The table and the hardware agree: names and ids are distinct, and the enabled ids are those of enabled VLANs.\<close>

definition vlans_ok :: "vlan_state \<Rightarrow> bool" where
  "vlans_ok s \<longleftrightarrow> distinct (map vl_name (br_vlans s)) \<and> distinct (map vl_vid (br_vlans s)) \<and>
     (\<forall>vid. hw_vlan (vlan_log s) vid \<longleftrightarrow> (\<exists>v\<in>set (br_vlans s). vl_vid v = vid \<and> vl_enable v))"

text \<open>The deletion loop in one step.\<close>

lemma delete_old_vlans_table:
  "br_vlans (delete_old_vlans sh vs s) =
     map (\<lambda>x. if vl_name x \<in> vl_name ` set vs then x\<lparr>vl_cfg := shash_find_data sh (vl_name x)\<rparr> else x)
       (filter (\<lambda>x. vl_name x \<in> vl_name ` set vs \<longrightarrow> shash_find_data sh (vl_name x) \<noteq> None) (br_vlans s))"
proof (induction vs arbitrary: s)
  case (Cons v vs)
  show ?case
  proof (cases "shash_find_data sh (vl_name v)")
    case None
    then show ?thesis
      by (auto simp: Cons vlan_destroy_def ofproto_set_vlan_def intro!: arg_cong2 [of _ _ _ _ map] filter_cong map_cong)
  next
    case (Some row)
    then show ?thesis
      by (auto simp: Cons filter_map comp_def intro!: map_cong filter_cong)
  qed
qed simp

lemma delete_old_vlans_log:
  "vlan_log (delete_old_vlans sh vs s) =
     vlan_log s @ map (\<lambda>v. (vl_vid v, False)) (filter (\<lambda>v. shash_find_data sh (vl_name v) = None) vs)"
  by (induction vs arbitrary: s) (auto simp: vlan_destroy_def ofproto_set_vlan_def split: option.split)

definition new_vlan :: "vlan_row \<Rightarrow> vlan" where
  "new_vlan row = \<lparr>vl_name = vr_name row, vl_vid = vr_id row, vl_cfg = Some row, vl_enable = False\<rparr>"

lemma add_new_vlans_table:
  assumes "distinct (map vr_name rows)"
  shows "br_vlans (add_new_vlans (map (\<lambda>r. (vr_name r, r)) rows) s) =
      br_vlans s @ map new_vlan (filter (\<lambda>r. vr_name r \<notin> vl_name ` set (br_vlans s)) rows) \<and>
    vlan_log (add_new_vlans (map (\<lambda>r. (vr_name r, r)) rows) s) = vlan_log s"
  using assms
proof (induction rows arbitrary: s)
  case (Cons r rows)
  have look: "vlan_lookup_by_name s (vr_name r) = None \<longleftrightarrow> vr_name r \<notin> vl_name ` set (br_vlans s)"
    by (auto simp: vlan_lookup_by_name_def find_None_conv image_iff)
  have "filter (\<lambda>x. vr_name x \<notin> vl_name ` set (br_vlans (vlan_create r s))) rows =
      filter (\<lambda>x. vr_name x \<notin> vl_name ` set (br_vlans s)) rows"
    using Cons.prems by (intro filter_cong) (auto simp: vlan_create_def image_iff)
  with Cons look show ?case by (auto simp: vlan_create_def new_vlan_def split: option.split)
qed simp

lemma check_hw:
  assumes "distinct (map vl_vid vs)"
  shows "hw_vlan (log @ concat (map (\<lambda>v. snd (check_vlan_row nm v)) vs)) vid =
    (case List.find (\<lambda>v. vl_vid v = vid) vs of
       None \<Rightarrow> hw_vlan log vid
     | Some v \<Rightarrow> if snd (check_vlan_row nm v) = [] then hw_vlan log vid else vl_enable (fst (check_vlan_row nm v)))"
  using assms
proof (induction vs arbitrary: log)
  case (Cons v vs)
  have check: "snd (check_vlan_row nm v) = [] \<or> snd (check_vlan_row nm v) = [(vl_vid v, vl_enable (fst (check_vlan_row nm v)))]"
    by (auto simp: check_vlan_row_def Let_def split: option.split)
  have none: "List.find (\<lambda>x. vl_vid x = vl_vid v) vs = None"
    using Cons.prems by (auto simp: find_None_conv image_iff)
  from Cons.IH [of "log @ snd (check_vlan_row nm v)"] Cons.prems check none show ?case
    by (auto simp: hw_vlan_append split: option.split)
qed simp

text \<open>A VLAN after the last loop: its row decides, unless the row is flagged unchanged.\<close>

lemma check_vlan_row_result:
  assumes "vl_cfg v = Some row" "vr_inserted row \<or> vr_modified row \<or> vl_enable v = vlan_wanted nm row"
  shows "vl_enable (fst (check_vlan_row nm v)) = vlan_wanted nm row"
    "vl_name (fst (check_vlan_row nm v)) = vl_name v" "vl_vid (fst (check_vlan_row nm v)) = vl_vid v"
    "snd (check_vlan_row nm v) = [] \<Longrightarrow> vl_enable v = vlan_wanted nm row"
  using assms by (auto simp: check_vlan_row_def Let_def split: if_splits)

lemma check_vlan_changes_hw:
  assumes "distinct (map vl_vid (br_vlans s))"
    and hw: "\<And>vid. hw_vlan (vlan_log s) vid \<longleftrightarrow> (\<exists>v\<in>set (br_vlans s). vl_vid v = vid \<and> vl_enable v)"
    and cfg: "\<And>v. v \<in> set (br_vlans s) \<Longrightarrow> \<exists>row. vl_cfg v = Some row \<and>
        (vr_inserted row \<or> vr_modified row \<or> vl_enable v = vlan_wanted nm row)"
  shows "hw_vlan (vlan_log (check_vlan_changes nm s)) vid \<longleftrightarrow>
    (\<exists>v\<in>set (br_vlans s). vl_vid v = vid \<and> vlan_wanted nm (the (vl_cfg v)))"
proof (cases "List.find (\<lambda>v. vl_vid v = vid) (br_vlans s)")
  case None
  then have "\<forall>v\<in>set (br_vlans s). vl_vid v \<noteq> vid" by (simp add: find_None_conv)
  with None hw check_hw [OF assms(1), of "vlan_log s" nm vid] show ?thesis
    by (auto simp: check_vlan_changes_def)
next
  case (Some v)
  then have v: "v \<in> set (br_vlans s)" "vl_vid v = vid" by (auto dest: find_Some_conv)
  then have uniq: "x = v" if "x \<in> set (br_vlans s)" "vl_vid x = vid" for x
    using assms(1) that by (auto simp: distinct_map inj_on_def)
  obtain row where row: "vl_cfg v = Some row" "vr_inserted row \<or> vr_modified row \<or> vl_enable v = vlan_wanted nm row"
    using cfg v(1) by blast
  note res = check_vlan_row_result [OF row]
  have "hw_vlan (vlan_log s) vid = vl_enable v" using hw [of vid] uniq v by blast
  with check_hw [OF assms(1), of "vlan_log s" nm vid] Some res
  have "hw_vlan (vlan_log (check_vlan_changes nm s)) vid = vlan_wanted nm row"
    by (auto simp: check_vlan_changes_def)
  moreover have "(\<exists>x\<in>set (br_vlans s). vl_vid x = vid \<and> vlan_wanted nm (the (vl_cfg x))) = vlan_wanted nm row"
    using uniq v row(1) by (metis option.sel)
  ultimately show ?thesis by simp
qed

section \<open>The table before the rows are checked\<close>

text \<open>
  \<open>idl_describes nm rows s\<close>: names and ids of the rows are distinct, a VLAN keeps its id, and a row that is
  neither inserted nor modified asks for what its VLAN already has.
\<close>

definition idl_describes :: "vlan_names \<Rightarrow> vlan_row list \<Rightarrow> vlan_state \<Rightarrow> bool" where
  "idl_describes nm rows s \<longleftrightarrow>
     distinct (map vr_name rows) \<and> distinct (map vr_id rows) \<and>
     (\<forall>v\<in>set (br_vlans s). \<forall>r\<in>set rows. vr_name r = vl_name v \<longrightarrow> vr_id r = vl_vid v) \<and>
     (\<forall>r\<in>set rows. \<not> vr_inserted r \<and> \<not> vr_modified r \<longrightarrow>
        (\<exists>v\<in>set (br_vlans s). vl_name v = vr_name r \<and> vl_enable v = vlan_wanted nm r))"

definition before_check :: "vlan_row list \<Rightarrow> vlan_state \<Rightarrow> vlan_state" where
  "before_check rows s =
     add_new_vlans (shash_collect vr_name rows) (delete_old_vlans (shash_collect vr_name rows) (br_vlans s) s)"

definition row_of :: "vlan_row list \<Rightarrow> string \<Rightarrow> vlan_row option" where
  "row_of rows name = map_of (map (\<lambda>r. (vr_name r, r)) rows) name"

lemma row_of_Some: "distinct (map vr_name rows) \<Longrightarrow> row_of rows n = Some r \<longleftrightarrow> r \<in> set rows \<and> vr_name r = n"
  by (auto simp: row_of_def comp_def)

lemma row_of_None: "row_of rows n = None \<longleftrightarrow> n \<notin> vr_name ` set rows"
  by (simp add: row_of_def map_of_eq_None_iff image_image comp_def)

lemma before_check_table:
  assumes "distinct (map vr_name rows)"
  shows "br_vlans (before_check rows s) =
      map (\<lambda>v. v\<lparr>vl_cfg := row_of rows (vl_name v)\<rparr>) (filter (\<lambda>v. row_of rows (vl_name v) \<noteq> None) (br_vlans s)) @
      map new_vlan (filter (\<lambda>r. vr_name r \<notin> vl_name ` set (br_vlans s)) rows)"
    "vlan_log (before_check rows s) =
      vlan_log s @ map (\<lambda>v. (vl_vid v, False)) (filter (\<lambda>v. row_of rows (vl_name v) = None) (br_vlans s))"
proof -
  let ?d = "delete_old_vlans (shash_collect vr_name rows) (br_vlans s) s"
  have d: "br_vlans ?d = map (\<lambda>v. v\<lparr>vl_cfg := row_of rows (vl_name v)\<rparr>) (filter (\<lambda>v. row_of rows (vl_name v) \<noteq> None) (br_vlans s))"
    "vlan_log ?d = vlan_log s @ map (\<lambda>v. (vl_vid v, False)) (filter (\<lambda>v. row_of rows (vl_name v) = None) (br_vlans s))"
    by (auto simp: delete_old_vlans_table delete_old_vlans_log row_of_def intro!: map_cong filter_cong)
  have "vr_name r \<in> vl_name ` set (br_vlans ?d) \<longleftrightarrow> vr_name r \<in> vl_name ` set (br_vlans s)" if "r \<in> set rows" for r
    using that row_of_None [of rows "vr_name r"] by (force simp: d image_iff)
  then have f: "filter (\<lambda>r. vr_name r \<notin> vl_name ` set (br_vlans ?d)) rows = filter (\<lambda>r. vr_name r \<notin> vl_name ` set (br_vlans s)) rows"
    by (intro filter_cong) auto
  note add = add_new_vlans_table [OF assms, of ?d]
  show "br_vlans (before_check rows s) =
      map (\<lambda>v. v\<lparr>vl_cfg := row_of rows (vl_name v)\<rparr>) (filter (\<lambda>v. row_of rows (vl_name v) \<noteq> None) (br_vlans s)) @
      map new_vlan (filter (\<lambda>r. vr_name r \<notin> vl_name ` set (br_vlans s)) rows)"
    "vlan_log (before_check rows s) =
      vlan_log s @ map (\<lambda>v. (vl_vid v, False)) (filter (\<lambda>v. row_of rows (vl_name v) = None) (br_vlans s))"
    using add d f by (simp_all add: before_check_def shash_collect_distinct [OF assms])
qed

text \<open>Every VLAN of that table carries a row of its name, and every row is carried.\<close>

lemma before_check_rows:
  assumes "vlans_ok s" "idl_describes nm rows s" "v \<in> set (br_vlans (before_check rows s))"
  obtains r where "r \<in> set rows" "vl_cfg v = Some r" "vl_name v = vr_name r" "vl_vid v = vr_id r"
    "vr_inserted r \<or> vr_modified r \<or> vl_enable v = vlan_wanted nm r"
    "vl_enable v \<Longrightarrow> \<exists>u\<in>set (br_vlans s). vl_name u = vl_name v \<and> vl_vid u = vl_vid v \<and> vl_enable u"
proof -
  from assms(2) have d: "distinct (map vr_name rows)" by (simp add: idl_describes_def)
  from assms(3) consider u r where "u \<in> set (br_vlans s)" "v = u\<lparr>vl_cfg := row_of rows (vl_name u)\<rparr>" "row_of rows (vl_name u) = Some r"
    | r where "r \<in> set rows" "vr_name r \<notin> vl_name ` set (br_vlans s)" "v = new_vlan r"
    by (auto simp: before_check_table(1) [OF d])
  then show ?thesis
  proof cases
    case 1
    then have r: "r \<in> set rows" "vr_name r = vl_name u" by (auto simp: row_of_Some [OF d])
    have "vl_enable u = vlan_wanted nm r" if flags: "\<not> vr_inserted r" "\<not> vr_modified r"
    proof -
      obtain x where x: "x \<in> set (br_vlans s)" "vl_name x = vr_name r" "vl_enable x = vlan_wanted nm r"
        using assms(2) flags r(1) by (auto simp: idl_describes_def)
      with assms(1) 1(1) r(2) have "x = u" by (auto simp: vlans_ok_def distinct_map inj_on_def)
      with x(3) show ?thesis by simp
    qed
    with that [of r] 1 r assms(2) show ?thesis by (auto simp: idl_describes_def)
  next
    case 2
    have "vr_inserted r \<or> vr_modified r"
    proof (rule ccontr)
      assume "\<not> ?thesis"
      then obtain x where "x \<in> set (br_vlans s)" "vl_name x = vr_name r"
        using assms(2) 2(1) by (auto simp: idl_describes_def)
      with 2(2) show False by (metis imageI)
    qed
    with that [of r] 2 show ?thesis by (auto simp: new_vlan_def)
  qed
qed

lemma before_check_names:
  assumes "distinct (map vr_name rows)"
  shows "vl_name ` set (br_vlans (before_check rows s)) = vr_name ` set rows"
    and "distinct (map vl_name (br_vlans s)) \<Longrightarrow> distinct (map vl_name (br_vlans (before_check rows s)))"
proof -
  let ?old = "filter (\<lambda>v. row_of rows (vl_name v) \<noteq> None) (br_vlans s)"
  let ?new = "filter (\<lambda>r. vr_name r \<notin> vl_name ` set (br_vlans s)) rows"
  have m: "map vl_name (br_vlans (before_check rows s)) = map vl_name ?old @ map vr_name ?new"
    by (simp add: before_check_table(1) [OF assms] new_vlan_def comp_def)
  have "vl_name ` set (br_vlans (before_check rows s)) = set (map vl_name ?old @ map vr_name ?new)"
    by (simp only: m [symmetric] set_map)
  also have "\<dots> = vr_name ` set rows"
  proof -
    have "vl_name ` set ?old = vl_name ` set (br_vlans s) \<inter> vr_name ` set rows"
      by (auto simp: row_of_None simp del: not_None_eq)
    moreover have "vr_name ` set ?new = vr_name ` set rows - vl_name ` set (br_vlans s)" by auto
    ultimately show ?thesis by auto
  qed
  finally show "vl_name ` set (br_vlans (before_check rows s)) = vr_name ` set rows" .
  show "distinct (map vl_name (br_vlans (before_check rows s)))" if "distinct (map vl_name (br_vlans s))"
    unfolding m using assms that by (auto simp: distinct_map_filter) (metis imageI)
qed

lemma bridge_configure_vlans_split:
  "bridge_configure_vlans nm rows s = check_vlan_changes nm (before_check rows s)"
  by (simp add: bridge_configure_vlans_def before_check_def Let_def)

lemma before_check_vids:
  assumes "vlans_ok s" "idl_describes nm rows s"
  shows "distinct (map vl_vid (br_vlans (before_check rows s)))"
proof -
  let ?A = "br_vlans (before_check rows s)"
  from assms have d: "distinct (map vr_name rows)" "distinct (map vr_id rows)" "distinct (map vl_name (br_vlans s))"
    by (auto simp: idl_describes_def vlans_ok_def)
  have names: "distinct (map vl_name ?A)" using before_check_names(2) [OF d(1,3)] .
  have "x = y" if xy: "x \<in> set ?A" "y \<in> set ?A" "vl_vid x = vl_vid y" for x y
  proof -
    obtain r where r: "r \<in> set rows" "vl_name x = vr_name r" "vl_vid x = vr_id r"
      using before_check_rows [OF assms xy(1)] by metis
    obtain r' where r': "r' \<in> set rows" "vl_name y = vr_name r'" "vl_vid y = vr_id r'"
      using before_check_rows [OF assms xy(2)] by metis
    from d(2) r r' xy(3) have "r = r'" by (auto simp: distinct_map inj_on_def)
    with r r' names xy(1,2) show ?thesis by (auto simp: distinct_map inj_on_def)
  qed
  with names show ?thesis by (auto simp: distinct_map inj_on_def)
qed

lemma hw_after_deletes:
  "hw_vlan (log @ map (\<lambda>v. (vl_vid v, False)) vs) vid \<longleftrightarrow> hw_vlan log vid \<and> (\<forall>v\<in>set vs. vl_vid v \<noteq> vid)"
proof -
  have "map_of (rev (map (\<lambda>v. (vl_vid v, False)) vs)) vid = (if \<exists>v\<in>set vs. vl_vid v = vid then Some False else None)"
    by (induction vs) (auto simp: map_add_def split: option.split)
  then show ?thesis by (auto simp: hw_vlan_append)
qed

lemma before_check_hw:
  assumes "vlans_ok s" "idl_describes nm rows s"
  shows "hw_vlan (vlan_log (before_check rows s)) vid \<longleftrightarrow>
    (\<exists>v\<in>set (br_vlans (before_check rows s)). vl_vid v = vid \<and> vl_enable v)"
proof -
  from assms have d: "distinct (map vr_name rows)" and vids: "distinct (map vl_vid (br_vlans s))"
    and hw: "hw_vlan (vlan_log s) vid \<longleftrightarrow> (\<exists>v\<in>set (br_vlans s). vl_vid v = vid \<and> vl_enable v)"
    by (auto simp: idl_describes_def vlans_ok_def)
  have uniq: "x = y" if "x \<in> set (br_vlans s)" "y \<in> set (br_vlans s)" "vl_vid x = vl_vid y" for x y
    using vids that by (auto simp: distinct_map inj_on_def)
  have "hw_vlan (vlan_log (before_check rows s)) vid \<longleftrightarrow>
      (\<exists>v\<in>set (br_vlans s). vl_vid v = vid \<and> vl_enable v \<and> row_of rows (vl_name v) \<noteq> None)"
    unfolding before_check_table(2) [OF d] hw_after_deletes hw using uniq by auto (metis option.distinct(1))
  also have "\<dots> \<longleftrightarrow> (\<exists>v\<in>set (br_vlans (before_check rows s)). vl_vid v = vid \<and> vl_enable v)"
    unfolding before_check_table(1) [OF d] by (auto simp: new_vlan_def bex_Un)
  finally show ?thesis .
qed

lemma check_vlan_changes_table:
  "map vl_name (br_vlans (check_vlan_changes nm s)) = map vl_name (br_vlans s)"
  "map vl_vid (br_vlans (check_vlan_changes nm s)) = map vl_vid (br_vlans s)"
  by (auto simp: check_vlan_changes_def check_vlan_row_def Let_def split: option.split)

section \<open>Properties\<close>

text \<open>
  C7: Configuring the VLANs of a bridge makes the table hold exactly the VLANs of the database, and
  makes exactly those ids enabled in hardware whose row asks for it, counting every call made since
  start-up; table and hardware agree again, so that the next change starts from the same invariant.
\<close>

theorem vlans_follow_database:
  assumes "vlans_ok s" "idl_describes nm rows s"
  shows "vl_name ` set (br_vlans (bridge_configure_vlans nm rows s)) = vr_name ` set rows \<and>
    (\<forall>vid. hw_vlan (vlan_log (bridge_configure_vlans nm rows s)) vid \<longleftrightarrow> (\<exists>r\<in>set rows. vr_id r = vid \<and> vlan_wanted nm r)) \<and>
    vlans_ok (bridge_configure_vlans nm rows s)"
proof -
  let ?s = "before_check rows s" and ?s' = "bridge_configure_vlans nm rows s"
  from assms have d: "distinct (map vr_name rows)" "distinct (map vl_name (br_vlans s))"
    by (auto simp: idl_describes_def vlans_ok_def)
  note names = before_check_names [OF d(1), of s]
  have cfg: "\<exists>row. vl_cfg v = Some row \<and> (vr_inserted row \<or> vr_modified row \<or> vl_enable v = vlan_wanted nm row)"
    if "v \<in> set (br_vlans ?s)" for v
    using before_check_rows [OF assms that] by metis
  have hw: "hw_vlan (vlan_log ?s') vid \<longleftrightarrow> (\<exists>v\<in>set (br_vlans ?s). vl_vid v = vid \<and> vlan_wanted nm (the (vl_cfg v)))" for vid
    unfolding bridge_configure_vlans_split
    by (rule check_vlan_changes_hw [OF before_check_vids [OF assms] before_check_hw [OF assms] cfg])
  have rows: "(\<exists>v\<in>set (br_vlans ?s). vl_vid v = vid \<and> vlan_wanted nm (the (vl_cfg v))) \<longleftrightarrow>
      (\<exists>r\<in>set rows. vr_id r = vid \<and> vlan_wanted nm r)" for vid
  proof
    assume "\<exists>v\<in>set (br_vlans ?s). vl_vid v = vid \<and> vlan_wanted nm (the (vl_cfg v))"
    then show "\<exists>r\<in>set rows. vr_id r = vid \<and> vlan_wanted nm r" using before_check_rows [OF assms] by (metis option.sel)
  next
    assume "\<exists>r\<in>set rows. vr_id r = vid \<and> vlan_wanted nm r"
    then obtain r v where r: "r \<in> set rows" "vr_id r = vid" "vlan_wanted nm r" and v: "v \<in> set (br_vlans ?s)" "vl_name v = vr_name r"
      using names(1) by (metis (no_types, lifting) image_iff)
    obtain r' where r': "r' \<in> set rows" "vl_cfg v = Some r'" "vl_name v = vr_name r'" "vl_vid v = vr_id r'"
      using before_check_rows [OF assms v(1)] by metis
    with d(1) r v have "r' = r" by (auto simp: distinct_map inj_on_def)
    with r r' v show "\<exists>v\<in>set (br_vlans ?s). vl_vid v = vid \<and> vlan_wanted nm (the (vl_cfg v))" by auto
  qed
  have table: "br_vlans ?s' = map (\<lambda>v. fst (check_vlan_row nm v)) (br_vlans ?s)"
    by (simp add: bridge_configure_vlans_split check_vlan_changes_def)
  have ok: "vlans_ok ?s'"
    unfolding vlans_ok_def
  proof (intro conjI allI)
    show "distinct (map vl_name (br_vlans ?s'))" "distinct (map vl_vid (br_vlans ?s'))"
      using names(2) d(2) before_check_vids [OF assms]
      by (simp_all only: bridge_configure_vlans_split check_vlan_changes_table)
    show "hw_vlan (vlan_log ?s') vid \<longleftrightarrow> (\<exists>v\<in>set (br_vlans ?s'). vl_vid v = vid \<and> vl_enable v)" for vid
      unfolding hw table using cfg check_vlan_row_result by (auto simp: image_iff) (metis option.sel)+
  qed
  have "vl_name ` set (br_vlans ?s') = vl_name ` set (br_vlans ?s)"
    using check_vlan_changes_table(1) [of nm ?s] unfolding bridge_configure_vlans_split by (metis set_map)
  with names(1) hw rows ok show ?thesis by simp
qed

definition sample_vlan_names :: vlan_names where
  "sample_vlan_names = \<lparr>VLAN_HW_CONFIG_MAP_ENABLE = ''enable'', VLAN_HW_CONFIG_MAP_ENABLE_TRUE = ''true''\<rparr>"

definition sample_vlan_row :: "string \<Rightarrow> int \<Rightarrow> bool \<Rightarrow> vlan_row" where
  "sample_vlan_row name vid ins = \<lparr>vr_name = name, vr_id = vid, vr_hw_vlan_config = [(''enable'', ''true'')],
     vr_oper_state = Some ''up'', vr_inserted = ins, vr_modified = False\<rparr>"

theorem vlans_follow_database_witness:
  "hw_vlan (vlan_log (bridge_configure_vlans sample_vlan_names [sample_vlan_row ''VLAN10'' 10 True] \<lparr>br_vlans = [], vlan_log = []\<rparr>)) 10"
  using vlans_follow_database [where s = "\<lparr>br_vlans = [], vlan_log = []\<rparr>" and nm = sample_vlan_names and
      rows = "[sample_vlan_row ''VLAN10'' 10 True]"]
  by (simp add: vlans_ok_def hw_vlan_def idl_describes_def sample_vlan_row_def sample_vlan_names_def vlan_wanted_def smap_get_def)

definition vlan10 :: vlan_state where
  "vlan10 = bridge_configure_vlans sample_vlan_names [sample_vlan_row ''lan'' 10 True] \<lparr>br_vlans = [], vlan_log = []\<rparr>"

text \<open>
  A VLAN row replaced within one change by a row of the same name and another id is not noticed:
  the hardware keeps the old id enabled and never sees the new one.
\<close>

theorem replaced_vlan_keeps_old_id:
  "map (hw_vlan (vlan_log (bridge_configure_vlans sample_vlan_names [sample_vlan_row ''lan'' 20 True] vlan10))) [10, 20] = [True, False]"
  by code_simp

end
