(* ===== verification/Bufmon.thy ===== *)
theory Bufmon
  imports Prelude
begin

text \<open>
  Buffer monitoring, src/bufmon.c and src/bufmon-provider.c: the configuration taken from the System
  row, the array of counters, the statistics thread with its trigger rate limit, and the copy of the
  counters to the database.

  The file-scope variables are the record \<open>bufmon\<close>, the local variables of the statistics thread the
  record \<open>stats_thread\<close>.  Both threads work on the shared state under \<open>bufmon_mutex\<close>, so each critical
  section is one step.  An access past the end of the counter array, or through its NULL pointer,
  yields a fault (\<open>Inl\<close>).  The provider is the record \<open>bufmon_class\<close>: which of its function pointers are
  set and what \<open>bufmon_counter_stats_get\<close> reports for each index; calls to it are logged.  The keys of
  the configuration column are the record \<open>bufmon_names\<close>.
\<close>

section \<open>Data\<close>

datatype collection_mode = MODE_CURRENT | MODE_PEAK

record bufmon_system_config =
  bc_enabled :: bool
  counters_mode :: collection_mode
  periodic_collection_enabled :: bool
  collection_period :: int
  threshold_trigger_collection_enabled :: bool
  threshold_trigger_rate_limit :: int
  snapshot_on_threshold_trigger :: bool

datatype bufmon_status = BUFMON_STATUS_OK | BUFMON_STATUS_TRIGGERED

record bufmon_counter_info =
  counter_value :: int
  counter_vendor_specific_info :: smap
  ct_enabled :: bool
  hw_unit_id :: int
  ct_name :: string
  ct_status :: bufmon_status
  trigger_threshold :: int

record bufmon_row =
  bm_name :: string
  bm_enabled :: "bool option"
  bm_hw_unit_id :: int
  bm_vendor_info :: smap
  bm_trigger_threshold :: "int option"
  bm_inserted :: bool
  bm_modified :: bool

record bufmon_names =
  CONFIG_ENABLED :: string
  CONFIG_COUNTERS_MODE :: string
  CONFIG_PERIODIC_COLLECTION_ENABLED :: string
  CONFIG_COLLECTION_PERIOD :: string
  CONFIG_THRESHOLD_TRIGGER_COLLECTION_ENABLED :: string
  CONFIG_TRIGGER_RATE_LIMIT :: string
  CONFIG_SNAPSHOT_ON_THRESHOLD_TRIGGER :: string
  INFO_LAST_COLLECTION_TIMESTAMP :: string

datatype bufmon_call =
    SystemConfig bufmon_system_config
  | CounterConfig bufmon_counter_info
  | StatsGet nat
  | TriggerRegister bool

record bufmon_class =
  bk_init :: "int option"
  bk_system_config :: bool
  bk_counter_config :: bool
  bk_counter_stats_get :: "(bufmon_call list \<Rightarrow> nat \<Rightarrow> int) option"
  bk_trigger_register :: bool

datatype db_write =
    SetBufmonInfo smap
  | SetCounterValue string int
  | SetStatus string bufmon_status

record bufmon =
  bufmon_cfg :: bufmon_system_config
  g_counter_list :: "bufmon_counter_info list option"
  num_active_counters :: nat
  bufmon_latch :: bool
  next_poll_interval :: int
  stats_thread_created :: bool
  bm_idl_seqno :: u32
  bufmon_class_registered :: "bufmon_class option"
  bufmon_registered :: bool
  bm_calls :: "bufmon_call list"
  bm_writes :: "db_write list"

definition DEFAULT_COLLECTION_INTERVAL :: int where "DEFAULT_COLLECTION_INTERVAL = 5"
definition DEFAULT_TRIGGER_RATE_LIMIT_COUNT :: int where "DEFAULT_TRIGGER_RATE_LIMIT_COUNT = 60"
definition DEFAULT_TRIGGER_RATE_LIMIT_DURATION :: int where "DEFAULT_TRIGGER_RATE_LIMIT_DURATION = 60"
definition DEFAULT_TRIGGER_REPORT_INTERVAL :: int where "DEFAULT_TRIGGER_REPORT_INTERVAL = 100"

section \<open>bufmon-provider.c\<close>

definition bufmon_class_register :: "bufmon_class \<Rightarrow> bufmon \<Rightarrow> int \<times> bufmon" where
  "bufmon_class_register new_class s =
     (if bufmon_registered s then (0, s)
      else
        let error = (case bk_init new_class of None \<Rightarrow> 0 | Some rc \<Rightarrow> rc) in
        if error = 0 then (0, s\<lparr>bufmon_class_registered := Some new_class, bufmon_registered := True\<rparr>)
        else (error, s))"

definition bufmon_stats_get :: "bufmon \<Rightarrow> bufmon" where
  "bufmon_stats_get s =
     (case bufmon_class_registered s of
        None \<Rightarrow> s
      | Some c \<Rightarrow>
          (case (bk_counter_stats_get c, g_counter_list s) of
             (Some get, Some l) \<Rightarrow>
               s\<lparr>g_counter_list := Some (map (\<lambda>(i, ct). if i < num_active_counters s
                    then ct\<lparr>counter_value := get (bm_calls s) i\<rparr> else ct) (enumerate 0 l)),
                 bm_calls := bm_calls s @ [StatsGet (num_active_counters s)]\<rparr>
           | _ \<Rightarrow> s))"

definition bufmon_set_system_config :: "bufmon \<Rightarrow> bufmon" where
  "bufmon_set_system_config s =
     (case bufmon_class_registered s of
        None \<Rightarrow> s
      | Some c \<Rightarrow> if bk_system_config c then s\<lparr>bm_calls := bm_calls s @ [SystemConfig (bufmon_cfg s)]\<rparr> else s)"

definition bufmon_set_counter_config :: "bufmon_counter_info \<Rightarrow> bufmon \<Rightarrow> bufmon" where
  "bufmon_set_counter_config ct s =
     (case bufmon_class_registered s of
        None \<Rightarrow> s
      | Some c \<Rightarrow> if bk_counter_config c then s\<lparr>bm_calls := bm_calls s @ [CounterConfig ct]\<rparr> else s)"

definition bufmon_trigger_enable :: "bool \<Rightarrow> bufmon \<Rightarrow> bufmon" where
  "bufmon_trigger_enable flag s =
     (case bufmon_class_registered s of
        None \<Rightarrow> s
      | Some c \<Rightarrow> if bk_trigger_register c then s\<lparr>bm_calls := bm_calls s @ [TriggerRegister flag]\<rparr> else s)"

section \<open>The counter array\<close>

text \<open>
  \<open>plugins_bufmon_register\<close> calls the plugins, one of which may register its class: \<open>plugin\<close>.
\<close>

definition bufmon_enable_stats :: "bufmon_class option \<Rightarrow> bool \<Rightarrow> bufmon \<Rightarrow> bufmon" where
  "bufmon_enable_stats plugin enable s =
     (if enable \<and> \<not> stats_thread_created s
      then let s = (case plugin of None \<Rightarrow> s | Some c \<Rightarrow> snd (bufmon_class_register c s))
           in s\<lparr>stats_thread_created := True, bufmon_latch := False\<rparr>
      else s)"

definition row_enabled :: "bufmon_row \<Rightarrow> bool" where
  "row_enabled row = (case bm_enabled row of None \<Rightarrow> False | Some b \<Rightarrow> b)"

definition bufmon_enabled_counters_count :: "bufmon_row list \<Rightarrow> bufmon \<Rightarrow> nat" where
  "bufmon_enabled_counters_count rows s =
     (if \<not> bc_enabled (bufmon_cfg s) then 0 else length (filter row_enabled rows))"

definition bufmon_discard_counter_list :: "bufmon \<Rightarrow> bufmon" where
  "bufmon_discard_counter_list s = s\<lparr>g_counter_list := None, num_active_counters := 0\<rparr>"

text \<open>\<open>xcalloc\<close> zeroes the array; a counter without a threshold keeps the zero.\<close>

definition zero_counter :: bufmon_counter_info where
  "zero_counter = \<lparr>counter_value = 0, counter_vendor_specific_info = [], ct_enabled = False, hw_unit_id = 0,
     ct_name = [], ct_status = BUFMON_STATUS_OK, trigger_threshold = 0\<rparr>"

definition counter_of_row :: "bufmon_counter_info \<Rightarrow> bufmon_row \<Rightarrow> bufmon_counter_info" where
  "counter_of_row ct row = ct\<lparr>counter_vendor_specific_info := bm_vendor_info row, ct_enabled := row_enabled row,
     hw_unit_id := bm_hw_unit_id row, ct_name := bm_name row,
     trigger_threshold := (case bm_trigger_threshold row of None \<Rightarrow> trigger_threshold ct | Some t \<Rightarrow> t)\<rparr>"

fun fill_counters :: "bufmon_row list \<Rightarrow> nat \<Rightarrow> bufmon_counter_info list \<Rightarrow> fault + bufmon_counter_info list" where
  "fill_counters [] i l = Inr l"
| "fill_counters (row # rows) i l =
     (if bm_enabled row \<noteq> None
      then if i < length l then fill_counters rows (Suc i) (l[i := counter_of_row (l ! i) row]) else Inl Out_of_bounds
      else fill_counters rows i l)"

definition bufmon_create_counters_list :: "bufmon_row list \<Rightarrow> bufmon \<Rightarrow> fault + bufmon" where
  "bufmon_create_counters_list rows s =
     (let s = (if g_counter_list s \<noteq> None then bufmon_discard_counter_list s else s);
          count = bufmon_enabled_counters_count rows s in
      if count = 0 then Inr (s\<lparr>num_active_counters := 0\<rparr>)
      else (case fill_counters rows 0 (replicate count zero_counter) of
              Inl f \<Rightarrow> Inl f
            | Inr l \<Rightarrow> Inr (s\<lparr>g_counter_list := Some l, num_active_counters := count\<rparr>)))"

section \<open>Copying to the database\<close>

fun write_counters :: "bufmon_row list \<Rightarrow> nat \<Rightarrow> bufmon_counter_info list option \<Rightarrow> fault + db_write list" where
  "write_counters [] i l = Inr []"
| "write_counters (row # rows) i l =
     (if bm_enabled row \<noteq> None
      then (case l of
              None \<Rightarrow> Inl Null_dereference
            | Some cts \<Rightarrow>
                if i < length cts
                then (case write_counters rows (Suc i) l of
                        Inl f \<Rightarrow> Inl f
                      | Inr ws \<Rightarrow> Inr (SetCounterValue (bm_name row) (counter_value (cts ! i)) #
                                       SetStatus (bm_name row) (ct_status (cts ! i)) # ws))
                else Inl Out_of_bounds)
      else write_counters rows i l)"

text \<open>\<open>info\<close> is the \<open>bufmon_info\<close> column of the System row, if there is one; \<open>stamp\<close> the printed time.\<close>

definition bufmon_ovsdb_update ::
  "bufmon_names \<Rightarrow> bufmon_row list \<Rightarrow> smap option \<Rightarrow> string \<Rightarrow> bufmon \<Rightarrow> fault + bufmon" where
  "bufmon_ovsdb_update nm rows info stamp s =
     (case write_counters rows 0 (g_counter_list s) of
        Inl f \<Rightarrow> Inl f
      | Inr ws \<Rightarrow> Inr (s\<lparr>bm_writes := bm_writes s @
           (case info of None \<Rightarrow> [] | Some m \<Rightarrow> [SetBufmonInfo (smap_replace m (INFO_LAST_COLLECTION_TIMESTAMP nm) stamp)]) @ ws\<rparr>))"

section \<open>Collection\<close>

definition counter_status :: "bool \<Rightarrow> bufmon_counter_info \<Rightarrow> bufmon_status" where
  "counter_status triggered ct =
     (if triggered \<and> trigger_threshold ct \<noteq> 0 \<and> counter_value ct \<ge> trigger_threshold ct
      then BUFMON_STATUS_TRIGGERED else BUFMON_STATUS_OK)"

definition bufmon_get_current_counters_value :: "bool \<Rightarrow> bufmon \<Rightarrow> bufmon" where
  "bufmon_get_current_counters_value triggered s =
     (if g_counter_list s = None \<or> num_active_counters s = 0 then s
      else
        let s = bufmon_stats_get s;
            s = s\<lparr>g_counter_list := map_option (\<lambda>l. map (\<lambda>(i, ct). if i < num_active_counters s
                     then ct\<lparr>ct_status := counter_status triggered ct\<rparr> else ct) (enumerate 0 l)) (g_counter_list s)\<rparr>
        in s\<lparr>bufmon_latch := True\<rparr>)"

definition bufmon_run_stats_update :: "bool \<Rightarrow> int \<Rightarrow> bufmon \<Rightarrow> bufmon" where
  "bufmon_run_stats_update triggered now s =
     (let cfg = bufmon_cfg s in
      if \<not> bc_enabled cfg \<or> \<not> (periodic_collection_enabled cfg \<or> threshold_trigger_collection_enabled cfg) then s
      else if (\<not> periodic_collection_enabled cfg \<or> now < next_poll_interval s) \<and> \<not> triggered then s
      else if triggered \<and> \<not> threshold_trigger_collection_enabled cfg then s
      else
        let s = bufmon_get_current_counters_value triggered s;
            s = s\<lparr>next_poll_interval := now + int32 (collection_period cfg * 1000)\<rparr>
        in if triggered then bufmon_set_system_config s else s)"

section \<open>Configuration\<close>

definition bufmon_system_config_update :: "bufmon_names \<Rightarrow> bufmon_class option \<Rightarrow> smap \<Rightarrow> bufmon \<Rightarrow> bufmon" where
  "bufmon_system_config_update nm plugin conf s =
     (let cfg =
        \<lparr>bc_enabled = smap_get_bool conf (CONFIG_ENABLED nm) False,
         counters_mode = (if smap_get conf (CONFIG_COUNTERS_MODE nm) = Some ''peak'' then MODE_PEAK else MODE_CURRENT),
         periodic_collection_enabled = smap_get_bool conf (CONFIG_PERIODIC_COLLECTION_ENABLED nm) False,
         collection_period = max (smap_get_int conf (CONFIG_COLLECTION_PERIOD nm) DEFAULT_COLLECTION_INTERVAL)
                               DEFAULT_COLLECTION_INTERVAL,
         threshold_trigger_collection_enabled =
           smap_get_bool conf (CONFIG_THRESHOLD_TRIGGER_COLLECTION_ENABLED nm) False,
         threshold_trigger_rate_limit =
           smap_get_int conf (CONFIG_TRIGGER_RATE_LIMIT nm) DEFAULT_TRIGGER_RATE_LIMIT_COUNT,
         snapshot_on_threshold_trigger = smap_get_bool conf (CONFIG_SNAPSHOT_ON_THRESHOLD_TRIGGER nm) False\<rparr>;
          s = s\<lparr>bufmon_cfg := cfg\<rparr>;
          s = (if bc_enabled cfg then bufmon_enable_stats plugin True s else s)
      in bufmon_set_system_config s)"

text \<open>
  The counter handed to the provider is a stack variable whose \<open>status\<close> is not set; it is zero here.
\<close>

definition bufmon_counter_config_update :: "bufmon_row \<Rightarrow> bufmon \<Rightarrow> bufmon" where
  "bufmon_counter_config_update row s =
     bufmon_set_counter_config
       \<lparr>counter_value = 0, counter_vendor_specific_info = bm_vendor_info row, ct_enabled = row_enabled row,
        hw_unit_id = bm_hw_unit_id row, ct_name = bm_name row, ct_status = BUFMON_STATUS_OK,
        trigger_threshold = (case bm_trigger_threshold row of None \<Rightarrow> -1 | Some t \<Rightarrow> t)\<rparr> s"

record bufmon_idl =
  bi_seqno :: u32
  bi_lock_contended :: bool
  bi_has_lock :: bool
  bi_system :: "(smap \<times> smap) option"
  bi_system_modified :: bool
  bi_rows :: "bufmon_row list"

definition row_changed :: "bufmon_row \<Rightarrow> bool" where
  "row_changed row \<longleftrightarrow> bm_inserted row \<or> bm_modified row"

text \<open>\<open>bi_system\<close> holds the columns \<open>bufmon_config\<close> and \<open>bufmon_info\<close> of the System row.\<close>

definition bufmon_reconfigure :: "bufmon_names \<Rightarrow> bufmon_class option \<Rightarrow> bufmon_idl \<Rightarrow> bufmon \<Rightarrow> fault + bufmon" where
  "bufmon_reconfigure nm plugin idl s =
     (case bi_system idl of
        None \<Rightarrow> Inr s
      | Some (conf, info) \<Rightarrow>
          if conf = [] then Inr s
          else
            let s = fold bufmon_counter_config_update (filter row_changed (bi_rows idl)) s;
                s = (if bi_system_modified idl then bufmon_system_config_update nm plugin conf s else s)
            in if list_ex row_changed (bi_rows idl) then bufmon_create_counters_list (bi_rows idl) s else Inr s)"

definition bufmon_run :: "bufmon_names \<Rightarrow> bufmon_class option \<Rightarrow> bufmon_idl \<Rightarrow> string \<Rightarrow> bufmon \<Rightarrow> fault + bufmon" where
  "bufmon_run nm plugin idl stamp s =
     (if bi_lock_contended idl then Inr s
      else if \<not> bi_has_lock idl then Inr s
      else
        case (if bi_seqno idl \<noteq> bm_idl_seqno s
              then map_sum id (\<lambda>s. s\<lparr>bm_idl_seqno := bi_seqno idl\<rparr>) (bufmon_reconfigure nm plugin idl s)
              else Inr s) of
          Inl f \<Rightarrow> Inl f
        | Inr s \<Rightarrow>
            if bc_enabled (bufmon_cfg s) \<and> bufmon_latch s
            then bufmon_ovsdb_update nm (bi_rows idl) (map_option snd (bi_system idl)) stamp (s\<lparr>bufmon_latch := False\<rparr>)
            else Inr s)"

text \<open>The columns the daemon writes are not to be reported to it.\<close>

definition bufmon_init :: "u32 \<Rightarrow> bufmon \<Rightarrow> idl_call list \<times> bufmon" where
  "bufmon_init seqno s =
     ([Omit_alert ''bufmon'' ''status'', Omit_alert ''bufmon'' ''counter_value'', Omit_alert ''open_vswitch'' ''bufmon_info''],
      s\<lparr>bm_idl_seqno := seqno\<rparr>)"

fun written_column :: "db_write \<Rightarrow> string \<times> string" where
  "written_column (SetBufmonInfo _) = (''open_vswitch'', ''bufmon_info'')"
| "written_column (SetCounterValue _ _) = (''bufmon'', ''counter_value'')"
| "written_column (SetStatus _ _) = (''bufmon'', ''status'')"

lemma bufmon_writes_silent: "Omit_alert (fst (written_column x)) (snd (written_column x)) \<in> set (fst (bufmon_init seqno s))"
  by (cases x) (simp_all add: bufmon_init_def)

definition bufmon_exit :: "bufmon \<Rightarrow> bufmon" where
  "bufmon_exit s = bufmon_discard_counter_list s"

section \<open>The statistics thread\<close>

record stats_thread =
  trigger_reports_count :: int
  trigger_rate_limit :: int
  trigger_disabled :: bool
  cur_seqno :: u64
  next_poll_msec :: int
  next_trigger_msec :: int
  last_rate_limit_time :: int

definition bufmon_trigger_rate_limit :: "bool \<Rightarrow> bufmon \<Rightarrow> bufmon" where
  "bufmon_trigger_rate_limit flag s =
     (if flag then bufmon_trigger_enable False s
      else if threshold_trigger_collection_enabled (bufmon_cfg s)
      then bufmon_trigger_enable True (bufmon_set_system_config s)
      else s)"

text \<open>The head of the outer loop, passed once monitoring is enabled.\<close>

definition thread_begin :: "int \<Rightarrow> bufmon \<Rightarrow> stats_thread \<Rightarrow> stats_thread" where
  "thread_begin now s t =
     t\<lparr>trigger_rate_limit := threshold_trigger_rate_limit (bufmon_cfg s),
       next_poll_msec := now + int32 (collection_period (bufmon_cfg s) * 1000)\<rparr>"

datatype wake_result = Wait_again | Collect bool

text \<open>
  One return of \<open>poll_block\<close>: \<open>seq\<close> is the trigger sequence number read then, \<open>now\<close> and \<open>later\<close> the two
  readings of \<open>time_msec\<close>, \<open>secs\<close> that of \<open>time_now\<close>.
\<close>

definition thread_wake ::
  "u64 \<Rightarrow> int \<Rightarrow> int \<Rightarrow> int \<Rightarrow> stats_thread \<times> bufmon \<Rightarrow> wake_result \<times> stats_thread \<times> bufmon" where
  "thread_wake seq now later secs = (\<lambda>(t, s).
     if cur_seqno t \<noteq> seq
     then
       let t = t\<lparr>trigger_reports_count := trigger_reports_count t + 1, cur_seqno := seq\<rparr> in
       if trigger_reports_count t > trigger_rate_limit t \<or> now < next_trigger_msec t
       then (Wait_again, t\<lparr>trigger_disabled := True\<rparr>, bufmon_trigger_rate_limit True s)
       else (Collect True, t\<lparr>next_trigger_msec := later + DEFAULT_TRIGGER_REPORT_INTERVAL\<rparr>, s)
     else
       if secs - last_rate_limit_time t > DEFAULT_TRIGGER_RATE_LIMIT_DURATION
       then
         let t = t\<lparr>last_rate_limit_time := secs, trigger_reports_count := 0\<rparr> in
         if trigger_disabled t then (Collect False, t\<lparr>trigger_disabled := False\<rparr>, bufmon_trigger_rate_limit False s)
         else (Collect False, t, s)
       else (Collect False, t, s))"

section \<open>The counter array\<close>

abbreviation listed :: "bufmon_row list \<Rightarrow> bufmon_row list" where
  "listed rows \<equiv> filter (\<lambda>r. bm_enabled r \<noteq> None) rows"

lemma fill_counters_result:
  assumes "i \<le> length l"
  shows "fill_counters rows i l =
    (if i + length (listed rows) \<le> length l
     then Inr (take i l @ map2 counter_of_row (drop i l) (listed rows) @ drop (i + length (listed rows)) l)
     else Inl Out_of_bounds)"
  using assms
proof (induction rows arbitrary: i l)
  case (Cons row rows)
  show ?case
  proof (cases "bm_enabled row \<noteq> None \<and> i < length l")
    case True
    let ?l = "l[i := counter_of_row (l ! i) row]"
    have "take (Suc i) ?l = take i l @ [counter_of_row (l ! i) row]" using True by (simp add: take_Suc_conv_app_nth)
    moreover have "drop i l = (l ! i) # drop (Suc i) l" using True by (simp add: Cons_nth_drop_Suc)
    moreover have "drop (Suc i) ?l = drop (Suc i) l" by simp
    ultimately show ?thesis using Cons.IH [of "Suc i" ?l] True by (auto simp: drop_update_cancel)
  next
    case False
    with Cons show ?thesis by auto
  qed
qed simp

lemma enabled_le_listed: "length (filter row_enabled rows) \<le> length (listed rows)"
  by (induction rows) (auto simp: row_enabled_def)

lemma enabled_eq_listed:
  "length (filter row_enabled rows) = length (listed rows) \<longleftrightarrow> (\<forall>r\<in>set rows. bm_enabled r \<noteq> Some False)"
proof (induction rows)
  case (Cons r rows)
  have "row_enabled r \<longleftrightarrow> bm_enabled r = Some True" by (auto simp: row_enabled_def split: option.splits)
  with Cons enabled_le_listed [of rows] show ?case by (cases "bm_enabled r") auto
qed simp

lemma map2_replicate: "length xs = n \<Longrightarrow> map2 f (replicate n a) xs = map (f a) xs"
  by (induction xs arbitrary: n) (auto simp: Suc_length_conv)

lemma create_counters_list_result:
  "bufmon_create_counters_list rows s =
     (if \<not> bc_enabled (bufmon_cfg s) \<or> \<not> list_ex row_enabled rows
      then Inr (s\<lparr>g_counter_list := None, num_active_counters := 0\<rparr>)
      else if \<exists>r\<in>set rows. bm_enabled r = Some False then Inl Out_of_bounds
      else Inr (s\<lparr>g_counter_list := Some (map (counter_of_row zero_counter) (listed rows)),
                  num_active_counters := length (listed rows)\<rparr>))"
proof -
  let ?n = "length (filter row_enabled rows)"
  have zero: "?n = 0 \<longleftrightarrow> \<not> list_ex row_enabled rows" by (auto simp: filter_empty_conv list_ex_iff)
  have none: "g_counter_list s = None \<Longrightarrow> s\<lparr>g_counter_list := None\<rparr> = s" by simp
  have fill: "fill_counters rows 0 (replicate ?n zero_counter) =
      (if \<exists>r\<in>set rows. bm_enabled r = Some False then Inl Out_of_bounds
       else Inr (map (counter_of_row zero_counter) (listed rows)))"
    using fill_counters_result [of 0 "replicate ?n zero_counter" rows] enabled_eq_listed [of rows] enabled_le_listed [of rows]
    by (auto simp: map2_replicate)
  show ?thesis
    using zero none fill enabled_eq_listed [of rows]
    by (auto simp: bufmon_create_counters_list_def bufmon_discard_counter_list_def bufmon_enabled_counters_count_def Let_def)
qed

section \<open>The rate limit of the statistics thread\<close>

text \<open>
  Reachable states of the thread, with two ghosts: the number of triggered collections since the
  count was last reset, and the times (start, end) of all triggered collections so far.  The main
  thread may change the shared state between any two steps.
\<close>

inductive stats_reach :: "stats_thread \<Rightarrow> bufmon \<Rightarrow> nat \<Rightarrow> (int \<times> int) list \<Rightarrow> bool" where
  start: "trigger_reports_count t = 0 \<Longrightarrow> stats_reach t s 0 []"
| other: "stats_reach t s k h \<Longrightarrow> stats_reach t s' k h"
| loop: "stats_reach t s k h \<Longrightarrow> stats_reach (thread_begin now s t) s k h"
| wake: "stats_reach t s k h \<Longrightarrow> thread_wake seq now later secs (t, s) = (r, t', s') \<Longrightarrow>
    k' = (if r = Collect True then Suc k
          else if cur_seqno t = seq \<and> secs - last_rate_limit_time t > DEFAULT_TRIGGER_RATE_LIMIT_DURATION then 0 else k) \<Longrightarrow>
    h' = (if r = Collect True then h @ [(now, later)] else h) \<Longrightarrow>
    stats_reach t' s' k' h'"

lemma stats_reach_inv:
  assumes "stats_reach t s k h"
  shows "int k \<le> trigger_reports_count t \<and>
    (h \<noteq> [] \<longrightarrow> next_trigger_msec t = snd (last h) + DEFAULT_TRIGGER_REPORT_INTERVAL)"
  using assms
proof induction
  case (wake t s k h seq now later secs r t' s' k' h')
  then show ?case by (auto simp: thread_wake_def Let_def split: if_splits)
qed (auto simp: thread_begin_def)

section \<open>A collection\<close>

lemma map_enumerate_all: "length l \<le> n \<Longrightarrow> map (\<lambda>(i, x). if i < n then f i x else x) (enumerate 0 l) = map (\<lambda>(i, x). f i x) (enumerate 0 l)"
  by (auto simp: in_set_enumerate_eq)

lemma stats_get_frame:
  "num_active_counters (bufmon_stats_get s) = num_active_counters s" "bufmon_cfg (bufmon_stats_get s) = bufmon_cfg s"
  "map_option length (g_counter_list (bufmon_stats_get s)) = map_option length (g_counter_list s)"
  by (auto simp: bufmon_stats_get_def split: option.split)

lemma current_counters_status:
  assumes "g_counter_list s = Some l" "num_active_counters s = length l" "l \<noteq> []"
  obtains l' where "g_counter_list (bufmon_get_current_counters_value b s) = Some l'" "length l' = length l"
    "\<forall>ct\<in>set l'. ct_status ct = counter_status b ct"
    "bufmon_latch (bufmon_get_current_counters_value b s)" "bufmon_cfg (bufmon_get_current_counters_value b s) = bufmon_cfg s"
proof -
  obtain m where m: "g_counter_list (bufmon_stats_get s) = Some m" "length m = length l"
    using stats_get_frame(3) [of s] assms(1) by (cases "g_counter_list (bufmon_stats_get s)") auto
  have eq: "g_counter_list (bufmon_get_current_counters_value b s) =
      Some (map (\<lambda>(i, ct). ct\<lparr>ct_status := counter_status b ct\<rparr>) (enumerate 0 m))"
    using assms m map_enumerate_all [of m "length l" "\<lambda>i ct. ct\<lparr>ct_status := counter_status b ct\<rparr>"]
    by (simp add: bufmon_get_current_counters_value_def Let_def stats_get_frame)
  show ?thesis
  proof (rule that [OF eq])
    show "\<forall>ct\<in>set (map (\<lambda>(i, ct). ct\<lparr>ct_status := counter_status b ct\<rparr>) (enumerate 0 m)). ct_status ct = counter_status b ct"
      by (auto simp: counter_status_def)
  qed (use m assms in \<open>simp_all add: bufmon_get_current_counters_value_def Let_def stats_get_frame\<close>)
qed

section \<open>Properties\<close>

text \<open>
  C15: Building the counter array.  It is sized by the rows that are enabled but filled from every row
  whose \<open>enabled\<close> column is set: as soon as one row is enabled and another explicitly disabled, the code
  writes past the end of the allocation.  In every other case the array holds one counter per row
  with the column set, in order, and its length is recorded.
\<close>

theorem counter_array_overflow:
  "bufmon_create_counters_list rows s =
     (if bc_enabled (bufmon_cfg s) \<and> list_ex row_enabled rows
      then if \<exists>r\<in>set rows. bm_enabled r = Some False then Inl Out_of_bounds
           else Inr (s\<lparr>g_counter_list := Some (map (counter_of_row zero_counter) (filter (\<lambda>r. bm_enabled r \<noteq> None) rows)),
                       num_active_counters := length (filter (\<lambda>r. bm_enabled r \<noteq> None) rows)\<rparr>)
      else Inr (s\<lparr>g_counter_list := None, num_active_counters := 0\<rparr>))"
  unfolding create_counters_list_result by (simp only: if_not_P if_P de_Morgan_conj split: if_split) blast


definition sample_thread :: stats_thread where
  "sample_thread = \<lparr>trigger_reports_count = 0, trigger_rate_limit = 60, trigger_disabled = False, cur_seqno = 0,
     next_poll_msec = 0, next_trigger_msec = 0, last_rate_limit_time = 0\<rparr>"

definition sample_bufmon_cfg :: bufmon_system_config where
  "sample_bufmon_cfg = \<lparr>bc_enabled = True, counters_mode = MODE_CURRENT, periodic_collection_enabled = True,
     collection_period = 5, threshold_trigger_collection_enabled = True, threshold_trigger_rate_limit = 60,
     snapshot_on_threshold_trigger = False\<rparr>"

definition sample_bufmon :: bufmon where
  "sample_bufmon = \<lparr>bufmon_cfg = sample_bufmon_cfg, g_counter_list = None, num_active_counters = 0, bufmon_latch = False,
     next_poll_interval = 0, stats_thread_created = True, bm_idl_seqno = 0, bufmon_class_registered = None,
     bufmon_registered = False, bm_calls = [], bm_writes = []\<rparr>"


text \<open>
  Configuration from the database.  The collection period is never below five seconds, and as long
  as it stays below 2147484 seconds the thread waits exactly one period before its next poll.
\<close>

theorem collection_period_bounds:
  assumes "s' = bufmon_system_config_update nm plugin conf s"
  shows "collection_period (bufmon_cfg s') \<ge> 5 \<and>
    (collection_period (bufmon_cfg s') \<le> 2147483 \<longrightarrow>
       next_poll_msec (thread_begin now s' t) = now + 1000 * collection_period (bufmon_cfg s') \<and>
       next_poll_msec (thread_begin now s' t) \<ge> now + 5000)"
proof -
  have cfg: "bufmon_cfg (bufmon_set_system_config x) = bufmon_cfg x" "bufmon_cfg (bufmon_enable_stats plugin b x) = bufmon_cfg x" for x b
    by (auto simp: bufmon_set_system_config_def bufmon_enable_stats_def bufmon_class_register_def Let_def split: option.split)
  have p: "collection_period (bufmon_cfg s') \<ge> 5"
    by (simp add: assms bufmon_system_config_update_def Let_def cfg DEFAULT_COLLECTION_INTERVAL_def)
  moreover have "int32 (collection_period (bufmon_cfg s') * 1000) = collection_period (bufmon_cfg s') * 1000"
    if "collection_period (bufmon_cfg s') \<le> 2147483" using that p by (intro int32_id) auto
  ultimately show ?thesis by (auto simp: thread_begin_def)
qed

definition sample_bufmon_names :: bufmon_names where
  "sample_bufmon_names = \<lparr>CONFIG_ENABLED = ''enabled'', CONFIG_COUNTERS_MODE = ''counters_mode'',
     CONFIG_PERIODIC_COLLECTION_ENABLED = ''periodic_collection_enabled'', CONFIG_COLLECTION_PERIOD = ''collection_period'',
     CONFIG_THRESHOLD_TRIGGER_COLLECTION_ENABLED = ''threshold_trigger_collection_enabled'',
     CONFIG_TRIGGER_RATE_LIMIT = ''threshold_trigger_rate_limit'',
     CONFIG_SNAPSHOT_ON_THRESHOLD_TRIGGER = ''snapshot_on_threshold_trigger'',
     INFO_LAST_COLLECTION_TIMESTAMP = ''last_collection_timestamp''\<rparr>"

theorem collection_period_bounds_witness:
  "collection_period (bufmon_cfg (bufmon_system_config_update sample_bufmon_names None [(''collection_period'', ''2'')] sample_bufmon)) \<ge> 5"
  using collection_period_bounds [OF refl] by blast

text \<open>
  A period the configuration accepts, 2147484 seconds or more, overflows the 32-bit product: the
  next poll lies in the past and the thread polls without waiting.
\<close>

theorem collection_period_wraps:
  "(let s = bufmon_system_config_update sample_bufmon_names None [(''collection_period'', ''2147484'')] sample_bufmon in
    collection_period (bufmon_cfg s) = 2147484 \<and> next_poll_msec (thread_begin 0 s sample_thread) = - 2147483296)"
  by code_simp

text \<open>
  A triggered collection that the configuration allows marks exactly those counters as triggered
  that have a threshold and have reached it, asks for a copy to the database, and schedules the next
  poll; a collection that the configuration does not allow, or a periodic one that comes too early,
  changes nothing.
\<close>

theorem triggered_collection:
  assumes "bc_enabled (bufmon_cfg s)" "threshold_trigger_collection_enabled (bufmon_cfg s)"
    and "g_counter_list s = Some l" "num_active_counters s = length l" "l \<noteq> []"
  shows "(\<exists>l'. g_counter_list (bufmon_run_stats_update True now s) = Some l' \<and> length l' = length l \<and>
        (\<forall>ct\<in>set l'. ct_status ct = BUFMON_STATUS_TRIGGERED \<longleftrightarrow> trigger_threshold ct \<noteq> 0 \<and> counter_value ct \<ge> trigger_threshold ct)) \<and>
    bufmon_latch (bufmon_run_stats_update True now s) \<and>
    (now < next_poll_interval s \<longrightarrow> bufmon_run_stats_update False now s = s) \<and>
    bufmon_run_stats_update b now (s\<lparr>bufmon_cfg := (bufmon_cfg s)\<lparr>bc_enabled := False\<rparr>\<rparr>) = s\<lparr>bufmon_cfg := (bufmon_cfg s)\<lparr>bc_enabled := False\<rparr>\<rparr>"
proof -
  obtain l' where l': "g_counter_list (bufmon_get_current_counters_value True s) = Some l'" "length l' = length l"
    "\<forall>ct\<in>set l'. ct_status ct = counter_status True ct" "bufmon_latch (bufmon_get_current_counters_value True s)"
    using current_counters_status [OF assms(3-5), of True] by metis
  have set_cfg: "g_counter_list (bufmon_set_system_config x) = g_counter_list x" "bufmon_latch (bufmon_set_system_config x) = bufmon_latch x" for x
    by (auto simp: bufmon_set_system_config_def split: option.split)
  have "g_counter_list (bufmon_run_stats_update True now s) = Some l'" "bufmon_latch (bufmon_run_stats_update True now s)"
    using assms(1,2) l' by (simp_all add: bufmon_run_stats_update_def Let_def set_cfg)
  with l'(2,3) assms(1,2) show ?thesis
    by (auto simp: bufmon_run_stats_update_def counter_status_def)
qed

definition sample_counter :: bufmon_counter_info where
  "sample_counter = zero_counter\<lparr>ct_name := ''q0'', trigger_threshold := 10, counter_value := 20\<rparr>"

theorem triggered_collection_witness:
  "bufmon_latch (bufmon_run_stats_update True 0 (sample_bufmon\<lparr>g_counter_list := Some [sample_counter], num_active_counters := 1\<rparr>))"
  using triggered_collection [of "sample_bufmon\<lparr>g_counter_list := Some [sample_counter], num_active_counters := 1\<rparr>" "[sample_counter]" 0 True]
  by (simp add: sample_bufmon_def sample_bufmon_cfg_def)

definition disabled_row :: bufmon_row where
  "disabled_row = \<lparr>bm_name = ''q0'', bm_enabled = Some False, bm_hw_unit_id = 0, bm_vendor_info = [],
     bm_trigger_threshold = Some 10, bm_inserted = False, bm_modified = True\<rparr>"

text \<open>
  Disabling the only enabled counter while a collected sample waits to be copied makes
  \<open>bufmon_run\<close> read through the NULL array: the array is discarded, the latch is still set, and the copy
  loop visits every row whose \<open>enabled\<close> column is set.
\<close>

theorem pending_sample_null_dereference:
  "(case bufmon_run sample_bufmon_names None
     \<lparr>bi_seqno = 1, bi_lock_contended = False, bi_has_lock = True, bi_system = Some ([(''enabled'', ''true'')], []),
      bi_system_modified = False, bi_rows = [disabled_row]\<rparr> ''0''
     (sample_bufmon\<lparr>g_counter_list := Some [sample_counter], num_active_counters := 1, bufmon_latch := True\<rparr>)
    of Inl f \<Rightarrow> Some f | Inr _ \<Rightarrow> None) = Some Null_dereference"
  by code_simp

end
