(* ===== verification/Subsystem.thy ===== *)
theory Subsystem
  imports Blocks
begin

text \<open>
  The subsystems of the chassis and their interfaces, src/subsystem.c: the tables follow the System row,
  network devices are opened, configured and removed, and link status and statistics are written back.

  The file-scope variables are the record \<open>subsys\<close>.  Everything done outside the module is an event of
  its log, in order: calls that change a network device, writes to an Interface row, and whatever the
  callbacks of the stats blocks do (they act on the log).  A network device is named by its interface.
  The netdev layer and the constants of generated headers are the record \<open>netdev_env\<close>; what it answers
  may depend on the log.  An interface holds the back pointer to its subsystem, \<open>None\<close> when NULL; a NULL
  dereference is the fault \<open>Inl Null_dereference\<close>.  Every interface is created with its device open, so
  the branches for a missing device are never taken.
\<close>

section \<open>Data\<close>

record iface_row =
  ir_name :: string
  ir_n_split_children :: nat
  ir_split_parent :: "string option"
  ir_hw_intf_info :: smap
  ir_hw_intf_config :: smap
  ir_modified :: bool

record subsystem_row =
  sr_name :: string
  sr_interfaces :: "iface_row list"

record system_row =
  sys_subsystems :: "subsystem_row list"
  sys_other_config :: smap

datatype pause = PAUSE_NONE | PAUSE_RXTX | PAUSE_TX | PAUSE_RX
datatype duplex = DUPLEX_FULL | DUPLEX_HALF

record iface_status =
  st_status :: smap
  st_admin_up :: "bool option"
  st_link_up :: bool
  st_link_resets :: int
  st_pause :: "pause option"
  st_duplex :: "duplex option"
  st_link_speed :: int
  st_mtu :: "int option"
  st_mac_in_use :: "string option"

datatype event =
    NetdevOpen string
  | NetdevClose "string option"
  | NetdevRemove string
  | SetHwIntfInfo string smap
  | SetHwIntfConfig string smap
  | WriteStatus string iface_status
  | WriteStats string "(string \<times> int) list"
  | Plugin string

record netdev_env =
  netdev_is_reserved_name :: "string \<Rightarrow> bool"
  netdev_open :: "event list \<Rightarrow> string \<Rightarrow> int"
  netdev_set_hw_intf_info :: "event list \<Rightarrow> string \<Rightarrow> smap \<Rightarrow> int"
  netdev_set_hw_intf_config :: "event list \<Rightarrow> string \<Rightarrow> smap \<Rightarrow> int"
  netdev_get_change_seq :: "event list \<Rightarrow> string \<Rightarrow> u64"
  netdev_get_status :: "event list \<Rightarrow> string \<Rightarrow> smap option"
  netdev_get_flags :: "event list \<Rightarrow> string \<Rightarrow> u32 option"
  netdev_get_carrier :: "event list \<Rightarrow> string \<Rightarrow> bool"
  netdev_get_carrier_resets :: "event list \<Rightarrow> string \<Rightarrow> int"
  netdev_get_features :: "event list \<Rightarrow> string \<Rightarrow> u32 option"
  netdev_features_to_bps :: "u32 \<Rightarrow> int"
  netdev_features_is_full_duplex :: "u32 \<Rightarrow> bool"
  netdev_get_mtu :: "event list \<Rightarrow> string \<Rightarrow> int option"
  netdev_get_etheraddr :: "event list \<Rightarrow> string \<Rightarrow> string option"
  netdev_get_stats :: "event list \<Rightarrow> string \<Rightarrow> string \<Rightarrow> u64"
  NETDEV_UP :: u32
  NETDEV_F_PAUSE :: u32
  NETDEV_F_PAUSE_ASYM :: u32
  INTERFACE_HW_INTF_INFO_SPLIT_PARENT :: string
  STATS_UPDATE_INTERVAL_DEFAULT :: int

record iface =
  if_subsystem :: "string option"
  if_name :: string
  if_netdev :: "string option"
  if_change_seq :: u64
  if_cfg :: "iface_row option"

record subsystem =
  ss_name :: string
  ss_cfg :: "subsystem_row option"
  iface_by_name :: "iface list"

record stats_blk_params =
  sb_netdev :: "string option"
  sb_cfg :: "string option"

type_synonym stats_blocks = "(stats_blk_params option \<Rightarrow> int \<Rightarrow> event list \<Rightarrow> event list) blocks"

record subsys =
  all_subsystems :: "subsystem list"
  ss_idl_seqno :: u32
  stats_timer_interval :: int
  stats_timer :: int
  ss_log :: "event list"
  ss_blocks :: stats_blocks

definition emit :: "event \<Rightarrow> subsys \<Rightarrow> subsys" where
  "emit e s = s\<lparr>ss_log := ss_log s @ [e]\<rparr>"

definition stats_block :: "stats_blk_params \<Rightarrow> stats_block_id \<Rightarrow> subsys \<Rightarrow> subsys" where
  "stats_block sblk blk s =
     (let (rc, bl, lg) = execute_stats_block (Some sblk) (stats_block_num blk) (ss_blocks s) (ss_log s)
      in s\<lparr>ss_blocks := bl, ss_log := lg\<rparr>)"

section \<open>Status and statistics of an interface\<close>

definition pause_of :: "netdev_env \<Rightarrow> u32 \<Rightarrow> pause" where
  "pause_of env current =
     (let ps = and current (or (NETDEV_F_PAUSE env) (NETDEV_F_PAUSE_ASYM env)) in
      if ps = 0 then PAUSE_NONE
      else if ps = NETDEV_F_PAUSE env then PAUSE_RXTX
      else if ps = NETDEV_F_PAUSE_ASYM env then PAUSE_TX
      else PAUSE_RX)"

definition status_of :: "netdev_env \<Rightarrow> event list \<Rightarrow> string \<Rightarrow> iface_status" where
  "status_of env lg d =
     \<lparr>st_status = (case netdev_get_status env lg d of None \<Rightarrow> [] | Some m \<Rightarrow> m),
      st_admin_up = map_option (\<lambda>f. and f (NETDEV_UP env) \<noteq> 0) (netdev_get_flags env lg d),
      st_link_up = netdev_get_carrier env lg d,
      st_link_resets = netdev_get_carrier_resets env lg d,
      st_pause = map_option (pause_of env) (netdev_get_features env lg d),
      st_duplex = map_option (\<lambda>f. if netdev_features_is_full_duplex env f then DUPLEX_FULL else DUPLEX_HALF)
                    (netdev_get_features env lg d),
      st_link_speed = (case netdev_get_features env lg d of None \<Rightarrow> 0 | Some f \<Rightarrow> netdev_features_to_bps env f),
      st_mtu = netdev_get_mtu env lg d,
      st_mac_in_use = netdev_get_etheraddr env lg d\<rparr>"

text \<open>Returns the interface with its new change sequence number.\<close>

definition iface_refresh_netdev_status :: "netdev_env \<Rightarrow> iface \<Rightarrow> subsys \<Rightarrow> iface \<times> subsys" where
  "iface_refresh_netdev_status env i s =
     (case if_netdev i of
        None \<Rightarrow> (i, s)
      | Some d \<Rightarrow>
          if if_change_seq i = netdev_get_change_seq env (ss_log s) d then (i, s)
          else (i\<lparr>if_change_seq := netdev_get_change_seq env (ss_log s) d\<rparr>,
                emit (WriteStatus (if_name i) (status_of env (ss_log s) d)) s))"

definition IFACE_STATS :: "(string \<times> string) list" where
  "IFACE_STATS =
     [(''rx_packets'', ''rx_packets''), (''tx_packets'', ''tx_packets''), (''rx_bytes'', ''rx_bytes''),
      (''tx_bytes'', ''tx_bytes''), (''rx_dropped'', ''rx_dropped''), (''tx_dropped'', ''tx_dropped''),
      (''rx_errors'', ''rx_errors''), (''tx_errors'', ''tx_errors''), (''rx_crc_errors'', ''rx_crc_err''),
      (''collisions'', ''collisions''),
      (''ipv4_uc_tx_packets'', ''ipv4_uc_tx_packets''), (''ipv4_uc_rx_packets'', ''ipv4_uc_rx_packets''),
      (''ipv4_uc_tx_bytes'', ''ipv4_uc_tx_bytes''), (''ipv4_uc_rx_bytes'', ''ipv4_uc_rx_bytes''),
      (''ipv4_mc_tx_packets'', ''ipv4_mc_tx_packets''), (''ipv4_mc_rx_packets'', ''ipv4_mc_rx_packets''),
      (''ipv4_mc_tx_bytes'', ''ipv4_mc_tx_bytes''), (''ipv4_mc_rx_bytes'', ''ipv4_mc_rx_bytes''),
      (''ipv6_uc_tx_packets'', ''ipv6_uc_tx_packets''), (''ipv6_uc_rx_packets'', ''ipv6_uc_rx_packets''),
      (''ipv6_uc_tx_bytes'', ''ipv6_uc_tx_bytes''), (''ipv6_uc_rx_bytes'', ''ipv6_uc_rx_bytes''),
      (''ipv6_mc_tx_packets'', ''ipv6_mc_tx_packets''), (''ipv6_mc_rx_packets'', ''ipv6_mc_rx_packets''),
      (''ipv6_mc_tx_bytes'', ''ipv6_mc_tx_bytes''), (''ipv6_mc_rx_bytes'', ''ipv6_mc_rx_bytes''),
      (''l3_uc_rx_packets'', ''l3_uc_rx_packets''), (''l3_uc_rx_bytes'', ''l3_uc_rx_bytes''),
      (''l3_uc_tx_packets'', ''l3_uc_tx_packets''), (''l3_uc_tx_bytes'', ''l3_uc_tx_bytes''),
      (''l3_mc_rx_packets'', ''l3_mc_rx_packets''), (''l3_mc_rx_bytes'', ''l3_mc_rx_bytes''),
      (''l3_mc_tx_packets'', ''l3_mc_tx_packets''), (''l3_mc_tx_bytes'', ''l3_mc_tx_bytes''),
      (''sflow_ingress_packets'', ''sflow_ingress_packets''), (''sflow_ingress_bytes'', ''sflow_ingress_bytes''),
      (''sflow_egress_packets'', ''sflow_egress_packets''), (''sflow_egress_bytes'', ''sflow_egress_bytes'')]"

text \<open>A counter the device does not keep reads as all ones and is left out; a 64-bit value is stored as signed.\<close>

definition iface_stats_values :: "(string \<Rightarrow> u64) \<Rightarrow> (string \<times> int) list" where
  "iface_stats_values stats = [(nm, sint (stats m)). (m, nm) \<leftarrow> IFACE_STATS, stats m \<noteq> - 1]"

definition iface_refresh_stats :: "netdev_env \<Rightarrow> iface \<Rightarrow> subsys \<Rightarrow> subsys" where
  "iface_refresh_stats env i s =
     (let stats = (case if_netdev i of None \<Rightarrow> (\<lambda>_. 0) | Some d \<Rightarrow> netdev_get_stats env (ss_log s) d)
      in emit (WriteStats (if_name i) (iface_stats_values stats)) s)"

section \<open>Interfaces\<close>

definition iface_lookup :: "subsystem \<Rightarrow> string \<Rightarrow> iface option" where
  "iface_lookup ss name = List.find (\<lambda>i. if_name i = name) (iface_by_name ss)"

definition iface_set_netdev_hw_intf_config :: "netdev_env \<Rightarrow> iface_row \<Rightarrow> string option \<Rightarrow> subsys \<Rightarrow> int \<times> subsys" where
  "iface_set_netdev_hw_intf_config env row d s =
     (case d of
        None \<Rightarrow> (0, s)
      | Some d \<Rightarrow> (netdev_set_hw_intf_config env (ss_log s) d (ir_hw_intf_config row),
                   emit (SetHwIntfConfig d (ir_hw_intf_config row)) s))"

definition iface_do_create :: "netdev_env \<Rightarrow> iface_row \<Rightarrow> subsys \<Rightarrow> int \<times> string option \<times> subsys" where
  "iface_do_create env row s =
     (if netdev_is_reserved_name env (ir_name row) then (EINVAL, None, emit (NetdevClose None) s)
      else
        let error = netdev_open env (ss_log s) (ir_name row);
            s = emit (NetdevOpen (ir_name row)) s in
        if error \<noteq> 0 then (error, None, emit (NetdevClose None) s)
        else
          let d = ir_name row;
              info = (case ir_split_parent row of
                        None \<Rightarrow> ir_hw_intf_info row
                      | Some p \<Rightarrow> ir_hw_intf_info row @ [(INTERFACE_HW_INTF_INFO_SPLIT_PARENT env, p)]);
              error = netdev_set_hw_intf_info env (ss_log s) d info;
              s = emit (SetHwIntfInfo d info) s in
          if error \<noteq> 0 then (error, None, emit (NetdevClose (Some d)) s)
          else
            let (error, s) = iface_set_netdev_hw_intf_config env row (Some d) s in
            if error \<noteq> 0 then (error, None, emit (NetdevClose (Some d)) s)
            else (0, Some d, s))"

text \<open>
  The new structure is zeroed and \<open>iface->subsystem\<close> is not assigned.  Returns whether an interface was
  created, and the subsystem with it.
\<close>

definition iface_create :: "netdev_env \<Rightarrow> subsystem \<Rightarrow> iface_row \<Rightarrow> subsys \<Rightarrow> bool \<times> subsystem \<times> subsys" where
  "iface_create env ss row s =
     (let (error, netdev, s) = iface_do_create env row s in
      if error \<noteq> 0 then (False, ss, s)
      else
        let i = \<lparr>if_subsystem = None, if_name = ir_name row, if_netdev = netdev, if_change_seq = 0, if_cfg = Some row\<rparr>;
            (i, s) = iface_refresh_netdev_status env i s;
            s = iface_refresh_stats env i s;
            s = (if if_netdev i \<noteq> None
                 then stats_block \<lparr>sb_netdev = if_netdev i, sb_cfg = Some (ir_name row)\<rparr> STATS_SUBSYSTEM_CREATE_NETDEV s else s)
        in (True, ss\<lparr>iface_by_name := iface_by_name ss @ [i]\<rparr>, s))"

definition iface_destroy :: "iface \<Rightarrow> subsystem \<Rightarrow> subsys \<Rightarrow> fault + (subsystem \<times> subsys)" where
  "iface_destroy i ss s =
     (case if_subsystem i of
        None \<Rightarrow> Inl Null_dereference
      | Some _ \<Rightarrow>
          Inr (ss\<lparr>iface_by_name := filter (\<lambda>x. if_name x \<noteq> if_name i) (iface_by_name ss)\<rparr>,
               case if_netdev i of None \<Rightarrow> s | Some d \<Rightarrow> emit (NetdevRemove d) s))"

fun destroy_ifaces :: "iface list \<Rightarrow> subsystem \<Rightarrow> subsys \<Rightarrow> fault + (subsystem \<times> subsys)" where
  "destroy_ifaces [] ss s = Inr (ss, s)"
| "destroy_ifaces (i # is) ss s =
     (case iface_destroy i ss s of Inl f \<Rightarrow> Inl f | Inr (ss, s) \<Rightarrow> destroy_ifaces is ss s)"

section \<open>Subsystems\<close>

definition subsystem_lookup :: "subsys \<Rightarrow> string \<Rightarrow> subsystem option" where
  "subsystem_lookup s name = List.find (\<lambda>ss. ss_name ss = name) (all_subsystems s)"

definition put_subsystem :: "subsystem \<Rightarrow> subsys \<Rightarrow> subsys" where
  "put_subsystem ss s = s\<lparr>all_subsystems := map (\<lambda>x. if ss_name x = ss_name ss then ss else x) (all_subsystems s)\<rparr>"

definition subsystem_create :: "subsystem_row \<Rightarrow> subsys \<Rightarrow> subsys" where
  "subsystem_create row s =
     s\<lparr>all_subsystems := all_subsystems s @ [\<lparr>ss_name = sr_name row, ss_cfg = Some row, iface_by_name = []\<rparr>]\<rparr>"

definition subsystem_destroy :: "subsystem \<Rightarrow> subsys \<Rightarrow> fault + subsys" where
  "subsystem_destroy ss s =
     (case destroy_ifaces (iface_by_name ss) ss s of
        Inl f \<Rightarrow> Inl f
      | Inr (ss, s) \<Rightarrow> Inr (s\<lparr>all_subsystems := filter (\<lambda>x. ss_name x \<noteq> ss_name ss) (all_subsystems s)\<rparr>))"

fun destroy_subsystems :: "subsystem list \<Rightarrow> subsys \<Rightarrow> fault + subsys" where
  "destroy_subsystems [] s = Inr s"
| "destroy_subsystems (ss # sss) s =
     (case subsystem_destroy ss s of Inl f \<Rightarrow> Inl f | Inr s \<Rightarrow> destroy_subsystems sss s)"

definition subsystem_exit :: "subsys \<Rightarrow> fault + subsys" where
  "subsystem_exit s = destroy_subsystems (all_subsystems s) s"

fun create_subsystems :: "subsystem_row list \<Rightarrow> subsys \<Rightarrow> subsys" where
  "create_subsystems [] s = s"
| "create_subsystems (row # rows) s =
     create_subsystems rows (case subsystem_lookup s (sr_name row) of None \<Rightarrow> subsystem_create row s | Some _ \<Rightarrow> s)"

definition add_del_subsystems :: "subsystem_row list \<Rightarrow> subsys \<Rightarrow> fault + subsys" where
  "add_del_subsystems rows s =
     (let new_ss = shash_collect sr_name rows;
          s = s\<lparr>all_subsystems := map (\<lambda>ss. ss\<lparr>ss_cfg := shash_find_data new_ss (ss_name ss)\<rparr>) (all_subsystems s)\<rparr> in
      case destroy_subsystems (filter (\<lambda>ss. ss_cfg ss = None) (all_subsystems s)) s of
        Inl f \<Rightarrow> Inl f
      | Inr s \<Rightarrow> Inr (create_subsystems rows s))"

definition subsystem_collect_wanted_ifaces :: "subsystem \<Rightarrow> iface_row shash" where
  "subsystem_collect_wanted_ifaces ss =
     shash_collect ir_name (case ss_cfg ss of None \<Rightarrow> [] | Some row \<Rightarrow> sr_interfaces row)"

definition subsystem_del_ifaces :: "subsystem \<Rightarrow> iface_row shash \<Rightarrow> subsys \<Rightarrow> fault + (subsystem \<times> subsys)" where
  "subsystem_del_ifaces ss wanted s =
     (let ss = ss\<lparr>iface_by_name := map (\<lambda>i. i\<lparr>if_cfg := shash_find_data wanted (if_name i)\<rparr>) (iface_by_name ss)\<rparr>
      in destroy_ifaces (filter (\<lambda>i. if_cfg i = None) (iface_by_name ss)) ss s)"

fun subsystem_reconfigure_ifaces :: "netdev_env \<Rightarrow> subsystem \<Rightarrow> iface_row list \<Rightarrow> subsys \<Rightarrow> subsys" where
  "subsystem_reconfigure_ifaces env ss [] s = s"
| "subsystem_reconfigure_ifaces env ss (row # rows) s =
     subsystem_reconfigure_ifaces env ss rows
       (case iface_lookup ss (ir_name row) of
          None \<Rightarrow> s
        | Some i \<Rightarrow> if ir_modified row then snd (iface_set_netdev_hw_intf_config env row (if_netdev i) s) else s)"

fun create_missing_ifaces :: "netdev_env \<Rightarrow> iface_row list \<Rightarrow> subsystem \<Rightarrow> subsys \<Rightarrow> subsystem \<times> subsys" where
  "create_missing_ifaces env [] ss s = (ss, s)"
| "create_missing_ifaces env (row # rows) ss s =
     (case iface_lookup ss (ir_name row) of
        None \<Rightarrow> (let (ok, ss, s) = iface_create env ss row s in create_missing_ifaces env rows ss s)
      | Some _ \<Rightarrow> create_missing_ifaces env rows ss s)"

definition subsystem_add_ifaces :: "netdev_env \<Rightarrow> iface_row list \<Rightarrow> subsystem \<Rightarrow> subsys \<Rightarrow> subsystem \<times> subsys" where
  "subsystem_add_ifaces env rows ss s =
     (let (ss, s) = create_missing_ifaces env (filter (\<lambda>row. ir_n_split_children row \<noteq> 0) rows) ss s
      in create_missing_ifaces env (filter (\<lambda>row. ir_n_split_children row = 0) rows) ss s)"

section \<open>Reconfiguration and the run loop\<close>

fun del_all_ifaces :: "subsystem list \<Rightarrow> subsys \<Rightarrow> fault + subsys" where
  "del_all_ifaces [] s = Inr s"
| "del_all_ifaces (ss # sss) s =
     (case subsystem_del_ifaces ss (subsystem_collect_wanted_ifaces ss) s of
        Inl f \<Rightarrow> Inl f
      | Inr (ss, s) \<Rightarrow> del_all_ifaces sss (put_subsystem ss s))"

fun reconfigure_all_ifaces :: "netdev_env \<Rightarrow> subsystem list \<Rightarrow> subsys \<Rightarrow> subsys" where
  "reconfigure_all_ifaces env [] s = s"
| "reconfigure_all_ifaces env (ss # sss) s =
     reconfigure_all_ifaces env sss
       (subsystem_reconfigure_ifaces env ss (map snd (subsystem_collect_wanted_ifaces ss)) s)"

fun add_all_ifaces :: "netdev_env \<Rightarrow> subsystem list \<Rightarrow> subsys \<Rightarrow> subsys" where
  "add_all_ifaces env [] s = s"
| "add_all_ifaces env (ss # sss) s =
     (let (ss', s) = subsystem_add_ifaces env (map snd (subsystem_collect_wanted_ifaces ss)) ss s
      in add_all_ifaces env sss (put_subsystem ss' s))"

definition subsystem_reconfigure :: "netdev_env \<Rightarrow> subsystem_row list \<Rightarrow> subsys \<Rightarrow> fault + subsys" where
  "subsystem_reconfigure env rows s =
     (case add_del_subsystems rows s of
        Inl f \<Rightarrow> Inl f
      | Inr s \<Rightarrow>
          (case del_all_ifaces (all_subsystems s) s of
             Inl f \<Rightarrow> Inl f
           | Inr s \<Rightarrow>
               let s = reconfigure_all_ifaces env (all_subsystems s) s
               in Inr (add_all_ifaces env (all_subsystems s) s)))"

fun refresh_ifaces :: "netdev_env \<Rightarrow> iface list \<Rightarrow> subsys \<Rightarrow> iface list \<times> subsys" where
  "refresh_ifaces env [] s = ([], s)"
| "refresh_ifaces env (i # is) s =
     (let (i, s) = iface_refresh_netdev_status env i s; (is, s) = refresh_ifaces env is s in (i # is, s))"

fun run_status_update :: "netdev_env \<Rightarrow> subsystem list \<Rightarrow> subsys \<Rightarrow> subsys" where
  "run_status_update env [] s = s"
| "run_status_update env (ss # sss) s =
     (let (is, s) = refresh_ifaces env (iface_by_name ss) s
      in run_status_update env sss (put_subsystem (ss\<lparr>iface_by_name := is\<rparr>) s))"

text \<open>
  \<open>sblk\<close> lives across the loops: its \<open>netdev\<close> is cleared after each subsystem, its \<open>cfg\<close> is not.
\<close>

fun stats_of_ifaces :: "netdev_env \<Rightarrow> iface list \<Rightarrow> stats_blk_params \<times> subsys \<Rightarrow> stats_blk_params \<times> subsys" where
  "stats_of_ifaces env [] (sblk, s) = (sblk, s)"
| "stats_of_ifaces env (i # is) (sblk, s) =
     (let s = iface_refresh_stats env i s in
      if if_netdev i \<noteq> None
      then let sblk = sblk\<lparr>sb_netdev := if_netdev i, sb_cfg := map_option ir_name (if_cfg i)\<rparr>
           in stats_of_ifaces env is (sblk, stats_block sblk STATS_PER_SUBSYSTEM_NETDEV s)
      else stats_of_ifaces env is (sblk, s))"

fun stats_of_subsystems :: "netdev_env \<Rightarrow> subsystem list \<Rightarrow> stats_blk_params \<times> subsys \<Rightarrow> stats_blk_params \<times> subsys" where
  "stats_of_subsystems env [] (sblk, s) = (sblk, s)"
| "stats_of_subsystems env (ss # sss) (sblk, s) =
     (let s = stats_block sblk STATS_PER_SUBSYSTEM s;
          (sblk, s) = stats_of_ifaces env (iface_by_name ss) (sblk, s)
      in stats_of_subsystems env sss (sblk\<lparr>sb_netdev := None\<rparr>, s))"

definition run_stats_update :: "netdev_env \<Rightarrow> system_row option \<Rightarrow> int \<Rightarrow> int \<Rightarrow> subsys \<Rightarrow> fault + subsys" where
  "run_stats_update env cfg now later s =
     (case cfg of
        None \<Rightarrow> Inl Null_dereference
      | Some cfg \<Rightarrow>
          let stats_interval = max (smap_get_int (sys_other_config cfg) ''stats-update-interval'' (STATS_UPDATE_INTERVAL_DEFAULT env))
                                 (STATS_UPDATE_INTERVAL_DEFAULT env);
              s = (if stats_timer_interval s \<noteq> stats_interval
                   then s\<lparr>stats_timer_interval := stats_interval, stats_timer := - (2 ^ 63)\<rparr> else s) in
          if now \<ge> stats_timer s
          then
            let sblk = \<lparr>sb_netdev = None, sb_cfg = None\<rparr>;
                s = stats_block sblk STATS_SUBSYSTEM_BEGIN s;
                (sblk, s) = stats_of_subsystems env (all_subsystems s) (sblk, s);
                s = stats_block sblk STATS_SUBSYSTEM_END s
            in Inr (s\<lparr>stats_timer := later + stats_timer_interval s\<rparr>)
          else Inr s)"

definition subsystem_init :: "u32 \<Rightarrow> subsys \<Rightarrow> subsys" where
  "subsystem_init seqno s = s\<lparr>ss_idl_seqno := seqno\<rparr>"

definition subsystem_run ::
  "netdev_env \<Rightarrow> bool \<Rightarrow> u32 \<Rightarrow> system_row option \<Rightarrow> int \<Rightarrow> int \<Rightarrow> subsys \<Rightarrow> fault + subsys" where
  "subsystem_run env has_lock seqno cfg now later s =
     (if \<not> has_lock then Inr s
      else
        case (if seqno \<noteq> ss_idl_seqno s
              then map_sum id (\<lambda>s. s\<lparr>ss_idl_seqno := seqno\<rparr>)
                     (subsystem_reconfigure env (case cfg of None \<Rightarrow> [] | Some c \<Rightarrow> sys_subsystems c) s)
              else Inr s) of
          Inl f \<Rightarrow> Inl f
        | Inr s \<Rightarrow> run_stats_update env cfg now later (run_status_update env (all_subsystems s) s))"

section \<open>The tables\<close>

text \<open>
  What the operations leave of the tables.  The log and the blocks are the only fields a device call or a
  callback touches.
\<close>

lemma tables_emit [simp]:
  "all_subsystems (emit e s) = all_subsystems s" "ss_blocks (emit e s) = ss_blocks s"
  by (simp_all add: emit_def)

lemma tables_stats_block [simp]: "all_subsystems (stats_block p b s) = all_subsystems s"
  by (simp add: stats_block_def split: prod.split)

lemma tables_hw_config [simp]: "all_subsystems (snd (iface_set_netdev_hw_intf_config env row d s)) = all_subsystems s"
  by (simp add: iface_set_netdev_hw_intf_config_def split: option.split)

lemma tables_refresh_stats [simp]: "all_subsystems (iface_refresh_stats env i s) = all_subsystems s"
  by (simp add: iface_refresh_stats_def Let_def)

lemma iface_refresh_netdev_status_fields [simp]:
  "if_name (fst (iface_refresh_netdev_status env i s)) = if_name i"
  "if_subsystem (fst (iface_refresh_netdev_status env i s)) = if_subsystem i"
  "if_netdev (fst (iface_refresh_netdev_status env i s)) = if_netdev i"
  "all_subsystems (snd (iface_refresh_netdev_status env i s)) = all_subsystems s"
  by (auto simp: iface_refresh_netdev_status_def split: option.split)

lemma tables_do_create [simp]: "all_subsystems (snd (snd (iface_do_create env row s))) = all_subsystems s"
  by (simp add: iface_do_create_def iface_set_netdev_hw_intf_config_def Let_def)

abbreviation iface_names :: "subsystem \<Rightarrow> string set" where
  "iface_names ss \<equiv> if_name ` set (iface_by_name ss)"

text \<open>
  The invariant: names are distinct, and no interface has a back pointer, because \<open>iface_create\<close>
  leaves it zeroed and nothing else writes it.
\<close>

definition ifaces_ok :: "subsystem \<Rightarrow> bool" where
  "ifaces_ok ss \<longleftrightarrow> distinct (map if_name (iface_by_name ss)) \<and> (\<forall>i\<in>set (iface_by_name ss). if_subsystem i = None)"

definition subsys_inv :: "subsys \<Rightarrow> bool" where
  "subsys_inv s \<longleftrightarrow> distinct (map ss_name (all_subsystems s)) \<and> (\<forall>ss\<in>set (all_subsystems s). ifaces_ok ss)"

lemma iface_lookup_None: "iface_lookup ss name = None \<longleftrightarrow> name \<notin> iface_names ss"
  by (auto simp: iface_lookup_def find_None_iff)

lemma iface_create_cases:
  obtains (failed) e s' where "fst (iface_do_create env row s) = e" "e \<noteq> 0" "iface_create env ss row s = (False, ss, s')"
      "all_subsystems s' = all_subsystems s"
    | (created) i s' where "fst (iface_do_create env row s) = 0"
      "iface_create env ss row s = (True, ss\<lparr>iface_by_name := iface_by_name ss @ [i]\<rparr>, s')"
      "if_name i = ir_name row" "if_subsystem i = None" "all_subsystems s' = all_subsystems s"
proof -
  obtain e d s1 where c: "iface_do_create env row s = (e, d, s1)" by (cases "iface_do_create env row s")
  with tables_do_create [of env row s] have t: "all_subsystems s1 = all_subsystems s" by simp
  let ?i = "\<lparr>if_subsystem = None, if_name = ir_name row, if_netdev = d, if_change_seq = 0, if_cfg = Some row\<rparr>"
  obtain i s2 where r: "iface_refresh_netdev_status env ?i s1 = (i, s2)"
    by (cases "iface_refresh_netdev_status env ?i s1")
  with iface_refresh_netdev_status_fields [of env ?i s1] t
  have i: "if_name i = ir_name row" "if_subsystem i = None" "all_subsystems s2 = all_subsystems s" by simp_all
  show ?thesis
  proof (cases "e = 0")
    case True
    let ?s = "iface_refresh_stats env i s2"
    from True c r i show ?thesis
      by (intro created [of i "if if_netdev i \<noteq> None
            then stats_block \<lparr>sb_netdev = if_netdev i, sb_cfg = Some (ir_name row)\<rparr> STATS_SUBSYSTEM_CREATE_NETDEV ?s else ?s"])
        (simp_all add: iface_create_def Let_def)
  next
    case False
    with c t show ?thesis by (intro failed [of e s1]) (simp_all add: iface_create_def)
  qed
qed

text \<open>A row is creatable if its name is not reserved and the device layer accepts it in every situation.\<close>

definition creatable :: "netdev_env \<Rightarrow> iface_row \<Rightarrow> bool" where
  "creatable env row \<longleftrightarrow> \<not> netdev_is_reserved_name env (ir_name row) \<and>
     (\<forall>lg. netdev_open env lg (ir_name row) = 0) \<and>
     (\<forall>lg m. netdev_set_hw_intf_info env lg (ir_name row) m = 0) \<and>
     (\<forall>lg m. netdev_set_hw_intf_config env lg (ir_name row) m = 0)"

lemma creatable_do_create: "creatable env row \<Longrightarrow> fst (iface_do_create env row s) = 0"
  by (simp add: creatable_def iface_do_create_def iface_set_netdev_hw_intf_config_def Let_def)

definition ifaces_added :: "netdev_env \<Rightarrow> iface_row list \<Rightarrow> subsystem \<Rightarrow> subsystem \<Rightarrow> bool" where
  "ifaces_added env rows ss ss' \<longleftrightarrow> ss_name ss' = ss_name ss \<and> ss_cfg ss' = ss_cfg ss \<and>
     (ifaces_ok ss \<longrightarrow> ifaces_ok ss') \<and> iface_names ss \<subseteq> iface_names ss' \<and>
     iface_names ss' \<subseteq> iface_names ss \<union> ir_name ` set rows \<and>
     (\<forall>row\<in>set rows. creatable env row \<longrightarrow> ir_name row \<in> iface_names ss')"

lemma create_missing_ifaces_result:
  assumes "create_missing_ifaces env rows ss s = (ss', s')"
  shows "all_subsystems s' = all_subsystems s \<and> ifaces_added env rows ss ss'"
  using assms
proof (induction rows arbitrary: ss s)
  case (Cons row rows)
  show ?case
  proof (cases "iface_lookup ss (ir_name row)")
    case None
    then have fresh: "ir_name row \<notin> iface_names ss" by (simp add: iface_lookup_None)
    show ?thesis
    proof (cases rule: iface_create_cases [of env row s ss])
      case (failed e s1)
      with Cons.prems None have "create_missing_ifaces env rows ss s1 = (ss', s')" by simp
      from Cons.IH [OF this] failed creatable_do_create [of env row s] show ?thesis
        by (auto simp: ifaces_added_def)
    next
      case (created i s1)
      let ?ss = "ss\<lparr>iface_by_name := iface_by_name ss @ [i]\<rparr>"
      from created Cons.prems None have "create_missing_ifaces env rows ?ss s1 = (ss', s')" by simp
      from Cons.IH [OF this] fresh created(3-) show ?thesis
        by (auto simp: ifaces_added_def ifaces_ok_def)
    qed
  next
    case (Some i)
    then have "ir_name row \<in> iface_names ss" using iface_lookup_None [of ss "ir_name row"] by auto
    with Cons.IH [of ss s] Cons.prems Some show ?thesis by (auto simp: ifaces_added_def)
  qed
qed (auto simp: ifaces_added_def)

lemma subsystem_add_ifaces_result:
  assumes "subsystem_add_ifaces env rows ss s = (ss', s')"
  shows "all_subsystems s' = all_subsystems s \<and> ifaces_added env rows ss ss'"
proof -
  obtain ss1 s1 where c: "create_missing_ifaces env (filter (\<lambda>row. ir_n_split_children row \<noteq> 0) rows) ss s = (ss1, s1)"
    "create_missing_ifaces env (filter (\<lambda>row. ir_n_split_children row = 0) rows) ss1 s1 = (ss', s')"
    using assms by (auto simp: subsystem_add_ifaces_def split: prod.splits)
  note r = create_missing_ifaces_result [OF c(1)] create_missing_ifaces_result [OF c(2)]
  then have sub: "iface_names ss \<subseteq> iface_names ss1" "iface_names ss1 \<subseteq> iface_names ss'" by (simp_all add: ifaces_added_def)
  have "ir_name row \<in> iface_names ss'" if "row \<in> set rows" "creatable env row" for row
  proof (cases "ir_n_split_children row = 0")
    case True
    with r(2) that show ?thesis by (simp add: ifaces_added_def)
  next
    case False
    with r(1) that have "ir_name row \<in> iface_names ss1" by (simp add: ifaces_added_def)
    with sub(2) show ?thesis by blast
  qed
  moreover have "iface_names ss' \<subseteq> iface_names ss \<union> ir_name ` set rows"
  proof
    fix x
    assume "x \<in> iface_names ss'"
    moreover have "x \<in> iface_names ss1 \<or> x \<in> ir_name ` set rows" if "x \<in> iface_names ss'"
      using r(2) that by (auto simp: ifaces_added_def)
    moreover have "x \<in> iface_names ss \<or> x \<in> ir_name ` set rows" if "x \<in> iface_names ss1"
      using r(1) that by (auto simp: ifaces_added_def)
    ultimately show "x \<in> iface_names ss \<union> ir_name ` set rows" by blast
  qed
  ultimately show ?thesis using r sub unfolding ifaces_added_def by (intro conjI) simp_all
qed

text \<open>Visiting every subsystem in turn: \<open>put_subsystem\<close> rewrites the one being visited.\<close>

lemma put_subsystem_at:
  assumes "all_subsystems s = pre @ ss # post" "distinct (map ss_name (all_subsystems s))" "ss_name ss' = ss_name ss"
  shows "all_subsystems (put_subsystem ss' s) = pre @ ss' # post"
proof -
  from assms have "ss_name x \<noteq> ss_name ss" if "x \<in> set pre \<union> set post" for x
    using that by (auto simp: image_iff)
  then show ?thesis using assms(1,3) by (auto simp: put_subsystem_def intro: map_idI)
qed

abbreviation wanted_rows :: "subsystem \<Rightarrow> iface_row list" where
  "wanted_rows ss \<equiv> map snd (subsystem_collect_wanted_ifaces ss)"

lemma add_all_ifaces_result:
  assumes "all_subsystems s = pre @ sss" "distinct (map ss_name (all_subsystems s))"
  shows "\<exists>post. all_subsystems (add_all_ifaces env sss s) = pre @ post \<and>
    list_all2 (\<lambda>ss ss'. ifaces_added env (wanted_rows ss) ss ss') sss post"
  using assms
proof (induction sss arbitrary: pre s)
  case (Cons ss sss)
  obtain ss' s1 where a: "subsystem_add_ifaces env (wanted_rows ss) ss s = (ss', s1)"
    by (cases "subsystem_add_ifaces env (wanted_rows ss) ss s")
  note r = subsystem_add_ifaces_result [OF a]
  then have n: "ss_name ss' = ss_name ss" by (simp add: ifaces_added_def)
  have t: "all_subsystems (put_subsystem ss' s1) = (pre @ [ss']) @ sss"
    using put_subsystem_at [of s1 pre ss sss ss'] r n Cons.prems by simp
  with Cons.prems n have "distinct (map ss_name (all_subsystems (put_subsystem ss' s1)))" by simp
  from Cons.IH [OF t this] a r show ?case by force
qed simp

lemma tables_reconfigure_ifaces [simp]:
  "all_subsystems (subsystem_reconfigure_ifaces env ss rows s) = all_subsystems s"
  by (induction rows arbitrary: s) (simp_all split: option.split)

lemma tables_reconfigure_all [simp]: "all_subsystems (reconfigure_all_ifaces env sss s) = all_subsystems s"
  by (induction sss arbitrary: s) simp_all

text \<open>With no back pointers, destroying an interface is a NULL dereference; destroying none is harmless.\<close>

lemma destroy_ifaces_faults:
  "\<forall>i\<in>set is. if_subsystem i = None \<Longrightarrow> destroy_ifaces is ss s = (if is = [] then Inr (ss, s) else Inl Null_dereference)"
  by (cases "is") (simp_all add: iface_destroy_def)

definition set_cfgs :: "iface_row shash \<Rightarrow> subsystem \<Rightarrow> subsystem" where
  "set_cfgs wanted ss = ss\<lparr>iface_by_name := map (\<lambda>i. i\<lparr>if_cfg := shash_find_data wanted (if_name i)\<rparr>) (iface_by_name ss)\<rparr>"

lemma set_cfgs_fields [simp]:
  "ss_name (set_cfgs w ss) = ss_name ss" "ss_cfg (set_cfgs w ss) = ss_cfg ss"
  "map if_name (iface_by_name (set_cfgs w ss)) = map if_name (iface_by_name ss)"
  "iface_names (set_cfgs w ss) = iface_names ss" "ifaces_ok (set_cfgs w ss) = ifaces_ok ss"
  "subsystem_collect_wanted_ifaces (set_cfgs w ss) = subsystem_collect_wanted_ifaces ss"
  by (auto simp: set_cfgs_def ifaces_ok_def comp_def subsystem_collect_wanted_ifaces_def image_image)

definition all_wanted :: "subsystem \<Rightarrow> bool" where
  "all_wanted ss \<longleftrightarrow> (\<forall>i\<in>set (iface_by_name ss). \<exists>row. ss_cfg ss = Some row \<and> if_name i \<in> ir_name ` set (sr_interfaces row))"

lemma subsystem_del_ifaces_result:
  assumes "ifaces_ok ss"
  shows "subsystem_del_ifaces ss (subsystem_collect_wanted_ifaces ss) s =
    (if all_wanted ss then Inr (set_cfgs (subsystem_collect_wanted_ifaces ss) ss, s) else Inl Null_dereference)"
proof -
  let ?w = "subsystem_collect_wanted_ifaces ss"
  let ?gone = "filter (\<lambda>i. if_cfg i = None) (iface_by_name (set_cfgs ?w ss))"
  have "\<forall>i\<in>set ?gone. if_subsystem i = None" using assms by (auto simp: set_cfgs_def ifaces_ok_def)
  from destroy_ifaces_faults [OF this, of "set_cfgs ?w ss" s]
  have "subsystem_del_ifaces ss ?w s = (if ?gone = [] then Inr (set_cfgs ?w ss, s) else Inl Null_dereference)"
    by (simp add: subsystem_del_ifaces_def set_cfgs_def)
  moreover have "?gone = [] \<longleftrightarrow> all_wanted ss"
    by (cases "ss_cfg ss") (simp_all add: set_cfgs_def all_wanted_def filter_empty_conv subsystem_collect_wanted_ifaces_def
        map_of_eq_None_iff image_image shash_find_data_def fst_set_shash_collect del: not_None_eq)
  ultimately show ?thesis by simp
qed

lemma del_all_ifaces_result:
  assumes "all_subsystems s = pre @ sss" "distinct (map ss_name (all_subsystems s))" "\<forall>ss\<in>set sss. ifaces_ok ss"
  shows "if \<forall>ss\<in>set sss. all_wanted ss
     then \<exists>s'. del_all_ifaces sss s = Inr s' \<and>
            all_subsystems s' = pre @ map (\<lambda>ss. set_cfgs (subsystem_collect_wanted_ifaces ss) ss) sss
     else del_all_ifaces sss s = Inl Null_dereference"
  using assms
proof (induction sss arbitrary: pre s)
  case (Cons ss sss)
  show ?case
  proof (cases "all_wanted ss")
    case True
    let ?ss = "set_cfgs (subsystem_collect_wanted_ifaces ss) ss"
    have t: "all_subsystems (put_subsystem ?ss s) = (pre @ [?ss]) @ sss"
      using put_subsystem_at [of s pre ss sss ?ss] Cons.prems by simp
    with Cons.prems have "distinct (map ss_name (all_subsystems (put_subsystem ?ss s)))" by simp
    from Cons.IH [OF t this] Cons.prems True show ?thesis
      by (auto simp: subsystem_del_ifaces_result split: if_splits)
  next
    case False
    with Cons.prems show ?thesis by (simp add: subsystem_del_ifaces_result)
  qed
qed simp

lemma destroy_subsystems_result:
  assumes "\<forall>ss\<in>set sss. ifaces_ok ss"
  shows "destroy_subsystems sss s =
    (if \<forall>ss\<in>set sss. iface_by_name ss = []
     then Inr (s\<lparr>all_subsystems := filter (\<lambda>x. ss_name x \<notin> ss_name ` set sss) (all_subsystems s)\<rparr>)
     else Inl Null_dereference)"
  using assms
proof (induction sss arbitrary: s)
  case (Cons ss sss)
  have "subsystem_destroy ss s =
      (if iface_by_name ss = [] then Inr (s\<lparr>all_subsystems := filter (\<lambda>x. ss_name x \<noteq> ss_name ss) (all_subsystems s)\<rparr>)
       else Inl Null_dereference)"
    using Cons.prems destroy_ifaces_faults [of "iface_by_name ss" ss s]
    by (simp add: subsystem_destroy_def ifaces_ok_def)
  with Cons show ?case by (simp add: conj_commute)
qed simp

definition row_named :: "subsystem_row list \<Rightarrow> string \<Rightarrow> subsystem_row option" where
  "row_named rows name = map_of (map (\<lambda>r. (sr_name r, r)) rows) name"

lemma row_named_None: "row_named rows name = None \<longleftrightarrow> name \<notin> sr_name ` set rows"
  by (simp add: row_named_def map_of_eq_None_iff image_image)

lemma row_named_Some: "row_named rows name = Some row \<Longrightarrow> row \<in> set rows \<and> sr_name row = name"
  unfolding row_named_def by (drule map_of_SomeD) auto

lemma create_subsystems_result:
  assumes "distinct (map ss_name (all_subsystems s))"
  shows "\<exists>new. all_subsystems (create_subsystems rows s) = all_subsystems s @ new \<and>
    distinct (map ss_name (all_subsystems s @ new)) \<and>
    ss_name ` set new = sr_name ` set rows - ss_name ` set (all_subsystems s) \<and>
    (\<forall>ss\<in>set new. iface_by_name ss = [] \<and> ss_cfg ss = row_named rows (ss_name ss))"
  using assms
proof (induction rows arbitrary: s)
  case (Cons row rows)
  show ?case
  proof (cases "subsystem_lookup s (sr_name row)")
    case None
    then have fresh: "sr_name row \<notin> ss_name ` set (all_subsystems s)"
      by (auto simp: subsystem_lookup_def find_None_iff)
    let ?s = "subsystem_create row s"
    from fresh Cons.prems have "distinct (map ss_name (all_subsystems ?s))" by (simp add: subsystem_create_def)
    from Cons.IH [OF this] obtain new where new:
      "all_subsystems (create_subsystems rows ?s) = all_subsystems ?s @ new"
      "distinct (map ss_name (all_subsystems ?s @ new))"
      "ss_name ` set new = sr_name ` set rows - ss_name ` set (all_subsystems ?s)"
      "\<forall>ss\<in>set new. iface_by_name ss = [] \<and> ss_cfg ss = row_named rows (ss_name ss)"
      by auto
    let ?n = "\<lparr>ss_name = sr_name row, ss_cfg = Some row, iface_by_name = []\<rparr> # new"
    have "ss_name ss \<noteq> sr_name row" if "ss \<in> set new" for ss
      using new(3) that by (auto simp: subsystem_create_def)
    with new None fresh show ?thesis
      by (intro exI [of _ ?n]) (auto simp: subsystem_create_def row_named_def)
  next
    case (Some ss)
    then have old: "sr_name row \<in> ss_name ` set (all_subsystems s)"
      unfolding subsystem_lookup_def using find_Some_conv [of _ "all_subsystems s" ss] by (metis (mono_tags) imageI)
    from Cons.IH [OF Cons.prems] obtain new where new:
      "all_subsystems (create_subsystems rows s) = all_subsystems s @ new"
      "distinct (map ss_name (all_subsystems s @ new))"
      "ss_name ` set new = sr_name ` set rows - ss_name ` set (all_subsystems s)"
      "\<forall>ss\<in>set new. iface_by_name ss = [] \<and> ss_cfg ss = row_named rows (ss_name ss)"
      by auto
    have "ss_name ss \<noteq> sr_name row" if "ss \<in> set new" for ss
      using new(3) old that by (metis DiffD2 imageI)
    with new Some old show ?thesis
      by (intro exI [of _ new]) (auto simp: row_named_def)
  qed
qed simp

text \<open>
  \<open>still_wanted rows ss\<close>: every interface of the subsystem is still listed by the row of that subsystem.
  A subsystem without interfaces may go.
\<close>

definition still_wanted :: "subsystem_row list \<Rightarrow> subsystem \<Rightarrow> bool" where
  "still_wanted rows ss \<longleftrightarrow> (\<forall>i\<in>set (iface_by_name ss). \<exists>row.
     row_named rows (ss_name ss) = Some row \<and> if_name i \<in> ir_name ` set (sr_interfaces row))"

lemma add_del_subsystems_result:
  assumes "subsys_inv s"
  shows "if \<exists>ss\<in>set (all_subsystems s). iface_by_name ss \<noteq> [] \<and> ss_name ss \<notin> sr_name ` set rows
     then add_del_subsystems rows s = Inl Null_dereference
     else \<exists>s' new. add_del_subsystems rows s = Inr s' \<and>
       all_subsystems s' = map (\<lambda>ss. ss\<lparr>ss_cfg := row_named rows (ss_name ss)\<rparr>)
         (filter (\<lambda>ss. ss_name ss \<in> sr_name ` set rows) (all_subsystems s)) @ new \<and>
       distinct (map ss_name (all_subsystems s')) \<and> ss_name ` set (all_subsystems s') = sr_name ` set rows \<and>
       (\<forall>ss\<in>set new. iface_by_name ss = [] \<and> ss_cfg ss = row_named rows (ss_name ss))"
proof -
  let ?cfg = "\<lambda>ss. ss\<lparr>ss_cfg := row_named rows (ss_name ss)\<rparr>"
  let ?s = "s\<lparr>all_subsystems := map ?cfg (all_subsystems s)\<rparr>"
  let ?gone = "filter (\<lambda>ss. ss_cfg ss = None) (all_subsystems ?s)"
  let ?kept = "map ?cfg (filter (\<lambda>ss. ss_name ss \<in> sr_name ` set rows) (all_subsystems s))"
  have cfg: "add_del_subsystems rows s =
      (case destroy_subsystems ?gone ?s of Inl f \<Rightarrow> Inl f | Inr s \<Rightarrow> Inr (create_subsystems rows s))"
    by (simp add: add_del_subsystems_def row_named_def)
  have "\<forall>ss\<in>set ?gone. ifaces_ok ss" using assms by (auto simp: subsys_inv_def ifaces_ok_def)
  note d = destroy_subsystems_result [OF this, of ?s]
  have gone: "(\<forall>ss\<in>set ?gone. iface_by_name ss = []) \<longleftrightarrow>
      \<not> (\<exists>ss\<in>set (all_subsystems s). iface_by_name ss \<noteq> [] \<and> ss_name ss \<notin> sr_name ` set rows)"
    by (auto simp: row_named_None)
  have "ss_name ` set ?gone = {x \<in> ss_name ` set (all_subsystems s). x \<notin> sr_name ` set rows}"
    by (simp add: filter_map comp_def image_image row_named_None set_eq_iff image_iff) (metis (no_types))
  then have kept: "filter (\<lambda>x. ss_name x \<notin> ss_name ` set ?gone) (all_subsystems ?s) = ?kept"
    by (auto simp: filter_map comp_def intro!: arg_cong [where f = "map ?cfg"] filter_cong)
  show ?thesis
  proof (cases "\<forall>ss\<in>set ?gone. iface_by_name ss = []")
    case True
    let ?s1 = "s\<lparr>all_subsystems := ?kept\<rparr>"
    from True d cfg kept have r: "add_del_subsystems rows s = Inr (create_subsystems rows ?s1)" by simp
    have "distinct (map ss_name (all_subsystems ?s1))"
      using assms by (simp add: subsys_inv_def comp_def distinct_map_filter)
    from create_subsystems_result [OF this, of rows] obtain new where new:
      "all_subsystems (create_subsystems rows ?s1) = ?kept @ new" "distinct (map ss_name (?kept @ new))"
      "ss_name ` set new = sr_name ` set rows - ss_name ` set ?kept"
      "\<forall>ss\<in>set new. iface_by_name ss = [] \<and> ss_cfg ss = row_named rows (ss_name ss)"
      by auto
    have "ss_name ` set ?kept \<subseteq> sr_name ` set rows" by auto
    with new(3) have "ss_name ` set (?kept @ new) = sr_name ` set rows" by (simp only: set_append image_Un) blast
    with r new True gone show ?thesis by auto
  next
    case False
    with d cfg gone show ?thesis by auto
  qed
qed

text \<open>
  \<open>matches_row env row ss\<close>: the subsystem holds only interfaces its row lists, and all of them that can be
  created.
\<close>

definition matches_row :: "netdev_env \<Rightarrow> subsystem_row \<Rightarrow> subsystem \<Rightarrow> bool" where
  "matches_row env row ss \<longleftrightarrow> iface_names ss \<subseteq> ir_name ` set (sr_interfaces row) \<and>
     (\<forall>r\<in>set (map snd (shash_collect ir_name (sr_interfaces row))). creatable env r \<longrightarrow> ir_name r \<in> iface_names ss)"

lemma added_matches_row:
  assumes "ifaces_added env (wanted_rows ss) (set_cfgs w ss) ss'" "ss_cfg ss = Some row" "all_wanted ss"
  shows "matches_row env row ss'"
proof -
  define w where "w = map snd (shash_collect ir_name (sr_interfaces row))"
  have "wanted_rows ss = w" using assms(2) by (simp add: subsystem_collect_wanted_ifaces_def w_def)
  with assms(1) have a: "iface_names ss' \<subseteq> iface_names ss \<union> ir_name ` set w"
    "\<forall>r\<in>set w. creatable env r \<longrightarrow> ir_name r \<in> iface_names ss'"
    by (simp_all add: ifaces_added_def)
  have "ir_name ` set w = ir_name ` set (sr_interfaces row)" unfolding w_def by (rule collect_row_keys)
  moreover have "iface_names ss \<subseteq> ir_name ` set (sr_interfaces row)" using assms(2,3) by (auto simp: all_wanted_def)
  ultimately show ?thesis using a by (simp add: matches_row_def w_def Un_absorb1)
qed

lemma reconfigure_after_add_del:
  assumes "add_del_subsystems rows s = Inr s1" "distinct (map ss_name (all_subsystems s1))"
    and "\<forall>ss\<in>set (all_subsystems s1). ifaces_ok ss \<and> ss_cfg ss = row_named rows (ss_name ss) \<and> all_wanted ss"
    and "ss_name ` set (all_subsystems s1) = sr_name ` set rows"
  shows "\<exists>s'. subsystem_reconfigure env rows s = Inr s' \<and> subsys_inv s' \<and>
    ss_name ` set (all_subsystems s') = sr_name ` set rows \<and>
    (\<forall>ss\<in>set (all_subsystems s'). \<exists>row. row_named rows (ss_name ss) = Some row \<and> matches_row env row ss)"
proof -
  let ?set = "\<lambda>ss. set_cfgs (subsystem_collect_wanted_ifaces ss) ss"
  obtain s2 where s2: "del_all_ifaces (all_subsystems s1) s1 = Inr s2" "all_subsystems s2 = map ?set (all_subsystems s1)"
    using del_all_ifaces_result [of s1 "[]" "all_subsystems s1"] assms(2,3) by auto
  let ?s3 = "reconfigure_all_ifaces env (all_subsystems s2) s2"
  let ?s' = "add_all_ifaces env (all_subsystems ?s3) ?s3"
  from s2 assms(2) have "distinct (map ss_name (all_subsystems ?s3))" by (simp add: comp_def)
  from add_all_ifaces_result [of ?s3 "[]" "all_subsystems ?s3" env, OF _ this] obtain post where
    post: "all_subsystems ?s' = post" and
    "list_all2 (\<lambda>ss ss'. ifaces_added env (wanted_rows ss) ss ss') (all_subsystems s2) post" by auto
  with s2(2) have rel: "list_all2 (\<lambda>ss ss'. ifaces_added env (wanted_rows ss) (?set ss) ss') (all_subsystems s1) post"
    by (simp add: list.rel_map)
  then have names: "map ss_name post = map ss_name (all_subsystems s1)"
    by (induction rule: list_all2_induct) (auto simp: ifaces_added_def)
  have one: "ifaces_ok ss' \<and> (\<exists>row. row_named rows (ss_name ss') = Some row \<and> matches_row env row ss')"
    if ss': "ss' \<in> set post" for ss'
  proof -
    obtain ss where ss: "ss \<in> set (all_subsystems s1)" "ifaces_added env (wanted_rows ss) (?set ss) ss'"
      using list_all2_right_in [OF rel ss'] by blast
    then have nm: "ss_name ss' = ss_name ss" by (simp add: ifaces_added_def)
    from ss(1) assms(4) have "ss_name ss \<in> sr_name ` set rows" by blast
    then obtain row where row: "row_named rows (ss_name ss) = Some row" using row_named_None [of rows "ss_name ss"] by auto
    with added_matches_row [OF ss(2), of row] assms(3) ss nm show ?thesis by (simp add: ifaces_added_def)
  qed
  have "subsys_inv ?s'" using one names assms(2) unfolding subsys_inv_def post by simp
  moreover have "ss_name ` set (all_subsystems ?s') = sr_name ` set rows" using names assms(4) by (metis post set_map)
  moreover have "subsystem_reconfigure env rows s = Inr ?s'"
    using assms(1) s2(1) by (simp add: subsystem_reconfigure_def Let_def)
  moreover have "\<forall>ss\<in>set (all_subsystems ?s'). \<exists>row. row_named rows (ss_name ss) = Some row \<and> matches_row env row ss"
    using one unfolding post by blast
  ultimately show ?thesis by blast
qed

text \<open>A reconfiguration either loses an interface, and then faults, or brings the tables in line with the rows.\<close>

lemma subsystem_reconfigure_result:
  assumes "subsys_inv s"
  shows "if \<forall>ss\<in>set (all_subsystems s). still_wanted rows ss
     then \<exists>s'. subsystem_reconfigure env rows s = Inr s' \<and> subsys_inv s' \<and>
       ss_name ` set (all_subsystems s') = sr_name ` set rows \<and>
       (\<forall>ss\<in>set (all_subsystems s'). \<exists>row. row_named rows (ss_name ss) = Some row \<and> matches_row env row ss)
     else subsystem_reconfigure env rows s = Inl Null_dereference"
proof (cases "\<exists>ss\<in>set (all_subsystems s). iface_by_name ss \<noteq> [] \<and> ss_name ss \<notin> sr_name ` set rows")
  case True
  then obtain ss where ss: "ss \<in> set (all_subsystems s)" "iface_by_name ss \<noteq> []" "row_named rows (ss_name ss) = None"
    by (auto simp: row_named_None)
  then have "\<not> still_wanted rows ss" by (cases "iface_by_name ss") (auto simp: still_wanted_def)
  with ss True add_del_subsystems_result [OF assms, of rows] show ?thesis
    by (auto simp: subsystem_reconfigure_def)
next
  case False
  let ?cfg = "\<lambda>ss. ss\<lparr>ss_cfg := row_named rows (ss_name ss)\<rparr>"
  let ?old = "filter (\<lambda>ss. ss_name ss \<in> sr_name ` set rows) (all_subsystems s)"
  from False add_del_subsystems_result [OF assms, of rows] obtain s1 new where
    r: "add_del_subsystems rows s = Inr s1" and t: "all_subsystems s1 = map ?cfg ?old @ new"
    and d: "distinct (map ss_name (all_subsystems s1))" and n: "ss_name ` set (all_subsystems s1) = sr_name ` set rows"
    and new: "\<And>ss. ss \<in> set new \<Longrightarrow> iface_by_name ss = [] \<and> ss_cfg ss = row_named rows (ss_name ss)"
    by (auto split: if_splits)
  have ok: "\<forall>ss\<in>set (all_subsystems s1). ifaces_ok ss"
    using assms new by (auto simp: t subsys_inv_def ifaces_ok_def)
  have cfg: "\<forall>ss\<in>set (all_subsystems s1). ss_cfg ss = row_named rows (ss_name ss)"
    using new by (auto simp: t)
  have "(\<forall>ss\<in>set (all_subsystems s1). all_wanted ss) \<longleftrightarrow> (\<forall>ss\<in>set ?old. still_wanted rows ss)"
    using new by (simp add: t ball_Un) (simp add: all_wanted_def still_wanted_def)
  also have "\<dots> \<longleftrightarrow> (\<forall>ss\<in>set (all_subsystems s). still_wanted rows ss)"
  proof -
    have "still_wanted rows ss" if "iface_by_name ss = []" for ss using that by (simp add: still_wanted_def)
    with False show ?thesis by auto
  qed
  finally have w: "(\<forall>ss\<in>set (all_subsystems s1). all_wanted ss) \<longleftrightarrow> (\<forall>ss\<in>set (all_subsystems s). still_wanted rows ss)" .
  show ?thesis
  proof (cases "\<forall>ss\<in>set (all_subsystems s1). all_wanted ss")
    case True
    with reconfigure_after_add_del [OF r d _ n, of env] ok cfg w show ?thesis by auto
  next
    case False
    with del_all_ifaces_result [of s1 "[]" "all_subsystems s1", OF _ d ok] r w show ?thesis
      by (auto simp: subsystem_reconfigure_def)
  qed
qed

section \<open>Order of the device calls\<close>

text \<open>
  The devices opened in a stretch of the log.  Callbacks of the stats blocks are assumed to append events of
  their own and to open no device through the log.
\<close>

definition opened :: "event list \<Rightarrow> string list" where
  "opened lg = [d. NetdevOpen d \<leftarrow> lg]"

definition appends :: "(event list \<Rightarrow> event list) \<Rightarrow> bool" where
  "appends f \<longleftrightarrow> (\<forall>lg. \<exists>es. f lg = lg @ es \<and> opened es = [])"

definition blocks_append :: "stats_blocks \<Rightarrow> bool" where
  "blocks_append bl \<longleftrightarrow> blocks_wf MAX_STATS_BLOCKS_NUM bl \<and>
     (\<forall>b. 0 \<le> b \<and> b < int MAX_STATS_BLOCKS_NUM \<longrightarrow> (\<forall>(h, _)\<in>set (blk_handlers bl b). \<forall>p. appends (h p b)))"

lemma opened_append [simp]: "opened (xs @ ys) = opened xs @ opened ys"
  by (simp add: opened_def)

text \<open>\<open>opens ns s s'\<close>: the log of s was extended, opening exactly the devices ns, and the blocks are as before.\<close>

definition opens :: "string list \<Rightarrow> subsys \<Rightarrow> subsys \<Rightarrow> bool" where
  "opens ns s s' \<longleftrightarrow> (\<exists>es. ss_log s' = ss_log s @ es \<and> opened es = ns) \<and>
     (blocks_append (ss_blocks s) \<longrightarrow> blocks_append (ss_blocks s'))"

lemma opens_refl [simp]: "opens [] s s"
  by (auto simp: opens_def opened_def)

lemma opens_trans: "opens ns s s1 \<Longrightarrow> opens ns' s1 s2 \<Longrightarrow> opens (ns @ ns') s s2"
  by (auto simp: opens_def)

lemma opens_emit: "opens (opened [e]) s (emit e s)"
  by (simp add: opens_def emit_def)

lemma fold_appends:
  assumes "\<forall>f\<in>set fs. appends f"
  shows "\<exists>es. fold id fs lg = lg @ es \<and> opened es = []"
  using assms
proof (induction fs arbitrary: lg)
  case Nil
  then show ?case by (simp add: opened_def)
next
  case (Cons f fs)
  from Cons.prems have "appends f" by simp
  then obtain es where "f lg = lg @ es" "opened es = []" unfolding appends_def by blast
  with Cons.IH [of "lg @ es"] Cons.prems show ?case by force
qed

lemma stats_block_opens:
  assumes "blocks_append (ss_blocks s)"
  shows "opens [] s (stats_block p b s)"
proof -
  let ?n = "stats_block_num b" and ?bl = "ss_blocks s"
  have range: "0 \<le> ?n" "?n < int MAX_STATS_BLOCKS_NUM" by (cases b; simp add: MAX_STATS_BLOCKS_NUM_def)+
  from assms have wf: "blocks_wf MAX_STATS_BLOCKS_NUM ?bl" by (simp add: blocks_append_def)
  note ex = stats.execute_ok [OF wf range, of "Some p" "ss_log s"]
  let ?fs = "map (\<lambda>(h, _). h (Some p) ?n) (blk_handlers ?bl ?n)"
  have "\<forall>f\<in>set ?fs. appends f" using assms range by (fastforce simp: blocks_append_def)
  from fold_appends [OF this, of "ss_log s"] have
    "\<exists>es. snd (snd (execute_stats_block (Some p) ?n ?bl (ss_log s))) = ss_log s @ es \<and> opened es = []"
    using ex by (simp add: fold_map comp_def case_prod_beta')
  moreover have "blocks_append (fst (snd (execute_stats_block (Some p) ?n ?bl (ss_log s))))"
    using ex assms by (simp add: blocks_append_def)
  ultimately show ?thesis by (auto simp: opens_def stats_block_def split: prod.split)
qed

lemma refresh_opens:
  "opens [] s (snd (iface_refresh_netdev_status env i s))" "opens [] s (iface_refresh_stats env i s)"
  using opens_emit [of "WriteStatus n st" s for n st] opens_emit [of "WriteStats n st" s for n st]
  by (simp_all add: iface_refresh_netdev_status_def iface_refresh_stats_def opened_def Let_def split: option.split)

lemma do_create_opens:
  "opens (if netdev_is_reserved_name env (ir_name row) then [] else [ir_name row]) s (snd (snd (iface_do_create env row s)))"
  by (simp add: iface_do_create_def iface_set_netdev_hw_intf_config_def Let_def opens_def emit_def opened_def)

lemma iface_create_opens:
  assumes "blocks_append (ss_blocks s)" "ns = (if netdev_is_reserved_name env (ir_name row) then [] else [ir_name row])"
  shows "opens ns s (snd (snd (iface_create env ss row s)))"
proof -
  obtain e d s1 where c: "iface_do_create env row s = (e, d, s1)" by (cases "iface_do_create env row s")
  with do_create_opens [of env row s] assms(2) have o1: "opens ns s s1" by simp
  let ?i = "\<lparr>if_subsystem = None, if_name = ir_name row, if_netdev = d, if_change_seq = 0, if_cfg = Some row\<rparr>"
  obtain i s2 where r: "iface_refresh_netdev_status env ?i s1 = (i, s2)"
    by (cases "iface_refresh_netdev_status env ?i s1")
  let ?s3 = "iface_refresh_stats env i s2"
  have "opens [] s1 s2" using refresh_opens(1) [where i = ?i and s = s1 and env = env] r by simp
  from opens_trans [OF opens_trans [OF o1 this] refresh_opens(2) [of s2 env i]] have o3: "opens ns s ?s3" by simp
  with assms have "blocks_append (ss_blocks ?s3)" by (simp add: opens_def)
  from opens_trans [OF o3 stats_block_opens [OF this]] have "opens ns s (stats_block p b ?s3)" for p b by simp
  with o1 o3 c r show ?thesis by (simp add: iface_create_def Let_def)
qed

text \<open>The rows a pass really opens.\<close>

definition to_open :: "netdev_env \<Rightarrow> subsystem \<Rightarrow> iface_row list \<Rightarrow> iface_row list" where
  "to_open env ss rows = filter (\<lambda>r. ir_name r \<notin> iface_names ss \<and> \<not> netdev_is_reserved_name env (ir_name r)) rows"

lemma to_open_cong:
  assumes "iface_names ss \<subseteq> iface_names ss'" "iface_names ss' \<subseteq> iface_names ss \<union> N" "\<forall>r\<in>set rows. ir_name r \<notin> N"
  shows "to_open env ss' rows = to_open env ss rows"
  using assms by (auto simp: to_open_def intro!: filter_cong)

lemma create_missing_ifaces_opens:
  assumes "distinct (map ir_name rows)" "blocks_append (ss_blocks s)"
  shows "opens (map ir_name (to_open env ss rows)) s (snd (create_missing_ifaces env rows ss s))"
  using assms
proof (induction rows arbitrary: ss s)
  case (Cons row rows)
  show ?case
  proof (cases "iface_lookup ss (ir_name row)")
    case None
    let ?ns = "if netdev_is_reserved_name env (ir_name row) then [] else [ir_name row]"
    obtain ok ss1 s1 where c: "iface_create env ss row s = (ok, ss1, s1)" by (cases "iface_create env ss row s")
    with iface_create_opens [OF Cons.prems(2) refl, of env row ss] have o: "opens ?ns s s1" by simp
    then have b: "blocks_append (ss_blocks s1)" using Cons.prems(2) by (simp add: opens_def)
    have "iface_names ss \<subseteq> iface_names ss1" "iface_names ss1 \<subseteq> iface_names ss \<union> {ir_name row}"
      by (cases rule: iface_create_cases [of env row s ss]; use c in auto)+
    then have "to_open env ss1 rows = to_open env ss rows"
      by (rule to_open_cong) (use Cons.prems(1) in \<open>auto simp: image_iff\<close>)
    with Cons.IH [OF _ b, of ss1] Cons.prems(1) have "opens (map ir_name (to_open env ss rows)) s1 (snd (create_missing_ifaces env rows ss1 s1))"
      by simp
    from opens_trans [OF o this]
    have "opens (?ns @ map ir_name (to_open env ss rows)) s (snd (create_missing_ifaces env (row # rows) ss s))"
      using None c by simp
    moreover have "ir_name row \<notin> iface_names ss" using None by (simp add: iface_lookup_None)
    ultimately show ?thesis by (simp add: to_open_def split: if_splits)
  next
    case (Some i)
    then have "ir_name row \<in> iface_names ss" using iface_lookup_None [of ss "ir_name row"] by auto
    with Cons.IH [of s ss] Cons.prems Some show ?thesis by (simp add: to_open_def)
  qed
qed (simp add: to_open_def)

section \<open>Properties\<close>

text \<open>
  C8: As long as no interface disappears, reconfiguration succeeds from every consistent state: the
  subsystems are exactly those of the database, each holds only interfaces its row lists and every one
  of them the device layer accepts, names stay distinct, and the state is consistent again.
\<close>

theorem subsystems_follow_database:
  assumes "subsys_inv s" "\<forall>ss\<in>set (all_subsystems s). still_wanted rows ss"
  shows "\<exists>s'. subsystem_reconfigure env rows s = Inr s' \<and> subsys_inv s' \<and>
     ss_name ` set (all_subsystems s') = sr_name ` set rows \<and>
     (\<forall>ss\<in>set (all_subsystems s'). \<exists>row. row_named rows (ss_name ss) = Some row \<and> matches_row env row ss)"
  using subsystem_reconfigure_result [OF assms(1), of rows env] assms(2) by simp

text \<open>
  C13: Once an interface exists, a database change that drops it, or its whole subsystem, makes the
  daemon dereference a NULL pointer: \<open>iface_destroy\<close> goes through \<open>iface->subsystem\<close>, which no code assigns.
\<close>

theorem removed_interface_faults:
  assumes "subsys_inv s" "ss \<in> set (all_subsystems s)" "i \<in> set (iface_by_name ss)"
    and "\<forall>row\<in>set rows. sr_name row = ss_name ss \<longrightarrow> if_name i \<notin> ir_name ` set (sr_interfaces row)"
  shows "subsystem_reconfigure env rows s = Inl Null_dereference"
proof -
  have "\<not> still_wanted rows ss"
    using assms(3,4) row_named_Some [of rows "ss_name ss"] unfolding still_wanted_def by blast
  with assms(2) have "\<not> (\<forall>ss\<in>set (all_subsystems s). still_wanted rows ss)" by blast
  with subsystem_reconfigure_result [OF assms(1), of rows env] show ?thesis by (simp only: if_False)
qed

text \<open>
  C17: Adding interfaces opens the split parents first: the devices opened are exactly the missing ones
  whose name is not reserved, those with split children, in row order, before all others.
\<close>

theorem split_parents_opened_first:
  assumes "distinct (map ir_name rows)" "blocks_append (ss_blocks s)"
  shows "\<exists>es. ss_log (snd (subsystem_add_ifaces env rows ss s)) = ss_log s @ es \<and>
    opened es = map ir_name (to_open env ss (filter (\<lambda>r. ir_n_split_children r \<noteq> 0) rows)) @
                map ir_name (to_open env ss (filter (\<lambda>r. ir_n_split_children r = 0) rows))"
proof -
  let ?p = "filter (\<lambda>r. ir_n_split_children r \<noteq> 0) rows" and ?c = "filter (\<lambda>r. ir_n_split_children r = 0) rows"
  obtain ss1 s1 where c: "create_missing_ifaces env ?p ss s = (ss1, s1)" by (cases "create_missing_ifaces env ?p ss s")
  with create_missing_ifaces_opens [of ?p s env ss] assms have o1: "opens (map ir_name (to_open env ss ?p)) s s1"
    by (simp add: distinct_map_filter)
  then have b: "blocks_append (ss_blocks s1)" using assms(2) by (simp add: opens_def)
  have "to_open env ss1 ?c = to_open env ss ?c"
  proof (rule to_open_cong)
    show "iface_names ss \<subseteq> iface_names ss1" "iface_names ss1 \<subseteq> iface_names ss \<union> ir_name ` set ?p"
      using create_missing_ifaces_result [OF c] by (simp_all add: ifaces_added_def)
    show "\<forall>r\<in>set ?c. ir_name r \<notin> ir_name ` set ?p" using assms(1) by (auto simp: distinct_map inj_on_def)
  qed
  with create_missing_ifaces_opens [of ?c s1 env ss1] assms(1) b
  have "opens (map ir_name (to_open env ss ?c)) s1 (snd (create_missing_ifaces env ?c ss1 s1))"
    by (simp add: distinct_map_filter)
  from opens_trans [OF o1 this] c show ?thesis by (simp add: opens_def subsystem_add_ifaces_def)
qed

text \<open>
  With no System row, \<open>subsystem_run\<close> never gets through while it holds the lock: the empty
  configuration it falls back to does not reach \<open>run_stats_update\<close>, which reads the NULL row.
\<close>

theorem run_without_system_row_faults:
  "\<exists>f. subsystem_run env True seqno None now later s = Inl f"
  by (cases "subsystem_reconfigure env [] s") (simp_all add: subsystem_run_def run_stats_update_def)

section \<open>Samples\<close>

definition sample_netdev :: netdev_env where
  "sample_netdev =
     \<lparr>netdev_is_reserved_name = (\<lambda>n. n = ''lo''), netdev_open = (\<lambda>_ _. 0), netdev_set_hw_intf_info = (\<lambda>_ _ _. 0),
      netdev_set_hw_intf_config = (\<lambda>_ _ _. 0), netdev_get_change_seq = (\<lambda>_ _. 7), netdev_get_status = (\<lambda>_ _. None),
      netdev_get_flags = (\<lambda>_ _. Some 3), netdev_get_carrier = (\<lambda>_ _. True), netdev_get_carrier_resets = (\<lambda>_ _. 0),
      netdev_get_features = (\<lambda>_ _. None), netdev_features_to_bps = (\<lambda>_. 0), netdev_features_is_full_duplex = (\<lambda>_. True),
      netdev_get_mtu = (\<lambda>_ _. None), netdev_get_etheraddr = (\<lambda>_ _. None), netdev_get_stats = (\<lambda>_ _ _. 5),
      NETDEV_UP = 1, NETDEV_F_PAUSE = 4, NETDEV_F_PAUSE_ASYM = 8,
      INTERFACE_HW_INTF_INFO_SPLIT_PARENT = ''split_parent'', STATS_UPDATE_INTERVAL_DEFAULT = 5000\<rparr>"

definition sample_iface_row :: "string \<Rightarrow> nat \<Rightarrow> iface_row" where
  "sample_iface_row n k = \<lparr>ir_name = n, ir_n_split_children = k, ir_split_parent = None, ir_hw_intf_info = [],
     ir_hw_intf_config = [], ir_modified = False\<rparr>"

definition sample_subsys_row :: subsystem_row where
  "sample_subsys_row = \<lparr>sr_name = ''base'', sr_interfaces = [sample_iface_row ''1-1'' 0, sample_iface_row ''1'' 4]\<rparr>"

definition empty_subsys :: subsys where
  "empty_subsys = \<lparr>all_subsystems = [], ss_idl_seqno = 0, stats_timer_interval = 0, stats_timer = 0, ss_log = [],
     ss_blocks = blocks_boot\<rparr>"

definition one_iface :: subsys where
  "one_iface = empty_subsys\<lparr>all_subsystems := [\<lparr>ss_name = ''base'', ss_cfg = None, iface_by_name =
     [\<lparr>if_subsystem = None, if_name = ''1'', if_netdev = Some ''1'', if_change_seq = 7, if_cfg = None\<rparr>]\<rparr>]\<rparr>"

theorem subsystems_follow_database_witness:
  "\<exists>s'. subsystem_reconfigure sample_netdev [sample_subsys_row] one_iface = Inr s' \<and>
     ss_name ` set (all_subsystems s') = {''base''}"
  using subsystems_follow_database [of one_iface "[sample_subsys_row]" sample_netdev]
  by (auto simp: subsys_inv_def ifaces_ok_def one_iface_def empty_subsys_def still_wanted_def row_named_def
      sample_subsys_row_def sample_iface_row_def)

theorem removed_interface_faults_witness:
  "subsystem_reconfigure sample_netdev [] one_iface = Inl Null_dereference"
  using removed_interface_faults [of one_iface "hd (all_subsystems one_iface)" "hd (iface_by_name (hd (all_subsystems one_iface)))" "[]" sample_netdev]
  by (simp add: subsys_inv_def ifaces_ok_def one_iface_def empty_subsys_def)

theorem split_parents_opened_first_witness:
  "\<exists>es. ss_log (snd (subsystem_add_ifaces sample_netdev [sample_iface_row ''1-1'' 0, sample_iface_row ''1'' 4]
       \<lparr>ss_name = ''base'', ss_cfg = None, iface_by_name = []\<rparr> empty_subsys)) = ss_log empty_subsys @ es \<and>
     opened es = [''1'', ''1-1'']"
  using split_parents_opened_first [of "[sample_iface_row ''1-1'' 0, sample_iface_row ''1'' 4]" empty_subsys sample_netdev
      "\<lparr>ss_name = ''base'', ss_cfg = None, iface_by_name = []\<rparr>"]
  by (simp add: sample_iface_row_def empty_subsys_def blocks_append_def stats.invar_boot stats.handlers_boot
      to_open_def sample_netdev_def)

end
