(* ===== verification/Ports.thy ===== *)
theory Ports
  imports Blocks Vlans Neighbors
begin

text \<open>
  Ports and interfaces of a bridge or of a VRF, src/bridge.c: the tables of \<open>struct bridge\<close>, the creation
  and removal of ports and interfaces, and the three passes of a reconfiguration over them.  A VRF keeps
  its ports in a \<open>struct bridge\<close> of its own (\<open>vrf->up\<close>) whose \<open>cfg\<close> is NULL.

  A port refers to its interfaces and an interface to its port; the model stores names, which are unique
  within a bridge.  \<open>iface_by_name\<close> and \<open>ifaces\<close> are the two indexes of the code.  The record \<open>sw\<close> extends
  a bridge by what it shares with the other bridges: the log of the calls that change devices, the
  ofproto layer or an Interface row, and the stats blocks.  The ofproto and netdev layers are the record
  \<open>port_env\<close>; what they answer may depend on the log.  A network device is named by its interface.
\<close>

section \<open>Data\<close>

record iface_cfg =
  ic_name :: string
  ic_type :: string
  ic_options :: smap
  ic_hw_intf_info :: smap
  ic_hw_intf_config :: smap
  ic_hw_bond_config :: smap
  ic_split_parent :: "string option"
  ic_subintf_parent :: "(int \<times> string) list"
  ic_synthetic :: bool
  ic_modified :: bool

record port_cfg =
  pc_name :: string
  pc_interfaces :: "iface_cfg list"
  pc_vlan_tag :: "int option"
  pc_vlan_trunks :: "int list"
  pc_vlan_mode :: "string option"
  pc_lacp :: "string option"
  pc_hw_config :: smap
  pc_other_config :: smap
  pc_vlan_options :: smap
  pc_bond_options :: smap
  pc_bond_active_slave :: "string option"
  pc_mac :: "string option"
  pc_status :: smap
  pc_addresses :: port_addresses
  pc_modified :: bool

record bridge_cfg =
  bc_name :: string
  bc_datapath_type :: string
  bc_ports :: "port_cfg list"
  bc_controllers :: "string list"
  bc_vlans :: "vlan_row list"
  bc_other_config :: smap

record br_iface =
  bi_name :: string
  bi_port :: string
  bi_ofp_port :: int
  bi_type :: string
  bi_cfg :: iface_cfg
  bi_change_seq :: u64

record br_port =
  bp_name :: string
  bp_cfg :: "port_cfg option"
  bp_ifaces :: "string list"
  bond_hw_handle :: int

record bridge =
  br_name :: string
  br_type :: string
  br_default_ea :: string
  br_cfg :: "bridge_cfg option"
  br_ofproto :: bool
  br_ports :: "br_port list"
  br_iface_by_name :: "br_iface list"
  br_ifaces :: "(int \<times> string) list"

record br_status =
  bs_status :: smap
  bs_admin_up :: "bool option"
  bs_link_up :: bool
  bs_link_resets :: int
  bs_duplex_speed :: "(bool \<times> int) option"
  bs_mtu :: "int option"
  bs_mac_in_use :: "string option"

datatype sw_event =
    DevOpen string string
  | DevClose "string option"
  | DevRemove string
  | DevSetEtheraddr string string
  | DevSetHwIntfInfo string smap
  | DevSetHwIntfConfig string smap
  | DevSetConfig string smap
  | DevSetMiimon string int
  | PortAdd string string
  | PortDel string int
  | PortUnregister string int
  | BundleUnregister string string
  | SetOfport string int
  | ClearRecord string
  | SetStatus string br_status
  | SetStatistics string "(string \<times> int) list"
  | PluginEvent string
  | OfprotoCreate string string
  | OfprotoDelete string string
  | OfprotoDestroy string

record stats_params =
  sp_bridge :: "string option"
  sp_vrf :: "string option"
  sp_port :: "string option"
  sp_netdev :: "string option"
  sp_cfg :: "string option"

record sw = bridge +
  sw_log :: "sw_event list"
  sw_stats_blocks :: "(stats_params option \<Rightarrow> int \<Rightarrow> sw_event list \<Rightarrow> sw_event list) blocks"

record port_env =
  ofproto_port_open_type :: "string \<Rightarrow> string \<Rightarrow> string"
  ofproto_ports :: "sw_event list \<Rightarrow> string \<Rightarrow> (string \<times> string \<times> int) list"
  ofproto_port_add :: "sw_event list \<Rightarrow> string \<Rightarrow> string \<Rightarrow> int \<Rightarrow> int \<times> int"
  pe_is_reserved_name :: "string \<Rightarrow> bool"
  pe_open :: "sw_event list \<Rightarrow> string \<Rightarrow> string \<Rightarrow> int"
  pe_set_etheraddr :: "sw_event list \<Rightarrow> string \<Rightarrow> string \<Rightarrow> int"
  pe_set_hw_intf_info :: "sw_event list \<Rightarrow> string \<Rightarrow> smap \<Rightarrow> int"
  pe_set_config :: "sw_event list \<Rightarrow> string \<Rightarrow> smap \<Rightarrow> int"
  pe_get_change_seq :: "sw_event list \<Rightarrow> string \<Rightarrow> u64"
  pe_get_status :: "sw_event list \<Rightarrow> string \<Rightarrow> smap option"
  pe_get_flags :: "sw_event list \<Rightarrow> string \<Rightarrow> u32 option"
  pe_get_carrier :: "sw_event list \<Rightarrow> string \<Rightarrow> bool"
  pe_get_carrier_resets :: "sw_event list \<Rightarrow> string \<Rightarrow> int"
  pe_get_features :: "sw_event list \<Rightarrow> string \<Rightarrow> u32 option"
  pe_features_to_bps :: "u32 \<Rightarrow> int"
  pe_features_is_full_duplex :: "u32 \<Rightarrow> bool"
  pe_get_mtu :: "sw_event list \<Rightarrow> string \<Rightarrow> int option"
  pe_get_etheraddr :: "sw_event list \<Rightarrow> string \<Rightarrow> string option"
  pe_get_stats :: "sw_event list \<Rightarrow> string \<Rightarrow> string \<Rightarrow> u64"
  PE_NETDEV_UP :: u32
  OFPP_NONE :: int
  OFPP_MAX :: int
  INTERFACE_TYPE_SYSTEM :: string
  INTERFACE_TYPE_LOOPBACK :: string
  INTERFACE_TYPE_INTERNAL :: string
  INTERFACE_TYPE_VLANSUBINT :: string
  HW_INTF_INFO_SPLIT_PARENT :: string

definition log_ev :: "sw_event \<Rightarrow> sw \<Rightarrow> sw" where
  "log_ev e s = s\<lparr>sw_log := sw_log s @ [e]\<rparr>"

section \<open>Lookups and types\<close>

definition port_lookup :: "'a bridge_scheme \<Rightarrow> string \<Rightarrow> br_port option" where
  "port_lookup s name = List.find (\<lambda>p. bp_name p = name) (br_ports s)"

definition iface_lookup_br :: "'a bridge_scheme \<Rightarrow> string \<Rightarrow> br_iface option" where
  "iface_lookup_br s name = List.find (\<lambda>i. bi_name i = name) (br_iface_by_name s)"

definition iface_from_ofp_port :: "'a bridge_scheme \<Rightarrow> int \<Rightarrow> string option" where
  "iface_from_ofp_port s ofp = map_option snd (List.find (\<lambda>e. fst e = ofp) (br_ifaces s))"

definition get_bridge_from_port_name :: "'a bridge_scheme list \<Rightarrow> string \<Rightarrow> ('a bridge_scheme \<times> br_port) option" where
  "get_bridge_from_port_name bridges name =
     (case List.find (\<lambda>b. port_lookup b name \<noteq> None) bridges of
        None \<Rightarrow> None
      | Some b \<Rightarrow> map_option (Pair b) (port_lookup b name))"

definition iface_is_internal :: "iface_cfg \<Rightarrow> bridge_cfg option \<Rightarrow> bool" where
  "iface_is_internal c br \<longleftrightarrow> ic_type c = ''internal'' \<or> (case br of None \<Rightarrow> False | Some b \<Rightarrow> ic_name c = bc_name b)"

definition iface_get_type :: "port_env \<Rightarrow> iface_cfg \<Rightarrow> bridge_cfg option \<Rightarrow> string" where
  "iface_get_type env c br =
     (let type = (if iface_is_internal c br then ''internal'' else if ic_type c \<noteq> [] then ic_type c else ''system'')
      in ofproto_port_open_type env (case br of None \<Rightarrow> ''vrf'' | Some b \<Rightarrow> bc_datapath_type b) type)"

definition iface_validate_ofport_raw :: "port_env \<Rightarrow> int list \<Rightarrow> int" where
  "iface_validate_ofport_raw env ofport =
     (case ofport of [] \<Rightarrow> OFPP_NONE env | p # _ \<Rightarrow> if p \<ge> 1 \<and> p < OFPP_MAX env then p else OFPP_NONE env)"

definition iface_pick_ofport :: "port_env \<Rightarrow> iface_cfg \<Rightarrow> int" where
  "iface_pick_ofport env c = iface_validate_ofport_raw env []"

section \<open>Creation and removal\<close>

definition put_port :: "br_port \<Rightarrow> 'a bridge_scheme \<Rightarrow> 'a bridge_scheme" where
  "put_port p s = s\<lparr>br_ports := map (\<lambda>x. if bp_name x = bp_name p then p else x) (br_ports s)\<rparr>"

definition port_create :: "port_cfg \<Rightarrow> sw \<Rightarrow> br_port \<times> sw" where
  "port_create c s =
     (let p = \<lparr>bp_name = pc_name c, bp_cfg = Some c, bp_ifaces = [], bond_hw_handle = -1\<rparr>
      in (p, s\<lparr>br_ports := br_ports s @ [p]\<rparr>))"

definition iface_destroy_raw :: "port_env \<Rightarrow> br_iface \<Rightarrow> sw \<Rightarrow> sw" where
  "iface_destroy_raw env i s =
     (let s = (if br_ofproto s \<and> bi_ofp_port i \<noteq> OFPP_NONE env then log_ev (PortUnregister (br_name s) (bi_ofp_port i)) s else s);
          s = (if bi_ofp_port i \<noteq> OFPP_NONE env
               then s\<lparr>br_ifaces := filter (\<lambda>e. snd e \<noteq> bi_name i) (br_ifaces s)\<rparr> else s);
          s = s\<lparr>br_ports := map (\<lambda>p. if bp_name p = bi_port i
                  then p\<lparr>bp_ifaces := filter (\<lambda>n. n \<noteq> bi_name i) (bp_ifaces p)\<rparr> else p) (br_ports s)\<rparr>;
          s = s\<lparr>br_iface_by_name := filter (\<lambda>x. bi_name x \<noteq> bi_name i) (br_iface_by_name s)\<rparr>
      in log_ev (DevRemove (bi_name i)) s)"

fun destroy_iface_list :: "port_env \<Rightarrow> string list \<Rightarrow> sw \<Rightarrow> sw" where
  "destroy_iface_list env [] s = s"
| "destroy_iface_list env (n # ns) s =
     destroy_iface_list env ns (case iface_lookup_br s n of None \<Rightarrow> s | Some i \<Rightarrow> iface_destroy_raw env i s)"

definition port_destroy :: "port_env \<Rightarrow> br_port \<Rightarrow> sw \<Rightarrow> sw" where
  "port_destroy env p s =
     (let s = (if br_ofproto s then log_ev (BundleUnregister (br_name s) (bp_name p)) s else s);
          s = destroy_iface_list env (bp_ifaces p) s
      in s\<lparr>br_ports := filter (\<lambda>x. bp_name x \<noteq> bp_name p) (br_ports s)\<rparr>)"

definition destroy_if_empty :: "port_env \<Rightarrow> string \<Rightarrow> sw \<Rightarrow> sw" where
  "destroy_if_empty env name s =
     (case port_lookup s name of
        None \<Rightarrow> s
      | Some p \<Rightarrow> if bp_ifaces p = [] then port_destroy env p s else s)"

definition iface_destroy_br :: "port_env \<Rightarrow> br_iface option \<Rightarrow> sw \<Rightarrow> sw" where
  "iface_destroy_br env i s =
     (case i of None \<Rightarrow> s | Some i \<Rightarrow> destroy_if_empty env (bi_port i) (iface_destroy_raw env i s))"

text \<open>Deletes the interfaces of a port that its row does not list, or lists with the type \<open>null\<close>.\<close>

fun del_iface_list :: "port_env \<Rightarrow> string list \<Rightarrow> string list \<Rightarrow> sw \<Rightarrow> sw" where
  "del_iface_list env new_ifaces [] s = s"
| "del_iface_list env new_ifaces (n # ns) s =
     del_iface_list env new_ifaces ns
       (if n \<in> set new_ifaces then s else iface_destroy_br env (iface_lookup_br s n) s)"

definition new_iface_names :: "port_cfg \<Rightarrow> string list" where
  "new_iface_names c = map ic_name (filter (\<lambda>i. ic_type i \<noteq> ''null'') (pc_interfaces c))"

definition port_del_ifaces :: "port_env \<Rightarrow> br_port \<Rightarrow> port_cfg \<Rightarrow> sw \<Rightarrow> sw" where
  "port_del_ifaces env p c s = del_iface_list env (new_iface_names c) (bp_ifaces p) s"

section \<open>Status and statistics\<close>

text \<open>
  Both write to the Interface row, except for interfaces that \<open>subsystem.c\<close> refreshes and for rows that do
  not come from the database.  \<open>type\<close> is never NULL, since \<open>iface_create\<close> sets it.  The state of the VLAN
  of an internal interface is read from the tables of all bridges; its id is what follows the first four
  characters of the name.
\<close>

definition IFACE_STATS_BR :: "(string \<times> string) list" where
  "IFACE_STATS_BR =
     [(''rx_packets'', ''rx_packets''), (''tx_packets'', ''tx_packets''), (''rx_bytes'', ''rx_bytes''),
      (''tx_bytes'', ''tx_bytes''), (''rx_dropped'', ''rx_dropped''), (''tx_dropped'', ''tx_dropped''),
      (''rx_errors'', ''rx_errors''), (''tx_errors'', ''tx_errors''), (''rx_frame_errors'', ''rx_frame_err''),
      (''rx_over_errors'', ''rx_over_err''), (''rx_crc_errors'', ''rx_crc_err''), (''collisions'', ''collisions''),
      (''ipv4_uc_tx_packets'', ''ipv4_uc_tx_packets''), (''ipv4_uc_rx_packets'', ''ipv4_uc_rx_packets''),
      (''ipv4_uc_tx_bytes'', ''ipv4_uc_tx_bytes''), (''ipv4_uc_rx_bytes'', ''ipv4_uc_rx_bytes''),
      (''ipv4_mc_tx_packets'', ''ipv4_mc_tx_packets''), (''ipv4_mc_rx_packets'', ''ipv4_mc_rx_packets''),
      (''ipv4_mc_tx_bytes'', ''ipv4_mc_tx_bytes''), (''ipv4_mc_rx_bytes'', ''ipv4_mc_rx_bytes''),
      (''ipv6_uc_tx_packets'', ''ipv6_uc_tx_packets''), (''ipv6_uc_rx_packets'', ''ipv6_uc_rx_packets''),
      (''ipv6_uc_tx_bytes'', ''ipv6_uc_tx_bytes''), (''ipv6_uc_rx_bytes'', ''ipv6_uc_rx_bytes''),
      (''ipv6_mc_tx_packets'', ''ipv6_mc_tx_packets''), (''ipv6_mc_rx_packets'', ''ipv6_mc_rx_packets''),
      (''ipv6_mc_tx_bytes'', ''ipv6_mc_tx_bytes''), (''ipv6_mc_rx_bytes'', ''ipv6_mc_rx_bytes''),
      (''l3_uc_rx_packets'', ''l3_uc_rx_packets''), (''l3_uc_rx_bytes'', ''l3_uc_rx_bytes''),
      (''l3_uc_tx_packets'', ''l3_uc_tx_packets''), (''l3_uc_tx_bytes'', ''l3_uc_tx_bytes''),
      (''l3_mc_rx_packets'', ''l3_mc_rx_packets''), (''l3_mc_rx_bytes'', ''l3_mc_rx_bytes''),
      (''l3_mc_tx_packets'', ''l3_mc_tx_packets''), (''l3_mc_tx_bytes'', ''l3_mc_tx_bytes'')]"

definition iface_refresh_stats_br :: "port_env \<Rightarrow> br_iface \<Rightarrow> sw \<Rightarrow> sw" where
  "iface_refresh_stats_br env i s =
     (if bi_type i = ''system'' \<or> ic_synthetic (bi_cfg i) then s
      else
        let stats = pe_get_stats env (sw_log s) (bi_name i)
        in log_ev (SetStatistics (bi_name i) [(nm, sint (stats m)). (m, nm) \<leftarrow> IFACE_STATS_BR, stats m \<noteq> - 1]) s)"

definition br_status_of :: "port_env \<Rightarrow> vlan_state list \<Rightarrow> br_iface \<Rightarrow> sw_event list \<Rightarrow> br_status" where
  "br_status_of env vlans i lg =
     (let d = bi_name i;
          vlan_state = (if bi_type i = INTERFACE_TYPE_INTERNAL env then is_vlan_up vlans (drop 4 d) else True);
          bps = (case pe_get_features env lg d of None \<Rightarrow> 0 | Some f \<Rightarrow> pe_features_to_bps env f)
      in \<lparr>bs_status = (case pe_get_status env lg d of None \<Rightarrow> [] | Some m \<Rightarrow> m),
          bs_admin_up = map_option (\<lambda>f. and f (PE_NETDEV_UP env) \<noteq> 0) (pe_get_flags env lg d),
          bs_link_up = (pe_get_carrier env lg d \<and> vlan_state),
          bs_link_resets = pe_get_carrier_resets env lg d,
          bs_duplex_speed = (if bps \<noteq> 0 then map_option (\<lambda>f. (pe_features_is_full_duplex env f, bps)) (pe_get_features env lg d) else None),
          bs_mtu = pe_get_mtu env lg d,
          bs_mac_in_use = pe_get_etheraddr env lg d\<rparr>)"

text \<open>\<open>again\<close> is the file-scope \<open>status_txn_try_again\<close>.\<close>

definition iface_refresh_netdev_status_br ::
  "port_env \<Rightarrow> vlan_state list \<Rightarrow> bool \<Rightarrow> br_iface \<Rightarrow> sw \<Rightarrow> br_iface \<times> sw" where
  "iface_refresh_netdev_status_br env vlans again i s =
     (if ic_synthetic (bi_cfg i) \<or> bi_type i = INTERFACE_TYPE_SYSTEM env \<or> bi_type i = INTERFACE_TYPE_LOOPBACK env then (i, s)
      else if bi_change_seq i = pe_get_change_seq env (sw_log s) (bi_name i) \<and> \<not> again then (i, s)
      else (i\<lparr>bi_change_seq := pe_get_change_seq env (sw_log s) (bi_name i)\<rparr>,
            log_ev (SetStatus (bi_name i) (br_status_of env vlans i (sw_log s))) s))"

definition iface_set_ofport :: "port_env \<Rightarrow> iface_cfg \<Rightarrow> int \<Rightarrow> sw \<Rightarrow> sw" where
  "iface_set_ofport env c ofp s =
     (if ic_synthetic c then s else log_ev (SetOfport (ic_name c) (if ofp = OFPP_NONE env then -1 else ofp)) s)"

definition iface_clear_db_record :: "port_env \<Rightarrow> iface_cfg \<Rightarrow> sw \<Rightarrow> sw" where
  "iface_clear_db_record env c s =
     (if ic_synthetic c then s else log_ev (ClearRecord (ic_name c)) (iface_set_ofport env c (OFPP_NONE env) s))"

section \<open>Creating an interface\<close>

text \<open>The id printed by \<open>smap_add_format\<close> is a parameter: \<open>fmt\<close>.\<close>

definition get_subinterface_info :: "(int \<Rightarrow> string) \<Rightarrow> iface_cfg \<Rightarrow> smap" where
  "get_subinterface_info fmt c =
     (case ic_subintf_parent c of
        [] \<Rightarrow> [(''parent_intf_name'', []), (''vlan'', fmt 0)]
      | (vlan, parent) # _ \<Rightarrow> [(''parent_intf_name'', parent), (''vlan'', fmt vlan)])"

definition netdev_config_of :: "port_env \<Rightarrow> (int \<Rightarrow> string) \<Rightarrow> iface_cfg \<Rightarrow> smap" where
  "netdev_config_of env fmt c =
     (if ic_type c = INTERFACE_TYPE_VLANSUBINT env then get_subinterface_info fmt c else ic_options c)"

definition set_config :: "port_env \<Rightarrow> string \<Rightarrow> smap \<Rightarrow> sw \<Rightarrow> int \<times> sw" where
  "set_config env d m s = (pe_set_config env (sw_log s) d m, log_ev (DevSetConfig d m) s)"

definition iface_set_netdev_config :: "port_env \<Rightarrow> (int \<Rightarrow> string) \<Rightarrow> iface_cfg \<Rightarrow> sw \<Rightarrow> int \<times> sw" where
  "iface_set_netdev_config env fmt c s = set_config env (ic_name c) (netdev_config_of env fmt c) s"

definition iface_do_create_br :: "port_env \<Rightarrow> (int \<Rightarrow> string) \<Rightarrow> iface_cfg \<Rightarrow> sw \<Rightarrow> int \<times> int \<times> sw" where
  "iface_do_create_br env fmt c s =
     (let d = ic_name c; none = OFPP_NONE env in
      if pe_is_reserved_name env d then (EINVAL, none, log_ev (DevClose None) s)
      else
        let type = iface_get_type env c (br_cfg s);
            error = pe_open env (sw_log s) d type;
            s = log_ev (DevOpen d type) s in
        if error \<noteq> 0 then (error, none, log_ev (DevClose None) s)
        else
          let error = pe_set_etheraddr env (sw_log s) d (br_default_ea s);
              s = log_ev (DevSetEtheraddr d (br_default_ea s)) s in
          if error \<noteq> 0 then (error, none, log_ev (DevClose (Some d)) s)
          else
            let info = ic_hw_intf_info c @ (case ic_split_parent c of None \<Rightarrow> [] | Some p \<Rightarrow> [(HW_INTF_INFO_SPLIT_PARENT env, p)]);
                error = pe_set_hw_intf_info env (sw_log s) d info;
                s = log_ev (DevSetHwIntfInfo d info) s in
            if error \<noteq> 0 then (error, none, log_ev (DevClose (Some d)) s)
            else
              let (error, s) = iface_set_netdev_config env fmt c s in
              if error \<noteq> 0 then (error, none, log_ev (DevClose (Some d)) s)
              else
                let (error, ofp) = ofproto_port_add env (sw_log s) (br_name s) d (iface_pick_ofport env c);
                    s = log_ev (PortAdd (br_name s) d) s in
                if error \<noteq> 0 then (error, ofp, log_ev (DevClose (Some d)) s) else (0, ofp, s))"

definition stats_block_br :: "stats_params \<Rightarrow> stats_block_id \<Rightarrow> sw \<Rightarrow> sw" where
  "stats_block_br p blk s =
     (let (rc, bl, lg) = execute_stats_block (Some p) (stats_block_num blk) (sw_stats_blocks s) (sw_log s)
      in s\<lparr>sw_stats_blocks := bl, sw_log := lg\<rparr>)"

text \<open>
  The interface is linked into its port and both indexes, then refreshed; the refresh of the status may
  change the sequence number stored in the interface.
\<close>

definition link_iface :: "br_iface \<Rightarrow> port_cfg \<Rightarrow> sw \<Rightarrow> sw" where
  "link_iface i pcfg s =
     (let (p, s) = (case port_lookup s (pc_name pcfg) of Some p \<Rightarrow> (p, s) | None \<Rightarrow> port_create pcfg s);
          s = put_port (p\<lparr>bp_ifaces := bp_ifaces p @ [bi_name i]\<rparr>) s
      in s\<lparr>br_iface_by_name := br_iface_by_name s @ [i], br_ifaces := br_ifaces s @ [(bi_ofp_port i, bi_name i)]\<rparr>)"

definition put_iface :: "br_iface \<Rightarrow> 'a bridge_scheme \<Rightarrow> 'a bridge_scheme" where
  "put_iface i s = s\<lparr>br_iface_by_name := map (\<lambda>x. if bi_name x = bi_name i then i else x) (br_iface_by_name s)\<rparr>"

definition iface_create_br ::
  "port_env \<Rightarrow> (int \<Rightarrow> string) \<Rightarrow> vlan_state list \<Rightarrow> bool \<Rightarrow> iface_cfg \<Rightarrow> port_cfg \<Rightarrow> sw \<Rightarrow> bool \<times> sw" where
  "iface_create_br env fmt vlans again c pcfg s =
     (let (error, ofp, s) = iface_do_create_br env fmt c s in
      if error \<noteq> 0 then (False, iface_clear_db_record env c s)
      else
        let i = \<lparr>bi_name = ic_name c, bi_port = pc_name pcfg, bi_ofp_port = ofp, bi_type = iface_get_type env c (br_cfg s),
                 bi_cfg = c, bi_change_seq = 0\<rparr>;
            s = link_iface i pcfg s;
            s = iface_refresh_stats_br env i s;
            (i, s) = iface_refresh_netdev_status_br env vlans again i s;
            s = put_iface i s;
            s = stats_block_br \<lparr>sp_bridge = Some (br_name s), sp_vrf = None, sp_port = None, sp_netdev = Some (ic_name c), sp_cfg = Some (ic_name c)\<rparr>
                  STATS_BRIDGE_CREATE_NETDEV s
        in (True, s))"

section \<open>The passes of a reconfiguration\<close>

definition bridge_get_controllers :: "bridge_cfg \<Rightarrow> string list" where
  "bridge_get_controllers b = (if bc_controllers b = [''none''] then [] else bc_controllers b)"

text \<open>\<open>ovsrec_port_init\<close> and \<open>ovsrec_interface_init\<close> clear every other column.\<close>

definition synth_iface :: "string \<Rightarrow> iface_cfg" where
  "synth_iface name = \<lparr>ic_name = name, ic_type = ''internal'', ic_options = [], ic_hw_intf_info = [], ic_hw_intf_config = [],
     ic_hw_bond_config = [], ic_split_parent = None, ic_subintf_parent = [], ic_synthetic = True, ic_modified = False\<rparr>"

definition synth_port :: "string \<Rightarrow> port_cfg" where
  "synth_port name = \<lparr>pc_name = name, pc_interfaces = [synth_iface name], pc_vlan_tag = None, pc_vlan_trunks = [], pc_vlan_mode = None,
     pc_lacp = None, pc_hw_config = [], pc_other_config = [], pc_vlan_options = [], pc_bond_options = [],
     pc_bond_active_slave = None, pc_mac = None, pc_status = [],
     pc_addresses = \<lparr>ip4_address = None, ip6_address = None, ip4_address_secondary = [], ip6_address_secondary = []\<rparr>,
     pc_modified = False\<rparr>"

definition bridge_collect_wanted_ports :: "string \<Rightarrow> bridge_cfg \<Rightarrow> port_cfg shash" where
  "bridge_collect_wanted_ports name b =
     (let wanted = shash_collect pc_name (bc_ports b) in
      if bridge_get_controllers b \<noteq> [] \<and> shash_find_data wanted name = None
      then wanted @ [(name, synth_port name)] else wanted)"

definition vrf_collect_wanted_ports :: "port_cfg list \<Rightarrow> port_cfg shash" where
  "vrf_collect_wanted_ports cfgs = shash_collect pc_name cfgs"

definition set_port_cfg :: "string \<Rightarrow> port_cfg option \<Rightarrow> sw \<Rightarrow> sw" where
  "set_port_cfg name c s = s\<lparr>br_ports := map (\<lambda>x. if bp_name x = name then x\<lparr>bp_cfg := c\<rparr> else x) (br_ports s)\<rparr>"

fun del_port_list :: "port_env \<Rightarrow> port_cfg shash \<Rightarrow> br_port list \<Rightarrow> sw \<Rightarrow> sw" where
  "del_port_list env wanted [] s = s"
| "del_port_list env wanted (p # ps) s =
     del_port_list env wanted ps
       (let cfg = shash_find_data wanted (bp_name p);
            s = set_port_cfg (bp_name p) cfg s
        in case cfg of None \<Rightarrow> port_destroy env p s | Some c \<Rightarrow> port_del_ifaces env p c s)"

definition update_iface :: "port_env \<Rightarrow> iface_cfg \<Rightarrow> sw \<Rightarrow> sw" where
  "update_iface env c s =
     (case iface_lookup_br s (ic_name c) of
        None \<Rightarrow> s
      | Some i \<Rightarrow> put_iface (i\<lparr>bi_cfg := c, bi_type := iface_get_type env c (br_cfg s)\<rparr>) s)"

fun update_ifaces :: "port_env \<Rightarrow> iface_cfg list \<Rightarrow> sw \<Rightarrow> sw" where
  "update_ifaces env [] s = s"
| "update_ifaces env (c # cs) s = update_ifaces env cs (update_iface env c s)"

definition wanted_ifaces :: "port_cfg shash \<Rightarrow> iface_cfg list" where
  "wanted_ifaces wanted = concat (map (\<lambda>(_, c). pc_interfaces c) wanted)"

definition bridge_del_ports :: "port_env \<Rightarrow> port_cfg shash \<Rightarrow> sw \<Rightarrow> sw" where
  "bridge_del_ports env wanted s = update_ifaces env (wanted_ifaces wanted) (del_port_list env wanted (br_ports s) s)"

text \<open>
  For a VRF the neighbors of a deleted port go first.  Their log is that of the L3 calls, a separate one.
\<close>

fun vrf_del_port_list :: "port_env \<Rightarrow> l3_env \<Rightarrow> port_cfg shash \<Rightarrow> br_port list \<Rightarrow> l3 \<times> sw \<Rightarrow> l3 \<times> sw" where
  "vrf_del_port_list env env3 wanted [] (v, s) = (v, s)"
| "vrf_del_port_list env env3 wanted (p # ps) (v, s) =
     vrf_del_port_list env env3 wanted ps
       (let cfg = shash_find_data wanted (bp_name p);
            s = set_port_cfg (bp_name p) cfg s
        in case cfg of
             None \<Rightarrow> (vrf_delete_port_neighbors env3 (bp_name p) v, port_destroy env p s)
           | Some c \<Rightarrow> (v, port_del_ifaces env p c s))"

definition vrf_del_ports :: "port_env \<Rightarrow> l3_env \<Rightarrow> port_cfg shash \<Rightarrow> l3 \<times> sw \<Rightarrow> l3 \<times> sw" where
  "vrf_del_ports env env3 wanted vs =
     (let (v, s) = vrf_del_port_list env env3 wanted (br_ports (snd vs)) vs
      in (v, update_ifaces env (wanted_ifaces wanted) s))"

text \<open>
  One port of the ofproto dump: \<open>None\<close> keeps it, \<open>Some ofp\<close> puts its number on the list of ports to
  delete.  The VRF variant configures a VLAN subinterface with its own settings and does not compare types.
\<close>

definition reconfigure_dumped :: "port_env \<Rightarrow> string \<times> string \<times> int \<Rightarrow> sw \<Rightarrow> int option \<times> sw" where
  "reconfigure_dumped env op s =
     (let (name, type, ofp) = op in
      case iface_lookup_br s name of
        None \<Rightarrow> (Some ofp, s)
      | Some i \<Rightarrow>
          if type \<noteq> bi_type i then (Some ofp, iface_destroy_br env (Some i) s)
          else let (rc, s) = set_config env name (ic_options (bi_cfg i)) s in
               if rc \<noteq> 0 then (Some ofp, iface_destroy_br env (Some i) s) else (None, s))"

definition vrf_reconfigure_dumped :: "port_env \<Rightarrow> (int \<Rightarrow> string) \<Rightarrow> string \<times> string \<times> int \<Rightarrow> sw \<Rightarrow> int option \<times> sw" where
  "vrf_reconfigure_dumped env fmt op s =
     (let (name, type, ofp) = op in
      case iface_lookup_br s name of
        None \<Rightarrow> (Some ofp, s)
      | Some i \<Rightarrow>
          if ic_type (bi_cfg i) = INTERFACE_TYPE_VLANSUBINT env
          then let (rc, s) = set_config env name (get_subinterface_info fmt (bi_cfg i)) s in
               if rc \<noteq> 0 then (Some ofp, iface_destroy_br env (Some i) s) else (None, s)
          else reconfigure_dumped env op s)"

fun walk_dump :: "(string \<times> string \<times> int \<Rightarrow> sw \<Rightarrow> int option \<times> sw) \<Rightarrow> (string \<times> string \<times> int) list \<Rightarrow> sw \<Rightarrow> int list \<times> sw" where
  "walk_dump f [] s = ([], s)"
| "walk_dump f (op # ops) s =
     (let (d, s) = f op s; (del, s) = walk_dump f ops s
      in (case d of None \<Rightarrow> del | Some ofp \<Rightarrow> ofp # del, s))"

fun ofproto_port_dels :: "int list \<Rightarrow> sw \<Rightarrow> sw" where
  "ofproto_port_dels [] s = s"
| "ofproto_port_dels (p # ps) s = ofproto_port_dels ps (log_ev (PortDel (br_name s) p) s)"

fun remove_vanished :: "port_env \<Rightarrow> string list \<Rightarrow> br_port list \<Rightarrow> sw \<Rightarrow> sw" where
  "remove_vanished env seen [] s = s"
| "remove_vanished env seen (p # ps) s =
     remove_vanished env seen ps
       (destroy_if_empty env (bp_name p) (destroy_iface_list env (filter (\<lambda>n. n \<notin> set seen) (bp_ifaces p)) s))"

definition delete_or_reconfigure ::
  "port_env \<Rightarrow> (string \<times> string \<times> int \<Rightarrow> sw \<Rightarrow> int option \<times> sw) \<Rightarrow> sw \<Rightarrow> sw" where
  "delete_or_reconfigure env f s =
     (let dump = ofproto_ports env (sw_log s) (br_name s);
          (del, s) = walk_dump f dump s;
          s = ofproto_port_dels del s
      in remove_vanished env (map fst dump) (br_ports s) s)"

definition bridge_delete_or_reconfigure_ports :: "port_env \<Rightarrow> sw \<Rightarrow> sw" where
  "bridge_delete_or_reconfigure_ports env s = delete_or_reconfigure env (reconfigure_dumped env) s"

definition vrf_delete_or_reconfigure_ports :: "port_env \<Rightarrow> (int \<Rightarrow> string) \<Rightarrow> sw \<Rightarrow> sw" where
  "vrf_delete_or_reconfigure_ports env fmt s = delete_or_reconfigure env (vrf_reconfigure_dumped env fmt) s"

fun add_iface_list ::
  "port_env \<Rightarrow> (int \<Rightarrow> string) \<Rightarrow> vlan_state list \<Rightarrow> bool \<Rightarrow> port_cfg \<Rightarrow> iface_cfg list \<Rightarrow> sw \<Rightarrow> sw" where
  "add_iface_list env fmt vlans again pcfg [] s = s"
| "add_iface_list env fmt vlans again pcfg (c # cs) s =
     add_iface_list env fmt vlans again pcfg cs
       (case iface_lookup_br s (ic_name c) of
          None \<Rightarrow> snd (iface_create_br env fmt vlans again c pcfg s)
        | Some _ \<Rightarrow> s)"

fun bridge_add_ports_raw ::
  "port_env \<Rightarrow> (int \<Rightarrow> string) \<Rightarrow> vlan_state list \<Rightarrow> bool \<Rightarrow> port_cfg shash \<Rightarrow> sw \<Rightarrow> sw" where
  "bridge_add_ports_raw env fmt vlans again [] s = s"
| "bridge_add_ports_raw env fmt vlans again ((name, pcfg) # wanted) s =
     bridge_add_ports_raw env fmt vlans again wanted (add_iface_list env fmt vlans again pcfg (pc_interfaces pcfg) s)"

definition bridge_add_ports ::
  "port_env \<Rightarrow> (int \<Rightarrow> string) \<Rightarrow> vlan_state list \<Rightarrow> bool \<Rightarrow> port_cfg shash \<Rightarrow> sw \<Rightarrow> sw" where
  "bridge_add_ports env fmt vlans again wanted s = bridge_add_ports_raw env fmt vlans again wanted s"

end
