(* ===== verification/Ports_Props.thy ===== *)
theory Ports_Props
  imports Ports
begin

text \<open>
  The tables of ports and interfaces stay consistent: the invariant \<open>ports_ok\<close> holds after every operation of
  \<open>Ports\<close>, and the passes of a reconfiguration make the tables follow the database.
\<close>

section \<open>The invariant of the tables\<close>

text \<open>
  Both directions of the link between ports and interfaces describe the same relation, names are unique,
  the index by OpenFlow port holds every interface, and no port is empty.
\<close>

definition iface_rel :: "'a bridge_scheme \<Rightarrow> (string \<times> string) set" where
  "iface_rel s = (\<lambda>i. (bi_port i, bi_name i)) ` set (br_iface_by_name s)"

definition port_rel :: "'a bridge_scheme \<Rightarrow> (string \<times> string) set" where
  "port_rel s = {(bp_name p, n) | p n. p \<in> set (br_ports s) \<and> n \<in> set (bp_ifaces p)}"

definition ports_wf :: "port_env \<Rightarrow> 'a bridge_scheme \<Rightarrow> bool" where
  "ports_wf env s \<longleftrightarrow> distinct (map bp_name (br_ports s)) \<and> distinct (map bi_name (br_iface_by_name s)) \<and>
     iface_rel s = port_rel s \<and>
     set (br_ifaces s) = (\<lambda>i. (bi_ofp_port i, bi_name i)) ` set (br_iface_by_name s) \<and>
     (\<forall>i\<in>set (br_iface_by_name s). bi_ofp_port i \<noteq> OFPP_NONE env)"

definition ports_ok :: "port_env \<Rightarrow> 'a bridge_scheme \<Rightarrow> bool" where
  "ports_ok env s \<longleftrightarrow> ports_wf env s \<and> bp_name ` set (br_ports s) \<subseteq> bi_port ` set (br_iface_by_name s)"

text \<open>\<open>same_tables s s'\<close>: only the log, the blocks and cached columns differ.\<close>

definition iface_key :: "br_iface \<Rightarrow> string \<times> string \<times> int" where
  "iface_key i = (bi_name i, bi_port i, bi_ofp_port i)"

definition port_key :: "br_port \<Rightarrow> string \<times> string list" where
  "port_key p = (bp_name p, bp_ifaces p)"

definition same_tables :: "'a bridge_scheme \<Rightarrow> 'b bridge_scheme \<Rightarrow> bool" where
  "same_tables s s' \<longleftrightarrow> map iface_key (br_iface_by_name s') = map iface_key (br_iface_by_name s) \<and>
     map port_key (br_ports s') = map port_key (br_ports s) \<and> br_ifaces s' = br_ifaces s"

lemma same_tables_refl [simp]: "same_tables s s"
  by (simp add: same_tables_def)

lemma same_tables_trans: "same_tables s s1 \<Longrightarrow> same_tables s1 s2 \<Longrightarrow> same_tables s s2"
  by (simp add: same_tables_def)

lemma same_tables_proj:
  assumes "same_tables s s'"
  shows "map bi_name (br_iface_by_name s') = map bi_name (br_iface_by_name s)"
    "map bp_name (br_ports s') = map bp_name (br_ports s)"
    "iface_rel s' = iface_rel s" "port_rel s' = port_rel s"
    "(\<lambda>i. (bi_ofp_port i, bi_name i)) ` set (br_iface_by_name s') = (\<lambda>i. (bi_ofp_port i, bi_name i)) ` set (br_iface_by_name s)"
    "bi_ofp_port ` set (br_iface_by_name s') = bi_ofp_port ` set (br_iface_by_name s)"
    "bi_port ` set (br_iface_by_name s') = bi_port ` set (br_iface_by_name s)"
proof -
  let ?I = "br_iface_by_name s" and ?I' = "br_iface_by_name s'"
  have i: "map iface_key ?I' = map iface_key ?I" and p: "map port_key (br_ports s') = map port_key (br_ports s)"
    using assms by (simp_all add: same_tables_def)
  have f: "map (g \<circ> iface_key) ?I' = map (g \<circ> iface_key) ?I" for g :: "_ \<Rightarrow> 'z"
    using arg_cong [OF i, of "map g"] by simp
  have fs: "(g \<circ> iface_key) ` set ?I' = (g \<circ> iface_key) ` set ?I" for g :: "_ \<Rightarrow> 'z"
    using arg_cong [OF f, of set g] by simp
  show "map bi_name ?I' = map bi_name ?I" using f [of fst] by (simp add: iface_key_def comp_def)
  show "map bp_name (br_ports s') = map bp_name (br_ports s)"
    using arg_cong [OF p, of "map fst"] by (simp add: port_key_def comp_def)
  show "iface_rel s' = iface_rel s" using fs [of "\<lambda>(n, p, _). (p, n)"] by (simp add: iface_key_def comp_def iface_rel_def)
  show "(\<lambda>i. (bi_ofp_port i, bi_name i)) ` set ?I' = (\<lambda>i. (bi_ofp_port i, bi_name i)) ` set ?I"
    using fs [of "\<lambda>(n, _, q). (q, n)"] by (simp add: iface_key_def comp_def)
  show "bi_ofp_port ` set ?I' = bi_ofp_port ` set ?I" using fs [of "\<lambda>(_, _, q). q"] by (simp add: iface_key_def comp_def)
  show "bi_port ` set ?I' = bi_port ` set ?I" using fs [of "\<lambda>(_, p, _). p"] by (simp add: iface_key_def comp_def)
  have r: "port_rel x = {(fst k, n) | k n. k \<in> set (map port_key (br_ports x)) \<and> n \<in> set (snd k)}" for x :: "'z bridge_scheme"
    by (auto simp: port_rel_def port_key_def)
  have "set (map port_key (br_ports s')) = set (map port_key (br_ports s))" using p by simp
  then show "port_rel s' = port_rel s" unfolding r by simp
qed

lemma same_tables_wf:
  assumes "same_tables s s'"
  shows "ports_wf env s' = ports_wf env s" "ports_ok env s' = ports_ok env s"
proof -
  note p = same_tables_proj [OF assms]
  have e: "br_ifaces s' = br_ifaces s" using assms by (simp add: same_tables_def)
  have "(\<forall>i\<in>set (br_iface_by_name s'). bi_ofp_port i \<noteq> OFPP_NONE env) \<longleftrightarrow> (\<forall>i\<in>set (br_iface_by_name s). bi_ofp_port i \<noteq> OFPP_NONE env)"
    using p(6) by (metis (mono_tags, lifting) imageE imageI)
  then show w: "ports_wf env s' = ports_wf env s" by (simp add: ports_wf_def p e)
  have "bp_name ` set (br_ports s') = bp_name ` set (br_ports s)" using p(2) by (metis set_map)
  with w p show "ports_ok env s' = ports_ok env s" by (simp add: ports_ok_def)
qed

lemma same_tables_log_ev [simp]: "same_tables s (log_ev e s)"
  by (simp add: same_tables_def log_ev_def)

lemma log_ev_sel [simp]:
  "br_iface_by_name (log_ev e s) = br_iface_by_name s" "br_ports (log_ev e s) = br_ports s" "br_ifaces (log_ev e s) = br_ifaces s"
  "br_name (log_ev e s) = br_name s" "br_cfg (log_ev e s) = br_cfg s" "br_ofproto (log_ev e s) = br_ofproto s"
  by (simp_all add: log_ev_def)

section \<open>Removal keeps the invariant\<close>

lemma iface_destroy_raw_sel [simp]:
  "br_iface_by_name (iface_destroy_raw env i s) = filter (\<lambda>x. bi_name x \<noteq> bi_name i) (br_iface_by_name s)"
  "map bp_name (br_ports (iface_destroy_raw env i s)) = map bp_name (br_ports s)"
  "br_name (iface_destroy_raw env i s) = br_name s" "br_cfg (iface_destroy_raw env i s) = br_cfg s"
  "bi_ofp_port i \<noteq> OFPP_NONE env \<Longrightarrow> br_ifaces (iface_destroy_raw env i s) = filter (\<lambda>e. snd e \<noteq> bi_name i) (br_ifaces s)"
  by (auto simp: iface_destroy_raw_def Let_def comp_def)

lemma port_rel_Union: "port_rel s = (\<Union>p\<in>set (br_ports s). {bp_name p} \<times> set (bp_ifaces p))"
  by (auto simp: port_rel_def)

lemma br_ports_iface_destroy_raw:
  "br_ports (iface_destroy_raw env i s) = map (\<lambda>p. if bp_name p = bi_port i
     then p\<lparr>bp_ifaces := filter (\<lambda>n. n \<noteq> bi_name i) (bp_ifaces p)\<rparr> else p) (br_ports s)"
  by (simp add: iface_destroy_raw_def Let_def)

lemma port_rel_iface_destroy_raw:
  "port_rel (iface_destroy_raw env i s) = port_rel s - {(bi_port i, bi_name i)}"
  unfolding port_rel_Union br_ports_iface_destroy_raw by (auto split: if_splits)

lemma ports_wf_iface_port:
  assumes "ports_wf env s" "i \<in> set (br_iface_by_name s)" "j \<in> set (br_iface_by_name s)" "bi_name i = bi_name j"
  shows "i = j"
  using assms by (auto simp: ports_wf_def distinct_map inj_on_def)

lemma ports_wf_iface_destroy_raw:
  assumes wf: "ports_wf env s" and i: "i \<in> set (br_iface_by_name s)"
  shows "ports_wf env (iface_destroy_raw env i s)"
proof -
  let ?s = "iface_destroy_raw env i s"
  have u: "\<And>j. j \<in> set (br_iface_by_name s) \<Longrightarrow> bi_name j = bi_name i \<Longrightarrow> j = i"
    using ports_wf_iface_port [OF wf _ i] by blast
  have o: "bi_ofp_port i \<noteq> OFPP_NONE env" using wf i by (simp add: ports_wf_def)
  have "iface_rel ?s = iface_rel s - {(bi_port i, bi_name i)}"
    using u by (auto simp: iface_rel_def)
  then have r: "iface_rel ?s = port_rel ?s" using wf by (simp add: ports_wf_def port_rel_iface_destroy_raw)
  have "set (br_ifaces ?s) = (\<lambda>i. (bi_ofp_port i, bi_name i)) ` set (br_iface_by_name ?s)"
    using wf o by (auto simp: ports_wf_def)
  with r wf show ?thesis by (simp add: ports_wf_def distinct_map_filter)
qed

lemma iface_lookup_br_in: "iface_lookup_br s n = Some i \<Longrightarrow> i \<in> set (br_iface_by_name s) \<and> bi_name i = n"
  by (auto simp: iface_lookup_br_def dest: find_Some_conv)

lemma iface_lookup_br_None: "iface_lookup_br s n = None \<longleftrightarrow> n \<notin> bi_name ` set (br_iface_by_name s)"
  by (auto simp: iface_lookup_br_def find_None_conv)

lemma destroy_iface_list:
  assumes "ports_wf env s"
  shows "ports_wf env (destroy_iface_list env ns s)
    \<and> br_iface_by_name (destroy_iface_list env ns s) = filter (\<lambda>x. bi_name x \<notin> set ns) (br_iface_by_name s)
    \<and> map bp_name (br_ports (destroy_iface_list env ns s)) = map bp_name (br_ports s)
    \<and> br_name (destroy_iface_list env ns s) = br_name s \<and> br_cfg (destroy_iface_list env ns s) = br_cfg s"
  using assms
proof (induction ns arbitrary: s)
  case (Cons n ns)
  show ?case
  proof (cases "iface_lookup_br s n")
    case None
    then have "filter (\<lambda>x. bi_name x \<notin> set (n # ns)) (br_iface_by_name s) = filter (\<lambda>x. bi_name x \<notin> set ns) (br_iface_by_name s)"
      by (auto simp: iface_lookup_br_None intro!: filter_cong)
    with None Cons show ?thesis by simp
  next
    case (Some i)
    note l = iface_lookup_br_in [OF Some]
    with Cons.prems have "ports_wf env (iface_destroy_raw env i s)" by (simp add: ports_wf_iface_destroy_raw)
    from Cons.IH [OF this] l Some show ?thesis by (simp add: conj_commute cong: conj_cong)
  qed
qed simp

text \<open>Removing a port that owns its interfaces removes exactly its pairs.\<close>

definition owns :: "'a bridge_scheme \<Rightarrow> string \<Rightarrow> string list \<Rightarrow> bool" where
  "owns s n ns \<longleftrightarrow> (\<forall>i\<in>set (br_iface_by_name s). bi_port i = n \<longleftrightarrow> bi_name i \<in> set ns)"

lemma ports_wf_owns:
  assumes wf: "ports_wf env s" and p: "p \<in> set (br_ports s)"
  shows "owns s (bp_name p) (bp_ifaces p)"
  unfolding owns_def
proof (intro ballI iffI)
  fix i assume i: "i \<in> set (br_iface_by_name s)"
  have r: "iface_rel s = port_rel s" using wf by (simp add: ports_wf_def)
  {
    assume "bi_port i = bp_name p"
    with i have "(bp_name p, bi_name i) \<in> iface_rel s" by (force simp: iface_rel_def)
    then have "(bp_name p, bi_name i) \<in> port_rel s" by (simp add: r)
    with wf p show "bi_name i \<in> set (bp_ifaces p)"
      by (auto simp: port_rel_def ports_wf_def distinct_map inj_on_def)
  next
    assume "bi_name i \<in> set (bp_ifaces p)"
    with p r have "(bp_name p, bi_name i) \<in> iface_rel s" by (auto simp: port_rel_def)
    with ports_wf_iface_port [OF wf _ i] show "bi_port i = bp_name p"
      by (auto simp: iface_rel_def)
  }
qed

lemma port_destroy_wf:
  assumes wf: "ports_wf env s" and o: "owns s (bp_name p) (bp_ifaces p)"
  shows "ports_wf env (port_destroy env p s)
    \<and> br_iface_by_name (port_destroy env p s) = filter (\<lambda>x. bi_port x \<noteq> bp_name p) (br_iface_by_name s)
    \<and> map bp_name (br_ports (port_destroy env p s)) = filter (\<lambda>n. n \<noteq> bp_name p) (map bp_name (br_ports s))
    \<and> br_name (port_destroy env p s) = br_name s \<and> br_cfg (port_destroy env p s) = br_cfg s"
proof -
  define s0 where "s0 = (if br_ofproto s then log_ev (BundleUnregister (br_name s) (bp_name p)) s else s)"
  define s1 where "s1 = destroy_iface_list env (bp_ifaces p) s0"
  have r: "port_destroy env p s = s1\<lparr>br_ports := filter (\<lambda>x. bp_name x \<noteq> bp_name p) (br_ports s1)\<rparr>"
    by (simp add: port_destroy_def s0_def s1_def Let_def)
  have wf0: "ports_wf env s0" using wf by (simp add: s0_def same_tables_wf [OF same_tables_log_ev])
  have f: "br_iface_by_name s0 = br_iface_by_name s" "br_ports s0 = br_ports s" "br_name s0 = br_name s" "br_cfg s0 = br_cfg s"
    by (simp_all add: s0_def)
  note d = destroy_iface_list [OF wf0, of "bp_ifaces p", folded s1_def, unfolded f]
  have e: "br_iface_by_name s1 = filter (\<lambda>x. bi_port x \<noteq> bp_name p) (br_iface_by_name s)"
    using d o by (auto simp: owns_def intro!: filter_cong)
  have "port_rel (s1\<lparr>br_ports := filter (\<lambda>x. bp_name x \<noteq> bp_name p) (br_ports s1)\<rparr>) = {q \<in> port_rel s1. fst q \<noteq> bp_name p}"
    by (auto simp: port_rel_def)
  also have "\<dots> = {q \<in> iface_rel s1. fst q \<noteq> bp_name p}" using d by (simp add: ports_wf_def)
  also have "\<dots> = iface_rel s1" unfolding iface_rel_def e by auto
  finally have pr: "port_rel (s1\<lparr>br_ports := filter (\<lambda>x. bp_name x \<noteq> bp_name p) (br_ports s1)\<rparr>) = iface_rel s1" .
  have w1: "ports_wf env s1" using d by simp
  then have "distinct (map bp_name (filter (\<lambda>x. bp_name x \<noteq> bp_name p) (br_ports s1)))"
    by (simp add: ports_wf_def distinct_map_filter)
  with w1 pr have "ports_wf env (port_destroy env p s)" by (simp add: r ports_wf_def iface_rel_def)
  moreover have "map bp_name (filter (\<lambda>x. bp_name x \<noteq> bp_name p) (br_ports s1)) = filter (\<lambda>n. n \<noteq> bp_name p) (map bp_name (br_ports s1))"
    by (simp add: filter_map comp_def)
  ultimately show ?thesis using d e by (simp add: r)
qed

lemma destroy_if_empty:
  assumes wf: "ports_wf env s"
  shows "ports_wf env (destroy_if_empty env n s) \<and> br_iface_by_name (destroy_if_empty env n s) = br_iface_by_name s
    \<and> bp_name ` set (br_ports (destroy_if_empty env n s))
        = bp_name ` set (br_ports s) - ({n} - bi_port ` set (br_iface_by_name s))
    \<and> br_name (destroy_if_empty env n s) = br_name s \<and> br_cfg (destroy_if_empty env n s) = br_cfg s"
proof (cases "port_lookup s n")
  case None
  then have "n \<notin> bp_name ` set (br_ports s)" by (auto simp: port_lookup_def find_None_conv)
  with None wf show ?thesis by (auto simp: destroy_if_empty_def)
next
  case (Some p)
  then have p: "p \<in> set (br_ports s)" "bp_name p = n" by (auto simp: port_lookup_def dest: find_Some_conv)
  note o = ports_wf_owns [OF wf p(1)]
  have r: "iface_rel s = port_rel s" using wf by (simp add: ports_wf_def)
  show ?thesis
  proof (cases "bp_ifaces p = []")
    case True
    with o p have "\<forall>i\<in>set (br_iface_by_name s). bi_port i \<noteq> n" by (simp add: owns_def)
    moreover from this have "filter (\<lambda>x. bi_port x \<noteq> n) (br_iface_by_name s) = br_iface_by_name s" by simp
    moreover have "bp_name ` set (br_ports (port_destroy env p s)) = bp_name ` set (br_ports s) - {n}"
      using port_destroy_wf [OF wf o] p by (metis set_map set_minus_filter_out)
    ultimately show ?thesis using port_destroy_wf [OF wf o] True Some p by (auto simp: destroy_if_empty_def)
  next
    case False
    then obtain m where "m \<in> set (bp_ifaces p)" by (metis list.set_intros(1) neq_Nil_conv)
    with p have "(n, m) \<in> iface_rel s" by (auto simp: r port_rel_def)
    then have "n \<in> bi_port ` set (br_iface_by_name s)" by (auto simp: iface_rel_def)
    with False Some wf show ?thesis by (simp add: destroy_if_empty_def insert_absorb)
  qed
qed

lemma iface_destroy_br:
  assumes ok: "ports_ok env s" and i: "i \<in> set (br_iface_by_name s)"
  shows "ports_ok env (iface_destroy_br env (Some i) s)
    \<and> br_iface_by_name (iface_destroy_br env (Some i) s) = filter (\<lambda>x. bi_name x \<noteq> bi_name i) (br_iface_by_name s)
    \<and> br_name (iface_destroy_br env (Some i) s) = br_name s \<and> br_cfg (iface_destroy_br env (Some i) s) = br_cfg s"
proof -
  define s1 where "s1 = iface_destroy_raw env i s"
  have "ports_wf env s" using ok by (simp add: ports_ok_def)
  from ports_wf_iface_destroy_raw [OF this i] have wf1: "ports_wf env s1" by (simp add: s1_def)
  note d = destroy_if_empty [OF wf1, of "bi_port i"]
  have f: "br_iface_by_name s1 = filter (\<lambda>x. bi_name x \<noteq> bi_name i) (br_iface_by_name s)"
    "br_name s1 = br_name s" "br_cfg s1 = br_cfg s" by (simp_all add: s1_def)
  have n: "bp_name ` set (br_ports s1) = bp_name ` set (br_ports s)"
    unfolding s1_def by (metis iface_destroy_raw_sel(2) set_map)
  have "bi_port ` set (br_iface_by_name s) \<subseteq> insert (bi_port i) (bi_port ` set (br_iface_by_name s1))"
    using ports_wf_iface_port [OF \<open>ports_wf env s\<close> _ i] by (auto simp: f)
  moreover have "bp_name ` set (br_ports s) \<subseteq> bi_port ` set (br_iface_by_name s)" using ok by (simp add: ports_ok_def)
  ultimately have "bp_name ` set (br_ports s1) - ({bi_port i} - bi_port ` set (br_iface_by_name s1)) \<subseteq> bi_port ` set (br_iface_by_name s1)"
    unfolding n by blast
  with d f show ?thesis by (simp add: iface_destroy_br_def ports_ok_def s1_def)
qed

lemma ports_ok_names: "ports_ok env s \<Longrightarrow> bp_name ` set (br_ports s) = bi_port ` set (br_iface_by_name s)"
proof -
  assume ok: "ports_ok env s"
  then have "fst ` iface_rel s \<subseteq> fst ` port_rel s" by (simp add: ports_ok_def ports_wf_def)
  then have "bi_port ` set (br_iface_by_name s) \<subseteq> bp_name ` set (br_ports s)"
    by (auto simp: iface_rel_def port_rel_def image_image)
  with ok show ?thesis by (auto simp: ports_ok_def)
qed

lemma del_iface_list:
  assumes "ports_ok env s"
  shows "ports_ok env (del_iface_list env new ns s)
    \<and> br_iface_by_name (del_iface_list env new ns s) = filter (\<lambda>x. bi_name x \<in> set new \<or> bi_name x \<notin> set ns) (br_iface_by_name s)
    \<and> br_name (del_iface_list env new ns s) = br_name s \<and> br_cfg (del_iface_list env new ns s) = br_cfg s"
  using assms
proof (induction ns arbitrary: s)
  case (Cons n ns)
  show ?case
  proof (cases "n \<in> set new \<or> iface_lookup_br s n = None")
    case True
    then have "filter (\<lambda>x. bi_name x \<in> set new \<or> bi_name x \<notin> set (n # ns)) (br_iface_by_name s)
        = filter (\<lambda>x. bi_name x \<in> set new \<or> bi_name x \<notin> set ns) (br_iface_by_name s)"
      by (auto simp: iface_lookup_br_None intro!: filter_cong)
    with True Cons show ?thesis by (auto simp: iface_destroy_br_def)
  next
    case False
    then obtain i where i: "iface_lookup_br s n = Some i" "n \<notin> set new" by auto
    note l = iface_lookup_br_in [OF i(1)]
    note d = iface_destroy_br [OF Cons.prems, of i]
    from l d have "ports_ok env (iface_destroy_br env (Some i) s)" by simp
    from Cons.IH [OF this] l d i show ?thesis by (auto intro!: filter_cong)
  qed
qed simp

lemma port_del_ifaces:
  assumes "ports_ok env s" "owns s (bp_name p) (bp_ifaces p)"
  shows "ports_ok env (port_del_ifaces env p c s)
    \<and> br_iface_by_name (port_del_ifaces env p c s)
        = filter (\<lambda>x. bi_port x = bp_name p \<longrightarrow> bi_name x \<in> set (new_iface_names c)) (br_iface_by_name s)
    \<and> br_name (port_del_ifaces env p c s) = br_name s \<and> br_cfg (port_del_ifaces env p c s) = br_cfg s"
  using del_iface_list [OF assms(1), of "new_iface_names c" "bp_ifaces p"] assms(2)
  by (auto simp: port_del_ifaces_def owns_def intro!: filter_cong)

lemma port_destroy_ok:
  assumes ok: "ports_ok env s" and o: "owns s (bp_name p) (bp_ifaces p)"
  shows "ports_ok env (port_destroy env p s)"
proof -
  have "ports_wf env s" using ok by (simp add: ports_ok_def)
  note d = port_destroy_wf [OF this o]
  then have "bp_name ` set (br_ports (port_destroy env p s)) = bp_name ` set (br_ports s) - {bp_name p}"
    by (metis set_map set_minus_filter_out)
  with d ports_ok_names [OF ok] show ?thesis by (auto simp: ports_ok_def)
qed

lemma same_tables_set_port_cfg: "same_tables s (set_port_cfg n c s)"
  by (simp add: same_tables_def set_port_cfg_def port_key_def comp_def)

lemma set_port_cfg_sel [simp]:
  "br_iface_by_name (set_port_cfg n c s) = br_iface_by_name s" "br_name (set_port_cfg n c s) = br_name s"
  "br_cfg (set_port_cfg n c s) = br_cfg s"
  by (simp_all add: set_port_cfg_def)

definition iface_wanted :: "port_cfg shash \<Rightarrow> string \<Rightarrow> string \<Rightarrow> bool" where
  "iface_wanted wanted p n \<longleftrightarrow> (case shash_find_data wanted p of None \<Rightarrow> False | Some c \<Rightarrow> n \<in> set (new_iface_names c))"

lemma owns_filter: "owns s n ns \<Longrightarrow> set (br_iface_by_name s') \<subseteq> set (br_iface_by_name s) \<Longrightarrow> owns s' n ns"
  by (auto simp: owns_def)

lemma del_port_list:
  assumes "ports_ok env s" "\<forall>p\<in>set ps. owns s (bp_name p) (bp_ifaces p)"
  shows "ports_ok env (del_port_list env wanted ps s)
    \<and> br_iface_by_name (del_port_list env wanted ps s)
        = filter (\<lambda>x. bi_port x \<in> bp_name ` set ps \<longrightarrow> iface_wanted wanted (bi_port x) (bi_name x)) (br_iface_by_name s)
    \<and> br_name (del_port_list env wanted ps s) = br_name s \<and> br_cfg (del_port_list env wanted ps s) = br_cfg s"
  using assms
proof (induction ps arbitrary: s)
  case (Cons p ps)
  define s0 where "s0 = set_port_cfg (bp_name p) (shash_find_data wanted (bp_name p)) s"
  define s1 where "s1 = (case shash_find_data wanted (bp_name p) of None \<Rightarrow> port_destroy env p s0 | Some c \<Rightarrow> port_del_ifaces env p c s0)"
  have ok0: "ports_ok env s0" using Cons.prems(1) by (simp add: s0_def same_tables_wf [OF same_tables_set_port_cfg])
  have f0: "br_iface_by_name s0 = br_iface_by_name s" "br_name s0 = br_name s" "br_cfg s0 = br_cfg s" by (simp_all add: s0_def)
  have o0: "owns s0 (bp_name p) (bp_ifaces p)" using Cons.prems(2) by (simp add: owns_def f0)
  have wf0: "ports_wf env s0" using ok0 by (simp add: ports_ok_def)
  have s1: "ports_ok env s1 \<and> br_iface_by_name s1 = filter (\<lambda>x. bi_port x = bp_name p \<longrightarrow> iface_wanted wanted (bi_port x) (bi_name x)) (br_iface_by_name s)
      \<and> br_name s1 = br_name s \<and> br_cfg s1 = br_cfg s"
  proof (cases "shash_find_data wanted (bp_name p)")
    case None
    with port_destroy_wf [OF wf0 o0] port_destroy_ok [OF ok0 o0] show ?thesis
      by (auto simp: s1_def f0 iface_wanted_def intro!: filter_cong)
  next
    case (Some c)
    with port_del_ifaces [OF ok0 o0, of c] show ?thesis by (auto simp: s1_def f0 iface_wanted_def intro!: filter_cong)
  qed
  have "\<forall>q\<in>set ps. owns s1 (bp_name q) (bp_ifaces q)" using Cons.prems(2) s1 by (auto intro: owns_filter)
  note ih = Cons.IH [OF _ this]
  have "del_port_list env wanted (p # ps) s = del_port_list env wanted ps s1" unfolding s1_def s0_def by (simp add: Let_def)
  with ih s1 show ?case by (auto simp del: del_port_list.simps intro!: filter_cong)
qed simp

section \<open>Updates that keep the tables\<close>

lemma same_tables_put_iface:
  assumes "ports_wf env s" "i \<in> set (br_iface_by_name s)" "iface_key j = iface_key i"
  shows "same_tables s (put_iface j s)"
proof -
  have n: "bi_name j = bi_name i" using assms(3) by (simp add: iface_key_def)
  have "\<forall>x\<in>set (br_iface_by_name s). iface_key (if bi_name x = bi_name j then j else x) = iface_key x"
    using ports_wf_iface_port [OF assms(1,2)] assms(3) n by metis
  then show ?thesis by (simp add: same_tables_def put_iface_def)
qed

lemma put_iface_sel [simp]: "br_name (put_iface i s) = br_name s" "br_cfg (put_iface i s) = br_cfg s"
  by (simp_all add: put_iface_def)

lemma same_tables_update_iface:
  assumes "ports_wf env s"
  shows "same_tables s (update_iface env' c s)"
proof (cases "iface_lookup_br s (ic_name c)")
  case (Some i)
  with iface_lookup_br_in [OF Some] show ?thesis
    by (auto simp: update_iface_def iface_key_def intro!: same_tables_put_iface [OF assms])
qed (simp add: update_iface_def)

lemma same_tables_update_ifaces: "ports_wf env s \<Longrightarrow> same_tables s (update_ifaces env' cs s)"
proof (induction cs arbitrary: s)
  case (Cons c cs)
  note u = same_tables_update_iface [OF Cons.prems, of env' c]
  then have "ports_wf env (update_iface env' c s)" using Cons.prems by (simp add: same_tables_wf)
  from same_tables_trans [OF u Cons.IH [OF this]] show ?case by simp
qed simp

lemma update_ifaces_sel [simp]:
  "br_name (update_ifaces env cs s) = br_name s" "br_cfg (update_ifaces env cs s) = br_cfg s"
  by (induction cs arbitrary: s) (simp_all add: update_iface_def split: option.split)

lemma bridge_del_ports_ok:
  assumes ok: "ports_ok env s"
  shows "ports_ok env (bridge_del_ports env wanted s)"
    "iface_rel (bridge_del_ports env wanted s) = {(p, n) \<in> iface_rel s. iface_wanted wanted p n}"
    "br_name (bridge_del_ports env wanted s) = br_name s" "br_cfg (bridge_del_ports env wanted s) = br_cfg s"
proof -
  define s1 where "s1 = del_port_list env wanted (br_ports s) s"
  have "\<forall>p\<in>set (br_ports s). owns s (bp_name p) (bp_ifaces p)"
    using ok by (auto simp: ports_ok_def intro: ports_wf_owns)
  note d = del_port_list [OF ok this, of wanted, folded s1_def]
  have "\<forall>x\<in>set (br_iface_by_name s). bi_port x \<in> bp_name ` set (br_ports s)"
    using ports_ok_names [OF ok] by auto
  with d have i: "br_iface_by_name s1 = filter (\<lambda>x. iface_wanted wanted (bi_port x) (bi_name x)) (br_iface_by_name s)"
    by (auto intro!: filter_cong)
  have u: "same_tables s1 (bridge_del_ports env wanted s)" using d
    by (auto simp: bridge_del_ports_def s1_def [symmetric] ports_ok_def intro: same_tables_update_ifaces)
  show "ports_ok env (bridge_del_ports env wanted s)" using d by (simp add: same_tables_wf [OF u])
  show "iface_rel (bridge_del_ports env wanted s) = {(p, n) \<in> iface_rel s. iface_wanted wanted p n}"
    unfolding same_tables_proj(3) [OF u] by (auto simp: iface_rel_def i)
  show "br_name (bridge_del_ports env wanted s) = br_name s" "br_cfg (bridge_del_ports env wanted s) = br_cfg s"
    using d by (simp_all add: bridge_del_ports_def s1_def)
qed

lemma snd_vrf_del_port_list: "snd (vrf_del_port_list env env3 wanted ps (v, s)) = del_port_list env wanted ps s"
  by (induction ps arbitrary: v s) (auto simp: Let_def split: option.split)

lemma fst_vrf_del_port_list:
  "fst (vrf_del_port_list env env3 wanted ps (v, s))
     = fold (vrf_delete_port_neighbors env3) (filter (\<lambda>n. shash_find_data wanted n = None) (map bp_name ps)) v"
  by (induction ps arbitrary: v s) (auto simp: Let_def split: option.split)

section \<open>Creation\<close>

lemma iface_do_create_br_tables:
  assumes "iface_do_create_br env fmt c s = (e, ofp, s')"
  shows "br_iface_by_name s' = br_iface_by_name s \<and> br_ports s' = br_ports s \<and> br_ifaces s' = br_ifaces s
    \<and> br_name s' = br_name s \<and> br_cfg s' = br_cfg s"
  using assms by (auto simp: iface_do_create_br_def iface_set_netdev_config_def set_config_def Let_def split: if_splits prod.splits)

definition ofproto_assigns :: "port_env \<Rightarrow> bool" where
  "ofproto_assigns env \<longleftrightarrow> (\<forall>lg b n q ofp. ofproto_port_add env lg b n q = (0, ofp) \<longrightarrow> ofp \<noteq> OFPP_NONE env)"

lemma iface_do_create_br_ofp:
  assumes "ofproto_assigns env" "iface_do_create_br env fmt c s = (0, ofp, s')"
  shows "ofp \<noteq> OFPP_NONE env"
  using assms by (auto simp: iface_do_create_br_def iface_set_netdev_config_def set_config_def Let_def ofproto_assigns_def EINVAL_def
      split: if_splits prod.splits)

lemma link_iface_sel [simp]:
  "br_iface_by_name (link_iface i c s) = br_iface_by_name s @ [i]"
  "br_ifaces (link_iface i c s) = br_ifaces s @ [(bi_ofp_port i, bi_name i)]"
  "br_name (link_iface i c s) = br_name s" "br_cfg (link_iface i c s) = br_cfg s"
  by (auto simp: link_iface_def put_port_def port_create_def Let_def split: option.split)

lemma link_iface_names:
  assumes "distinct (map bp_name (br_ports s))"
  shows "distinct (map bp_name (br_ports (link_iface i c s)))
    \<and> bp_name ` set (br_ports (link_iface i c s)) = insert (pc_name c) (bp_name ` set (br_ports s))
    \<and> port_rel (link_iface i c s) = insert (pc_name c, bi_name i) (port_rel s)"
proof (cases "port_lookup s (pc_name c)")
  case None
  then have n: "pc_name c \<notin> bp_name ` set (br_ports s)" by (auto simp: port_lookup_def find_None_conv)
  let ?p = "\<lparr>bp_name = pc_name c, bp_cfg = Some c, bp_ifaces = [bi_name i], bond_hw_handle = -1\<rparr>"
  have "map (\<lambda>x. if bp_name x = pc_name c then p else x) (br_ports s) = br_ports s" for p
    using n by (intro map_idI) (metis imageI)
  with None have e: "br_ports (link_iface i c s) = br_ports s @ [?p]"
    by (simp add: link_iface_def port_create_def put_port_def Let_def cong: if_cong)
  show ?thesis using n assms by (auto simp: e port_rel_Union)
next
  case (Some p)
  then have p: "p \<in> set (br_ports s)" "bp_name p = pc_name c" by (auto simp: port_lookup_def dest: find_Some_conv)
  let ?f = "\<lambda>x. if bp_name x = pc_name c then p\<lparr>bp_ifaces := bp_ifaces p @ [bi_name i]\<rparr> else x"
  have e: "br_ports (link_iface i c s) = map ?f (br_ports s)" using Some p by (simp add: link_iface_def put_port_def)
  have m: "map bp_name (map ?f (br_ports s)) = map bp_name (br_ports s)" using p by simp
  have u: "\<And>x. x \<in> set (br_ports s) \<Longrightarrow> bp_name x = pc_name c \<Longrightarrow> x = p"
    using assms p by (auto simp: distinct_map inj_on_def)
  have f: "{bp_name (?f x)} \<times> set (bp_ifaces (?f x))
      = {bp_name x} \<times> set (bp_ifaces x) \<union> (if x = p then {(pc_name c, bi_name i)} else {})" if "x \<in> set (br_ports s)" for x
  proof (cases "bp_name x = pc_name c")
    case True
    with u [OF that] have "x = p" by simp
    with p show ?thesis by auto
  next
    case False
    with p have "x \<noteq> p" by auto
    with False show ?thesis by simp
  qed
  have "port_rel (link_iface i c s) = (\<Union>x\<in>set (br_ports s). {bp_name (?f x)} \<times> set (bp_ifaces (?f x)))"
    unfolding port_rel_Union e set_map by blast
  also have "\<dots> = insert (pc_name c, bi_name i) (port_rel s)"
    unfolding port_rel_Union using p(1) by (simp only: f cong: SUP_cong) (auto split: if_splits)
  finally have "port_rel (link_iface i c s) = insert (pc_name c, bi_name i) (port_rel s)" .
  moreover have "bp_name ` set (map ?f (br_ports s)) = bp_name ` set (br_ports s)" using m by (metis set_map)
  moreover have "pc_name c \<in> bp_name ` set (br_ports s)" using p by (metis imageI)
  ultimately show ?thesis unfolding e m using assms by (simp only: insert_absorb)
qed

lemma link_iface_ok:
  assumes ok: "ports_ok env s" and n: "bi_name i \<notin> bi_name ` set (br_iface_by_name s)"
    and q: "bi_ofp_port i \<noteq> OFPP_NONE env" and p: "bi_port i = pc_name c"
  shows "ports_ok env (link_iface i c s)" "iface_rel (link_iface i c s) = insert (pc_name c, bi_name i) (iface_rel s)"
proof -
  have "distinct (map bp_name (br_ports s))" using ok by (simp add: ports_ok_def ports_wf_def)
  note l = link_iface_names [OF this, of i c]
  show r: "iface_rel (link_iface i c s) = insert (pc_name c, bi_name i) (iface_rel s)" using p by (auto simp: iface_rel_def)
  have "ports_wf env (link_iface i c s)"
    using ok n q l by (auto simp: ports_ok_def ports_wf_def r)
  with ok l p show "ports_ok env (link_iface i c s)" by (auto simp: ports_ok_def)
qed

lemma stats_block_br_sel [simp]:
  "br_iface_by_name (stats_block_br p b s) = br_iface_by_name s" "br_ports (stats_block_br p b s) = br_ports s"
  "br_ifaces (stats_block_br p b s) = br_ifaces s" "br_name (stats_block_br p b s) = br_name s" "br_cfg (stats_block_br p b s) = br_cfg s"
  by (simp_all add: stats_block_br_def split: prod.split)

lemma iface_refresh_stats_br_sel [simp]:
  "br_iface_by_name (iface_refresh_stats_br env i s) = br_iface_by_name s" "br_ports (iface_refresh_stats_br env i s) = br_ports s"
  "br_ifaces (iface_refresh_stats_br env i s) = br_ifaces s" "br_name (iface_refresh_stats_br env i s) = br_name s"
  "br_cfg (iface_refresh_stats_br env i s) = br_cfg s"
  by (simp_all add: iface_refresh_stats_br_def Let_def)

lemma iface_refresh_netdev_status_br_tables:
  assumes "iface_refresh_netdev_status_br env vlans again i s = (j, s')"
  shows "iface_key j = iface_key i" "bi_name j = bi_name i" "same_tables s s'" "br_iface_by_name s' = br_iface_by_name s"
    "br_name s' = br_name s" "br_cfg s' = br_cfg s"
  using assms by (auto simp: iface_refresh_netdev_status_br_def iface_key_def split: if_splits)

lemma iface_clear_db_record_sel [simp]: "same_tables s (iface_clear_db_record env c s)"
  "br_name (iface_clear_db_record env c s) = br_name s" "br_cfg (iface_clear_db_record env c s) = br_cfg s"
  by (auto simp: iface_clear_db_record_def iface_set_ofport_def same_tables_def)

lemma same_tables_fields:
  "br_iface_by_name s' = br_iface_by_name s \<Longrightarrow> br_ports s' = br_ports s \<Longrightarrow> br_ifaces s' = br_ifaces s \<Longrightarrow> same_tables s s'"
  by (simp add: same_tables_def)

lemma iface_create_br_ok:
  assumes ok: "ports_ok env s" and n: "ic_name c \<notin> bi_name ` set (br_iface_by_name s)" and a: "ofproto_assigns env"
    and r: "iface_create_br env fmt vlans again c pcfg s = (b, s')"
  shows "ports_ok env s'" "iface_rel s' = (if b then insert (pc_name pcfg, ic_name c) (iface_rel s) else iface_rel s)"
    "br_name s' = br_name s" "br_cfg s' = br_cfg s" "b \<longleftrightarrow> fst (iface_do_create_br env fmt c s) = 0"
proof -
  obtain e ofp s1 where d: "iface_do_create_br env fmt c s = (e, ofp, s1)" by (cases "iface_do_create_br env fmt c s") auto
  note f = iface_do_create_br_tables [OF d]
  have t: "same_tables s s1" using f by (simp add: same_tables_fields)
  have ok1: "ports_ok env s1" using ok by (simp add: same_tables_wf [OF t])
  have "ports_ok env s' \<and> iface_rel s' = (if b then insert (pc_name pcfg, ic_name c) (iface_rel s) else iface_rel s)
    \<and> br_name s' = br_name s \<and> br_cfg s' = br_cfg s \<and> b = (e = 0)"
  proof (cases "e = 0")
    case False
    then have s': "s' = iface_clear_db_record env c s1" "\<not> b" using r by (simp_all add: iface_create_br_def d)
    have "same_tables s s'" unfolding s'(1) by (rule same_tables_trans [OF t iface_clear_db_record_sel(1)])
    with ok f s' False show ?thesis by (simp add: same_tables_wf same_tables_proj(3))
  next
    case True
    define i where "i = \<lparr>bi_name = ic_name c, bi_port = pc_name pcfg, bi_ofp_port = ofp, bi_type = iface_get_type env c (br_cfg s1),
      bi_cfg = c, bi_change_seq = 0\<rparr>"
    define s2 where "s2 = link_iface i pcfg s1"
    define s3 where "s3 = iface_refresh_stats_br env i s2"
    obtain j s4 where s4: "iface_refresh_netdev_status_br env vlans again i s3 = (j, s4)" by fastforce
    have s': "s' = stats_block_br \<lparr>sp_bridge = Some (br_name (put_iface j s4)), sp_vrf = None, sp_port = None, sp_netdev = Some (ic_name c), sp_cfg = Some (ic_name c)\<rparr>
        STATS_BRIDGE_CREATE_NETDEV (put_iface j s4)" "b"
      using r True by (simp_all add: iface_create_br_def d Let_def i_def [symmetric] s2_def [symmetric] s3_def [symmetric] s4)
    have i: "bi_name i \<notin> bi_name ` set (br_iface_by_name s1)" "bi_ofp_port i \<noteq> OFPP_NONE env" "bi_port i = pc_name pcfg"
      using n f iface_do_create_br_ofp [OF a d [unfolded True]] by (simp_all add: i_def)
    note l = link_iface_ok [OF ok1 i, folded s2_def]
    have t3: "same_tables s2 s3" by (simp add: s3_def same_tables_fields)
    note t4 = iface_refresh_netdev_status_br_tables [OF s4]
    have t24: "same_tables s2 s4" by (rule same_tables_trans [OF t3 t4(3)])
    have "ports_wf env s4" using l(1) by (simp add: same_tables_wf [OF t24] ports_ok_def)
    moreover have "i \<in> set (br_iface_by_name s4)" by (simp add: t4 s3_def s2_def)
    ultimately have "same_tables s4 (put_iface j s4)" using t4(1) by (rule same_tables_put_iface)
    moreover have "same_tables (put_iface j s4) s'" unfolding s' by (simp add: same_tables_fields)
    ultimately have t2: "same_tables s2 s'" by (metis t24 same_tables_trans)
    have "br_name s' = br_name s \<and> br_cfg s' = br_cfg s" using f by (simp add: s' t4 s3_def s2_def)
    moreover have "iface_rel s' = insert (pc_name pcfg, ic_name c) (iface_rel s)"
      by (simp add: same_tables_proj(3) [OF t2] l(2) same_tables_proj(3) [OF t] i_def)
    moreover have "ports_ok env s'" using l(1) by (simp add: same_tables_wf [OF t2])
    ultimately show ?thesis using s'(2) True by simp
  qed
  then show "ports_ok env s'" "iface_rel s' = (if b then insert (pc_name pcfg, ic_name c) (iface_rel s) else iface_rel s)"
    "br_name s' = br_name s" "br_cfg s' = br_cfg s" "b \<longleftrightarrow> fst (iface_do_create_br env fmt c s) = 0" by (simp_all add: d)
qed

text \<open>
  The interfaces a list of Port rows asks for.  \<open>env_accepts\<close>: neither the name nor a call of the device or
  ofproto layer refuses an interface.
\<close>

definition wanted_pairs :: "port_cfg list \<Rightarrow> (string \<times> string) set" where
  "wanted_pairs cs = {(pc_name p, ic_name c) | p c. p \<in> set cs \<and> c \<in> set (pc_interfaces p)}"

definition env_accepts :: "port_env \<Rightarrow> bool" where
  "env_accepts env \<longleftrightarrow> (\<forall>n. \<not> pe_is_reserved_name env n) \<and> (\<forall>lg n t. pe_open env lg n t = 0) \<and>
     (\<forall>lg n a. pe_set_etheraddr env lg n a = 0) \<and> (\<forall>lg n m. pe_set_hw_intf_info env lg n m = 0) \<and>
     (\<forall>lg n m. pe_set_config env lg n m = 0) \<and> (\<forall>lg b n q. fst (ofproto_port_add env lg b n q) = 0)"

lemma env_accepts_create: "env_accepts env \<Longrightarrow> fst (iface_do_create_br env fmt c s) = 0"
  by (auto simp: env_accepts_def iface_do_create_br_def iface_set_netdev_config_def set_config_def Let_def split: prod.split)
     (metis fst_conv)

lemma iface_rel_names: "snd ` iface_rel s = bi_name ` set (br_iface_by_name s)"
  by (auto simp: iface_rel_def image_image)

lemma add_iface_list_ok:
  assumes "ports_ok env s" "ofproto_assigns env"
  shows "ports_ok env (add_iface_list env fmt vlans again pcfg cs s)
    \<and> iface_rel s \<subseteq> iface_rel (add_iface_list env fmt vlans again pcfg cs s)
    \<and> iface_rel (add_iface_list env fmt vlans again pcfg cs s) \<subseteq> iface_rel s \<union> {pc_name pcfg} \<times> ic_name ` set cs
    \<and> (env_accepts env \<longrightarrow> ic_name ` set cs \<subseteq> snd ` iface_rel (add_iface_list env fmt vlans again pcfg cs s))
    \<and> br_name (add_iface_list env fmt vlans again pcfg cs s) = br_name s
    \<and> br_cfg (add_iface_list env fmt vlans again pcfg cs s) = br_cfg s"
  using assms
proof (induction cs arbitrary: s)
  case (Cons c cs)
  show ?case
  proof (cases "iface_lookup_br s (ic_name c)")
    case (Some i)
    then have "ic_name c \<in> snd ` iface_rel s" by (metis iface_lookup_br_in iface_rel_names imageI)
    moreover from this have "ic_name c \<in> snd ` iface_rel s'" if "iface_rel s \<subseteq> iface_rel s'" for s' :: sw using that by blast
    ultimately show ?thesis using Some Cons.IH [OF Cons.prems] by auto
  next
    case None
    obtain b s1 where r: "iface_create_br env fmt vlans again c pcfg s = (b, s1)" by fastforce
    have n: "ic_name c \<notin> bi_name ` set (br_iface_by_name s)" using None by (simp add: iface_lookup_br_None)
    note k = iface_create_br_ok [OF Cons.prems(1) n Cons.prems(2) r]
    define s2 where "s2 = add_iface_list env fmt vlans again pcfg cs s1"
    have e: "add_iface_list env fmt vlans again pcfg (c # cs) s = s2" using None r by (simp add: s2_def)
    note ih = Cons.IH [OF k(1) Cons.prems(2), folded s2_def]
    have new: "env_accepts env \<longrightarrow> (pc_name pcfg, ic_name c) \<in> iface_rel s2"
      using ih k(2,5) by (auto dest: env_accepts_create)
    have acc: "env_accepts env \<longrightarrow> ic_name ` set (c # cs) \<subseteq> snd ` iface_rel s2"
    proof
      assume a: "env_accepts env"
      with new have "snd (pc_name pcfg, ic_name c) \<in> snd ` iface_rel s2" by blast
      moreover have "ic_name ` set cs \<subseteq> snd ` iface_rel s2" using a ih by blast
      ultimately show "ic_name ` set (c # cs) \<subseteq> snd ` iface_rel s2" by simp
    qed
    have sub: "iface_rel s \<subseteq> iface_rel s1" "iface_rel s1 \<subseteq> iface_rel s \<union> {pc_name pcfg} \<times> ic_name ` set (c # cs)" using k(2) by auto
    have "iface_rel s2 \<subseteq> iface_rel s \<union> {pc_name pcfg} \<times> ic_name ` set (c # cs)" using sub ih by auto
    moreover have "iface_rel s \<subseteq> iface_rel s2" using sub ih by blast
    ultimately show ?thesis unfolding e using ih acc k(3,4) by presburger
  qed
qed auto

lemma bridge_add_ports_ok:
  assumes "ports_ok env s" "ofproto_assigns env" "\<forall>(k, c)\<in>set wanted. k = pc_name c"
  shows "ports_ok env (bridge_add_ports_raw env fmt vlans again wanted s)
    \<and> iface_rel s \<subseteq> iface_rel (bridge_add_ports_raw env fmt vlans again wanted s)
    \<and> iface_rel (bridge_add_ports_raw env fmt vlans again wanted s) \<subseteq> iface_rel s \<union> wanted_pairs (map snd wanted)
    \<and> (env_accepts env \<longrightarrow> snd ` wanted_pairs (map snd wanted) \<subseteq> snd ` iface_rel (bridge_add_ports_raw env fmt vlans again wanted s))
    \<and> br_name (bridge_add_ports_raw env fmt vlans again wanted s) = br_name s
    \<and> br_cfg (bridge_add_ports_raw env fmt vlans again wanted s) = br_cfg s"
  using assms
proof (induction wanted arbitrary: s)
  case (Cons w wanted)
  obtain k c where w: "w = (k, c)" by fastforce
  define s1 where "s1 = add_iface_list env fmt vlans again c (pc_interfaces c) s"
  note a = add_iface_list_ok [OF Cons.prems(1,2), of fmt vlans again c "pc_interfaces c", folded s1_def]
  have ih: "ports_ok env (bridge_add_ports_raw env fmt vlans again wanted s1)
    \<and> iface_rel s1 \<subseteq> iface_rel (bridge_add_ports_raw env fmt vlans again wanted s1)
    \<and> iface_rel (bridge_add_ports_raw env fmt vlans again wanted s1) \<subseteq> iface_rel s1 \<union> wanted_pairs (map snd wanted)
    \<and> (env_accepts env \<longrightarrow> snd ` wanted_pairs (map snd wanted) \<subseteq> snd ` iface_rel (bridge_add_ports_raw env fmt vlans again wanted s1))
    \<and> br_name (bridge_add_ports_raw env fmt vlans again wanted s1) = br_name s1
    \<and> br_cfg (bridge_add_ports_raw env fmt vlans again wanted s1) = br_cfg s1"
    using a Cons.prems by (intro Cons.IH) auto
  have e: "bridge_add_ports_raw env fmt vlans again (w # wanted) s = bridge_add_ports_raw env fmt vlans again wanted s1"
    by (simp add: w s1_def)
  have p: "wanted_pairs (map snd (w # wanted)) = {pc_name c} \<times> ic_name ` set (pc_interfaces c) \<union> wanted_pairs (map snd wanted)"
    by (auto simp: wanted_pairs_def w)
  have "env_accepts env \<longrightarrow> ic_name ` set (pc_interfaces c) \<subseteq> snd ` iface_rel (bridge_add_ports_raw env fmt vlans again wanted s1)"
    using a ih by (meson image_mono subset_trans)
  with a ih show ?case unfolding e p by (auto simp: image_Un)
qed (auto simp: wanted_pairs_def)

section \<open>The pass over the ofproto dump\<close>

lemma log_iface_destroy_raw: "set (sw_log s) \<subseteq> set (sw_log (iface_destroy_raw env i s))"
  by (auto simp: iface_destroy_raw_def log_ev_def Let_def)

lemma log_destroy_iface_list: "set (sw_log s) \<subseteq> set (sw_log (destroy_iface_list env ns s))"
proof (induction ns arbitrary: s)
  case (Cons n ns)
  show ?case
  proof (cases "iface_lookup_br s n")
    case (Some i)
    with subset_trans [OF log_iface_destroy_raw Cons.IH] show ?thesis by simp
  qed (simp add: Cons.IH)
qed simp

lemma log_port_destroy: "set (sw_log s) \<subseteq> set (sw_log (port_destroy env p s))"
proof -
  let ?s = "if br_ofproto s then log_ev (BundleUnregister (br_name s) (bp_name p)) s else s"
  have "set (sw_log s) \<subseteq> set (sw_log ?s)" by (auto simp: log_ev_def)
  also have "\<dots> \<subseteq> set (sw_log (destroy_iface_list env (bp_ifaces p) ?s))" by (rule log_destroy_iface_list)
  finally show ?thesis by (simp add: port_destroy_def Let_def)
qed

lemma log_destroy_if_empty: "set (sw_log s) \<subseteq> set (sw_log (destroy_if_empty env n s))"
  using log_port_destroy by (auto simp: destroy_if_empty_def split: option.split)

lemma log_remove_vanished: "set (sw_log s) \<subseteq> set (sw_log (remove_vanished env seen ps s))"
proof (induction ps arbitrary: s)
  case (Cons p ps)
  from subset_trans [OF subset_trans [OF log_destroy_iface_list log_destroy_if_empty] Cons.IH] show ?case by simp
qed simp

lemma ofproto_port_dels:
  "sw_log (ofproto_port_dels ps s) = sw_log s @ map (PortDel (br_name s)) ps \<and> same_tables s (ofproto_port_dels ps s)
    \<and> br_iface_by_name (ofproto_port_dels ps s) = br_iface_by_name s
    \<and> br_name (ofproto_port_dels ps s) = br_name s \<and> br_cfg (ofproto_port_dels ps s) = br_cfg s"
proof (induction ps arbitrary: s)
  case (Cons p ps)
  from Cons.IH [of "log_ev (PortDel (br_name s) p) s"] show ?case
    by (auto simp: log_ev_def intro: same_tables_trans [OF same_tables_log_ev])
qed simp

lemma remove_vanished_port:
  fixes env p seen s
  defines "s1 \<equiv> destroy_iface_list env (filter (\<lambda>n. n \<notin> set seen) (bp_ifaces p)) s"
  assumes ok: "ports_ok env s" and o: "owns s (bp_name p) (bp_ifaces p)"
  shows "ports_ok env (destroy_if_empty env (bp_name p) s1)
    \<and> br_iface_by_name (destroy_if_empty env (bp_name p) s1)
        = filter (\<lambda>x. bi_port x = bp_name p \<longrightarrow> bi_name x \<in> set seen) (br_iface_by_name s)
    \<and> br_name (destroy_if_empty env (bp_name p) s1) = br_name s \<and> br_cfg (destroy_if_empty env (bp_name p) s1) = br_cfg s"
proof -
  have "ports_wf env s" using ok by (simp add: ports_ok_def)
  note d = destroy_iface_list [OF this, of "filter (\<lambda>n. n \<notin> set seen) (bp_ifaces p)", folded s1_def]
  have wf1: "ports_wf env s1" using d by simp
  note e = destroy_if_empty [OF wf1, of "bp_name p"]
  have i: "br_iface_by_name s1 = filter (\<lambda>x. bi_port x = bp_name p \<longrightarrow> bi_name x \<in> set seen) (br_iface_by_name s)"
    using d o by (auto simp: owns_def intro!: filter_cong)
  have n: "bp_name ` set (br_ports s1) = bp_name ` set (br_ports s)" using d by (metis set_map)
  have "bi_port ` set (br_iface_by_name s) \<subseteq> insert (bp_name p) (bi_port ` set (br_iface_by_name s1))" by (auto simp: i)
  then have "bp_name ` set (br_ports s1) - ({bp_name p} - bi_port ` set (br_iface_by_name s1)) \<subseteq> bi_port ` set (br_iface_by_name s1)"
    unfolding n ports_ok_names [OF ok] by blast
  with d e i show ?thesis by (simp add: ports_ok_def)
qed

lemma remove_vanished:
  assumes "ports_ok env s" "\<forall>p\<in>set ps. owns s (bp_name p) (bp_ifaces p)"
  shows "ports_ok env (remove_vanished env seen ps s)
    \<and> br_iface_by_name (remove_vanished env seen ps s)
        = filter (\<lambda>x. bi_port x \<in> bp_name ` set ps \<longrightarrow> bi_name x \<in> set seen) (br_iface_by_name s)
    \<and> br_name (remove_vanished env seen ps s) = br_name s \<and> br_cfg (remove_vanished env seen ps s) = br_cfg s"
  using assms
proof (induction ps arbitrary: s)
  case (Cons p ps)
  define s1 where "s1 = destroy_if_empty env (bp_name p) (destroy_iface_list env (filter (\<lambda>n. n \<notin> set seen) (bp_ifaces p)) s)"
  have "owns s (bp_name p) (bp_ifaces p)" using Cons.prems(2) by simp
  note r = remove_vanished_port [OF Cons.prems(1) this, of seen, folded s1_def]
  have "\<forall>q\<in>set ps. owns s1 (bp_name q) (bp_ifaces q)" using Cons.prems(2) r by (auto intro: owns_filter)
  note ih = Cons.IH [OF _ this]
  have "remove_vanished env seen (p # ps) s = remove_vanished env seen ps s1" by (simp add: s1_def)
  with ih r show ?case by (auto simp del: remove_vanished.simps intro!: filter_cong)
qed simp

text \<open>
  What the bridge and the VRF variant of the step share: a dumped port is either kept, and then it is an
  interface of the table, or its number is put on the list and the interface of its name goes.
\<close>

locale dumped_ports =
  fixes env :: port_env
    and step :: "string \<times> string \<times> int \<Rightarrow> sw \<Rightarrow> int option \<times> sw"
  assumes step_ok: "\<lbrakk>ports_ok env s; step op s = (d, s')\<rbrakk> \<Longrightarrow> ports_ok env s'"
    and step_ifaces: "\<lbrakk>ports_ok env s; step op s = (d, s')\<rbrakk>
      \<Longrightarrow> br_iface_by_name s' = filter (\<lambda>x. d = None \<or> bi_name x \<noteq> fst op) (br_iface_by_name s)"
    and step_kept: "\<lbrakk>ports_ok env s; step op s = (d, s')\<rbrakk>
      \<Longrightarrow> (if d = None then fst op \<in> bi_name ` set (br_iface_by_name s) else d = Some (snd (snd op)))"
    and step_frame: "\<lbrakk>ports_ok env s; step op s = (d, s')\<rbrakk> \<Longrightarrow> br_name s' = br_name s \<and> br_cfg s' = br_cfg s"
begin

lemma walk_dump_ok:
  assumes "ports_ok env s" "walk_dump step ops s = (del, s')" "distinct (map fst ops)"
  shows "ports_ok env s' \<and> set (br_iface_by_name s') \<subseteq> set (br_iface_by_name s) \<and> br_name s' = br_name s \<and> br_cfg s' = br_cfg s
    \<and> (\<forall>x\<in>set (br_iface_by_name s). bi_name x \<notin> fst ` set ops \<longrightarrow> x \<in> set (br_iface_by_name s'))
    \<and> (\<forall>op\<in>set ops. fst op \<in> bi_name ` set (br_iface_by_name s') \<or> snd (snd op) \<in> set del)"
  using assms
proof (induction ops arbitrary: s del s')
  case (Cons op ops)
  obtain d s1 where s1: "step op s = (d, s1)" by fastforce
  obtain del1 where w: "walk_dump step ops s1 = (del1, s')" "del = (case d of None \<Rightarrow> del1 | Some ofp \<Rightarrow> ofp # del1)"
    using Cons.prems(2) by (auto simp: s1 split: prod.splits)
  note p = step_ok [OF Cons.prems(1) s1] step_ifaces [OF Cons.prems(1) s1] step_kept [OF Cons.prems(1) s1] step_frame [OF Cons.prems(1) s1]
  have "distinct (map fst ops)" using Cons.prems(3) by simp
  note ih = Cons.IH [OF p(1) w(1) this]
  have op: "fst op \<in> bi_name ` set (br_iface_by_name s') \<or> snd (snd op) \<in> set del"
  proof (cases "d = None")
    case True
    with p obtain x where "x \<in> set (br_iface_by_name s1)" "bi_name x = fst op" by auto
    moreover from this have "bi_name x \<notin> fst ` set ops" using Cons.prems(3) by simp
    ultimately show ?thesis using ih by (metis imageI)
  next
    case False
    with p(3) w(2) show ?thesis by auto
  qed
  have "\<forall>op\<in>set ops. fst op \<in> bi_name ` set (br_iface_by_name s') \<or> snd (snd op) \<in> set del"
    using ih w(2) by (auto split: option.splits)
  with op ih p show ?case by auto
qed simp

lemma delete_or_reconfigure_ok:
  assumes ok: "ports_ok env s" and d: "distinct (map fst (ofproto_ports env (sw_log s) (br_name s)))"
  shows "ports_ok env (delete_or_reconfigure env step s)"
    "set (br_iface_by_name (delete_or_reconfigure env step s)) \<subseteq> set (br_iface_by_name s)"
    "bi_name ` set (br_iface_by_name (delete_or_reconfigure env step s)) \<subseteq> fst ` set (ofproto_ports env (sw_log s) (br_name s))"
    "\<And>n t ofp. (n, t, ofp) \<in> set (ofproto_ports env (sw_log s) (br_name s)) \<Longrightarrow>
       n \<notin> bi_name ` set (br_iface_by_name (delete_or_reconfigure env step s)) \<Longrightarrow>
       PortDel (br_name s) ofp \<in> set (sw_log (delete_or_reconfigure env step s))"
    "br_name (delete_or_reconfigure env step s) = br_name s" "br_cfg (delete_or_reconfigure env step s) = br_cfg s"
proof -
  define dump where "dump = ofproto_ports env (sw_log s) (br_name s)"
  obtain del s1 where w: "walk_dump step dump s = (del, s1)" by fastforce
  define s2 where "s2 = ofproto_port_dels del s1"
  define s3 where "s3 = remove_vanished env (map fst dump) (br_ports s2) s2"
  have s3: "delete_or_reconfigure env step s = s3"
    by (simp add: delete_or_reconfigure_def dump_def [symmetric] w s2_def [symmetric] s3_def Let_def)
  note p1 = walk_dump_ok [OF ok w d [folded dump_def]]
  note p2 = ofproto_port_dels [of del s1, folded s2_def]
  have ok2: "ports_ok env s2" using p1 p2 same_tables_wf(2) by blast
  then have "\<forall>p\<in>set (br_ports s2). owns s2 (bp_name p) (bp_ifaces p)"
    by (auto simp: ports_ok_def intro: ports_wf_owns)
  note p3 = remove_vanished [OF ok2 this, of "map fst dump", folded s3_def]
  have "\<forall>x\<in>set (br_iface_by_name s2). bi_port x \<in> bp_name ` set (br_ports s2)" using ports_ok_names [OF ok2] by auto
  with p3 have i: "br_iface_by_name s3 = filter (\<lambda>x. bi_name x \<in> fst ` set dump) (br_iface_by_name s1)"
    using p2 by (auto intro!: filter_cong)
  show "ports_ok env (delete_or_reconfigure env step s)" "br_name (delete_or_reconfigure env step s) = br_name s"
    "br_cfg (delete_or_reconfigure env step s) = br_cfg s" using p1 p2 p3 by (simp_all add: s3)
  show "set (br_iface_by_name (delete_or_reconfigure env step s)) \<subseteq> set (br_iface_by_name s)"
    "bi_name ` set (br_iface_by_name (delete_or_reconfigure env step s)) \<subseteq> fst ` set (ofproto_ports env (sw_log s) (br_name s))"
    using p1 by (auto simp: s3 i dump_def)
  fix n t ofp
  assume "(n, t, ofp) \<in> set (ofproto_ports env (sw_log s) (br_name s))"
    and "n \<notin> bi_name ` set (br_iface_by_name (delete_or_reconfigure env step s))"
  then have o: "(n, t, ofp) \<in> set dump" and n: "n \<notin> bi_name ` set (br_iface_by_name s3)" by (simp_all add: dump_def s3)
  then have "n \<in> fst ` set dump" by force
  with n have "n \<notin> bi_name ` set (br_iface_by_name s1)" unfolding i by force
  with p1 o have "ofp \<in> set del" by fastforce
  then have "PortDel (br_name s) ofp \<in> set (sw_log s2)" using p1 p2 by simp
  then show "PortDel (br_name s) ofp \<in> set (sw_log (delete_or_reconfigure env step s))"
    using log_remove_vanished unfolding s3 s3_def by blast
qed

end

text \<open>The outcomes of a step: the port is unknown, its interface is given up, or it is configured in place.\<close>

lemma set_config_frame:
  assumes "set_config env n m s = (rc, s')"
  shows "br_iface_by_name s' = br_iface_by_name s" "br_name s' = br_name s" "br_cfg s' = br_cfg s"
    "ports_ok env s \<Longrightarrow> ports_ok env s'"
proof -
  have s': "s' = log_ev (DevSetConfig n m) s" using assms by (auto simp: set_config_def)
  show "br_iface_by_name s' = br_iface_by_name s" "br_name s' = br_name s" "br_cfg s' = br_cfg s" by (simp_all add: s')
  show "ports_ok env s \<Longrightarrow> ports_ok env s'" unfolding s' by (simp add: same_tables_wf(2) [OF same_tables_log_ev])
qed

definition dump_outcome :: "port_env \<Rightarrow> string \<times> string \<times> int \<Rightarrow> sw \<Rightarrow> int option \<Rightarrow> sw \<Rightarrow> bool" where
  "dump_outcome env op s d s' \<longleftrightarrow> ports_ok env s' \<and>
     br_iface_by_name s' = filter (\<lambda>x. d = None \<or> bi_name x \<noteq> fst op) (br_iface_by_name s) \<and>
     (if d = None then fst op \<in> bi_name ` set (br_iface_by_name s) else d = Some (snd (snd op))) \<and>
     br_name s' = br_name s \<and> br_cfg s' = br_cfg s"

lemma dump_outcome_unknown:
  assumes "ports_ok env s" "iface_lookup_br s n = None"
  shows "dump_outcome env (n, t, ofp) s (Some ofp) s"
  using assms by (auto simp: dump_outcome_def iface_lookup_br_None intro!: filter_True [symmetric])

lemma dump_outcome_destroyed:
  assumes "ports_ok env s1" "br_iface_by_name s1 = br_iface_by_name s" "br_name s1 = br_name s" "br_cfg s1 = br_cfg s"
    "iface_lookup_br s n = Some i"
  shows "dump_outcome env (n, t, ofp) s (Some ofp) (iface_destroy_br env (Some i) s1)"
  using iface_destroy_br [OF assms(1), of i] assms iface_lookup_br_in [OF assms(5)] by (simp add: dump_outcome_def)

lemma dump_outcome_configured:
  assumes "ports_ok env s" "iface_lookup_br s n = Some i" "set_config env n m s = (rc, s1)"
  shows "dump_outcome env (n, t, ofp) s (if rc \<noteq> 0 then Some ofp else None) (if rc \<noteq> 0 then iface_destroy_br env (Some i) s1 else s1)"
proof (cases "rc = 0")
  case True
  with assms iface_lookup_br_in [OF assms(2)] set_config_frame [OF assms(3)] show ?thesis
    by (auto simp: dump_outcome_def)
next
  case False
  with dump_outcome_destroyed [OF _ _ _ _ assms(2), of env s1] assms(1) set_config_frame [OF assms(3)] show ?thesis by simp
qed

lemma reconfigure_dumped_outcome:
  assumes "ports_ok env s" "reconfigure_dumped env op s = (d, s')"
  shows "dump_outcome env op s d s'"
proof -
  obtain n t ofp where op: "op = (n, t, ofp)" by (cases op)
  show ?thesis
  proof (cases "iface_lookup_br s n")
    case None
    with assms dump_outcome_unknown [OF assms(1) None] show ?thesis by (auto simp: op reconfigure_dumped_def)
  next
    case (Some i)
    obtain rc s1 where c: "set_config env n (ic_options (bi_cfg i)) s = (rc, s1)" by fastforce
    from assms(2) Some c dump_outcome_configured [OF assms(1) Some c, of t ofp] dump_outcome_destroyed [OF assms(1) refl refl refl Some, of t ofp]
    show ?thesis by (auto simp: op reconfigure_dumped_def split: if_splits)
  qed
qed

lemma vrf_reconfigure_dumped_outcome:
  assumes "ports_ok env s" "vrf_reconfigure_dumped env fmt op s = (d, s')"
  shows "dump_outcome env op s d s'"
proof -
  obtain n t ofp where op: "op = (n, t, ofp)" by (cases op)
  show ?thesis
  proof (cases "iface_lookup_br s n")
    case None
    with assms dump_outcome_unknown [OF assms(1) None] show ?thesis by (auto simp: op vrf_reconfigure_dumped_def)
  next
    case (Some i)
    obtain rc s1 where c: "set_config env n (get_subinterface_info fmt (bi_cfg i)) s = (rc, s1)" by fastforce
    from assms(2) Some c dump_outcome_configured [OF assms(1) Some c, of t ofp] reconfigure_dumped_outcome [OF assms(1), of op d s']
    show ?thesis by (auto simp: op vrf_reconfigure_dumped_def split: if_splits)
  qed
qed

interpretation bridge_dump: dumped_ports env "reconfigure_dumped env" for env
  using reconfigure_dumped_outcome [of env] unfolding dump_outcome_def by unfold_locales blast+

interpretation vrf_dump: dumped_ports env "vrf_reconfigure_dumped env fmt" for env fmt
  using vrf_reconfigure_dumped_outcome [of env _ fmt] unfolding dump_outcome_def by unfold_locales blast+

section \<open>The passes together\<close>

lemma snd_bridge_collect_wanted_ports: "\<forall>(k, c)\<in>set (bridge_collect_wanted_ports name b). k = pc_name c"
  using shash_collect_key [of _ _ pc_name "bc_ports b"]
  by (auto simp: bridge_collect_wanted_ports_def Let_def synth_port_def)

lemma iface_wanted_pair:
  assumes "\<forall>(k, c)\<in>set wanted. k = pc_name c" "iface_wanted wanted p n"
  shows "(p, n) \<in> wanted_pairs (map snd wanted)"
proof -
  obtain c where c: "shash_find_data wanted p = Some c" "n \<in> set (new_iface_names c)"
    using assms(2) by (auto simp: iface_wanted_def split: option.splits)
  then have "(p, c) \<in> set wanted" by (auto simp: shash_find_data_def dest: map_of_SomeD)
  moreover from this have "p = pc_name c" using assms(1) by auto
  ultimately show ?thesis using c(2) by (force simp: wanted_pairs_def new_iface_names_def)
qed

definition bridge_port_passes ::
  "port_env \<Rightarrow> (int \<Rightarrow> string) \<Rightarrow> vlan_state list \<Rightarrow> bool \<Rightarrow> port_cfg shash \<Rightarrow> sw \<Rightarrow> sw" where
  "bridge_port_passes env fmt vlans again wanted s =
     bridge_add_ports env fmt vlans again wanted (bridge_delete_or_reconfigure_ports env (bridge_del_ports env wanted s))"

text \<open>
  A concrete device and ofproto layer for the witnesses: every call succeeds, the ofproto layer reports the
  ports \<open>eth0\<close> (number 7) and \<open>gone\<close> (number 9), and a new port gets the number 12.
\<close>

definition sample_port_env :: port_env where
  "sample_port_env = \<lparr>ofproto_port_open_type = (\<lambda>_ t. t),
     ofproto_ports = (\<lambda>_ _. [(''eth0'', ''system'', 7), (''gone'', ''system'', 9)]),
     ofproto_port_add = (\<lambda>_ _ _ _. (0, 12)), pe_is_reserved_name = (\<lambda>_. False), pe_open = (\<lambda>_ _ _. 0),
     pe_set_etheraddr = (\<lambda>_ _ _. 0), pe_set_hw_intf_info = (\<lambda>_ _ _. 0), pe_set_config = (\<lambda>_ _ _. 0),
     pe_get_change_seq = (\<lambda>_ _. 1), pe_get_status = (\<lambda>_ _. None), pe_get_flags = (\<lambda>_ _. None),
     pe_get_carrier = (\<lambda>_ _. True), pe_get_carrier_resets = (\<lambda>_ _. 0), pe_get_features = (\<lambda>_ _. None),
     pe_features_to_bps = (\<lambda>_. 0), pe_features_is_full_duplex = (\<lambda>_. True), pe_get_mtu = (\<lambda>_ _. None),
     pe_get_etheraddr = (\<lambda>_ _. None), pe_get_stats = (\<lambda>_ _ _. 0), PE_NETDEV_UP = 1, OFPP_NONE = 65535, OFPP_MAX = 65280,
     INTERFACE_TYPE_SYSTEM = ''system'', INTERFACE_TYPE_LOOPBACK = ''loopback'', INTERFACE_TYPE_INTERNAL = ''internal'',
     INTERFACE_TYPE_VLANSUBINT = ''vlansubint'', HW_INTF_INFO_SPLIT_PARENT = ''split_parent''\<rparr>"

definition sample_iface_cfg :: "string \<Rightarrow> iface_cfg" where
  "sample_iface_cfg n = (synth_iface n)\<lparr>ic_type := ''system'', ic_synthetic := False\<rparr>"

definition sample_port_cfg :: "string \<Rightarrow> string list \<Rightarrow> port_cfg" where
  "sample_port_cfg n is = (synth_port n)\<lparr>pc_interfaces := map sample_iface_cfg is\<rparr>"

definition sample_br_iface :: "string \<Rightarrow> string \<Rightarrow> int \<Rightarrow> br_iface" where
  "sample_br_iface n p q = \<lparr>bi_name = n, bi_port = p, bi_ofp_port = q, bi_type = ''system'', bi_cfg = sample_iface_cfg n, bi_change_seq = 0\<rparr>"

definition sample_bridge_cfg :: bridge_cfg where
  "sample_bridge_cfg = \<lparr>bc_name = ''br0'', bc_datapath_type = [], bc_ports = [sample_port_cfg ''p0'' [''eth0'', ''eth2'']],
     bc_controllers = [], bc_vlans = [], bc_other_config = []\<rparr>"

definition sample_sw :: sw where
  "sample_sw = \<lparr>br_name = ''br0'', br_type = [], br_default_ea = [], br_cfg = Some sample_bridge_cfg, br_ofproto = True,
     br_ports = [\<lparr>bp_name = ''p0'', bp_cfg = None, bp_ifaces = [''eth0''], bond_hw_handle = -1\<rparr>,
                 \<lparr>bp_name = ''p1'', bp_cfg = None, bp_ifaces = [''eth1''], bond_hw_handle = -1\<rparr>],
     br_iface_by_name = [sample_br_iface ''eth0'' ''p0'' 7, sample_br_iface ''eth1'' ''p1'' 8],
     br_ifaces = [(7, ''eth0''), (8, ''eth1'')], sw_log = [], sw_stats_blocks = blocks_boot\<rparr>"

lemma sample_sw_ok: "ports_ok sample_port_env sample_sw"
  by (auto simp: ports_ok_def ports_wf_def iface_rel_def port_rel_Union sample_sw_def sample_br_iface_def sample_port_env_def)

lemma sample_port_env_laws:
  "ofproto_assigns sample_port_env" "env_accepts sample_port_env"
  "\<forall>lg n. distinct (map fst (ofproto_ports sample_port_env lg n))"
  by (simp_all add: ofproto_assigns_def env_accepts_def sample_port_env_def)

lemma sample_wanted:
  "bridge_collect_wanted_ports ''br0'' sample_bridge_cfg = [(''p0'', sample_port_cfg ''p0'' [''eth0'', ''eth2''])]"
  by (simp add: bridge_collect_wanted_ports_def shash_collect_def shash_add_once_def sample_bridge_cfg_def
      bridge_get_controllers_def sample_port_cfg_def synth_port_def Let_def)

lemma sample_iface_names: "new_iface_names (sample_port_cfg ''p0'' [''eth0'', ''eth2'']) = [''eth0'', ''eth2'']"
  by (simp add: new_iface_names_def sample_port_cfg_def sample_iface_cfg_def synth_iface_def)

lemma snd_wanted_pairs: "snd ` wanted_pairs cs = (\<Union>p\<in>set cs. ic_name ` set (pc_interfaces p))"
  by (force simp: wanted_pairs_def)

text \<open>
  C20: After the three passes of a reconfiguration over the ports of a bridge the two indexes of interfaces and
  the list of ports agree and no port is empty; every interface is listed by the Port row of its port; and when
  the device layer accepts all of them, the interfaces are exactly those the Port rows ask for.  Hypotheses:
  the ofproto layer assigns a port number when it reports success, and its port names are unique.
\<close>

theorem ports_follow_database:
  assumes "ports_ok env s" "ofproto_assigns env" "\<forall>lg n. distinct (map fst (ofproto_ports env lg n))"
  shows "ports_ok env (bridge_port_passes env fmt vlans again (bridge_collect_wanted_ports name b) s)
    \<and> iface_rel (bridge_port_passes env fmt vlans again (bridge_collect_wanted_ports name b) s)
        \<subseteq> wanted_pairs (map snd (bridge_collect_wanted_ports name b))
    \<and> (env_accepts env \<longrightarrow> snd ` iface_rel (bridge_port_passes env fmt vlans again (bridge_collect_wanted_ports name b) s)
        = snd ` wanted_pairs (map snd (bridge_collect_wanted_ports name b)))"
proof -
  define wanted where "wanted = bridge_collect_wanted_ports name b"
  define s1 where "s1 = bridge_del_ports env wanted s"
  define s2 where "s2 = bridge_delete_or_reconfigure_ports env s1"
  define s3 where "s3 = bridge_add_ports_raw env fmt vlans again wanted s2"
  have k: "\<forall>(k, c)\<in>set wanted. k = pc_name c" unfolding wanted_def by (rule snd_bridge_collect_wanted_ports)
  note p1 = bridge_del_ports_ok [OF assms(1), of wanted, folded s1_def]
  have "distinct (map fst (ofproto_ports env (sw_log s1) (br_name s1)))" using assms(3) by blast
  note p2 = bridge_dump.delete_or_reconfigure_ok [OF p1(1) this, folded bridge_delete_or_reconfigure_ports_def, folded s2_def]
  note p3 = bridge_add_ports_ok [OF p2(1) assms(2) k, of fmt vlans again, folded s3_def]
  have "iface_rel s2 \<subseteq> iface_rel s1" using p2(2) by (auto simp: iface_rel_def)
  moreover have "iface_rel s1 \<subseteq> wanted_pairs (map snd wanted)" using p1(2) iface_wanted_pair [OF k] by auto
  ultimately have "iface_rel s3 \<subseteq> wanted_pairs (map snd wanted)" using p3 by blast
  moreover from this have "env_accepts env \<longrightarrow> snd ` iface_rel s3 = snd ` wanted_pairs (map snd wanted)"
    using p3 by (meson image_mono subset_antisym)
  moreover have "bridge_port_passes env fmt vlans again wanted s = s3"
    by (simp add: bridge_port_passes_def bridge_add_ports_def s3_def s2_def s1_def)
  ultimately show ?thesis unfolding wanted_def [symmetric] using p3 by simp
qed

theorem ports_follow_database_witness:
  "ports_ok sample_port_env (bridge_port_passes sample_port_env (\<lambda>_. []) [] False (bridge_collect_wanted_ports ''br0'' sample_bridge_cfg) sample_sw)
   \<and> snd ` iface_rel (bridge_port_passes sample_port_env (\<lambda>_. []) [] False (bridge_collect_wanted_ports ''br0'' sample_bridge_cfg) sample_sw)
       = {''eth0'', ''eth2''}"
proof -
  have "snd ` wanted_pairs (map snd (bridge_collect_wanted_ports ''br0'' sample_bridge_cfg)) = {''eth0'', ''eth2''}"
    by (simp add: snd_wanted_pairs sample_wanted sample_port_cfg_def sample_iface_cfg_def synth_iface_def)
  then show ?thesis
    using ports_follow_database [OF sample_sw_ok sample_port_env_laws(1,3), of "\<lambda>_. []" "[]" False "''br0''" sample_bridge_cfg]
      sample_port_env_laws(2) by simp
qed

text \<open>
  bridge_del_ports keeps the tables consistent and leaves exactly the interfaces whose port is still
  wanted and whose Port row still lists them with a type other than null.
\<close>

theorem del_ports_keeps_wanted:
  assumes "ports_ok env s"
  shows "ports_ok env (bridge_del_ports env wanted s)
    \<and> iface_rel (bridge_del_ports env wanted s) =
        {(p, n) \<in> iface_rel s. case shash_find_data wanted p of None \<Rightarrow> False | Some c \<Rightarrow> n \<in> set (new_iface_names c)}"
  using bridge_del_ports_ok(1,2) [OF assms, of wanted] by (simp add: iface_wanted_def)

theorem del_ports_keeps_wanted_witness:
  "iface_rel (bridge_del_ports sample_port_env (bridge_collect_wanted_ports ''br0'' sample_bridge_cfg) sample_sw) = {(''p0'', ''eth0'')}"
proof -
  have "iface_rel sample_sw = {(''p0'', ''eth0''), (''p1'', ''eth1'')}"
    by (simp add: iface_rel_def sample_sw_def sample_br_iface_def)
  moreover have "{(p, n) \<in> {(''p0'', ''eth0''), (''p1'', ''eth1'')}. case shash_find_data [(''p0'', sample_port_cfg ''p0'' [''eth0'', ''eth2''])] p of
      None \<Rightarrow> False | Some c \<Rightarrow> n \<in> set (new_iface_names c)} = {(''p0'', ''eth0'')}"
    by (auto simp: shash_find_data_def sample_iface_names split: if_splits)
  ultimately show ?thesis
    using del_ports_keeps_wanted [OF sample_sw_ok, of "bridge_collect_wanted_ports ''br0'' sample_bridge_cfg", unfolded sample_wanted]
    by (simp only: sample_wanted)
qed

text \<open>
  C21: The pass over the ofproto dump leaves no interface that the dump does not report, and every reported
  port that has no interface afterwards is deleted from the ofproto layer, for bridges and for VRFs.
\<close>

theorem dump_and_tables_agree:
  assumes "ports_ok env s" "distinct (map fst (ofproto_ports env (sw_log s) (br_name s)))" "f = reconfigure_dumped env \<or> f = vrf_reconfigure_dumped env fmt"
  shows "ports_ok env (delete_or_reconfigure env f s)
    \<and> bi_name ` set (br_iface_by_name (delete_or_reconfigure env f s)) \<subseteq> fst ` set (ofproto_ports env (sw_log s) (br_name s))
    \<and> (\<forall>(n, t, ofp)\<in>set (ofproto_ports env (sw_log s) (br_name s)).
         n \<in> bi_name ` set (br_iface_by_name (delete_or_reconfigure env f s))
         \<or> PortDel (br_name s) ofp \<in> set (sw_log (delete_or_reconfigure env f s)))"
  using assms(3)
proof
  assume f: "f = reconfigure_dumped env"
  note d = bridge_dump.delete_or_reconfigure_ok [OF assms(1,2), folded f]
  show ?thesis using d(1,3) d(4) by blast
next
  assume f: "f = vrf_reconfigure_dumped env fmt"
  note d = vrf_dump.delete_or_reconfigure_ok [where fmt = fmt, OF assms(1,2), folded f]
  show ?thesis using d(1,3) d(4) by blast
qed

theorem dump_and_tables_agree_witness:
  "bi_name ` set (br_iface_by_name (delete_or_reconfigure sample_port_env (reconfigure_dumped sample_port_env) sample_sw)) \<subseteq> {''eth0'', ''gone''}
   \<and> PortDel ''br0'' 9 \<in> set (sw_log (delete_or_reconfigure sample_port_env (reconfigure_dumped sample_port_env) sample_sw))"
proof -
  let ?f = "reconfigure_dumped sample_port_env"
  have d: "ofproto_ports sample_port_env (sw_log sample_sw) ''br0'' = [(''eth0'', ''system'', 7), (''gone'', ''system'', 9)]"
    "br_name sample_sw = ''br0''"
    by (simp_all add: sample_port_env_def sample_sw_def)
  note a = dump_and_tables_agree [OF sample_sw_ok sample_port_env_laws(3) [rule_format] disjI1 [OF refl], unfolded d]
  have "set (br_iface_by_name (delete_or_reconfigure sample_port_env ?f sample_sw)) \<subseteq> set (br_iface_by_name sample_sw)"
    by (rule bridge_dump.delete_or_reconfigure_ok(2) [OF sample_sw_ok sample_port_env_laws(3) [rule_format]])
  then have "''gone'' \<notin> bi_name ` set (br_iface_by_name (delete_or_reconfigure sample_port_env ?f sample_sw))"
    by (auto simp: sample_sw_def sample_br_iface_def)
  with a show ?thesis by simp
qed


end
