(* ===== verification/Mac_Learning.thy ===== *)
theory Mac_Learning
  imports Blocks Plugin_Extensions Ports_Props
begin

text \<open>
  The MAC learning plugin, mac-learning-plugin/src/mac-learning-plugin.c.  It copies the entries that the
  ASIC plugin has learned into the MAC table of the database, and flushes learned entries in hardware
  when a VLAN or a port is deleted or when the database asks for it.

  The ASIC plugin is found through the extension registry; \<open>as_asic\<close> is the cast of its \<open>void *\<close>.  A flush is
  a call of the plugin, whose result is only logged, so the model records the call.  MAC rows are written
  within one transaction; which pending writes the index shows is a parameter, \<open>mac_index\<close>.  The columns
  that are written and the calls form the log \<open>ml_log\<close>.
\<close>

section \<open>Data\<close>

datatype mac_flush_options =
    L2MAC_FLUSH_BY_VLAN
  | L2MAC_FLUSH_BY_PORT
  | L2MAC_FLUSH_BY_PORT_VLAN
  | L2MAC_FLUSH_BY_TRUNK
  | L2MAC_FLUSH_BY_TRUNK_VLAN
  | L2MAC_FLUSH_ALL

definition PORT_NAME_SIZE :: nat where "PORT_NAME_SIZE = 16"

text \<open>\<open>port_name\<close> is the array of 16 characters, not a C string.\<close>

record mac_flush_params =
  fp_vlan :: int
  fp_port_name :: string
  fp_tgid :: int
  fp_options :: mac_flush_options
  fp_flags :: int

datatype mac_event = MLEARN_UNDEFINED | MLEARN_ADD | MLEARN_DEL | MLEARN_MOVE

record mlearn_hmap_node =
  ml_vlan :: int
  ml_mac :: "48 word"
  ml_oper :: mac_event
  ml_port_name :: string

text \<open>
  A row of the MAC table with its identity; \<open>mr_vlan\<close> is the id of the VLAN row \<open>mac_vlan\<close> refers to.
\<close>

record mac_row =
  mr_uuid :: nat
  mr_addr :: string
  mr_from :: string
  mr_vlan :: "int option"
  mr_bridge :: "string option"
  mr_port :: "string option"

datatype mac_write =
    Mac_set mac_row "string option" "string option"
  | Mac_insert string int "string option" "string option"
  | Mac_delete mac_row

record asic_plugin_interface =
  get_mac_learning_hmap :: "(unit \<Rightarrow> mlearn_hmap_node list option) option"
  asic_l2_addr_flush :: "(mac_flush_params \<Rightarrow> int) option"

datatype ml_event =
    Flush mac_flush_params
  | MacTxn "mac_write list"
  | ClearVlanMacsInvalid string txn_status
  | ClearPortMacsInvalid string txn_status
  | PollTimer

record port_flush_row =
  pf_name :: string
  pf_macs_invalid :: "bool list"
  pf_macs_invalid_on_vlans :: "int option list"
  pf_status :: smap
  pf_modified :: bool

record vlan_flush_row =
  vf_name :: string
  vf_id :: int
  vf_macs_invalid :: "bool list"
  vf_modified :: bool

record flush_view =
  fv_seqno :: u32
  fv_ports :: "port_flush_row list"
  fv_ports_deleted :: bool
  fv_vlans :: "vlan_flush_row list"
  fv_vlans_deleted :: bool
  fv_port_macs_invalid_modified :: bool
  fv_port_macs_invalid_on_vlans_modified :: bool
  fv_vlan_macs_invalid_modified :: bool

record 'i mlearn =
  ml_idl :: bool
  ml_columns :: "idl_call list"
  ml_by_macFrom :: "string list option"
  p_asic_plugin_interface :: "asic_plugin_interface option"
  maclearn_idl_seqno :: u32
  maclearn_seqno :: u64
  ml_ext :: "'i extensions"
  ml_log :: "ml_event list"

record 'i ml_env =
  as_asic :: "'i \<Rightarrow> asic_plugin_interface"
  shash_one :: u64
  eth_addr_str :: "48 word \<Rightarrow> string"
  mac_index :: "mac_write list \<Rightarrow> string \<Rightarrow> mac_row list"
  ml_txn_commit :: "ml_event list \<Rightarrow> txn_status"
  ml_txn_create :: "ml_event list \<Rightarrow> bool"
  FROM_DYNAMIC :: string
  LAG_PORT_NAME_PREFIX :: string
  LAG_PORT_NAME_PREFIX_LENGTH :: nat
  PORT_STATUS_BOND_HW_HANDLE :: string

definition ml_event_log :: "ml_event \<Rightarrow> 'i mlearn \<Rightarrow> 'i mlearn" where
  "ml_event_log e s = s\<lparr>ml_log := ml_log s @ [e]\<rparr>"

section \<open>Start and end\<close>

definition MAC_LEARNING_PLUGIN_INTERFACE_NAME :: string where
  "MAC_LEARNING_PLUGIN_INTERFACE_NAME = ''MAC_LEARNING_PLUGIN''"

definition get_plugin_asic_interface :: "'i ml_env \<Rightarrow> 'i mlearn \<Rightarrow> asic_plugin_interface option \<times> 'i mlearn" where
  "get_plugin_asic_interface env s =
     (case p_asic_plugin_interface s of
        Some a \<Rightarrow> (Some a, s)
      | None \<Rightarrow>
          let ((rc, e), ext) = find_plugin_extension (shash_one env) ''ASIC_PLUGIN'' 1 1 (ml_ext s);
              s = s\<lparr>ml_ext := ext\<rparr>
          in (case e of
                Some e \<Rightarrow> if rc = 0
                          then let a = map_option (as_asic env) (plugin_interface e) in (a, s\<lparr>p_asic_plugin_interface := a\<rparr>)
                          else (None, s)
              | None \<Rightarrow> (None, s)))"

text \<open>\<open>monitor\<close> and \<open>flush\<close> are the two callbacks; the return codes of the registrations are ignored.\<close>

definition mlearn_init :: "'i ml_env \<Rightarrow> 'i \<Rightarrow> 'h \<Rightarrow> 'h \<Rightarrow> 'i extensions \<times> 'h blocks \<Rightarrow> 'i extensions \<times> 'h blocks" where
  "mlearn_init env self monitor flush st =
     (let (ext, bl) = st;
          ext = snd (register_plugin_extension (shash_one env)
                  (Some \<lparr>plugin_name = MAC_LEARNING_PLUGIN_INTERFACE_NAME, major = 1, minor = 0, plugin_interface = Some self\<rparr>) ext);
          bl = snd (register_reconfigure_callback (Some monitor) (block_num BLK_BRIDGE_INIT) NO_PRIORITY bl);
          bl = snd (register_reconfigure_callback (Some flush) (block_num BLK_BR_DELETE_PORTS) NO_PRIORITY bl)
      in (ext, bl))"

text \<open>
  The columns of the MAC table that are not reported, and the index \<open>by_macFrom\<close> with its columns, the most significant first; the
  two assertions that the IDL creates the index and the cursor are left out.
\<close>

definition mac_learning_table_monitor :: "bool \<Rightarrow> 'i mlearn \<Rightarrow> 'i mlearn" where
  "mac_learning_table_monitor idl s =
     (if idl
      then s\<lparr>ml_idl := True,
             ml_columns := ml_columns s @
               [Omit_alert ''mac'' ''status'', Omit_alert ''mac'' ''bridge'', Omit_alert ''mac'' ''from'',
                Omit_alert ''mac'' ''mac_vlan'', Omit_alert ''mac'' ''mac_addr'', Omit_alert ''mac'' ''port''],
             ml_by_macFrom := Some [''mac_addr'', ''from'']\<rparr>
      else s)"

text \<open>The columns the plugin writes are silent from then on, unless one was not replicated at all.\<close>

lemma mac_writes_silent:
  assumes "c \<in> set [''bridge'', ''from'', ''mac_vlan'', ''mac_addr'', ''port'']" "Omit ''mac'' c \<notin> set (ml_columns s)"
  shows "column_mode (ml_columns (mac_learning_table_monitor True s)) ''mac'' c Alert = Monitor"
  using assms by (auto simp: column_mode_meet mac_learning_table_monitor_def min_def less_eq_idl_mode_def)

definition mlearn_destroy :: "'i ml_env \<Rightarrow> 'i mlearn \<Rightarrow> 'i mlearn" where
  "mlearn_destroy env s =
     s\<lparr>ml_ext := snd (unregister_plugin_extension (shash_one env) MAC_LEARNING_PLUGIN_INTERFACE_NAME (ml_ext s))\<rparr>"

section \<open>Learned entries\<close>

text \<open>
  Both functions get the writes of the transaction so far and return them with their own.  Rows are visited
  in the order of the index; a row whose \<open>mac_vlan\<close> is not set is skipped.  The rows of the bridge and of
  the port are named; a VRF has none, so \<open>br->cfg\<close> may be NULL.
\<close>

definition same_vlan :: "mlearn_hmap_node \<Rightarrow> mac_row \<Rightarrow> bool" where
  "same_vlan n r \<longleftrightarrow> mr_vlan r = Some (ml_vlan n)"

definition mlearn_plugin_db_add_local_mac_entry ::
  "'i ml_env \<Rightarrow> 'a bridge_scheme list \<Rightarrow> mlearn_hmap_node \<Rightarrow> mac_write list \<Rightarrow> mac_write list" where
  "mlearn_plugin_db_add_local_mac_entry env bridges n w =
     (case get_bridge_from_port_name bridges (ml_port_name n) of
        None \<Rightarrow> w
      | Some (br, port) \<Rightarrow>
          let str = eth_addr_str env (ml_mac n);
              b = map_option bc_name (br_cfg br);
              p = map_option pc_name (bp_cfg port);
              hits = filter (same_vlan n) (mac_index env w str)
          in if hits \<noteq> [] then w @ map (\<lambda>r. Mac_set r b p) hits else w @ [Mac_insert str (ml_vlan n) b p])"

definition mlearn_plugin_db_del_local_mac_entry :: "'i ml_env \<Rightarrow> mlearn_hmap_node \<Rightarrow> mac_write list \<Rightarrow> mac_write list" where
  "mlearn_plugin_db_del_local_mac_entry env n w =
     w @ map Mac_delete (filter (same_vlan n) (mac_index env w (eth_addr_str env (ml_mac n))))"

definition update_entry :: "'i ml_env \<Rightarrow> 'a bridge_scheme list \<Rightarrow> mlearn_hmap_node \<Rightarrow> mac_write list \<Rightarrow> mac_write list" where
  "update_entry env bridges n w =
     (if ml_oper n = MLEARN_ADD \<or> ml_oper n = MLEARN_MOVE
      then mlearn_plugin_db_add_local_mac_entry env bridges n w
      else mlearn_plugin_db_del_local_mac_entry env n w)"

fun update_entries :: "'i ml_env \<Rightarrow> 'a bridge_scheme list \<Rightarrow> mlearn_hmap_node list \<Rightarrow> mac_write list \<Rightarrow> mac_write list" where
  "update_entries env bridges [] w = w"
| "update_entries env bridges (n # ns) w = update_entries env bridges ns (update_entry env bridges n w)"

definition mac_learning_update_db :: "'i ml_env \<Rightarrow> 'a bridge_scheme list \<Rightarrow> 'i mlearn \<Rightarrow> 'i mlearn" where
  "mac_learning_update_db env bridges s =
     (if \<not> ml_idl s then s
      else
        let (a, s) = get_plugin_asic_interface env s in
        case a of
          None \<Rightarrow> s
        | Some a \<Rightarrow>
            (case get_mac_learning_hmap a of
               None \<Rightarrow> s
             | Some f \<Rightarrow>
                 (case f () of
                    None \<Rightarrow> s
                  | Some nodes \<Rightarrow>
                      if \<not> ml_txn_create env (ml_log s) then s
                      else ml_event_log (MacTxn (update_entries env bridges nodes [])) s)))"

definition mac_learning_reconfigure :: "'i ml_env \<Rightarrow> 'a bridge_scheme list \<Rightarrow> u64 \<Rightarrow> 'i mlearn \<Rightarrow> 'i mlearn" where
  "mac_learning_reconfigure env bridges seq s =
     (if seq \<noteq> maclearn_seqno s then mac_learning_update_db env bridges (s\<lparr>maclearn_seqno := seq\<rparr>) else s)"

section \<open>Flushing\<close>

definition flush_zero :: mac_flush_params where
  "flush_zero = \<lparr>fp_vlan = 0, fp_port_name = replicate PORT_NAME_SIZE (CHR 0x00), fp_tgid = 0,
     fp_options = L2MAC_FLUSH_BY_VLAN, fp_flags = 0\<rparr>"

definition strncpy_name :: "string \<Rightarrow> string" where
  "strncpy_name s = take PORT_NAME_SIZE (s @ replicate PORT_NAME_SIZE (CHR 0x00))"

definition asic_flush :: "asic_plugin_interface \<Rightarrow> mac_flush_params \<Rightarrow> 'i mlearn \<Rightarrow> 'i mlearn" where
  "asic_flush a p s = (case asic_l2_addr_flush a of None \<Rightarrow> s | Some _ \<Rightarrow> ml_event_log (Flush p) s)"

definition is_lag :: "'i ml_env \<Rightarrow> string \<Rightarrow> bool" where
  "is_lag env n \<longleftrightarrow> take (LAG_PORT_NAME_PREFIX_LENGTH env) n = take (LAG_PORT_NAME_PREFIX_LENGTH env) (LAG_PORT_NAME_PREFIX env)"

text \<open>
  The flush of a port, of one of its VLANs if \<open>vid\<close> is given.  A LAG is flushed by its hardware handle, and not
  at all while it has none.
\<close>

definition port_flush_params :: "'i ml_env \<Rightarrow> string \<Rightarrow> int \<Rightarrow> int option \<Rightarrow> mac_flush_params option" where
  "port_flush_params env name handle vid =
     (let p = flush_zero\<lparr>fp_port_name := strncpy_name name, fp_vlan := (case vid of None \<Rightarrow> 0 | Some v \<Rightarrow> v)\<rparr> in
      if is_lag env name
      then if handle \<noteq> -1
           then Some (p\<lparr>fp_options := (if vid = None then L2MAC_FLUSH_BY_TRUNK else L2MAC_FLUSH_BY_TRUNK_VLAN), fp_tgid := handle\<rparr>)
           else None
      else Some (p\<lparr>fp_options := (if vid = None then L2MAC_FLUSH_BY_PORT else L2MAC_FLUSH_BY_PORT_VLAN)\<rparr>))"

definition flush_opt :: "asic_plugin_interface \<Rightarrow> mac_flush_params option \<Rightarrow> 'i mlearn \<Rightarrow> 'i mlearn" where
  "flush_opt a p s = (case p of None \<Rightarrow> s | Some p \<Rightarrow> asic_flush a p s)"

fun flush_vlan_list :: "asic_plugin_interface \<Rightarrow> vlan_row shash \<Rightarrow> vlan list \<Rightarrow> 'i mlearn \<Rightarrow> 'i mlearn" where
  "flush_vlan_list a sh [] s = s"
| "flush_vlan_list a sh (v # vs) s =
     flush_vlan_list a sh vs
       (case shash_find_data sh (vl_name v) of
          None \<Rightarrow> asic_flush a (flush_zero\<lparr>fp_options := L2MAC_FLUSH_BY_VLAN, fp_vlan := vl_vid v\<rparr>) s
        | Some _ \<Rightarrow> s)"

definition mac_flush_deleted_vlans ::
  "'i ml_env \<Rightarrow> ('a bridge_scheme \<times> vlan list) option \<Rightarrow> 'i mlearn \<Rightarrow> fault + 'i mlearn" where
  "mac_flush_deleted_vlans env br s =
     (let (a, s) = get_plugin_asic_interface env s in
      case a of
        None \<Rightarrow> Inr s
      | Some a \<Rightarrow>
          (case br of
             None \<Rightarrow> Inr s
           | Some (br, vlans) \<Rightarrow>
               (case br_cfg br of
                  None \<Rightarrow> Inl Null_dereference
                | Some cfg \<Rightarrow> Inr (flush_vlan_list a (shash_collect vr_name (bc_vlans cfg)) vlans s))))"

text \<open>Looking a port up in \<open>wanted_ports\<close> also stores the row in the port.\<close>

fun flush_port_list :: "'i ml_env \<Rightarrow> asic_plugin_interface \<Rightarrow> port_cfg shash \<Rightarrow> br_port list \<Rightarrow> 'i mlearn \<Rightarrow> 'i mlearn" where
  "flush_port_list env a wanted [] s = s"
| "flush_port_list env a wanted (p # ps) s =
     flush_port_list env a wanted ps
       (case shash_find_data wanted (bp_name p) of
          None \<Rightarrow> flush_opt a (port_flush_params env (bp_name p) (bond_hw_handle p) None) s
        | Some _ \<Rightarrow> s)"

definition store_wanted :: "port_cfg shash \<Rightarrow> 'a bridge_scheme \<Rightarrow> 'a bridge_scheme" where
  "store_wanted wanted br = br\<lparr>br_ports := map (\<lambda>p. p\<lparr>bp_cfg := shash_find_data wanted (bp_name p)\<rparr>) (br_ports br)\<rparr>"

definition mac_flush_deleted_ports ::
  "'i ml_env \<Rightarrow> port_cfg shash \<Rightarrow> 'a bridge_scheme option \<Rightarrow> 'i mlearn \<Rightarrow> 'a bridge_scheme option \<times> 'i mlearn" where
  "mac_flush_deleted_ports env wanted br s =
     (let (a, s) = get_plugin_asic_interface env s in
      case a of
        None \<Rightarrow> (br, s)
      | Some a \<Rightarrow>
          (case br of
             None \<Rightarrow> (None, s)
           | Some br \<Rightarrow> (Some (store_wanted wanted br), flush_port_list env a wanted (br_ports br) s)))"

definition mac_flush_monitor ::
  "'i ml_env \<Rightarrow> flush_view \<Rightarrow> port_cfg shash \<Rightarrow> ('a bridge_scheme \<times> vlan list) option \<Rightarrow> 'i mlearn
     \<Rightarrow> fault + ('a bridge_scheme option \<times> 'i mlearn)" where
  "mac_flush_monitor env view wanted br s =
     (case (if fv_vlans view \<noteq> [] \<and> fv_vlans_deleted view then mac_flush_deleted_vlans env br s else Inr s) of
        Inl e \<Rightarrow> Inl e
      | Inr s \<Rightarrow> Inr (if fv_ports view \<noteq> [] \<and> fv_ports_deleted view
                      then mac_flush_deleted_ports env wanted (map_option fst br) s else (map_option fst br, s)))"

definition mac_flush_on_vlan :: "'i ml_env \<Rightarrow> vlan_flush_row \<Rightarrow> 'i mlearn \<Rightarrow> 'i mlearn" where
  "mac_flush_on_vlan env row s =
     (let (a, s) = get_plugin_asic_interface env s in
      case a of
        None \<Rightarrow> s
      | Some a \<Rightarrow>
          let s = asic_flush a (flush_zero\<lparr>fp_options := L2MAC_FLUSH_BY_VLAN, fp_vlan := int32 (vf_id row)\<rparr>) s
          in ml_event_log (ClearVlanMacsInvalid (vf_name row) (ml_txn_commit env (ml_log s))) s)"

fun flush_invalid :: "'i ml_env \<Rightarrow> asic_plugin_interface \<Rightarrow> port_flush_row \<Rightarrow> bool list \<Rightarrow> 'i mlearn \<Rightarrow> bool \<times> 'i mlearn" where
  "flush_invalid env a row [] s = (False, s)"
| "flush_invalid env a row (b # bs) s =
     (let s = (if b then flush_opt a (port_flush_params env (pf_name row)
                      (smap_get_int (pf_status row) (PORT_STATUS_BOND_HW_HANDLE env) (-1)) None) s else s);
          (m, s) = flush_invalid env a row bs s
      in (b \<or> m, s))"

fun flush_invalid_on_vlans ::
  "'i ml_env \<Rightarrow> asic_plugin_interface \<Rightarrow> port_flush_row \<Rightarrow> int option list \<Rightarrow> 'i mlearn \<Rightarrow> bool \<times> 'i mlearn" where
  "flush_invalid_on_vlans env a row [] s = (False, s)"
| "flush_invalid_on_vlans env a row (v # vs) s =
     (let s = (case v of
                 None \<Rightarrow> s
               | Some vid \<Rightarrow> flush_opt a (port_flush_params env (pf_name row)
                      (smap_get_int (pf_status row) (PORT_STATUS_BOND_HW_HANDLE env) (-1)) (Some (int32 vid))) s);
          (m, s) = flush_invalid_on_vlans env a row vs s
      in (v \<noteq> None \<or> m, s))"

definition mac_flush_on_port :: "'i ml_env \<Rightarrow> port_flush_row \<Rightarrow> 'i mlearn \<Rightarrow> 'i mlearn" where
  "mac_flush_on_port env row s =
     (let (a, s) = get_plugin_asic_interface env s in
      case a of
        None \<Rightarrow> s
      | Some a \<Rightarrow>
          let (m1, s) = flush_invalid env a row (pf_macs_invalid row) s;
              (m2, s) = flush_invalid_on_vlans env a row (pf_macs_invalid_on_vlans row) s
          in if \<not> m1 \<and> \<not> m2 then s
             else let status = ml_txn_commit env (ml_log s);
                      s = ml_event_log (ClearPortMacsInvalid (pf_name row) status) s
                  in if status = TXN_TRY_AGAIN then ml_event_log PollTimer s else s)"

fun flush_ports :: "'i ml_env \<Rightarrow> port_flush_row list \<Rightarrow> 'i mlearn \<Rightarrow> 'i mlearn" where
  "flush_ports env [] s = s"
| "flush_ports env (r # rs) s = flush_ports env rs (if pf_modified r then mac_flush_on_port env r s else s)"

fun flush_vlans :: "'i ml_env \<Rightarrow> vlan_flush_row list \<Rightarrow> 'i mlearn \<Rightarrow> 'i mlearn" where
  "flush_vlans env [] s = s"
| "flush_vlans env (r # rs) s = flush_vlans env rs (if vf_modified r then mac_flush_on_vlan env r s else s)"

definition l2_addr_flush :: "'i ml_env \<Rightarrow> flush_view \<Rightarrow> 'i mlearn \<Rightarrow> 'i mlearn" where
  "l2_addr_flush env view s =
     (let s = (if fv_port_macs_invalid_modified view \<or> fv_port_macs_invalid_on_vlans_modified view
               then flush_ports env (fv_ports view) s else s)
      in if fv_vlan_macs_invalid_modified view then flush_vlans env (fv_vlans view) s else s)"

definition mac_config_update :: "'i ml_env \<Rightarrow> flush_view \<Rightarrow> 'i mlearn \<Rightarrow> 'i mlearn" where
  "mac_config_update env view s = l2_addr_flush env view s"

definition mlearn_run :: "'i ml_env \<Rightarrow> 'a bridge_scheme list \<Rightarrow> u64 \<Rightarrow> flush_view \<Rightarrow> 'i mlearn \<Rightarrow> int \<times> 'i mlearn" where
  "mlearn_run env bridges seq view s =
     (let s = mac_learning_reconfigure env bridges seq s
      in (0, if fv_seqno view \<noteq> maclearn_idl_seqno s
             then (mac_config_update env view s)\<lparr>maclearn_idl_seqno := fv_seqno view\<rparr> else s))"

section \<open>What a transaction does to the MAC table\<close>

text \<open>
  The effect of committed writes on the table.  \<open>vlan_of\<close> stands for \<open>ops_mac_set_vlan\<close>: the VLAN row with that
  id, if there is one.  \<open>dynamic_rows\<close> are the rows the plugin is responsible for.
\<close>

fun apply_write :: "string \<Rightarrow> (int \<Rightarrow> int option) \<Rightarrow> mac_write \<Rightarrow> mac_row list \<Rightarrow> mac_row list" where
  "apply_write dyn vlan_of (Mac_set r b p) tbl =
     map (\<lambda>x. if mr_uuid x = mr_uuid r then x\<lparr>mr_bridge := b, mr_port := p\<rparr> else x) tbl"
| "apply_write dyn vlan_of (Mac_delete r) tbl = filter (\<lambda>x. mr_uuid x \<noteq> mr_uuid r) tbl"
| "apply_write dyn vlan_of (Mac_insert a v b p) tbl =
     tbl @ [\<lparr>mr_uuid = Suc (fold max (map mr_uuid tbl) 0), mr_addr = a, mr_from = dyn, mr_vlan = vlan_of v, mr_bridge = b, mr_port = p\<rparr>]"

definition apply_writes :: "string \<Rightarrow> (int \<Rightarrow> int option) \<Rightarrow> mac_write list \<Rightarrow> mac_row list \<Rightarrow> mac_row list" where
  "apply_writes dyn vlan_of w tbl = fold (apply_write dyn vlan_of) w tbl"

definition dynamic_rows :: "string \<Rightarrow> mac_row list \<Rightarrow> string \<Rightarrow> int \<Rightarrow> mac_row list" where
  "dynamic_rows dyn tbl a v = filter (\<lambda>r. mr_addr r = a \<and> mr_from r = dyn \<and> mr_vlan r = Some v) tbl"

fun write_key :: "mac_write \<Rightarrow> string \<times> int option" where
  "write_key (Mac_set r b p) = (mr_addr r, mr_vlan r)"
| "write_key (Mac_delete r) = (mr_addr r, mr_vlan r)"
| "write_key (Mac_insert a v b p) = (a, Some v)"

text \<open>
  The index shows the committed rows of every address and VLAN that the transaction has not written yet.
\<close>

definition index_shows :: "'i ml_env \<Rightarrow> mac_row list \<Rightarrow> bool" where
  "index_shows env tbl \<longleftrightarrow> (\<forall>w a v. (a, Some v) \<notin> write_key ` set w \<longrightarrow>
     filter (\<lambda>r. mr_vlan r = Some v) (mac_index env w a) = dynamic_rows (FROM_DYNAMIC env) tbl a v)"

definition node_key :: "'i ml_env \<Rightarrow> mlearn_hmap_node \<Rightarrow> string \<times> int" where
  "node_key env n = (eth_addr_str env (ml_mac n), ml_vlan n)"

text \<open>What the table should hold for the key of a learned entry, and for any other key.\<close>

definition entry_written ::
  "'i ml_env \<Rightarrow> 'a bridge_scheme list \<Rightarrow> mac_row list \<Rightarrow> mlearn_hmap_node \<Rightarrow> mac_row list \<Rightarrow> bool" where
  "entry_written env bridges tbl n rows =
     (if ml_oper n = MLEARN_ADD \<or> ml_oper n = MLEARN_MOVE
      then case get_bridge_from_port_name bridges (ml_port_name n) of
             None \<Rightarrow> rows = dynamic_rows (FROM_DYNAMIC env) tbl (fst (node_key env n)) (snd (node_key env n))
           | Some (br, port) \<Rightarrow>
               rows \<noteq> [] \<and> list_all (\<lambda>r. mr_bridge r = map_option bc_name (br_cfg br) \<and> mr_port r = map_option pc_name (bp_cfg port)) rows
      else rows = [])"

lemma uuid_fresh: "x \<in> set tbl \<Longrightarrow> mr_uuid x < Suc (fold max (map mr_uuid tbl) 0)"
proof -
  have "fold max xs a \<ge> a \<and> (\<forall>x\<in>set xs. x \<le> fold max xs a)" for xs and a :: nat
    by (induction xs arbitrary: a) (auto simp: max_def split: if_splits, fastforce+)
  then show "x \<in> set tbl \<Longrightarrow> mr_uuid x < Suc (fold max (map mr_uuid tbl) 0)" by (simp add: less_Suc_eq_le)
qed

lemma apply_writes_simps [simp]:
  "apply_writes dyn vo [] tbl = tbl" "apply_writes dyn vo (u @ w) tbl = apply_writes dyn vo w (apply_writes dyn vo u tbl)"
  by (simp_all add: apply_writes_def)

lemma apply_deletes: "apply_writes dyn vo (map Mac_delete rs) tbl = filter (\<lambda>x. mr_uuid x \<notin> mr_uuid ` set rs) tbl"
  by (induction rs arbitrary: tbl) (auto simp: apply_writes_def conj_commute cong: conj_cong intro!: filter_cong)

lemma apply_sets:
  "apply_writes dyn vo (map (\<lambda>r. Mac_set r b p) rs) tbl
     = map (\<lambda>x. if mr_uuid x \<in> mr_uuid ` set rs then x\<lparr>mr_bridge := b, mr_port := p\<rparr> else x) tbl"
  by (induction rs arbitrary: tbl) (auto simp: apply_writes_def)

text \<open>
  One entry: on a table where the key still has its committed rows, the writes of the entry give the key
  the right rows and leave all other keys alone.
\<close>

lemma dynamic_rows_uuid:
  assumes "distinct (map mr_uuid T)" "x \<in> set T" "mr_uuid x \<in> mr_uuid ` set (dynamic_rows dyn T a v)"
  shows "mr_addr x = a \<and> mr_from x = dyn \<and> mr_vlan x = Some v"
  using assms by (auto simp: dynamic_rows_def distinct_map dest!: inj_onD)

text \<open>The three kinds of writes for the rows of one address in one VLAN, and what they leave of the other rows.\<close>

lemma other_rows_uuid:
  assumes "distinct (map mr_uuid T)" "(a', v') \<noteq> (a, v)" "x \<in> set T" "mr_addr x = a'" "mr_vlan x = Some v'"
  shows "mr_uuid x \<notin> mr_uuid ` set (dynamic_rows D T a v)"
  using dynamic_rows_uuid [OF assms(1,3), of D a v] assms(2,4,5) by (metis option.inject)

lemma delete_rows_effect:
  assumes d: "distinct (map mr_uuid T)"
    and w_def: "w = map Mac_delete (dynamic_rows D T a v)"
  shows "distinct (map mr_uuid (apply_writes D vo w T))"
    and "dynamic_rows D (apply_writes D vo w T) a' v' = (if (a', v') = (a, v) then [] else dynamic_rows D T a' v')"
proof -
  let ?H = "dynamic_rows D T a v"
  show "distinct (map mr_uuid (apply_writes D vo w T))" using d by (simp add: w_def apply_deletes distinct_map_filter)
  have r: "dynamic_rows D (apply_writes D vo w T) a' v' =
      filter (\<lambda>r. mr_uuid r \<notin> mr_uuid ` set ?H \<and> mr_addr r = a' \<and> mr_from r = D \<and> mr_vlan r = Some v') T"
    unfolding w_def apply_deletes dynamic_rows_def filter_filter ..
  have "dynamic_rows D (apply_writes D vo w T) a' v' = dynamic_rows D T a' v'" if "(a', v') \<noteq> (a, v)"
    unfolding r unfolding dynamic_rows_def [of D T a' v'] using other_rows_uuid [OF d that, of _ D] by (intro filter_cong) blast+
  moreover have "dynamic_rows D (apply_writes D vo w T) a' v' = []" if "(a', v') = (a, v)"
    unfolding r using that by (auto simp: filter_empty_conv dynamic_rows_def)
  ultimately show "dynamic_rows D (apply_writes D vo w T) a' v' = (if (a', v') = (a, v) then [] else dynamic_rows D T a' v')"
    by (cases "(a', v') = (a, v)") (simp_all only: if_True if_False simp_thms)
qed

lemma insert_row_effect:
  assumes "distinct (map mr_uuid T)" "vo v = Some v"
  shows "distinct (map mr_uuid (apply_writes D vo [Mac_insert a v b p] T))"
    and "(a', v') \<noteq> (a, v) \<Longrightarrow> dynamic_rows D (apply_writes D vo [Mac_insert a v b p] T) a' v' = dynamic_rows D T a' v'"
proof -
  have "Suc (fold max (map mr_uuid T) 0) \<notin> mr_uuid ` set T" using uuid_fresh [of _ T] by (metis imageE less_irrefl)
  with assms(1) show "distinct (map mr_uuid (apply_writes D vo [Mac_insert a v b p] T))" by (simp add: apply_writes_def)
  show "(a', v') \<noteq> (a, v) \<Longrightarrow> dynamic_rows D (apply_writes D vo [Mac_insert a v b p] T) a' v' = dynamic_rows D T a' v'"
    using assms(2) by (auto simp: dynamic_rows_def apply_writes_def)
qed

lemma set_rows_effect:
  assumes d: "distinct (map mr_uuid T)"
    and w_def: "w = map (\<lambda>r. Mac_set r b p) (dynamic_rows D T a v)"
  shows "distinct (map mr_uuid (apply_writes D vo w T))"
    and "dynamic_rows D (apply_writes D vo w T) a' v' =
      (if (a', v') = (a, v) then map (\<lambda>r. r\<lparr>mr_bridge := b, mr_port := p\<rparr>) (dynamic_rows D T a v) else dynamic_rows D T a' v')"
proof -
  let ?H = "dynamic_rows D T a v"
  let ?f = "\<lambda>x. if mr_uuid x \<in> mr_uuid ` set ?H then x\<lparr>mr_bridge := b, mr_port := p\<rparr> else x"
  have ap: "apply_writes D vo w T = map ?f T" unfolding w_def by (rule apply_sets)
  show "distinct (map mr_uuid (apply_writes D vo w T))"
    unfolding ap using d by (simp add: comp_def if_distrib [of mr_uuid] cong: if_cong)
  have m: "dynamic_rows D (map ?f T) a' v' = map ?f (dynamic_rows D T a' v')" for a' v'
    by (simp add: dynamic_rows_def filter_map comp_def)
  have "mr_uuid x \<notin> mr_uuid ` set ?H" if "(a', v') \<noteq> (a, v)" "x \<in> set (dynamic_rows D T a' v')" for x
    using other_rows_uuid [OF d that(1)] that(2) by (simp add: dynamic_rows_def)
  then have "map ?f (dynamic_rows D T a' v') = dynamic_rows D T a' v'" if "(a', v') \<noteq> (a, v)" using that by (intro map_idI) simp
  moreover have "map ?f ?H = map (\<lambda>r. r\<lparr>mr_bridge := b, mr_port := p\<rparr>) ?H" by (rule map_cong) simp_all
  ultimately show "dynamic_rows D (apply_writes D vo w T) a' v' =
      (if (a', v') = (a, v) then map (\<lambda>r. r\<lparr>mr_bridge := b, mr_port := p\<rparr>) ?H else dynamic_rows D T a' v')"
    unfolding ap m by (cases "(a', v') = (a, v)") auto
qed

lemma entry_step:
  fixes env :: "'i ml_env" and bridges :: "'a bridge_scheme list"
  assumes ix: "index_shows env tbl" and fresh: "(a, Some v) \<notin> write_key ` set w" and k: "node_key env n = (a, v)"
    and d: "distinct (map mr_uuid T)" and same: "dynamic_rows (FROM_DYNAMIC env) T a v = dynamic_rows (FROM_DYNAMIC env) tbl a v"
    and vo: "vo v = Some v"
  shows "\<exists>w'. update_entry env bridges n w = w @ w' \<and> write_key ` set w' \<subseteq> {(a, Some v)}
    \<and> distinct (map mr_uuid (apply_writes (FROM_DYNAMIC env) vo w' T))
    \<and> entry_written env bridges tbl n (dynamic_rows (FROM_DYNAMIC env) (apply_writes (FROM_DYNAMIC env) vo w' T) a v)
    \<and> (\<forall>a' v'. (a', v') \<noteq> (a, v) \<longrightarrow>
          dynamic_rows (FROM_DYNAMIC env) (apply_writes (FROM_DYNAMIC env) vo w' T) a' v' = dynamic_rows (FROM_DYNAMIC env) T a' v')"
proof -
  let ?D = "FROM_DYNAMIC env"
  let ?H = "dynamic_rows ?D T a v"
  have kk: "eth_addr_str env (ml_mac n) = a" "ml_vlan n = v" using k by (simp_all add: node_key_def)
  have "same_vlan n = (\<lambda>r. mr_vlan r = Some v)" by (simp add: same_vlan_def kk fun_eq_iff)
  with ix fresh same have h: "filter (same_vlan n) (mac_index env w a) = ?H" by (simp add: index_shows_def)
  have hk: "write_key (Mac_delete r) = (a, Some v)" "write_key (Mac_set r b p) = (a, Some v)" if "r \<in> set ?H" for r b p
    using that by (simp_all add: dynamic_rows_def)
  consider "ml_oper n \<noteq> MLEARN_ADD" "ml_oper n \<noteq> MLEARN_MOVE"
    | "ml_oper n = MLEARN_ADD \<or> ml_oper n = MLEARN_MOVE" "get_bridge_from_port_name bridges (ml_port_name n) = None"
    | br port where "ml_oper n = MLEARN_ADD \<or> ml_oper n = MLEARN_MOVE" "get_bridge_from_port_name bridges (ml_port_name n) = Some (br, port)" "?H = []"
    | br port where "ml_oper n = MLEARN_ADD \<or> ml_oper n = MLEARN_MOVE" "get_bridge_from_port_name bridges (ml_port_name n) = Some (br, port)" "?H \<noteq> []"
    by fastforce
  then show ?thesis
  proof cases
    case 1
    then show ?thesis
      using h hk delete_rows_effect [OF d refl, where D = ?D and a = a and v = v and vo = vo]
      by (intro exI [of _ "map Mac_delete ?H"]) (auto simp: update_entry_def mlearn_plugin_db_del_local_mac_entry_def kk entry_written_def)
  next
    case 2
    with d same k show ?thesis
      by (intro exI [of _ "[]"]) (auto simp: update_entry_def mlearn_plugin_db_add_local_mac_entry_def entry_written_def)
  next
    case 3
    let ?w = "[Mac_insert a v (map_option bc_name (br_cfg br)) (map_option pc_name (bp_cfg port))]"
    have "entry_written env bridges tbl n (dynamic_rows ?D (apply_writes ?D vo ?w T) a v)"
      using 3 vo by (simp add: entry_written_def dynamic_rows_def apply_writes_def)
    moreover have "update_entry env bridges n w = w @ ?w"
      using 3 h by (simp add: update_entry_def mlearn_plugin_db_add_local_mac_entry_def kk Let_def)
    ultimately show ?thesis using insert_row_effect [where T = T and vo = vo and v = v, OF d vo] by (intro exI [of _ ?w]) auto
  next
    case 4
    let ?b = "map_option bc_name (br_cfg br)" and ?p = "map_option pc_name (bp_cfg port)"
    let ?w = "map (\<lambda>r. Mac_set r ?b ?p) ?H"
    note eff = set_rows_effect [OF d refl, where vo = vo and D = ?D and a = a and v = v and b = ?b and p = ?p]
    have "entry_written env bridges tbl n (dynamic_rows ?D (apply_writes ?D vo ?w T) a v)"
      using 4 by (auto simp: eff(2) entry_written_def list_all_iff)
    moreover have "update_entry env bridges n w = w @ ?w"
      using 4 h by (simp add: update_entry_def mlearn_plugin_db_add_local_mac_entry_def kk Let_def)
    ultimately show ?thesis using eff hk by (intro exI [of _ ?w]) auto
  qed
qed

lemma update_entries_ok:
  fixes env :: "'i ml_env" and bridges :: "'a bridge_scheme list"
  assumes "index_shows env tbl" "distinct (map (node_key env) ns)" "distinct (map mr_uuid T)"
    "\<forall>n\<in>set ns. (fst (node_key env n), Some (snd (node_key env n))) \<notin> write_key ` set w"
    "\<forall>n\<in>set ns. dynamic_rows (FROM_DYNAMIC env) T (fst (node_key env n)) (snd (node_key env n))
        = dynamic_rows (FROM_DYNAMIC env) tbl (fst (node_key env n)) (snd (node_key env n))"
    "\<forall>n\<in>set ns. vo (ml_vlan n) = Some (ml_vlan n)"
  shows "\<exists>w'. update_entries env bridges ns w = w @ w'
    \<and> (\<forall>n\<in>set ns. entry_written env bridges tbl n
          (dynamic_rows (FROM_DYNAMIC env) (apply_writes (FROM_DYNAMIC env) vo w' T) (fst (node_key env n)) (snd (node_key env n))))
    \<and> (\<forall>a v. (a, v) \<notin> node_key env ` set ns \<longrightarrow>
          dynamic_rows (FROM_DYNAMIC env) (apply_writes (FROM_DYNAMIC env) vo w' T) a v = dynamic_rows (FROM_DYNAMIC env) T a v)"
  using assms
proof (induction ns arbitrary: w T)
  case (Cons n ns)
  let ?D = "FROM_DYNAMIC env"
  obtain a v where k: "node_key env n = (a, v)" by fastforce
  have "vo v = Some v" using Cons.prems(6) k by (auto simp: node_key_def)
  with Cons.prems k obtain w1 where w1: "update_entry env bridges n w = w @ w1" "write_key ` set w1 \<subseteq> {(a, Some v)}"
      "distinct (map mr_uuid (apply_writes ?D vo w1 T))"
      "entry_written env bridges tbl n (dynamic_rows ?D (apply_writes ?D vo w1 T) a v)"
    and frame: "\<And>a' v'. (a', v') \<noteq> (a, v) \<Longrightarrow> dynamic_rows ?D (apply_writes ?D vo w1 T) a' v' = dynamic_rows ?D T a' v'"
    using entry_step [OF Cons.prems(1) _ k Cons.prems(3), of w vo bridges] by auto
  have ne: "node_key env m \<noteq> (a, v)" if "m \<in> set ns" for m using Cons.prems(2) k that by (metis distinct.simps(2) image_eqI list.set_map list.simps(9))
  have f1: "\<forall>m\<in>set ns. (fst (node_key env m), Some (snd (node_key env m))) \<notin> write_key ` set (w @ w1)"
  proof
    fix m assume m: "m \<in> set ns"
    then have "(fst (node_key env m), Some (snd (node_key env m))) \<notin> write_key ` set w" using Cons.prems(4) by simp
    moreover have "(fst (node_key env m), Some (snd (node_key env m))) \<notin> write_key ` set w1"
      using w1(2) ne [OF m] by (auto simp: prod_eq_iff)
    ultimately show "(fst (node_key env m), Some (snd (node_key env m))) \<notin> write_key ` set (w @ w1)" by auto
  qed
  have f2: "\<forall>m\<in>set ns. dynamic_rows ?D (apply_writes ?D vo w1 T) (fst (node_key env m)) (snd (node_key env m))
      = dynamic_rows ?D tbl (fst (node_key env m)) (snd (node_key env m))"
    using frame ne Cons.prems(5) by (metis list.set_intros(2) prod.collapse)
  obtain w2 where w2: "update_entries env bridges ns (w @ w1) = (w @ w1) @ w2"
      "\<forall>m\<in>set ns. entry_written env bridges tbl m
          (dynamic_rows ?D (apply_writes ?D vo w2 (apply_writes ?D vo w1 T)) (fst (node_key env m)) (snd (node_key env m)))"
      "\<forall>a' v'. (a', v') \<notin> node_key env ` set ns \<longrightarrow>
          dynamic_rows ?D (apply_writes ?D vo w2 (apply_writes ?D vo w1 T)) a' v' = dynamic_rows ?D (apply_writes ?D vo w1 T) a' v'"
    using Cons.IH [OF Cons.prems(1) _ w1(3) f1 f2] Cons.prems(2,6) by auto
  have "(a, v) \<notin> node_key env ` set ns" using Cons.prems(2) k by auto
  with w2(3) w1(4) have "entry_written env bridges tbl n (dynamic_rows ?D (apply_writes ?D vo (w1 @ w2) T) a v)" by simp
  with w1(1) w2 frame k show ?case by (intro exI [of _ "w1 @ w2"]) auto
qed simp

section \<open>What is flushed\<close>

lemma asic_flush_sel: "asic_l2_addr_flush a \<noteq> None \<Longrightarrow> asic_flush a p s = ml_event_log (Flush p) s"
  by (auto simp: asic_flush_def)

definition flushes :: "mac_flush_params option list \<Rightarrow> ml_event list" where
  "flushes ps = map Flush (List.map_filter (\<lambda>p. p) ps)"

lemma flushes_simps [simp]: "flushes [] = []" "flushes (None # ps) = flushes ps" "flushes (Some p # ps) = Flush p # flushes ps"
  by (simp_all add: flushes_def List.map_filter_simps)

lemma flush_opt_log: "asic_l2_addr_flush a \<noteq> None \<Longrightarrow>
    flush_opt a p s = s\<lparr>ml_log := ml_log s @ (case p of None \<Rightarrow> [] | Some q \<Rightarrow> [Flush q])\<rparr>"
  by (cases p) (auto simp: flush_opt_def asic_flush_sel ml_event_log_def)

lemma flushes_Cons: "flushes (p # ps) = (case p of None \<Rightarrow> [] | Some q \<Rightarrow> [Flush q]) @ flushes ps"
  by (cases p) simp_all

definition vlan_flush :: "int \<Rightarrow> mac_flush_params" where
  "vlan_flush v = flush_zero\<lparr>fp_options := L2MAC_FLUSH_BY_VLAN, fp_vlan := v\<rparr>"

lemma flush_vlan_list_log:
  assumes "asic_l2_addr_flush a \<noteq> None"
  shows "flush_vlan_list a sh vs s =
    s\<lparr>ml_log := ml_log s @ map (\<lambda>v. Flush (vlan_flush (vl_vid v))) (filter (\<lambda>v. shash_find_data sh (vl_name v) = None) vs)\<rparr>"
  by (induction vs arbitrary: s)
    (auto simp: asic_flush_sel [OF assms] ml_event_log_def vlan_flush_def split: option.split)

lemma flush_port_list_log:
  assumes "asic_l2_addr_flush a \<noteq> None"
  shows "flush_port_list env a wanted ps s =
    s\<lparr>ml_log := ml_log s @ flushes (map (\<lambda>p. port_flush_params env (bp_name p) (bond_hw_handle p) None)
        (filter (\<lambda>p. shash_find_data wanted (bp_name p) = None) ps))\<rparr>"
proof (induction ps arbitrary: s)
  case (Cons p ps)
  then show ?case
    by (cases "shash_find_data wanted (bp_name p)") (simp_all add: flush_opt_log [OF assms] flushes_Cons)
qed simp

definition row_handle :: "'i ml_env \<Rightarrow> port_flush_row \<Rightarrow> int" where
  "row_handle env row = smap_get_int (pf_status row) (PORT_STATUS_BOND_HW_HANDLE env) (-1)"

lemma flush_invalid_log:
  assumes "asic_l2_addr_flush a \<noteq> None"
  shows "flush_invalid env a row bs s = (True \<in> set bs,
    s\<lparr>ml_log := ml_log s @ flushes (map (\<lambda>_. port_flush_params env (pf_name row) (row_handle env row) None) (filter (\<lambda>b. b) bs))\<rparr>)"
proof (induction bs arbitrary: s)
  case (Cons b bs)
  then show ?case
    by (cases b) (simp_all add: flush_opt_log [OF assms] row_handle_def flushes_Cons)
qed simp

lemma flush_invalid_on_vlans_log:
  assumes "asic_l2_addr_flush a \<noteq> None"
  shows "flush_invalid_on_vlans env a row vs s = (list_ex (\<lambda>v. v \<noteq> None) vs,
    s\<lparr>ml_log := ml_log s @ flushes (map (\<lambda>v. port_flush_params env (pf_name row) (row_handle env row) (Some (int32 v))) (List.map_filter (\<lambda>v. v) vs))\<rparr>)"
proof (induction vs arbitrary: s)
  case (Cons v vs)
  show ?case
  proof (cases v)
    case (Some i)
    from Some Cons show ?thesis
      by (simp add: flush_opt_log [OF assms] row_handle_def [symmetric] flushes_Cons List.map_filter_simps)
  qed (simp add: Cons List.map_filter_simps)
qed (simp add: List.map_filter_simps)

section \<open>Properties\<close>

lemma cached_asic: "p_asic_plugin_interface s = Some a \<Longrightarrow> get_plugin_asic_interface env s = (Some a, s)"
  by (simp add: get_plugin_asic_interface_def)

definition sample_asic :: "mlearn_hmap_node list \<Rightarrow> asic_plugin_interface" where
  "sample_asic ns = \<lparr>get_mac_learning_hmap = Some (\<lambda>_. Some ns), asic_l2_addr_flush = Some (\<lambda>_. 0)\<rparr>"

definition sample_mac_row :: "nat \<Rightarrow> int \<Rightarrow> mac_row" where
  "sample_mac_row u v = \<lparr>mr_uuid = u, mr_addr = ''m'', mr_from = ''dynamic'', mr_vlan = Some v, mr_bridge = Some ''br0'', mr_port = Some ''p1''\<rparr>"

definition sample_ml_env :: "unit ml_env" where
  "sample_ml_env = \<lparr>as_asic = (\<lambda>_. sample_asic []), shash_one = 0, eth_addr_str = (\<lambda>m. if m = 1 then ''m'' else ''n''),
     mac_index = (\<lambda>_ a. if a = ''m'' then [sample_mac_row 1 5] else []), ml_txn_commit = (\<lambda>_. TXN_SUCCESS), ml_txn_create = (\<lambda>_. True),
     FROM_DYNAMIC = ''dynamic'', LAG_PORT_NAME_PREFIX = ''lag'', LAG_PORT_NAME_PREFIX_LENGTH = 3, PORT_STATUS_BOND_HW_HANDLE = ''bond_hw_handle''\<rparr>"

definition sample_node :: "48 word \<Rightarrow> int \<Rightarrow> mac_event \<Rightarrow> mlearn_hmap_node" where
  "sample_node m v e = \<lparr>ml_vlan = v, ml_mac = m, ml_oper = e, ml_port_name = ''p0''\<rparr>"

definition sample_mlearn :: "mlearn_hmap_node list \<Rightarrow> unit mlearn" where
  "sample_mlearn ns = \<lparr>ml_idl = True, ml_columns = [], ml_by_macFrom = Some [''mac_addr'', ''from''], p_asic_plugin_interface = Some (sample_asic ns), maclearn_idl_seqno = 0, maclearn_seqno = 0,
     ml_ext = extensions_boot, ml_log = []\<rparr>"

text \<open>
  C23: When the trigger sequence number has changed, mac_learning_reconfigure makes one transaction whose effect on
  the MAC table is exactly that of the learned entries: an added or moved entry on a known port ends with rows that name
  that port and its bridge, any other event leaves no dynamic row of its address and VLAN, and the rows of all other
  addresses and VLANs stay as they were.  Hypotheses: the entries have distinct keys, every VLAN they name has a row,
  row ids are unique, and the index shows the committed rows of keys the transaction has not touched.
\<close>

theorem learned_entries_reach_table:
  assumes "seq \<noteq> maclearn_seqno s" "ml_idl s" "p_asic_plugin_interface s = Some a" "get_mac_learning_hmap a = Some f" "f () = Some nodes"
    "ml_txn_create env (ml_log s)" "index_shows env tbl" "distinct (map (node_key env) nodes)" "distinct (map mr_uuid tbl)"
    "\<forall>n\<in>set nodes. vlan_of (ml_vlan n) = Some (ml_vlan n)"
  shows "\<exists>w. mac_learning_reconfigure env bridges seq s = s\<lparr>maclearn_seqno := seq, ml_log := ml_log s @ [MacTxn w]\<rparr>
    \<and> (\<forall>n\<in>set nodes. entry_written env bridges tbl n
          (dynamic_rows (FROM_DYNAMIC env) (apply_writes (FROM_DYNAMIC env) vlan_of w tbl) (fst (node_key env n)) (snd (node_key env n))))
    \<and> (\<forall>a v. (a, v) \<notin> node_key env ` set nodes \<longrightarrow>
          dynamic_rows (FROM_DYNAMIC env) (apply_writes (FROM_DYNAMIC env) vlan_of w tbl) a v = dynamic_rows (FROM_DYNAMIC env) tbl a v)"
proof -
  obtain w where w: "update_entries env bridges nodes [] = w"
    "\<forall>n\<in>set nodes. entry_written env bridges tbl n
          (dynamic_rows (FROM_DYNAMIC env) (apply_writes (FROM_DYNAMIC env) vlan_of w tbl) (fst (node_key env n)) (snd (node_key env n)))"
    "\<forall>a v. (a, v) \<notin> node_key env ` set nodes \<longrightarrow>
          dynamic_rows (FROM_DYNAMIC env) (apply_writes (FROM_DYNAMIC env) vlan_of w tbl) a v = dynamic_rows (FROM_DYNAMIC env) tbl a v"
    using update_entries_ok [OF assms(7-9), of "[]" vlan_of bridges] assms(10) by auto
  have "get_plugin_asic_interface env (s\<lparr>maclearn_seqno := seq\<rparr>) = (Some a, s\<lparr>maclearn_seqno := seq\<rparr>)"
    using assms(3) by (simp add: cached_asic)
  then have "mac_learning_reconfigure env bridges seq s = s\<lparr>maclearn_seqno := seq, ml_log := ml_log s @ [MacTxn w]\<rparr>"
    using assms(1-6) w(1) by (simp add: mac_learning_reconfigure_def mac_learning_update_db_def ml_event_log_def)
  with w(2,3) show ?thesis by blast
qed

lemma sample_index: "index_shows sample_ml_env [sample_mac_row 1 5]"
  by (auto simp: index_shows_def sample_ml_env_def dynamic_rows_def sample_mac_row_def)

theorem learned_entries_reach_table_witness:
  "\<exists>w. mac_learning_reconfigure sample_ml_env [sample_sw] 1 (sample_mlearn [sample_node 1 5 MLEARN_DEL, sample_node 2 5 MLEARN_ADD])
       = (sample_mlearn [sample_node 1 5 MLEARN_DEL, sample_node 2 5 MLEARN_ADD])\<lparr>maclearn_seqno := 1, ml_log := [MacTxn w]\<rparr>
     \<and> dynamic_rows ''dynamic'' (apply_writes ''dynamic'' Some w [sample_mac_row 1 5]) ''m'' 5 = []
     \<and> dynamic_rows ''dynamic'' (apply_writes ''dynamic'' Some w [sample_mac_row 1 5]) ''n'' 5 \<noteq> []"
proof -
  let ?ns = "[sample_node 1 5 MLEARN_DEL, sample_node 2 5 MLEARN_ADD]"
  have k: "node_key sample_ml_env (sample_node 1 5 MLEARN_DEL) = (''m'', 5)" "node_key sample_ml_env (sample_node 2 5 MLEARN_ADD) = (''n'', 5)"
    "FROM_DYNAMIC sample_ml_env = ''dynamic''" by (simp_all add: node_key_def sample_ml_env_def sample_node_def)
  have b: "\<exists>br p. get_bridge_from_port_name [sample_sw] ''p0'' = Some (br, p)"
    by (simp add: get_bridge_from_port_name_def port_lookup_def sample_sw_def)
  obtain w where w: "mac_learning_reconfigure sample_ml_env [sample_sw] 1 (sample_mlearn ?ns)
       = (sample_mlearn ?ns)\<lparr>maclearn_seqno := 1, ml_log := ml_log (sample_mlearn ?ns) @ [MacTxn w]\<rparr>"
    "entry_written sample_ml_env [sample_sw] [sample_mac_row 1 5] (sample_node 1 5 MLEARN_DEL)
       (dynamic_rows ''dynamic'' (apply_writes ''dynamic'' Some w [sample_mac_row 1 5]) ''m'' 5)"
    "entry_written sample_ml_env [sample_sw] [sample_mac_row 1 5] (sample_node 2 5 MLEARN_ADD)
       (dynamic_rows ''dynamic'' (apply_writes ''dynamic'' Some w [sample_mac_row 1 5]) ''n'' 5)"
    using learned_entries_reach_table [of 1 "sample_mlearn ?ns" "sample_asic ?ns" "\<lambda>_. Some ?ns" ?ns sample_ml_env "[sample_mac_row 1 5]" Some "[sample_sw]"]
      sample_index k by (auto simp: sample_mlearn_def sample_asic_def sample_ml_env_def)
  then show ?thesis using b by (intro exI [of _ w]) (auto simp: entry_written_def sample_node_def sample_mlearn_def)
qed


definition sample_view :: flush_view where
  "sample_view = \<lparr>fv_seqno = 1, fv_ports = [\<lparr>pf_name = ''lag1'', pf_macs_invalid = [True], pf_macs_invalid_on_vlans = [Some 7], pf_status = [(''bond_hw_handle'', ''3'')], pf_modified = True\<rparr>],
     fv_ports_deleted = True, fv_vlans = [\<lparr>vf_name = ''v1'', vf_id = 1, vf_macs_invalid = [], vf_modified = True\<rparr>], fv_vlans_deleted = True,
     fv_port_macs_invalid_modified = True, fv_port_macs_invalid_on_vlans_modified = False, fv_vlan_macs_invalid_modified = True\<rparr>"


definition port_calls :: "'i ml_env \<Rightarrow> port_flush_row \<Rightarrow> ml_event list" where
  "port_calls env row =
     flushes (map (\<lambda>_. port_flush_params env (pf_name row) (row_handle env row) None) (filter (\<lambda>b. b) (pf_macs_invalid row))
       @ map (\<lambda>v. port_flush_params env (pf_name row) (row_handle env row) (Some (int32 v))) (List.map_filter (\<lambda>v. v) (pf_macs_invalid_on_vlans row)))"

definition port_requested :: "port_flush_row \<Rightarrow> bool" where
  "port_requested row \<longleftrightarrow> True \<in> set (pf_macs_invalid row) \<or> list_ex (\<lambda>v. v \<noteq> None) (pf_macs_invalid_on_vlans row)"

text \<open>
  A flush request on a Port row flushes the port once for every entry of macs_invalid that is set, then once for
  every VLAN of macs_invalid_on_vlans, and then clears both columns in one transaction; a row without a request causes
  neither a call nor a write.
\<close>

theorem port_requests_flushed:
  assumes "p_asic_plugin_interface s = Some a" "asic_l2_addr_flush a \<noteq> None"
  shows "mac_flush_on_port env row s =
    (if port_requested row
     then s\<lparr>ml_log := ml_log s @ port_calls env row @ ClearPortMacsInvalid (pf_name row) (ml_txn_commit env (ml_log s @ port_calls env row))
            # (if ml_txn_commit env (ml_log s @ port_calls env row) = TXN_TRY_AGAIN then [PollTimer] else [])\<rparr>
     else s)"
proof -
  let ?f = "flushes (map (\<lambda>_. port_flush_params env (pf_name row) (row_handle env row) None) (filter (\<lambda>b. b) (pf_macs_invalid row)))"
  let ?g = "flushes (map (\<lambda>v. port_flush_params env (pf_name row) (row_handle env row) (Some (int32 v))) (List.map_filter (\<lambda>v. v) (pf_macs_invalid_on_vlans row)))"
  have c: "port_calls env row = ?f @ ?g" by (simp add: port_calls_def flushes_def List.map_filter_def)
  have "mac_flush_on_port env row s =
    (if port_requested row
     then let s1 = s\<lparr>ml_log := (ml_log s @ ?f) @ ?g\<rparr>; status = ml_txn_commit env (ml_log s1); s2 = ml_event_log (ClearPortMacsInvalid (pf_name row) status) s1
          in if status = TXN_TRY_AGAIN then ml_event_log PollTimer s2 else s2
     else s\<lparr>ml_log := (ml_log s @ ?f) @ ?g\<rparr>)"
    by (simp add: mac_flush_on_port_def cached_asic [OF assms(1)] flush_invalid_log [OF assms(2)] flush_invalid_on_vlans_log [OF assms(2)]
        port_requested_def Let_def)
  moreover have "?f = [] \<and> ?g = []" if "\<not> port_requested row"
  proof -
    have "filter (\<lambda>b. b) (pf_macs_invalid row) = []" using that by (auto simp: port_requested_def filter_empty_conv)
    moreover have "List.map_filter (\<lambda>v. v) (pf_macs_invalid_on_vlans row) = []"
      using that by (auto simp: port_requested_def List.map_filter_def filter_empty_conv list_ex_iff)
    ultimately show ?thesis by simp
  qed
  ultimately show ?thesis by (simp add: c Let_def ml_event_log_def)
qed

theorem port_requests_flushed_witness:
  "mac_flush_on_port sample_ml_env (hd (fv_ports sample_view)) (sample_mlearn []) = (sample_mlearn [])\<lparr>ml_log :=
     [Flush (flush_zero\<lparr>fp_port_name := strncpy_name ''lag1'', fp_options := L2MAC_FLUSH_BY_TRUNK, fp_tgid := 3\<rparr>),
      Flush (flush_zero\<lparr>fp_port_name := strncpy_name ''lag1'', fp_options := L2MAC_FLUSH_BY_TRUNK_VLAN, fp_tgid := 3, fp_vlan := 7\<rparr>),
      ClearPortMacsInvalid ''lag1'' TXN_SUCCESS]\<rparr>"
proof -
  have "row_handle sample_ml_env (hd (fv_ports sample_view)) = 3" unfolding row_handle_def sample_ml_env_def sample_view_def by code_simp
  then have c: "port_calls sample_ml_env (hd (fv_ports sample_view)) =
    [Flush (flush_zero\<lparr>fp_port_name := strncpy_name ''lag1'', fp_options := L2MAC_FLUSH_BY_TRUNK, fp_tgid := 3\<rparr>),
     Flush (flush_zero\<lparr>fp_port_name := strncpy_name ''lag1'', fp_options := L2MAC_FLUSH_BY_TRUNK_VLAN, fp_tgid := 3, fp_vlan := 7\<rparr>)]"
    unfolding port_calls_def by (simp add: sample_view_def port_flush_params_def is_lag_def sample_ml_env_def Let_def flush_zero_def
        List.map_filter_simps int32_id)
  have "mac_flush_on_port sample_ml_env (hd (fv_ports sample_view)) (sample_mlearn []) =
      (sample_mlearn [])\<lparr>ml_log := port_calls sample_ml_env (hd (fv_ports sample_view)) @ [ClearPortMacsInvalid ''lag1'' TXN_SUCCESS]\<rparr>"
    using port_requests_flushed [of "sample_mlearn []" "sample_asic []" sample_ml_env "hd (fv_ports sample_view)"]
    by (simp add: sample_mlearn_def sample_asic_def port_requested_def sample_view_def sample_ml_env_def)
  then show ?thesis by (simp add: c)
qed

section \<open>Limits of the code\<close>

text \<open>The name that reaches the ASIC plugin is terminated only if it is shorter than the array.\<close>

lemma flush_name_terminated:
  assumes "CHR 0x00 \<notin> set name"
  shows "CHR 0x00 \<in> set (strncpy_name name) \<longleftrightarrow> length name < PORT_NAME_SIZE" "length (strncpy_name name) = PORT_NAME_SIZE"
proof -
  show "length (strncpy_name name) = PORT_NAME_SIZE" by (simp add: strncpy_name_def)
  show "CHR 0x00 \<in> set (strncpy_name name) \<longleftrightarrow> length name < PORT_NAME_SIZE"
    using assms by (auto simp: strncpy_name_def in_set_replicate dest: in_set_takeD)
qed

text \<open>
  When the last row of a table is deleted, \<open>ovsrec_vlan_first\<close> returns NULL and the deletions are not noticed: whatever the
  bridge still holds stays in hardware.
\<close>

lemma last_row_deletion_missed:
  "mac_flush_monitor env (view\<lparr>fv_vlans := [], fv_ports := []\<rparr>) wanted br s = Inr (map_option fst br, s)"
  by (simp add: mac_flush_monitor_def)

text \<open>
  The VLAN branch does not look at \<open>macs_invalid\<close>: any modified VLAN row is flushed while some row has the column
  modified, which includes the update by which the plugin itself cleared the request.
\<close>

lemma cleared_vlan_flushed_again:
  assumes "p_asic_plugin_interface s = Some a" "asic_l2_addr_flush a \<noteq> None" "vf_macs_invalid row = []" "vf_modified row"
  shows "Flush (vlan_flush (int32 (vf_id row))) \<in> set (ml_log (flush_vlans env [row] s))"
  using assms by (auto simp: mac_flush_on_vlan_def cached_asic asic_flush_sel ml_event_log_def vlan_flush_def Let_def)

end
