(* ===== verification/Plugins.thy ===== *)
theory Plugins
  imports Prelude
begin

text \<open>
  The plugin loader, plugins/plugins.c and plugins/plugins_yaml.c.  Every file of the plugins directory is
  opened; those that export the four mandatory hooks are kept.  Then \<open>init\<close> is called in the order of a YAML
  file, once per mention and with a phase number that counts the mentions, and once for every plugin the
  file does not mention.  The other hooks are called on all plugins.

  libltdl, libyaml, \<open>dmidecode\<close> and the file system are the record \<open>ltdl_env\<close>.  A handle is a number.
  A call of a hook is an entry of the log.  \<open>lt_dlcaller_set_data\<close> stores the class even when it reports an
  earlier one; the loader then frees the class, so the stored pointer dangles: data \<open>None\<close>.
\<close>

section \<open>Data\<close>

record plugin_class =
  has_netdev_register :: bool
  has_ofproto_register :: bool
  has_bufmon_register :: bool

datatype hook = Hook_run | Hook_wait | Hook_destroy | Hook_netdev_register | Hook_ofproto_register | Hook_bufmon_register

datatype plugin_event = Init nat int | Call hook nat | Dlclose nat

record hash_node =
  phase_id :: int
  handle :: nat

record loader =
  sh_plugins :: "hash_node shash"
  pl_data :: "(nat \<times> plugin_class option) list"
  pl_registered :: bool
  pl_log :: "plugin_event list"

datatype yaml_token = Yaml_scalar string | Yaml_stream_end | Yaml_other

record ltdl_env =
  lt_dlopenadvise :: "string \<Rightarrow> nat option"
  lt_malloc :: "string \<Rightarrow> bool"
  lt_dlsym :: "nat \<Rightarrow> string \<Rightarrow> bool"
  lt_dlgetinfo :: "nat \<Rightarrow> string option"
  lt_dlhandle_iterate :: "loader \<Rightarrow> nat list"
  lt_dlinit :: bool
  lt_interface_register :: bool
  lt_advise :: bool
  lt_files :: "string \<Rightarrow> string list"
  ovs_pluginsdir :: string
  ex_executable :: "string \<Rightarrow> bool"
  ex_popen :: "string \<Rightarrow> string list option"
  ex_fopen :: "string \<Rightarrow> bool"
  ex_yaml_init :: bool
  ex_yaml_scan :: "string \<Rightarrow> nat \<Rightarrow> yaml_token"
  YAML_PATH :: string

definition pl_event :: "plugin_event \<Rightarrow> loader \<Rightarrow> loader" where
  "pl_event e s = s\<lparr>pl_log := pl_log s @ [e]\<rparr>"

section \<open>Opening a plugin\<close>

definition lt_dlcaller_set_data :: "nat \<Rightarrow> plugin_class option \<Rightarrow> loader \<Rightarrow> loader" where
  "lt_dlcaller_set_data h c s = s\<lparr>pl_data := (h, c) # filter (\<lambda>(h', _). h' \<noteq> h) (pl_data s)\<rparr>"

definition plugins_open_plugin :: "ltdl_env \<Rightarrow> string \<Rightarrow> loader \<Rightarrow> loader" where
  "plugins_open_plugin env filename s =
     (case lt_dlopenadvise env filename of
        None \<Rightarrow> s
      | Some h \<Rightarrow>
          if \<not> lt_malloc env filename then pl_event (Dlclose h) s
          else if \<not> (lt_dlsym env h ''init'' \<and> lt_dlsym env h ''run'' \<and> lt_dlsym env h ''wait'' \<and> lt_dlsym env h ''destroy'')
          then pl_event (Dlclose h) s
          else
            let plcl = \<lparr>has_netdev_register = lt_dlsym env h ''netdev_register'',
                        has_ofproto_register = lt_dlsym env h ''ofproto_register'',
                        has_bufmon_register = lt_dlsym env h ''bufmon_register''\<rparr> in
            if map_of (pl_data s) h \<noteq> None
            then pl_event (Dlclose h) (lt_dlcaller_set_data h None s)
            else
              case lt_dlgetinfo env h of
                None \<Rightarrow> pl_event (Dlclose h) (lt_dlcaller_set_data h None s)
              | Some name \<Rightarrow>
                  let s = lt_dlcaller_set_data h (Some plcl) s in
                  (case shash_find_data (sh_plugins s) name of
                     Some _ \<Rightarrow> s
                   | None \<Rightarrow> s\<lparr>sh_plugins := snd (shash_add_once (sh_plugins s) name \<lparr>phase_id = 0, handle = h\<rparr>)\<rparr>))"

section \<open>The YAML file\<close>

text \<open>
  The bound of the loop is \<open>sizeof(paths)\<close>, the size in bytes (32 with pointers of 8), not the number of
  elements; index 4 and above are outside the array.
\<close>

definition DMI_PATHS :: "string list" where
  "DMI_PATHS = [''/usr/sbin'', ''/sbin'', ''/bin'', ''/usr/bin'']"

function dmidecode_loop :: "(string \<Rightarrow> bool) \<Rightarrow> nat \<Rightarrow> fault + (int \<times> string)" where
  "dmidecode_loop executable i =
     (if i < 32
      then if i < length DMI_PATHS
           then let buf = DMI_PATHS ! i @ ''/dmidecode'' in
                if executable buf then Inr (0, buf) else dmidecode_loop executable (i + 1)
           else Inl Out_of_bounds
      else Inr (EINVAL, []))"
  by pat_completeness auto
termination by (relation "measure (\<lambda>(_, i). 32 - i)") auto

definition dmidecode_exists :: "(string \<Rightarrow> bool) \<Rightarrow> fault + (int \<times> string)" where
  "dmidecode_exists executable = dmidecode_loop executable 0"

text \<open>
  \<open>lines\<close> is what the command prints; \<open>None\<close> if \<open>popen\<close> fails.  Comments and lines that begin with a NUL are
  skipped.  \<open>nbytes\<close> is unsigned, so the test for the end of the output never holds: the code goes on with a
  buffer that \<open>getline\<close> did not fill and writes before its start.
\<close>

fun first_line :: "string list \<Rightarrow> fault + string" where
  "first_line [] = Inl Out_of_bounds"
| "first_line (l # ls) =
     (if l = [] \<or> hd l = CHR ''#'' \<or> hd l = CHR 0x00 then first_line ls
      else Inr (takeWhile (\<lambda>c. c \<noteq> CHR 0x00) (butlast l)))"

definition get_sys_cmd_out :: "ltdl_env \<Rightarrow> string \<Rightarrow> fault + string option" where
  "get_sys_cmd_out env cmd =
     (case ex_popen env cmd of
        None \<Rightarrow> Inr None
      | Some ls \<Rightarrow> (case first_line ls of Inl e \<Rightarrow> Inl e | Inr l \<Rightarrow> Inr (Some l)))"

definition get_manuf_and_prodname :: "ltdl_env \<Rightarrow> string \<Rightarrow> fault + (int \<times> string option \<times> string option)" where
  "get_manuf_and_prodname env cmd_path =
     (case get_sys_cmd_out env (cmd_path @ '' -s system-manufacturer'') of
        Inl e \<Rightarrow> Inl e
      | Inr None \<Rightarrow> Inr (EINVAL, None, None)
      | Inr (Some m) \<Rightarrow>
          (case get_sys_cmd_out env (cmd_path @ '' -s system-product-name'') of
             Inl e \<Rightarrow> Inl e
           | Inr None \<Rightarrow> Inr (EINVAL, Some m, None)
           | Inr (Some p) \<Rightarrow> Inr (0, Some m, Some p)))"

definition YAML_PATH_LENGHT :: nat where "YAML_PATH_LENGHT = 100"

definition concat_path :: "ltdl_env \<Rightarrow> string \<Rightarrow> string \<Rightarrow> string" where
  "concat_path env manuf product =
     take (length manuf + length product + YAML_PATH_LENGHT - 1) (YAML_PATH env @ ''/'' @ manuf @ ''/'' @ product @ ''/plugins.yaml'')"

definition open_yaml_file :: "ltdl_env \<Rightarrow> fault + (int \<times> string option)" where
  "open_yaml_file env =
     (case dmidecode_exists (ex_executable env) of
        Inl e \<Rightarrow> Inl e
      | Inr (rc, cmd_path) \<Rightarrow>
          if rc \<noteq> 0 then Inr (EINVAL, None)
          else case get_manuf_and_prodname env cmd_path of
            Inl e \<Rightarrow> Inl e
          | Inr (_, Some m, Some p) \<Rightarrow>
              if ex_fopen env (concat_path env m p) then Inr (0, Some (concat_path env m p))
              else let sim = concat_path env ''Generic-x86'' ''X86-64'' in
                   if ex_fopen env sim then Inr (0, Some sim) else Inr (EINVAL, None)
          | Inr _ \<Rightarrow> Inr (EINVAL, None))"

text \<open>
  \<open>scan k\<close> is the token of the k-th call of the scanner.  The loop ends at the end of the stream only, so it is
  partial: \<open>None\<close> is a run that never returns.
\<close>

partial_function (option) read_tokens :: "(nat \<Rightarrow> yaml_token) \<Rightarrow> nat \<Rightarrow> string list \<Rightarrow> string list option" where
  [code]: "read_tokens scan k acc =
     (case scan k of
        Yaml_stream_end \<Rightarrow> Some acc
      | Yaml_scalar v \<Rightarrow> read_tokens scan (Suc k) (acc @ [takeWhile (\<lambda>c. c \<noteq> CHR 0x00) v])
      | Yaml_other \<Rightarrow> read_tokens scan (Suc k) acc)"

definition get_yaml_plugins :: "ltdl_env \<Rightarrow> (fault + string list option) option" where
  "get_yaml_plugins env =
     (if \<not> ex_yaml_init env then Some (Inr None)
      else case open_yaml_file env of
        Inl e \<Rightarrow> Some (Inl e)
      | Inr (rc, path) \<Rightarrow>
          if rc \<noteq> 0 then Some (Inr None)
          else (case path of
             None \<Rightarrow> Some (Inr None)
           | Some p \<Rightarrow> map_option (\<lambda>l. Inr (Some l)) (read_tokens (ex_yaml_scan env p) 0 [])))"

section \<open>Initialization\<close>

definition call_init :: "string \<Rightarrow> hash_node \<Rightarrow> loader \<Rightarrow> fault + loader" where
  "call_init name n s =
     (case map_of (pl_data s) (handle n) of
        None \<Rightarrow> Inr s
      | Some None \<Rightarrow> Inl Use_after_free
      | Some (Some _) \<Rightarrow>
          Inr (pl_event (Init (handle n) (phase_id n))
                (s\<lparr>sh_plugins := map (\<lambda>(k, m). if k = name then (k, n\<lparr>phase_id := int32 (phase_id n + 1)\<rparr>) else (k, m)) (sh_plugins s)\<rparr>)))"

fun init_listed :: "string list \<Rightarrow> loader \<Rightarrow> fault + loader" where
  "init_listed [] s = Inr s"
| "init_listed (name # ns) s =
     (case (case shash_find_data (sh_plugins s) name of None \<Rightarrow> Inr s | Some n \<Rightarrow> call_init name n s) of
        Inl e \<Rightarrow> Inl e
      | Inr s \<Rightarrow> init_listed ns s)"

fun init_rest :: "(string \<times> hash_node) list \<Rightarrow> loader \<Rightarrow> fault + loader" where
  "init_rest [] s = Inr s"
| "init_rest ((name, n) # ns) s =
     (case (if phase_id n = 0 then call_init name n s else Inr s) of
        Inl e \<Rightarrow> Inl e
      | Inr s \<Rightarrow> init_rest ns s)"

definition plugins_initializaton :: "ltdl_env \<Rightarrow> loader \<Rightarrow> (fault + loader) option" where
  "plugins_initializaton env s =
     (case get_yaml_plugins env of
        None \<Rightarrow> None
      | Some (Inl e) \<Rightarrow> Some (Inl e)
      | Some (Inr l) \<Rightarrow>
          Some (case init_listed (case l of None \<Rightarrow> [] | Some ns \<Rightarrow> ns) s of
                  Inl e \<Rightarrow> Inl e
                | Inr s \<Rightarrow> init_rest (sh_plugins s) s))"

definition plugins_init :: "ltdl_env \<Rightarrow> string option \<Rightarrow> loader \<Rightarrow> (fault + loader) option" where
  "plugins_init env path s =
     (let s = s\<lparr>sh_plugins := []\<rparr> in
      if path = Some ''none'' then Some (Inr s)
      else
        let plugins_path = (case path of None \<Rightarrow> ovs_pluginsdir env | Some p \<Rightarrow> p) in
        if \<not> lt_dlinit env then Some (Inr s)
        else if \<not> lt_interface_register env then Some (Inr s)
        else if \<not> lt_advise env then Some (Inr s)
        else plugins_initializaton env (fold (plugins_open_plugin env) (lt_files env plugins_path) (s\<lparr>pl_registered := True\<rparr>)))"

section \<open>Calling the hooks\<close>

fun has_hook :: "plugin_class \<Rightarrow> hook \<Rightarrow> bool" where
  "has_hook c Hook_netdev_register = has_netdev_register c"
| "has_hook c Hook_ofproto_register = has_ofproto_register c"
| "has_hook c Hook_bufmon_register = has_bufmon_register c"
| "has_hook c _ = True"

fun PLUGINS_CALL :: "hook \<Rightarrow> nat list \<Rightarrow> loader \<Rightarrow> fault + loader" where
  "PLUGINS_CALL f [] s = Inr s"
| "PLUGINS_CALL f (h # hs) s =
     (case map_of (pl_data s) h of
        None \<Rightarrow> PLUGINS_CALL f hs s
      | Some None \<Rightarrow> Inl Use_after_free
      | Some (Some c) \<Rightarrow> PLUGINS_CALL f hs (if has_hook c f then pl_event (Call f h) s else s))"

definition plugins_run :: "ltdl_env \<Rightarrow> loader \<Rightarrow> fault + loader" where
  "plugins_run env s = PLUGINS_CALL Hook_run (lt_dlhandle_iterate env s) s"

definition plugins_wait :: "ltdl_env \<Rightarrow> loader \<Rightarrow> fault + loader" where
  "plugins_wait env s = PLUGINS_CALL Hook_wait (lt_dlhandle_iterate env s) s"

definition plugins_destroy :: "ltdl_env \<Rightarrow> loader \<Rightarrow> fault + loader" where
  "plugins_destroy env s =
     (case PLUGINS_CALL Hook_destroy (lt_dlhandle_iterate env s) s of
        Inl e \<Rightarrow> Inl e
      | Inr s \<Rightarrow> Inr (s\<lparr>pl_registered := False\<rparr>))"

definition plugins_netdev_register :: "ltdl_env \<Rightarrow> loader \<Rightarrow> fault + loader" where
  "plugins_netdev_register env s = PLUGINS_CALL Hook_netdev_register (lt_dlhandle_iterate env s) s"

definition plugins_ofproto_register :: "ltdl_env \<Rightarrow> loader \<Rightarrow> fault + loader" where
  "plugins_ofproto_register env s = PLUGINS_CALL Hook_ofproto_register (lt_dlhandle_iterate env s) s"

definition plugins_bufmon_register :: "ltdl_env \<Rightarrow> loader \<Rightarrow> fault + loader" where
  "plugins_bufmon_register env s = PLUGINS_CALL Hook_bufmon_register (lt_dlhandle_iterate env s) s"

section \<open>The order of initialization\<close>

text \<open>
  The reference: each mention of a plugin in the list gets the number of its earlier mentions as its phase.
\<close>

definition mentions :: "string list \<Rightarrow> (string \<times> int) list" where
  "mentions ys = map (\<lambda>i. (ys ! i, int (count_list (take i ys) (ys ! i)))) [0..<length ys]"

definition init_calls :: "hash_node shash \<Rightarrow> string list \<Rightarrow> plugin_event list" where
  "init_calls sh ys =
     map (\<lambda>(n, k). Init (handle (the (shash_find_data sh n))) k) (filter (\<lambda>(n, _). shash_find_data sh n \<noteq> None) (mentions ys))
     @ map (\<lambda>(n, m). Init (handle m) 0) (filter (\<lambda>(n, _). n \<notin> set ys) sh)"

text \<open>A loader in which every known plugin has its class and no phase has begun.\<close>

definition loaded :: "loader \<Rightarrow> bool" where
  "loaded s \<longleftrightarrow> shash_wf (sh_plugins s) \<and>
     list_all (\<lambda>(n, m). phase_id m = 0 \<and> (case map_of (pl_data s) (handle m) of Some (Some _) \<Rightarrow> True | _ \<Rightarrow> False)) (sh_plugins s)"

fun mentions_from :: "string list \<Rightarrow> string list \<Rightarrow> (string \<times> int) list" where
  "mentions_from ps [] = []"
| "mentions_from ps (y # ys) = (y, int (count_list ps y)) # mentions_from (ps @ [y]) ys"

lemma mentions_from: "mentions_from ps ys = map (\<lambda>i. (ys ! i, int (count_list (ps @ take i ys) (ys ! i)))) [0..<length ys]"
proof (induction ys arbitrary: ps)
  case (Cons y ys)
  have "[0..<length (y # ys)] = 0 # map Suc [0..<length ys]" by (simp add: upt_conv_Cons map_Suc_upt del: upt_Suc)
  then show ?case by (simp add: Cons comp_def del: upt_Suc)
qed simp

definition bump :: "string list \<Rightarrow> hash_node shash \<Rightarrow> hash_node shash" where
  "bump ps sh = map (\<lambda>(k, m). (k, m\<lparr>phase_id := int (count_list ps k)\<rparr>)) sh"

lemma bump_Nil: "list_all (\<lambda>(n, m). phase_id m = 0) sh \<Longrightarrow> bump [] sh = sh"
  by (auto simp: bump_def list_all_iff intro!: map_idI)

lemma map_of_bump: "map_of (bump ps sh) k = map_option (\<lambda>m. m\<lparr>phase_id := int (count_list ps k)\<rparr>) (map_of sh k)"
  by (induction sh) (auto simp: bump_def)

lemma bump_step:
  assumes "shash_wf sh" "map_of sh y = Some m" "length ps < 2 ^ 31 - 1"
  shows "map (\<lambda>(k, x). if k = y then (k, m\<lparr>phase_id := int32 (int (count_list ps y) + 1)\<rparr>) else (k, x)) (bump ps sh) = bump (ps @ [y]) sh"
proof -
  have "count_list ps y \<le> length ps" by (rule count_le_length)
  then have "int32 (int (count_list ps y) + 1) = int (count_list ps y) + 1" using assms(3) by (intro int32_id) auto
  moreover have "x = m" if "(y, x) \<in> set sh" for x
    using assms(1,2) that by (metis map_of_eq_Some_iff option.inject shash_wf_def)
  ultimately show ?thesis by (auto simp: bump_def)
qed

definition valid_data :: "loader \<Rightarrow> hash_node \<Rightarrow> bool" where
  "valid_data s m \<longleftrightarrow> (case map_of (pl_data s) (handle m) of Some (Some _) \<Rightarrow> True | _ \<Rightarrow> False)"

lemma call_init_valid:
  "valid_data s n \<Longrightarrow> call_init name n s =
     Inr (pl_event (Init (handle n) (phase_id n))
       (s\<lparr>sh_plugins := map (\<lambda>(k, m). if k = name then (k, n\<lparr>phase_id := int32 (phase_id n + 1)\<rparr>) else (k, m)) (sh_plugins s)\<rparr>))"
  by (auto simp: valid_data_def call_init_def split: option.splits)

lemma init_listed_mentions:
  assumes wf: "shash_wf sh" and ok: "\<forall>(n, m)\<in>set sh. valid_data s m" and "length (ps @ ys) < 2 ^ 31" and "sh_plugins s = bump ps sh"
  shows "init_listed ys s = Inr (s\<lparr>sh_plugins := bump (ps @ ys) sh,
    pl_log := pl_log s @ map (\<lambda>(n, k). Init (handle (the (shash_find_data sh n))) k) (filter (\<lambda>(n, _). shash_find_data sh n \<noteq> None) (mentions_from ps ys))\<rparr>)"
  using assms(2-)
proof (induction ys arbitrary: ps s)
  case Nil
  then show ?case by simp
next
  case (Cons y ys)
  have len: "length ps < 2 ^ 31 - 1" using Cons.prems(2) by simp
  show ?case
  proof (cases "map_of sh y")
    case None
    have b: "bump (ps @ [y]) sh = bump ps sh"
      using None by (auto simp: bump_def map_of_eq_None_iff image_iff)
    have "init_listed ys s = Inr (s\<lparr>sh_plugins := bump ((ps @ [y]) @ ys) sh,
        pl_log := pl_log s @ map (\<lambda>(n, k). Init (handle (the (shash_find_data sh n))) k) (filter (\<lambda>(n, _). shash_find_data sh n \<noteq> None) (mentions_from (ps @ [y]) ys))\<rparr>)"
      using Cons.prems b by (intro Cons.IH) auto
    then show ?thesis using None Cons.prems(3) by (simp add: shash_find_data_def map_of_bump)
  next
    case (Some m)
    let ?n = "m\<lparr>phase_id := int (count_list ps y)\<rparr>"
    let ?s1 = "s\<lparr>sh_plugins := bump (ps @ [y]) sh, pl_log := pl_log s @ [Init (handle m) (int (count_list ps y))]\<rparr>"
    have "(y, m) \<in> set sh" using Some by (rule map_of_SomeD)
    then have "valid_data s ?n" using Cons.prems(1) by (auto simp: valid_data_def)
    moreover have "map (\<lambda>(k, x). if k = y then (k, ?n\<lparr>phase_id := int32 (phase_id ?n + 1)\<rparr>) else (k, x)) (bump ps sh) = bump (ps @ [y]) sh"
      using bump_step [OF wf Some len] by (simp cong: if_cong)
    ultimately have c: "call_init y ?n s = Inr ?s1"
      unfolding call_init_valid [OF \<open>valid_data s ?n\<close>] Cons.prems(3) by (simp add: pl_event_def)
    have "init_listed ys ?s1 = Inr (?s1\<lparr>sh_plugins := bump ((ps @ [y]) @ ys) sh,
        pl_log := pl_log ?s1 @ map (\<lambda>(n, k). Init (handle (the (shash_find_data sh n))) k) (filter (\<lambda>(n, _). shash_find_data sh n \<noteq> None) (mentions_from (ps @ [y]) ys))\<rparr>)"
      using Cons.prems by (intro Cons.IH) (auto simp: valid_data_def)
    then show ?thesis using Some c Cons.prems(3) by (simp add: shash_find_data_def map_of_bump)
  qed
qed

lemma init_rest_log:
  assumes "\<forall>(n, m)\<in>set ns. valid_data s m"
  shows "\<exists>sh. init_rest ns s = Inr (s\<lparr>sh_plugins := sh, pl_log := pl_log s @ map (\<lambda>(n, m). Init (handle m) 0) (filter (\<lambda>(n, m). phase_id m = 0) ns)\<rparr>)"
  using assms
proof (induction ns arbitrary: s)
  case Nil
  then show ?case by (intro exI [of _ "sh_plugins s"]) simp
next
  case (Cons a ns)
  obtain name n where a: "a = (name, n)" by fastforce
  show ?case
  proof (cases "phase_id n = 0")
    case False
    with Cons a show ?thesis by auto
  next
    case True
    then obtain s1 where s1: "call_init name n s = Inr s1" "pl_data s1 = pl_data s" "pl_log s1 = pl_log s @ [Init (handle n) 0]" "\<exists>sh. s1 = s\<lparr>sh_plugins := sh, pl_log := pl_log s1\<rparr>"
      using Cons.prems a by (auto simp: call_init_valid pl_event_def)
    have "\<forall>(n, m)\<in>set ns. valid_data s1 m" using Cons.prems s1(2) by (auto simp: valid_data_def)
    from Cons.IH [OF this] s1 True a show ?thesis by force
  qed
qed

lemma plugins_initializaton_log:
  assumes l: "loaded s" and y: "get_yaml_plugins env = Some (Inr yl)" and n: "length (case yl of None \<Rightarrow> [] | Some ns \<Rightarrow> ns) < 2 ^ 31"
  shows "\<exists>s'. plugins_initializaton env s = Some (Inr s') \<and> pl_log s' = pl_log s @ init_calls (sh_plugins s) (case yl of None \<Rightarrow> [] | Some ns \<Rightarrow> ns)"
proof -
  define ys where "ys = (case yl of None \<Rightarrow> [] | Some ns \<Rightarrow> ns)"
  have wf: "shash_wf (sh_plugins s)" and ok: "\<forall>(k, m)\<in>set (sh_plugins s). valid_data s m" and z: "bump [] (sh_plugins s) = sh_plugins s"
    using l by (auto simp: loaded_def list_all_iff valid_data_def intro!: bump_Nil)
  let ?s1 = "s\<lparr>sh_plugins := bump ys (sh_plugins s), pl_log := pl_log s @ map (\<lambda>(n, k). Init (handle (the (shash_find_data (sh_plugins s) n))) k)
      (filter (\<lambda>(n, _). shash_find_data (sh_plugins s) n \<noteq> None) (mentions ys))\<rparr>"
  have 1: "init_listed ys s = Inr ?s1"
    using init_listed_mentions [OF wf ok, of "[]" ys] z n by (simp add: mentions_def mentions_from ys_def)
  have "\<forall>(k, m)\<in>set (bump ys (sh_plugins s)). valid_data ?s1 m" using ok by (auto simp: bump_def valid_data_def)
  from init_rest_log [OF this] obtain sh where 2: "init_rest (bump ys (sh_plugins s)) ?s1 = Inr (?s1\<lparr>sh_plugins := sh,
      pl_log := pl_log ?s1 @ map (\<lambda>(n, m). Init (handle m) 0) (filter (\<lambda>(n, m). phase_id m = 0) (bump ys (sh_plugins s)))\<rparr>)" by auto
  have "map (\<lambda>(n, m). Init (handle m) 0) (filter (\<lambda>(n, m). phase_id m = 0) (bump ys (sh_plugins s)))
      = map (\<lambda>(n, m). Init (handle m) 0) (filter (\<lambda>(n, _). n \<notin> set ys) (sh_plugins s))"
    by (simp add: bump_def filter_map comp_def case_prod_unfold count_list_0_iff)
  with 1 2 y show ?thesis by (simp add: plugins_initializaton_def ys_def [symmetric] init_calls_def)
qed

section \<open>Reading the YAML file\<close>

lemma read_tokens_ends:
  assumes "scan (k + n) = Yaml_stream_end" "\<forall>i<n. scan (k + i) \<noteq> Yaml_stream_end"
  shows "read_tokens scan k acc = Some (acc @ concat (map (\<lambda>i. case scan (k + i) of Yaml_scalar v \<Rightarrow> [takeWhile (\<lambda>c. c \<noteq> CHR 0x00) v] | _ \<Rightarrow> []) [0..<n]))"
  using assms
proof (induction n arbitrary: k acc)
  case 0
  then show ?case by (simp add: read_tokens.simps)
next
  case (Suc n)
  have r: "[0..<Suc n] = 0 # map Suc [0..<n]" by (simp add: upt_conv_Cons map_Suc_upt del: upt_Suc)
  have "scan (Suc k + n) = Yaml_stream_end" "\<forall>i<n. scan (Suc k + i) \<noteq> Yaml_stream_end" using Suc.prems by force+
  note ih = Suc.IH [OF this]
  have "scan k \<noteq> Yaml_stream_end" using Suc.prems(2) by force
  then show ?case unfolding read_tokens.simps [of scan k] r
    by (cases "scan k") (simp_all add: ih comp_def)
qed

lemma read_tokens_returns:
  assumes "read_tokens scan k acc = Some r"
  shows "\<exists>n. scan (k + n) = Yaml_stream_end"
proof (rule read_tokens.raw_induct [where P = "\<lambda>scan k acc r. \<exists>n. scan (k + n) = Yaml_stream_end", OF _ assms])
  fix rt scan k acc and r :: "string list"
  assume ih: "\<And>scan k acc r. rt scan k acc = Some r \<Longrightarrow> \<exists>n. scan (k + n) = Yaml_stream_end"
    and eq: "(case scan k of Yaml_scalar v \<Rightarrow> rt scan (Suc k) (acc @ [takeWhile (\<lambda>c. c \<noteq> CHR 0x00) v])
      | Yaml_stream_end \<Rightarrow> Some acc | Yaml_other \<Rightarrow> rt scan (Suc k) acc) = Some r"
  have s: "\<exists>n. scan (k + n) = Yaml_stream_end" if "rt scan (Suc k) acc' = Some r" for acc'
  proof -
    from ih [OF that] obtain n where "scan (Suc k + n) = Yaml_stream_end" by blast
    then show ?thesis by (intro exI [of _ "Suc n"]) simp
  qed
  show "\<exists>n. scan (k + n) = Yaml_stream_end"
  proof (cases "scan k")
    case Yaml_stream_end
    then show ?thesis by (intro exI [of _ 0]) simp
  qed (use eq s in auto)
qed

section \<open>Opening files\<close>

lemma map_of_set_data: "map_of (pl_data (lt_dlcaller_set_data h c s)) k = (if k = h then Some c else map_of (pl_data s) k)"
  by (simp add: lt_dlcaller_set_data_def map_of_filter_neq)

lemma set_data_sel [simp]: "sh_plugins (lt_dlcaller_set_data h c s) = sh_plugins s" "pl_log (lt_dlcaller_set_data h c s) = pl_log s"
  by (simp_all add: lt_dlcaller_set_data_def)

text \<open>No handle that a file opens is known yet, and libltdl knows the name of every module.\<close>

definition fresh_handle :: "ltdl_env \<Rightarrow> loader \<Rightarrow> string \<Rightarrow> bool" where
  "fresh_handle env s f \<longleftrightarrow> (case lt_dlopenadvise env f of
     None \<Rightarrow> True
   | Some h \<Rightarrow> map_of (pl_data s) h = None \<and> lt_dlgetinfo env h \<noteq> None)"

lemma open_plugin_loaded:
  assumes l: "loaded s" and f: "fresh_handle env s f"
  shows "loaded (plugins_open_plugin env f s)"
    "\<And>g. fresh_handle env s g \<Longrightarrow> lt_dlopenadvise env g = None \<or> lt_dlopenadvise env g \<noteq> lt_dlopenadvise env f \<Longrightarrow> fresh_handle env (plugins_open_plugin env f s) g"
proof -
  show "loaded (plugins_open_plugin env f s)"
  proof (cases "lt_dlopenadvise env f")
    case (Some h)
    then obtain name where n: "lt_dlgetinfo env h = Some name" "map_of (pl_data s) h = None" using f by (auto simp: fresh_handle_def)
    have e: "loaded (pl_event x s)" for x using l by (simp add: loaded_def pl_event_def)
    have k: "loaded (lt_dlcaller_set_data h (Some c) s)" for c
      using l by (auto simp: loaded_def list_all_iff map_of_set_data split: option.splits)
    have a: "loaded ((lt_dlcaller_set_data h (Some c) s)\<lparr>sh_plugins := snd (shash_add_once (sh_plugins s) name \<lparr>phase_id = 0, handle = h\<rparr>)\<rparr>)"
      if "shash_find_data (sh_plugins s) name = None" for c
    proof -
      have "snd (shash_add_once (sh_plugins s) name \<lparr>phase_id = 0, handle = h\<rparr>) = sh_plugins s @ [(name, \<lparr>phase_id = 0, handle = h\<rparr>)]"
        using that by (simp add: shash_add_once_def shash_find_data_def)
      moreover have "name \<notin> fst ` set (sh_plugins s)" using that by (simp add: shash_find_data_def map_of_eq_None_iff)
      ultimately show ?thesis using k [of c] by (auto simp: loaded_def shash_wf_def list_all_iff map_of_set_data)
    qed
    show ?thesis using Some n e k a by (auto simp: plugins_open_plugin_def Let_def split: option.split)
  qed (use l in \<open>simp add: plugins_open_plugin_def\<close>)
  fix g
  assume "fresh_handle env s g" "lt_dlopenadvise env g = None \<or> lt_dlopenadvise env g \<noteq> lt_dlopenadvise env f"
  then show "fresh_handle env (plugins_open_plugin env f s) g"
    by (auto simp: fresh_handle_def plugins_open_plugin_def Let_def pl_event_def map_of_set_data split: option.splits)
qed

definition distinct_modules :: "ltdl_env \<Rightarrow> string list \<Rightarrow> bool" where
  "distinct_modules env fs \<longleftrightarrow> distinct (List.map_filter (lt_dlopenadvise env) fs) \<and>
     list_all (\<lambda>f. case lt_dlopenadvise env f of None \<Rightarrow> True | Some h \<Rightarrow> lt_dlgetinfo env h \<noteq> None) fs"

lemma open_all_loaded:
  assumes "loaded s" "\<forall>f\<in>set fs. fresh_handle env s f" "distinct (List.map_filter (lt_dlopenadvise env) fs)"
  shows "loaded (fold (plugins_open_plugin env) fs s)"
  using assms
proof (induction fs arbitrary: s)
  case (Cons f fs)
  have "lt_dlopenadvise env g = None \<or> lt_dlopenadvise env g \<noteq> lt_dlopenadvise env f" if "g \<in> set fs" for g
    using Cons.prems(3) that by (force simp: List.map_filter_def split: option.splits if_splits)
  then have "\<forall>g\<in>set fs. fresh_handle env (plugins_open_plugin env f s) g"
    using Cons.prems open_plugin_loaded(2) [of s env f] by simp
  moreover have "distinct (List.map_filter (lt_dlopenadvise env) fs)" using Cons.prems(3) by (auto simp: List.map_filter_simps split: option.splits)
  moreover have "loaded (plugins_open_plugin env f s)" using Cons.prems by (intro open_plugin_loaded(1)) simp_all
  ultimately show ?case using Cons.IH by simp
qed simp

lemma PLUGINS_CALL_log:
  assumes "\<forall>h\<in>set hs. map_of (pl_data s) h \<noteq> Some None"
  shows "PLUGINS_CALL f hs s = Inr (s\<lparr>pl_log := pl_log s @ map (Call f)
    (filter (\<lambda>h. case map_of (pl_data s) h of Some (Some c) \<Rightarrow> has_hook c f | _ \<Rightarrow> False) hs)\<rparr>)"
  using assms
proof (induction hs arbitrary: s)
  case (Cons h hs)
  show ?case
  proof (cases "map_of (pl_data s) h")
    case (Some d)
    with Cons.prems obtain c where d: "d = Some c" by (cases d) auto
    have "PLUGINS_CALL f hs (pl_event (Call f h) s) = Inr ((pl_event (Call f h) s)\<lparr>pl_log := pl_log (pl_event (Call f h) s) @ map (Call f)
        (filter (\<lambda>h. case map_of (pl_data s) h of Some (Some c) \<Rightarrow> has_hook c f | _ \<Rightarrow> False) hs)\<rparr>)"
      using Cons.IH [of "pl_event (Call f h) s"] Cons.prems by (simp add: pl_event_def)
    with Some d Cons show ?thesis by (simp add: pl_event_def)
  qed (use Cons in simp)
qed simp

section \<open>Properties\<close>

definition loader_boot :: loader where
  "loader_boot = \<lparr>sh_plugins = [], pl_data = [], pl_registered = False, pl_log = []\<rparr>"

definition opened :: "ltdl_env \<Rightarrow> string option \<Rightarrow> loader" where
  "opened env path = fold (plugins_open_plugin env) (lt_files env (case path of None \<Rightarrow> ovs_pluginsdir env | Some p \<Rightarrow> p))
     (loader_boot\<lparr>pl_registered := True\<rparr>)"

definition sample_ltdl :: ltdl_env where
  "sample_ltdl = \<lparr>lt_dlopenadvise = (\<lambda>f. if f = ''a.so'' then Some 1 else if f = ''b.so'' then Some 2 else None), lt_malloc = (\<lambda>_. True),
     lt_dlsym = (\<lambda>_ n. n \<noteq> ''bufmon_register''), lt_dlgetinfo = (\<lambda>h. Some (if h = 1 then ''a'' else ''b'')), lt_dlhandle_iterate = (\<lambda>_. [2, 1]),
     lt_dlinit = True, lt_interface_register = True, lt_advise = True, lt_files = (\<lambda>_. [''a.so'', ''b.so'', ''c.so'']), ovs_pluginsdir = ''/p'',
     ex_executable = (\<lambda>p. p = ''/bin/dmidecode''), ex_popen = (\<lambda>_. Some [''# x'' @ [CHR 0x0A], ''HPE'' @ [CHR 0x0A]]), ex_fopen = (\<lambda>_. True), ex_yaml_init = True,
     ex_yaml_scan = (\<lambda>_ k. if k = 1 \<or> k = 3 then Yaml_scalar ''b'' else if k < 5 then Yaml_other else Yaml_stream_end), YAML_PATH = ''/etc''\<rparr>"

text \<open>
  C25: From a fresh loader, plugins_init calls init exactly as the reference prescribes: first the plugins the YAML file
  mentions, in the order of the file and with the number of earlier mentions as the phase, then every other loaded plugin
  once with phase 0.  Hypotheses: libltdl starts, the files are distinct modules, and the YAML file is readable.
\<close>

theorem plugins_initialized_in_order:
  assumes "path \<noteq> Some ''none''" "lt_dlinit env \<and> lt_interface_register env \<and> lt_advise env"
    "distinct_modules env (lt_files env (case path of None \<Rightarrow> ovs_pluginsdir env | Some p \<Rightarrow> p))"
    "get_yaml_plugins env = Some (Inr yl)" "length (case yl of None \<Rightarrow> [] | Some ns \<Rightarrow> ns) < 2 ^ 31"
  shows "\<exists>s. plugins_init env path loader_boot = Some (Inr s)
    \<and> pl_log s = pl_log (opened env path) @ init_calls (sh_plugins (opened env path)) (case yl of None \<Rightarrow> [] | Some ns \<Rightarrow> ns)"
proof -
  let ?fs = "lt_files env (case path of None \<Rightarrow> ovs_pluginsdir env | Some p \<Rightarrow> p)"
  have "loaded (loader_boot\<lparr>pl_registered := True\<rparr>)" by (simp add: loaded_def loader_boot_def shash_wf_def)
  moreover have "\<forall>f\<in>set ?fs. fresh_handle env (loader_boot\<lparr>pl_registered := True\<rparr>) f"
    using assms(3) by (auto simp: distinct_modules_def list_all_iff fresh_handle_def loader_boot_def split: option.splits)
  ultimately have "loaded (opened env path)" unfolding opened_def using assms(3) by (intro open_all_loaded) (simp_all add: distinct_modules_def)
  from plugins_initializaton_log [OF this assms(4,5)] assms(1,2) show ?thesis
    by (simp add: plugins_init_def opened_def Let_def loader_boot_def)
qed

lemma sample_yaml: "get_yaml_plugins sample_ltdl = Some (Inr (Some [''b'', ''b'']))"
proof -
  have o: "open_yaml_file sample_ltdl = Inr (0, Some (concat_path sample_ltdl ''HPE'' ''HPE''))"
    by (simp add: open_yaml_file_def dmidecode_exists_def dmidecode_loop.simps DMI_PATHS_def sample_ltdl_def get_manuf_and_prodname_def get_sys_cmd_out_def Let_def)
  have "read_tokens (ex_yaml_scan sample_ltdl p) 0 [] = Some [''b'', ''b'']" for p
    by (subst read_tokens_ends [where n = 5]) (auto simp: sample_ltdl_def upt_rec)
  with o show ?thesis by (simp add: get_yaml_plugins_def) (simp add: sample_ltdl_def)
qed

lemma sample_opened:
  "sh_plugins (opened sample_ltdl None) = [(''a'', \<lparr>phase_id = 0, handle = 1\<rparr>), (''b'', \<lparr>phase_id = 0, handle = 2\<rparr>)]"
  "pl_log (opened sample_ltdl None) = []"
  by (simp_all add: opened_def sample_ltdl_def plugins_open_plugin_def loader_boot_def lt_dlcaller_set_data_def Let_def container_simps)

theorem plugins_initialized_in_order_witness:
  "\<exists>s. plugins_init sample_ltdl None loader_boot = Some (Inr s) \<and> pl_log s = [Init 2 0, Init 2 1, Init 1 0]"
proof -
  have "distinct_modules sample_ltdl (lt_files sample_ltdl (ovs_pluginsdir sample_ltdl))"
    by (simp add: distinct_modules_def sample_ltdl_def List.map_filter_simps)
  moreover have "lt_dlinit sample_ltdl \<and> lt_interface_register sample_ltdl \<and> lt_advise sample_ltdl" by (simp add: sample_ltdl_def)
  moreover have "init_calls (sh_plugins (opened sample_ltdl None)) [''b'', ''b''] = [Init 2 0, Init 2 1, Init 1 0]"
    by (simp add: init_calls_def sample_opened mentions_def shash_find_data_def upt_rec)
  ultimately show ?thesis using plugins_initialized_in_order [of None sample_ltdl "Some [''b'', ''b'']"] by (simp add: sample_yaml sample_opened)
qed

text \<open>
  C26: Reading the tokens of the YAML file returns if and only if the scanner delivers the end of the stream, and then it
  returns the scalars that came before it, in order, cut at a NUL.  After a scan error, which delivers no such token, the
  loop never ends.
\<close>

theorem yaml_reader_terminates:
  "read_tokens scan 0 [] =
     (if \<exists>n. scan n = Yaml_stream_end
      then Some (concat (map (\<lambda>i. case scan i of Yaml_scalar v \<Rightarrow> [takeWhile (\<lambda>c. c \<noteq> CHR 0x00) v] | _ \<Rightarrow> []) [0..<LEAST n. scan n = Yaml_stream_end]))
      else None)"
proof (cases "\<exists>n. scan n = Yaml_stream_end")
  case True
  let ?n = "LEAST n. scan n = Yaml_stream_end"
  have "scan (0 + ?n) = Yaml_stream_end" using True by (auto intro: LeastI_ex)
  moreover have "\<forall>i<?n. scan (0 + i) \<noteq> Yaml_stream_end" using not_less_Least by fastforce
  ultimately show ?thesis unfolding if_P [OF True] using read_tokens_ends [of scan 0 ?n "[]"] by (simp only: add_0 append_Nil)
next
  case False
  then have "read_tokens scan 0 [] \<noteq> Some r" for r using read_tokens_returns [of scan 0 "[]" r] by auto
  with False show ?thesis by (cases "read_tokens scan 0 []") auto
qed

text \<open>
  dmidecode_exists finds the first directory with an executable dmidecode; when none has one it runs past the array
  of four paths instead of returning EINVAL.
\<close>

theorem dmidecode_search:
  "dmidecode_exists executable =
     (case List.find executable (map (\<lambda>p. p @ ''/dmidecode'') DMI_PATHS) of
        None \<Rightarrow> Inl Out_of_bounds
      | Some p \<Rightarrow> Inr (0, p))"
proof -
  have "dmidecode_loop executable 4 = Inl Out_of_bounds" by (simp add: dmidecode_loop.simps DMI_PATHS_def)
  then show ?thesis
    unfolding dmidecode_exists_def
    by (simp add: dmidecode_loop.simps [of _ 0] dmidecode_loop.simps [of _ 1] dmidecode_loop.simps [of _ 2] dmidecode_loop.simps [of _ 3]
        dmidecode_loop.simps [of _ "Suc 0"] DMI_PATHS_def Let_def eval_nat_numeral)
qed

text \<open>
  As long as no class pointer dangles, each hook is called exactly on the plugins that export it, in the order of
  libltdl, and no call faults.
\<close>

theorem hooks_called_once:
  assumes "\<forall>h\<in>set (lt_dlhandle_iterate env s). map_of (pl_data s) h \<noteq> Some None"
  shows "plugins_bufmon_register env s = Inr (s\<lparr>pl_log := pl_log s @ map (Call Hook_bufmon_register)
      (filter (\<lambda>h. case map_of (pl_data s) h of Some (Some c) \<Rightarrow> has_bufmon_register c | _ \<Rightarrow> False) (lt_dlhandle_iterate env s))\<rparr>)
    \<and> plugins_run env s = Inr (s\<lparr>pl_log := pl_log s @ map (Call Hook_run)
      (filter (\<lambda>h. case map_of (pl_data s) h of Some (Some _) \<Rightarrow> True | _ \<Rightarrow> False) (lt_dlhandle_iterate env s))\<rparr>)"
  using PLUGINS_CALL_log [OF assms] by (simp add: plugins_bufmon_register_def plugins_run_def cong: option.case_cong)

theorem hooks_called_once_witness:
  "\<exists>s. plugins_run sample_ltdl (opened sample_ltdl None) = Inr s \<and> pl_log s = [Call Hook_run 2, Call Hook_run 1]"
proof -
  have d: "pl_data (opened sample_ltdl None) = [(2, Some \<lparr>has_netdev_register = True, has_ofproto_register = True, has_bufmon_register = False\<rparr>),
      (1, Some \<lparr>has_netdev_register = True, has_ofproto_register = True, has_bufmon_register = False\<rparr>)]"
    by (simp add: opened_def sample_ltdl_def plugins_open_plugin_def loader_boot_def lt_dlcaller_set_data_def Let_def container_simps)
  have i: "lt_dlhandle_iterate sample_ltdl s = [2, 1]" for s by (simp add: sample_ltdl_def)
  show ?thesis using hooks_called_once [of sample_ltdl "opened sample_ltdl None"] by (simp add: sample_opened i d)
qed

text \<open>Opening a module a second time leaves a dangling class, and the next call of a hook uses it.\<close>

lemma second_open_dangles:
  assumes "lt_dlopenadvise env f = Some h" "lt_malloc env f" "map_of (pl_data s) h \<noteq> None"
    "\<forall>n\<in>{''init'', ''run'', ''wait'', ''destroy''}. lt_dlsym env h n" "lt_dlhandle_iterate env (plugins_open_plugin env f s) = h # hs"
  shows "plugins_run env (plugins_open_plugin env f s) = Inl Use_after_free"
  using assms by (simp add: plugins_run_def) (simp add: plugins_open_plugin_def Let_def pl_event_def map_of_set_data)

text \<open>The path of the YAML file is cut only if the build-time prefix is longer than 84 characters.\<close>

lemma concat_path_complete:
  "length (YAML_PATH env) \<le> 84 \<Longrightarrow> concat_path env m p = YAML_PATH env @ ''/'' @ m @ ''/'' @ p @ ''/plugins.yaml''"
  by (simp add: concat_path_def YAML_PATH_LENGHT_def)

end
