(* ===== verification/Port_Config.thy ===== *)
theory Port_Config
  imports Ports_Props
begin

text \<open>
  The settings of a port, src/bridge.c: \<open>port_configure\<close> computes from the Port row and the interfaces of the
  port what is handed to the ofproto layer (\<open>struct ofproto_bundle_settings\<close>), registers it, and records the
  hardware handle of a bond in the status column of the row.  The handle is what the MAC learning plugin
  flushes a LAG by.

  Keys of the schema, the parser of bond modes and Ethernet addresses, and what \<open>ofproto_bundle_get\<close> reports
  are the record \<open>conf_env\<close>.  Calls and writes are returned as a list of events, in order.
\<close>

section \<open>Data\<close>

datatype port_vlan_mode = PORT_VLAN_ACCESS | PORT_VLAN_TRUNK | PORT_VLAN_NATIVE_TAGGED | PORT_VLAN_NATIVE_UNTAGGED

record bond_settings =
  bond_name :: string
  bond_balance :: int
  bond_basis :: int
  bond_rebalance_interval :: int
  bond_lacp_fallback_ab_cfg :: bool
  bond_active_slave_mac :: string

record bundle_settings =
  bd_name :: string
  bd_slaves :: "int list"
  bd_slaves_entered :: nat
  bd_slaves_tx_enable :: "int list"
  bd_enable :: bool
  bd_hw_bond_should_exist :: bool
  bd_bond_handle_alloc_only :: bool
  bd_vlan :: int
  bd_trunks :: "int list option"
  bd_vlan_mode :: port_vlan_mode
  bd_use_priority_tags :: bool
  bd_bond :: "bond_settings option"
  bd_port_options :: "smap list"
  bd_addresses :: bundle_addresses

datatype conf_event =
    SetMiimon string int
  | BundleRegister bundle_settings
  | SetPortStatus string smap
  | SetMacTable string int int

record conf_env =
  PORT_HW_CONFIG_MAP_ENABLE :: string
  PORT_HW_CONFIG_MAP_ENABLE_DEFAULT :: bool
  BOND_RX_ENABLED :: string
  BOND_TX_ENABLED :: string
  BOND_MODE :: string
  BM_L3_SRC_DST_HASH :: int
  bond_mode_from_string :: "string \<Rightarrow> int option"
  eth_addr_scan :: "string \<Rightarrow> string option"
  eth_addr_zero :: string
  ofproto_bundle_get :: "bundle_settings \<Rightarrow> int \<Rightarrow> int"
  STATUS_BOND_HW_HANDLE :: string
  ce_fmt :: "int \<Rightarrow> string"
  ce_ip_bits :: ip_change_bits
  MAC_ENTRY_DEFAULT_IDLE_TIME :: int
  MAC_DEFAULT_MAX :: int

section \<open>Operations\<close>

text \<open>The second component is \<open>*activep\<close>, which is left alone when LACP is off.\<close>

definition enable_lacp :: "port_cfg \<Rightarrow> bool \<Rightarrow> bool \<times> bool" where
  "enable_lacp c active =
     (case pc_lacp c of
        None \<Rightarrow> (False, active)
      | Some l \<Rightarrow> if l = ''off'' then (False, active)
                  else if l = ''active'' then (True, True)
                  else if l = ''passive'' then (True, False)
                  else (False, active))"

definition miimon_interval_of :: "smap \<Rightarrow> int" where
  "miimon_interval_of m =
     (let i = smap_get_int m ''bond-miimon-interval'' 0;
          i = (if i \<le> 0 then 200 else i)
      in case smap_get m ''bond-detect-mode'' of
           None \<Rightarrow> 0
         | Some d \<Rightarrow> if d = ''carrier'' then 0 else if d \<noteq> ''miimon'' then 0 else i)"

definition port_configure_bond :: "conf_env \<Rightarrow> string \<Rightarrow> port_cfg \<Rightarrow> br_iface list \<Rightarrow> bond_settings \<times> conf_event list" where
  "port_configure_bond env name c ifaces =
     (let balance = (case smap_get (pc_other_config c) (BOND_MODE env) of
                       None \<Rightarrow> BM_L3_SRC_DST_HASH env
                     | Some m \<Rightarrow> (case bond_mode_from_string env m of None \<Rightarrow> BM_L3_SRC_DST_HASH env | Some b \<Rightarrow> b));
          r = smap_get_int (pc_other_config c) ''bond-rebalance-interval'' 10000;
          r = (if r \<noteq> 0 \<and> r < 1000 then 1000 else r);
          mac = (case pc_bond_active_slave c of
                   None \<Rightarrow> eth_addr_zero env
                 | Some s \<Rightarrow> (case eth_addr_scan env s of None \<Rightarrow> eth_addr_zero env | Some a \<Rightarrow> a))
      in (\<lparr>bond_name = name, bond_balance = balance,
           bond_basis = smap_get_int (pc_other_config c) ''bond-hash-basis'' 0,
           bond_rebalance_interval = r,
           bond_lacp_fallback_ab_cfg = smap_get_bool (pc_other_config c) ''lacp-fallback-ab'' False,
           bond_active_slave_mac = mac\<rparr>,
          map (\<lambda>i. SetMiimon (bi_name i) (miimon_interval_of (pc_other_config c))) ifaces))"

definition vlan_of_tag :: "port_cfg \<Rightarrow> int" where
  "vlan_of_tag c = (case pc_vlan_tag c of None \<Rightarrow> -1 | Some t \<Rightarrow> if t \<ge> 1 \<and> t \<le> 4094 then t else -1)"

definition vlan_mode_of :: "port_cfg \<Rightarrow> int \<Rightarrow> port_vlan_mode" where
  "vlan_mode_of c vlan =
     (case pc_vlan_mode c of
        Some m \<Rightarrow> if m = ''access'' then PORT_VLAN_ACCESS
                  else if m = ''trunk'' then PORT_VLAN_TRUNK
                  else if m = ''native-tagged'' then PORT_VLAN_NATIVE_TAGGED
                  else if m = ''native-untagged'' then PORT_VLAN_NATIVE_UNTAGGED
                  else PORT_VLAN_TRUNK
      | None \<Rightarrow> if vlan \<ge> 0 then PORT_VLAN_ACCESS else PORT_VLAN_TRUNK)"

text \<open>
  The loop over the interfaces: the arrays are filled behind the counters \<open>n_slaves\<close> and \<open>n_slaves_tx_enable\<close>.
\<close>

fun collect_slaves :: "conf_env \<Rightarrow> bool \<Rightarrow> br_iface list \<Rightarrow> bundle_settings \<Rightarrow> bundle_settings" where
  "collect_slaves env bonded [] b = b"
| "collect_slaves env bonded (i # is) b =
     collect_slaves env bonded is
       (if bonded
        then let b = b\<lparr>bd_hw_bond_should_exist := True\<rparr>;
                 b = (if smap_get_bool (ic_hw_bond_config (bi_cfg i)) (BOND_RX_ENABLED env) False
                      then b\<lparr>bd_slaves := bd_slaves b @ [bi_ofp_port i]\<rparr> else b)
             in if smap_get_bool (ic_hw_bond_config (bi_cfg i)) (BOND_TX_ENABLED env) False
                then b\<lparr>bd_slaves_tx_enable := bd_slaves_tx_enable b @ [bi_ofp_port i]\<rparr> else b
        else b\<lparr>bd_hw_bond_should_exist := False, bd_slaves := bd_slaves b @ [bi_ofp_port i]\<rparr>)"

definition no_addresses :: bundle_addresses where
  "no_addresses = \<lparr>ip4_address = None, ip6_address = None, ip4_address_secondary = [], ip6_address_secondary = [], ip_change = 0\<rparr>"

definition port_is_bonded :: "br_port \<Rightarrow> port_cfg \<Rightarrow> br_iface list \<Rightarrow> bool" where
  "port_is_bonded p c ifaces \<longleftrightarrow> take 3 (bp_name p) = ''lag'' \<or> length ifaces > 1 \<or> fst (enable_lacp c False)"

definition bundle_of_port :: "conf_env \<Rightarrow> address_flags \<Rightarrow> br_port \<Rightarrow> port_cfg \<Rightarrow> br_iface list \<Rightarrow> bundle_settings \<times> conf_event list" where
  "bundle_of_port env fl p c ifaces =
     (let b = \<lparr>bd_name = bp_name p, bd_slaves = [], bd_slaves_entered = length ifaces, bd_slaves_tx_enable = [],
               bd_enable = smap_get_bool (pc_hw_config c) (PORT_HW_CONFIG_MAP_ENABLE env) (PORT_HW_CONFIG_MAP_ENABLE_DEFAULT env),
               bd_hw_bond_should_exist = False, bd_bond_handle_alloc_only = False, bd_vlan = -1, bd_trunks = None,
               bd_vlan_mode = PORT_VLAN_ACCESS, bd_use_priority_tags = False, bd_bond = None, bd_port_options = [], bd_addresses = no_addresses\<rparr>;
          b = collect_slaves env (port_is_bonded p c ifaces) ifaces b;
          b = b\<lparr>bd_bond_handle_alloc_only := (bd_hw_bond_should_exist b \<and> length (bd_slaves b) < 1 \<and> bond_hw_handle p = -1)\<rparr>;
          b = b\<lparr>bd_vlan := vlan_of_tag c\<rparr>;
          b = b\<lparr>bd_trunks := (if pc_vlan_trunks c = [] then None else Some (pc_vlan_trunks c))\<rparr>;
          b = b\<lparr>bd_vlan_mode := vlan_mode_of c (bd_vlan b)\<rparr>;
          b = (if bd_vlan_mode b = PORT_VLAN_TRUNK then b\<lparr>bd_vlan := -1\<rparr> else b);
          b = b\<lparr>bd_use_priority_tags := smap_get_bool (pc_other_config c) ''priority-tags'' False\<rparr>;
          (b, ev) = (if bd_hw_bond_should_exist b
                     then let (bs, ev) = port_configure_bond env (bp_name p) c ifaces in (b\<lparr>bd_bond := Some bs\<rparr>, ev)
                     else (b\<lparr>bd_bond := None\<rparr>, map (\<lambda>i. SetMiimon (bi_name i) 0) ifaces));
          b = b\<lparr>bd_port_options := [pc_vlan_options c, pc_bond_options c, pc_hw_config c, pc_other_config c]\<rparr>
      in (b\<lparr>bd_addresses := vrf_port_reconfig_ipaddr (ce_ip_bits env) fl (pc_addresses c) (bd_addresses b)\<rparr>, ev))"

definition port_configure ::
  "conf_env \<Rightarrow> address_flags \<Rightarrow> br_iface list \<Rightarrow> br_port \<Rightarrow> fault + (br_port \<times> conf_event list)" where
  "port_configure env fl ifaces p =
     (case bp_cfg p of
        None \<Rightarrow> Inl Null_dereference
      | Some c \<Rightarrow>
          let (b, ev) = bundle_of_port env fl p c ifaces;
              prev = bond_hw_handle p;
              new = ofproto_bundle_get env b prev;
              ev = ev @ [BundleRegister b];
              p = p\<lparr>bond_hw_handle := new\<rparr>
          in Inr (if prev \<noteq> new
                  then (p, ev @ [SetPortStatus (pc_name c)
                         (if new \<noteq> -1 then smap_replace (pc_status c) (STATUS_BOND_HW_HANDLE env) (take 19 (ce_fmt env new))
                          else smap_remove (pc_status c) (STATUS_BOND_HW_HANDLE env))])
                  else (p, ev)))"

definition mac_setting :: "smap \<Rightarrow> string \<Rightarrow> int \<Rightarrow> int" where
  "mac_setting m k def = (case smap_get m k of None \<Rightarrow> def | Some v \<Rightarrow> if atoi v \<noteq> 0 then atoi v else def)"

definition bridge_configure_mac_table :: "conf_env \<Rightarrow> string \<Rightarrow> bridge_cfg \<Rightarrow> conf_event" where
  "bridge_configure_mac_table env name b =
     SetMacTable name (mac_setting (bc_other_config b) ''mac-aging-time'' (MAC_ENTRY_DEFAULT_IDLE_TIME env))
       (mac_setting (bc_other_config b) ''mac-table-size'' (MAC_DEFAULT_MAX env))"

section \<open>Facts\<close>

lemma collect_slaves_bonded:
  "collect_slaves env True ifaces b =
     b\<lparr>bd_hw_bond_should_exist := (bd_hw_bond_should_exist b \<or> ifaces \<noteq> []),
       bd_slaves := bd_slaves b @ map bi_ofp_port (filter (\<lambda>i. smap_get_bool (ic_hw_bond_config (bi_cfg i)) (BOND_RX_ENABLED env) False) ifaces),
       bd_slaves_tx_enable := bd_slaves_tx_enable b @ map bi_ofp_port (filter (\<lambda>i. smap_get_bool (ic_hw_bond_config (bi_cfg i)) (BOND_TX_ENABLED env) False) ifaces)\<rparr>"
  by (induction ifaces arbitrary: b) (simp_all add: Let_def)

lemma collect_slaves_single:
  "collect_slaves env False ifaces b =
     b\<lparr>bd_hw_bond_should_exist := (bd_hw_bond_should_exist b \<and> ifaces = []), bd_slaves := bd_slaves b @ map bi_ofp_port ifaces\<rparr>"
  by (induction ifaces arbitrary: b) simp_all

text \<open>What the ofproto layer may rely on.\<close>

definition bundle_wf :: "conf_env \<Rightarrow> br_port \<Rightarrow> br_iface list \<Rightarrow> bundle_settings \<Rightarrow> bool" where
  "bundle_wf env p ifaces b \<longleftrightarrow>
     bd_name b = bp_name p \<and> bd_slaves_entered b = length ifaces \<and>
     length (bd_slaves b) \<le> bd_slaves_entered b \<and> length (bd_slaves_tx_enable b) \<le> bd_slaves_entered b \<and>
     set (bd_slaves b) \<union> set (bd_slaves_tx_enable b) \<subseteq> bi_ofp_port ` set ifaces \<and>
     (bd_vlan b = -1 \<or> 1 \<le> bd_vlan b \<and> bd_vlan b \<le> 4094) \<and>
     (bd_vlan_mode b = PORT_VLAN_TRUNK \<longrightarrow> bd_vlan b = -1) \<and>
     (bd_hw_bond_should_exist b \<longleftrightarrow> bd_bond b \<noteq> None) \<and>
     (bd_bond_handle_alloc_only b \<longrightarrow> bd_hw_bond_should_exist b \<and> bd_slaves b = [] \<and> bond_hw_handle p = -1) \<and>
     (\<not> bd_hw_bond_should_exist b \<longrightarrow> bd_slaves b = map bi_ofp_port ifaces \<and> bd_slaves_tx_enable b = []) \<and>
     (case bd_bond b of None \<Rightarrow> True | Some s \<Rightarrow> bond_rebalance_interval s = 0 \<or> bond_rebalance_interval s \<ge> 1000)"

lemma vlan_of_tag_range: "vlan_of_tag c = -1 \<or> 1 \<le> vlan_of_tag c \<and> vlan_of_tag c \<le> 4094"
  by (auto simp: vlan_of_tag_def split: option.split)

lemma bond_rebalance: "bond_rebalance_interval (fst (port_configure_bond env n c is)) = 0 \<or> bond_rebalance_interval (fst (port_configure_bond env n c is)) \<ge> 1000"
  by (auto simp: port_configure_bond_def Let_def)

lemma filter_ofp: "set (map bi_ofp_port (filter P is)) \<subseteq> bi_ofp_port ` set is" "length (map bi_ofp_port (filter P is)) \<le> length is"
  by auto

lemma bundle_of_port_sel:
  fixes env fl p c ifaces
  defines "b \<equiv> fst (bundle_of_port env fl p c ifaces)" and "bonded \<equiv> port_is_bonded p c ifaces"
  shows "bd_name b = bp_name p" "bd_slaves_entered b = length ifaces"
    "bd_slaves b = map bi_ofp_port (filter (\<lambda>i. bonded \<longrightarrow> smap_get_bool (ic_hw_bond_config (bi_cfg i)) (BOND_RX_ENABLED env) False) ifaces)"
    "bd_slaves_tx_enable b = map bi_ofp_port (filter (\<lambda>i. bonded \<and> smap_get_bool (ic_hw_bond_config (bi_cfg i)) (BOND_TX_ENABLED env) False) ifaces)"
    "bd_hw_bond_should_exist b \<longleftrightarrow> bonded \<and> ifaces \<noteq> []"
    "bd_bond_handle_alloc_only b \<longleftrightarrow> bd_hw_bond_should_exist b \<and> bd_slaves b = [] \<and> bond_hw_handle p = -1"
    "bd_vlan_mode b = vlan_mode_of c (vlan_of_tag c)"
    "bd_vlan b = (if vlan_mode_of c (vlan_of_tag c) = PORT_VLAN_TRUNK then -1 else vlan_of_tag c)"
    "bd_bond b = (if bonded \<and> ifaces \<noteq> [] then Some (fst (port_configure_bond env (bp_name p) c ifaces)) else None)"
    "bd_addresses b = vrf_port_reconfig_ipaddr (ce_ip_bits env) fl (pc_addresses c) no_addresses"
  unfolding b_def bonded_def bundle_of_port_def
  by (cases "port_is_bonded p c ifaces"; simp add: collect_slaves_bonded collect_slaves_single Let_def case_prod_unfold Suc_le_eq)+

section \<open>Properties\<close>

definition sample_conf :: conf_env where
  "sample_conf = \<lparr>PORT_HW_CONFIG_MAP_ENABLE = ''enable'', PORT_HW_CONFIG_MAP_ENABLE_DEFAULT = True, BOND_RX_ENABLED = ''rx_enabled'', BOND_TX_ENABLED = ''tx_enabled'',
     BOND_MODE = ''bond_mode'', BM_L3_SRC_DST_HASH = 4, bond_mode_from_string = (\<lambda>_. None), eth_addr_scan = (\<lambda>_. None), eth_addr_zero = ''0'',
     ofproto_bundle_get = (\<lambda>b h. if bd_hw_bond_should_exist b then 3 else -1), STATUS_BOND_HW_HANDLE = ''bond_hw_handle'', ce_fmt = (\<lambda>_. ''3''),
     ce_ip_bits = \<lparr>PORT_PRIMARY_IPv4_CHANGED = 1, PORT_PRIMARY_IPv6_CHANGED = 2, PORT_SECONDARY_IPv4_CHANGED = 4, PORT_SECONDARY_IPv6_CHANGED = 8\<rparr>,
     MAC_ENTRY_DEFAULT_IDLE_TIME = 300, MAC_DEFAULT_MAX = 2048\<rparr>"

definition sample_lag :: br_port where
  "sample_lag = \<lparr>bp_name = ''lag1'', bp_cfg = Some ((sample_port_cfg ''lag1'' [])\<lparr>pc_vlan_tag := Some 5\<rparr>), bp_ifaces = [''eth0''], bond_hw_handle = -1\<rparr>"

text \<open>
  C37: Whatever the Port row says, the settings that port_configure registers are well formed: the slave arrays hold at most
  as many entries as were allocated and only OpenFlow ports of the port, the VLAN is unset or between 1 and 4094 and unset
  in trunk mode, bond settings are present exactly if a hardware bond shall exist, a handle is only allocated in advance for
  a bond without slaves and without handle, an unbonded port passes all its interfaces, and the rebalance interval is zero or
  at least a second.  There is no fault as long as the port has its row.
\<close>

theorem bundle_well_formed:
  assumes "bp_cfg p = Some c"
  shows "\<exists>b p' pre post. port_configure env fl ifaces p = Inr (p', pre @ [BundleRegister b] @ post) \<and> bundle_wf env p ifaces b"
proof -
  let ?b = "fst (bundle_of_port env fl p c ifaces)" and ?ev = "snd (bundle_of_port env fl p c ifaces)"
  note sel = bundle_of_port_sel [of env fl p c ifaces]
  have "set (bd_slaves ?b) \<union> set (bd_slaves_tx_enable ?b) \<subseteq> bi_ofp_port ` set ifaces" unfolding sel by auto
  moreover have "length (bd_slaves ?b) \<le> length ifaces" "length (bd_slaves_tx_enable ?b) \<le> length ifaces" unfolding sel by simp_all
  moreover have "case bd_bond ?b of None \<Rightarrow> True | Some s \<Rightarrow> bond_rebalance_interval s = 0 \<or> bond_rebalance_interval s \<ge> 1000"
    unfolding sel using bond_rebalance by simp
  ultimately have "bundle_wf env p ifaces ?b"
    using vlan_of_tag_range [of c] by (auto simp: bundle_wf_def sel(1,2,5-9)) (auto simp: sel)
  moreover have "\<exists>p' post. port_configure env fl ifaces p = Inr (p', ?ev @ [BundleRegister ?b] @ post)"
    using assms by (auto simp: port_configure_def Let_def case_prod_unfold)
  ultimately show ?thesis by blast
qed

theorem bundle_well_formed_witness:
  "\<exists>b p' pre post. port_configure sample_conf \<lparr>ip4_modified = False, ip6_modified = False, ip4_secondary_modified = False, ip6_secondary_modified = False\<rparr>
      [sample_br_iface ''eth0'' ''lag1'' 7] sample_lag = Inr (p', pre @ [BundleRegister b] @ post) \<and> bundle_wf sample_conf sample_lag [sample_br_iface ''eth0'' ''lag1'' 7] b"
  by (rule bundle_well_formed [of sample_lag "(sample_port_cfg ''lag1'' [])\<lparr>pc_vlan_tag := Some 5\<rparr>"]) (simp add: sample_lag_def)

definition handle_recorded :: "conf_env \<Rightarrow> smap \<Rightarrow> int \<Rightarrow> bool" where
  "handle_recorded env m h \<longleftrightarrow> smap_get m (STATUS_BOND_HW_HANDLE env) = (if h = -1 then None else Some (ce_fmt env h))"

lemma port_configure_handle:
  assumes "bp_cfg p = Some c" "port_configure env fl ifaces p = Inr (p', ev)"
  shows "bond_hw_handle p' = ofproto_bundle_get env (fst (bundle_of_port env fl p c ifaces)) (bond_hw_handle p)"
  using assms by (auto simp: port_configure_def Let_def case_prod_unfold split: if_splits)

lemma port_configure_returns: "bp_cfg p \<noteq> None \<Longrightarrow> \<exists>p' ev. port_configure env fl ifaces p = Inr (p', ev)"
  by (auto simp: port_configure_def Let_def case_prod_unfold)

definition written_status :: "port_cfg \<Rightarrow> conf_event list \<Rightarrow> smap" where
  "written_status c ev = fold (\<lambda>e m. case e of SetPortStatus _ m' \<Rightarrow> m' | _ \<Rightarrow> m) ev (pc_status c)"

lemma written_status_miimon: "written_status c (map (\<lambda>i. SetMiimon (bi_name i) k) is @ ev) = written_status c ev"
  by (induction "is") (simp_all add: written_status_def)

lemma bundle_events: "\<exists>k. snd (bundle_of_port env fl p c ifaces) = map (\<lambda>i. SetMiimon (bi_name i) k) ifaces"
  by (auto simp: bundle_of_port_def Let_def case_prod_unfold port_configure_bond_def)

text \<open>
  The status column of a Port row follows the hardware handle of its bond: if the row agreed with the handle before
  port_configure, then the column as written agrees with the handle afterwards, so that reading it back, as the MAC learning
  plugin does, gives the handle.  Hypotheses: the printed handle fits the buffer and reads back as the same number.
\<close>

theorem status_follows_handle:
  assumes "bp_cfg p = Some c" "handle_recorded env (pc_status c) (bond_hw_handle p)" "port_configure env fl ifaces p = Inr (p', ev)"
    "length (ce_fmt env (bond_hw_handle p')) \<le> 19" "atoi (ce_fmt env (bond_hw_handle p')) = bond_hw_handle p'"
  shows "handle_recorded env (written_status c ev) (bond_hw_handle p')
    \<and> smap_get_int (written_status c ev) (STATUS_BOND_HW_HANDLE env) (-1) = bond_hw_handle p'"
proof -
  let ?b = "fst (bundle_of_port env fl p c ifaces)"
  let ?new = "ofproto_bundle_get env ?b (bond_hw_handle p)"
  obtain k where k: "snd (bundle_of_port env fl p c ifaces) = map (\<lambda>i. SetMiimon (bi_name i) k) ifaces" using bundle_events by blast
  have p': "bond_hw_handle p' = ?new" by (rule port_configure_handle [OF assms(1,3)])
  have w: "written_status c ev = (if bond_hw_handle p = ?new then pc_status c
      else if ?new \<noteq> -1 then smap_replace (pc_status c) (STATUS_BOND_HW_HANDLE env) (take 19 (ce_fmt env ?new))
      else smap_remove (pc_status c) (STATUS_BOND_HW_HANDLE env))"
    using assms(1,3) by (auto simp: port_configure_def Let_def case_prod_unfold k written_status_miimon split: if_splits)
      (simp_all add: written_status_def)
  have "handle_recorded env (written_status c ev) (bond_hw_handle p')"
    using assms(2,4) by (auto simp: w p' handle_recorded_def)
  then show ?thesis using assms(5) by (auto simp: handle_recorded_def smap_get_int_def)
qed

theorem status_follows_handle_witness:
  "\<exists>p' ev. port_configure sample_conf \<lparr>ip4_modified = False, ip6_modified = False, ip4_secondary_modified = False, ip6_secondary_modified = False\<rparr>
      [sample_br_iface ''eth0'' ''lag1'' 7] sample_lag = Inr (p', ev) \<and> bond_hw_handle p' = 3
      \<and> smap_get_int (written_status ((sample_port_cfg ''lag1'' [])\<lparr>pc_vlan_tag := Some 5\<rparr>) ev) ''bond_hw_handle'' (-1) = 3"
proof -
  let ?c = "(sample_port_cfg ''lag1'' [])\<lparr>pc_vlan_tag := Some 5\<rparr>"
  let ?fl = "\<lparr>ip4_modified = False, ip6_modified = False, ip4_secondary_modified = False, ip6_secondary_modified = False\<rparr>"
  let ?is = "[sample_br_iface ''eth0'' ''lag1'' 7]"
  have c: "bp_cfg sample_lag = Some ?c" by (simp add: sample_lag_def)
  have "bd_hw_bond_should_exist (fst (bundle_of_port sample_conf ?fl sample_lag ?c ?is))"
    by (simp add: bundle_of_port_sel port_is_bonded_def sample_lag_def)
  then have h: "ofproto_bundle_get sample_conf (fst (bundle_of_port sample_conf ?fl sample_lag ?c ?is)) x = 3" for x by (simp add: sample_conf_def)
  obtain p' ev where r: "port_configure sample_conf ?fl ?is sample_lag = Inr (p', ev)"
    using port_configure_returns [of sample_lag sample_conf ?fl ?is] c by auto
  have h3: "bond_hw_handle p' = 3" using port_configure_handle [OF c r] h by simp
  have "handle_recorded sample_conf (pc_status ?c) (bond_hw_handle sample_lag)"
    by (simp add: handle_recorded_def sample_port_cfg_def synth_port_def sample_lag_def smap_get_def)
  moreover have "atoi ''3'' = 3" by code_simp
  ultimately show ?thesis using status_follows_handle [OF c _ r] r h3 by (auto simp: sample_conf_def)
qed

end
