(* ===== verification/Mirrors.thy ===== *)
theory Mirrors
  imports Ports_Props
begin

text \<open>
  Port mirrors of a bridge, src/bridge.c: \<open>bridge_configure_mirrors\<close> removes mirrors whose row is gone or
  disabled, creates and configures those whose row was modified, and reports the outcome in the row.

  The ofproto provider and the strings of the schema are the record \<open>mirror_env\<close>; calls and writes are a log.
  A bundle names a port and the bridge or VRF whose ofproto it belongs to.  Lookups walk all bridges, then all
  VRFs.  \<open>mirror_configure\<close> has the return type \<open>bool\<close>, so an error number reaches its caller as 1.
\<close>

section \<open>Data\<close>

record mirror_row =
  mw_uuid :: nat
  mw_name :: string
  mw_active :: "bool option"
  mw_mirror_status :: smap
  mw_output_port :: "string option"
  mw_output_vlan :: "int option"
  mw_select_src_port :: "string list"
  mw_select_dst_port :: "string list"
  mw_modified :: bool

record mirror =
  mi_uuid :: nat
  mi_name :: string
  mi_cfg :: "mirror_row option"

type_synonym mirror_bundle = "string \<times> string"

record mirror_settings =
  ms_name :: string
  ms_out_bundle :: "mirror_bundle option"
  ms_out_vlan :: int
  ms_srcs :: "mirror_bundle option list"
  ms_n_srcs :: nat
  ms_dsts :: "mirror_bundle option list"
  ms_n_dsts :: nat

datatype mirror_event =
    MirrorRegister nat mirror_settings
  | MirrorUnregister nat
  | SetMirrorStatus nat smap
  | SetMirrorStatistics nat "(string \<times> int) list"

record mirror_env =
  ofproto_mirror_register :: "mirror_event list \<Rightarrow> nat \<Rightarrow> mirror_settings \<Rightarrow> int"
  ofproto_mirror_unregister :: "mirror_event list \<Rightarrow> nat \<Rightarrow> int"
  ofproto_mirror_get_stats :: "mirror_event list \<Rightarrow> nat \<Rightarrow> (u64 \<times> u64) option"
  OPERATION_STATE :: string
  STATE_ACTIVE :: string
  STATE_SHUTDOWN :: string
  ERROR_EXTERNAL :: string
  ERROR_INTERNAL :: string
  ERROR_UNKNOWN :: string
  strerror_ENOMEM :: string

record mirrors =
  mi_ofproto :: bool
  br_mirrors :: "mirror list"
  mi_log :: "mirror_event list"

definition ENXIO :: int where "ENXIO = 6"
definition ENOMEM :: int where "ENOMEM = 12"
definition EFAULT :: int where "EFAULT = 14"

definition mi_event :: "mirror_event \<Rightarrow> mirrors \<Rightarrow> mirrors" where
  "mi_event e s = s\<lparr>mi_log := mi_log s @ [e]\<rparr>"

section \<open>Operations\<close>

definition mirror_strerror :: "mirror_env \<Rightarrow> int \<Rightarrow> string" where
  "mirror_strerror env e =
     (if e = EFAULT then ERROR_EXTERNAL env else if e = ENXIO then ERROR_INTERNAL env
      else if e = ENOMEM then strerror_ENOMEM env else ERROR_UNKNOWN env)"

definition mirror_find_by_uuid :: "mirrors \<Rightarrow> nat \<Rightarrow> mirror option" where
  "mirror_find_by_uuid s u = List.find (\<lambda>m. mi_uuid m = u) (br_mirrors s)"

definition mirror_create :: "mirror_row \<Rightarrow> mirrors \<Rightarrow> mirror \<times> mirrors" where
  "mirror_create row s =
     (let m = \<lparr>mi_uuid = mw_uuid row, mi_name = mw_name row, mi_cfg = None\<rparr>
      in (m, s\<lparr>br_mirrors := br_mirrors s @ [m]\<rparr>))"

definition mirror_destroy :: "mirror_env \<Rightarrow> nat \<Rightarrow> mirrors \<Rightarrow> int \<times> mirrors" where
  "mirror_destroy env u s =
     (let (err, s) = (if mi_ofproto s
                      then (ofproto_mirror_unregister env (mi_log s) u, mi_event (MirrorUnregister u) s) else (0, s))
      in (err, s\<lparr>br_mirrors := filter (\<lambda>m. mi_uuid m \<noteq> u) (br_mirrors s)\<rparr>))"

definition bundle_in :: "'a bridge_scheme list \<Rightarrow> string \<Rightarrow> (bool \<times> mirror_bundle) option" where
  "bundle_in brs name =
     map_option (\<lambda>br. (br_ofproto br, (br_name br, name))) (List.find (\<lambda>br. port_lookup br name \<noteq> None) brs)"

definition mirror_port_lookup :: "'a bridge_scheme list \<Rightarrow> 'b bridge_scheme list \<Rightarrow> string \<Rightarrow> mirror_bundle option" where
  "mirror_port_lookup bridges vrfs name =
     (case bundle_in bridges name of
        Some (ofproto, b) \<Rightarrow> if ofproto then Some b else None
      | None \<Rightarrow> (case bundle_in vrfs name of
                   Some (ofproto, b) \<Rightarrow> if ofproto then Some b else None
                 | None \<Rightarrow> None))"

text \<open>The array has a slot for each row; a row that is not found leaves its slot zeroed.\<close>

definition mirror_collect_ports ::
  "'a bridge_scheme list \<Rightarrow> 'b bridge_scheme list \<Rightarrow> string list \<Rightarrow> mirror_bundle option list \<times> nat" where
  "mirror_collect_ports bridges vrfs ports =
     (let out = map (mirror_port_lookup bridges vrfs) ports in (out, length (filter (\<lambda>b. b \<noteq> None) out)))"

definition mirror_configure ::
  "mirror_env \<Rightarrow> 'a bridge_scheme list \<Rightarrow> 'b bridge_scheme list \<Rightarrow> nat \<Rightarrow> mirror_row \<Rightarrow> mirrors \<Rightarrow> bool \<times> mirrors" where
  "mirror_configure env bridges vrfs u cfg s =
     (let s = s\<lparr>br_mirrors := map (\<lambda>m. if mi_uuid m = u then m\<lparr>mi_name := mw_name cfg\<rparr> else m) (br_mirrors s)\<rparr>;
          out = (case mw_output_port cfg of
                   Some p \<Rightarrow> map_option (\<lambda>b. (Some b, 65535)) (mirror_port_lookup bridges vrfs p)
                 | None \<Rightarrow> map_option (\<lambda>v. (None, v mod 65536)) (mw_output_vlan cfg))
      in case out of
           None \<Rightarrow> (True, s)
         | Some (bundle, vlan) \<Rightarrow>
             let (srcs, n_srcs) = mirror_collect_ports bridges vrfs (mw_select_src_port cfg);
                 (dsts, n_dsts) = mirror_collect_ports bridges vrfs (mw_select_dst_port cfg);
                 st = \<lparr>ms_name = mw_name cfg, ms_out_bundle = bundle, ms_out_vlan = vlan,
                       ms_srcs = srcs, ms_n_srcs = n_srcs, ms_dsts = dsts, ms_n_dsts = n_dsts\<rparr>;
                 err = ofproto_mirror_register env (mi_log s) u st
             in (err \<noteq> 0, mi_event (MirrorRegister u st) s))"

fun remove_mirrors :: "mirror_env \<Rightarrow> mirror_row list \<Rightarrow> mirror list \<Rightarrow> mirrors \<Rightarrow> mirrors" where
  "remove_mirrors env rows [] s = s"
| "remove_mirrors env rows (m # ms) s =
     remove_mirrors env rows ms
       (case List.find (\<lambda>r. mw_uuid r = mi_uuid m) rows of
          None \<Rightarrow> snd (mirror_destroy env (mi_uuid m) s)
        | Some row \<Rightarrow>
            if mw_active row = Some False
            then let (err, s) = mirror_destroy env (mi_uuid m) s;
                     smap = smap_replace (mw_mirror_status row) (OPERATION_STATE env) (STATE_SHUTDOWN env);
                     smap = (if err \<noteq> 0 then smap_replace smap (OPERATION_STATE env) (mirror_strerror env err) else smap)
                 in mi_event (SetMirrorStatus (mw_uuid row) smap) s
            else s)"

definition configure_row ::
  "mirror_env \<Rightarrow> 'a bridge_scheme list \<Rightarrow> 'b bridge_scheme list \<Rightarrow> mirror_row \<Rightarrow> mirrors \<Rightarrow> mirrors" where
  "configure_row env bridges vrfs row s =
     (let s = s\<lparr>br_mirrors := map (\<lambda>m. if mi_uuid m = mw_uuid row then m\<lparr>mi_cfg := Some row\<rparr> else m) (br_mirrors s)\<rparr>;
          (failed, s) = mirror_configure env bridges vrfs (mw_uuid row) row s
      in if \<not> failed
         then mi_event (SetMirrorStatus (mw_uuid row) (smap_replace (mw_mirror_status row) (OPERATION_STATE env) (STATE_ACTIVE env))) s
         else mi_event (SetMirrorStatus (mw_uuid row)
                  (smap_replace (mw_mirror_status row) (OPERATION_STATE env) (mirror_strerror env (of_bool failed))))
                (snd (mirror_destroy env (mw_uuid row) s)))"

definition add_mirror ::
  "mirror_env \<Rightarrow> 'a bridge_scheme list \<Rightarrow> 'b bridge_scheme list \<Rightarrow> mirror_row \<Rightarrow> mirrors \<Rightarrow> mirrors" where
  "add_mirror env bridges vrfs row s =
     (if \<not> mw_modified row then s
      else case mirror_find_by_uuid s (mw_uuid row) of
        Some _ \<Rightarrow> configure_row env bridges vrfs row s
      | None \<Rightarrow> if mw_active row = Some True then configure_row env bridges vrfs row (snd (mirror_create row s)) else s)"

definition bridge_configure_mirrors ::
  "mirror_env \<Rightarrow> 'a bridge_scheme list \<Rightarrow> 'b bridge_scheme list \<Rightarrow> mirror_row list \<Rightarrow> mirrors \<Rightarrow> mirrors" where
  "bridge_configure_mirrors env bridges vrfs rows s =
     fold (add_mirror env bridges vrfs) rows (remove_mirrors env rows (br_mirrors s) s)"

definition mirror_refresh_stats :: "mirror_env \<Rightarrow> mirror \<Rightarrow> mirrors \<Rightarrow> mirrors" where
  "mirror_refresh_stats env m s =
     (case ofproto_mirror_get_stats env (mi_log s) (mi_uuid m) of
        None \<Rightarrow> mi_event (SetMirrorStatistics (mi_uuid m) []) s
      | Some (pkts, bytes) \<Rightarrow>
          mi_event (SetMirrorStatistics (mi_uuid m)
            ((if pkts \<noteq> -1 then [(''tx_packets'', sint pkts)] else []) @ (if bytes \<noteq> -1 then [(''tx_bytes'', sint bytes)] else []))) s)"

section \<open>Facts\<close>

definition mirror_ids :: "mirrors \<Rightarrow> nat set" where
  "mirror_ids s = mi_uuid ` set (br_mirrors s)"

text \<open>The last status written for a row.\<close>

definition status_of_row :: "mirror_event list \<Rightarrow> nat \<Rightarrow> smap option" where
  "status_of_row lg u = map_of (rev (List.map_filter (\<lambda>e. case e of SetMirrorStatus v m \<Rightarrow> Some (v, m) | _ \<Rightarrow> None) lg)) u"

lemma status_of_row_snoc [simp]:
  "status_of_row (lg @ [SetMirrorStatus v m]) u = (if u = v then Some m else status_of_row lg u)"
  "status_of_row (lg @ [MirrorRegister v st]) u = status_of_row lg u"
  "status_of_row (lg @ [MirrorUnregister v]) u = status_of_row lg u"
  by (simp_all add: status_of_row_def List.map_filter_def)

lemma mirror_destroy_sel:
  "mirror_ids (snd (mirror_destroy env v s)) = mirror_ids s - {v}"
  "status_of_row (mi_log (snd (mirror_destroy env v s))) = status_of_row (mi_log s)"
  "distinct (map mi_uuid (br_mirrors s)) \<Longrightarrow> distinct (map mi_uuid (br_mirrors (snd (mirror_destroy env v s))))"
  by (auto simp: mirror_destroy_def mirror_ids_def mi_event_def distinct_map_filter Let_def fun_eq_iff split: if_splits)

lemma mirror_configure_sel:
  assumes "mirror_configure env bridges vrfs v cfg s = (failed, s')"
  shows "map mi_uuid (br_mirrors s') = map mi_uuid (br_mirrors s)" "status_of_row (mi_log s') = status_of_row (mi_log s)"
    "mi_ofproto s' = mi_ofproto s"
  using assms by (auto simp: mirror_configure_def mi_event_def Let_def comp_def if_distrib [of mi_uuid] split: option.splits prod.splits cong: if_cong)

lemma mirror_ids_map: "map mi_uuid (br_mirrors s') = map mi_uuid (br_mirrors s) \<Longrightarrow> mirror_ids s' = mirror_ids s"
  unfolding mirror_ids_def by (metis set_map)

text \<open>
  The outcome of configuring a row: the mirror is there and the row says active, or it is gone and the row
  says that an unknown error occurred.
\<close>

definition row_outcome :: "mirror_env \<Rightarrow> mirror_row \<Rightarrow> mirrors \<Rightarrow> bool" where
  "row_outcome env row s \<longleftrightarrow>
     (case status_of_row (mi_log s) (mw_uuid row) of
        None \<Rightarrow> False
      | Some m \<Rightarrow> smap_get m (OPERATION_STATE env) = Some (if mw_uuid row \<in> mirror_ids s then STATE_ACTIVE env else ERROR_UNKNOWN env))"

lemma strerror_true: "mirror_strerror env (of_bool True) = ERROR_UNKNOWN env"
  by (simp add: mirror_strerror_def EFAULT_def ENXIO_def ENOMEM_def)

lemma configure_row_effect:
  assumes "mw_uuid row \<in> mirror_ids s" "distinct (map mi_uuid (br_mirrors s))"
  shows "row_outcome env row (configure_row env bridges vrfs row s)
    \<and> distinct (map mi_uuid (br_mirrors (configure_row env bridges vrfs row s)))
    \<and> mirror_ids s - {mw_uuid row} \<subseteq> mirror_ids (configure_row env bridges vrfs row s)
    \<and> mirror_ids (configure_row env bridges vrfs row s) \<subseteq> mirror_ids s
    \<and> (\<forall>u. u \<noteq> mw_uuid row \<longrightarrow> status_of_row (mi_log (configure_row env bridges vrfs row s)) u = status_of_row (mi_log s) u)"
proof -
  define s0 where "s0 = s\<lparr>br_mirrors := map (\<lambda>m. if mi_uuid m = mw_uuid row then m\<lparr>mi_cfg := Some row\<rparr> else m) (br_mirrors s)\<rparr>"
  obtain failed s1 where c: "mirror_configure env bridges vrfs (mw_uuid row) row s0 = (failed, s1)" by fastforce
  have m0: "map mi_uuid (br_mirrors s0) = map mi_uuid (br_mirrors s)" by (simp add: s0_def)
  note sel = mirror_configure_sel [OF c]
  have ids: "mirror_ids s1 = mirror_ids s" using sel(1) m0 by (metis mirror_ids_map)
  have d: "distinct (map mi_uuid (br_mirrors s1))" using sel(1) m0 assms(2) by simp
  have st: "status_of_row (mi_log s1) = status_of_row (mi_log s)" using sel(2) by (simp add: s0_def)
  have r: "configure_row env bridges vrfs row s = (if \<not> failed
      then mi_event (SetMirrorStatus (mw_uuid row) (smap_replace (mw_mirror_status row) (OPERATION_STATE env) (STATE_ACTIVE env))) s1
      else mi_event (SetMirrorStatus (mw_uuid row) (smap_replace (mw_mirror_status row) (OPERATION_STATE env) (ERROR_UNKNOWN env)))
             (snd (mirror_destroy env (mw_uuid row) s1)))"
    by (simp add: configure_row_def s0_def [symmetric] c strerror_true [simplified])
  have e: "mirror_ids (mi_event x t) = mirror_ids t" "br_mirrors (mi_event x t) = br_mirrors t" "mi_log (mi_event x t) = mi_log t @ [x]" for x t
    by (simp_all add: mi_event_def mirror_ids_def)
  note dst = mirror_destroy_sel [where env = env and v = "mw_uuid row" and s = s1]
  show ?thesis
  proof (cases failed)
    case False
    then show ?thesis using assms ids d st by (simp add: r e row_outcome_def)
  next
    case True
    then show ?thesis using assms ids d st dst by (simp add: r e row_outcome_def)
  qed
qed

definition row_due :: "mirror_row \<Rightarrow> mirrors \<Rightarrow> bool" where
  "row_due row s \<longleftrightarrow> mw_modified row \<and> (mw_uuid row \<in> mirror_ids s \<or> mw_active row = Some True)"

lemma mirror_find_ids: "mirror_find_by_uuid s u = None \<longleftrightarrow> u \<notin> mirror_ids s"
  by (auto simp: mirror_find_by_uuid_def mirror_ids_def find_None_conv)

lemma add_mirror_effect:
  assumes "distinct (map mi_uuid (br_mirrors s))"
  shows "(if row_due row s then row_outcome env row (add_mirror env bridges vrfs row s) else add_mirror env bridges vrfs row s = s)
    \<and> distinct (map mi_uuid (br_mirrors (add_mirror env bridges vrfs row s)))
    \<and> mirror_ids s - {mw_uuid row} = mirror_ids (add_mirror env bridges vrfs row s) - {mw_uuid row}
    \<and> (\<forall>u. u \<noteq> mw_uuid row \<longrightarrow> status_of_row (mi_log (add_mirror env bridges vrfs row s)) u = status_of_row (mi_log s) u)"
proof (cases "row_due row s")
  case False
  then have "add_mirror env bridges vrfs row s = s" by (auto simp: row_due_def add_mirror_def mirror_find_ids [symmetric] split: option.splits)
  with False assms show ?thesis by simp
next
  case True
  define s1 where "s1 = (if mw_uuid row \<in> mirror_ids s then s else snd (mirror_create row s))"
  have r: "add_mirror env bridges vrfs row s = configure_row env bridges vrfs row s1"
    using True mirror_find_ids [of s "mw_uuid row"] by (auto simp: add_mirror_def row_due_def s1_def split: option.splits)
  have s1: "mw_uuid row \<in> mirror_ids s1" "distinct (map mi_uuid (br_mirrors s1))" "mirror_ids s1 = insert (mw_uuid row) (mirror_ids s)"
    "mi_log s1 = mi_log s"
    using assms by (auto simp: s1_def mirror_create_def mirror_ids_def Let_def)
  from configure_row_effect [OF s1(1,2), of env bridges vrfs] True s1(3,4) show ?thesis unfolding r by auto
qed

lemma row_outcome_cong:
  assumes "mw_uuid row \<in> mirror_ids s' \<longleftrightarrow> mw_uuid row \<in> mirror_ids s" "status_of_row (mi_log s') (mw_uuid row) = status_of_row (mi_log s) (mw_uuid row)"
  shows "row_outcome env row s' = row_outcome env row s"
  unfolding row_outcome_def assms ..

lemma add_mirrors_effect:
  assumes "distinct (map mi_uuid (br_mirrors s))" "distinct (map mw_uuid rows)"
  shows "distinct (map mi_uuid (br_mirrors (fold (add_mirror env bridges vrfs) rows s)))
    \<and> (\<forall>u. u \<notin> mw_uuid ` set rows \<longrightarrow> (u \<in> mirror_ids (fold (add_mirror env bridges vrfs) rows s) \<longleftrightarrow> u \<in> mirror_ids s)
          \<and> status_of_row (mi_log (fold (add_mirror env bridges vrfs) rows s)) u = status_of_row (mi_log s) u)
    \<and> (\<forall>row\<in>set rows. if row_due row s then row_outcome env row (fold (add_mirror env bridges vrfs) rows s)
          else (mw_uuid row \<in> mirror_ids (fold (add_mirror env bridges vrfs) rows s) \<longleftrightarrow> mw_uuid row \<in> mirror_ids s))"
  using assms
proof (induction rows arbitrary: s)
  case (Cons row rows)
  define s1 where "s1 = add_mirror env bridges vrfs row s"
  define s2 where "s2 = fold (add_mirror env bridges vrfs) rows s1"
  note e = add_mirror_effect [OF Cons.prems(1), of row env bridges vrfs, folded s1_def]
  have ids: "u \<in> mirror_ids s1 \<longleftrightarrow> u \<in> mirror_ids s" if "u \<noteq> mw_uuid row" for u using e that by blast
  have ih: "distinct (map mi_uuid (br_mirrors s2))"
    "\<And>u. u \<notin> mw_uuid ` set rows \<Longrightarrow> u \<in> mirror_ids s2 \<longleftrightarrow> u \<in> mirror_ids s1"
    "\<And>u. u \<notin> mw_uuid ` set rows \<Longrightarrow> status_of_row (mi_log s2) u = status_of_row (mi_log s1) u"
    "\<And>r. r \<in> set rows \<Longrightarrow> if row_due r s1 then row_outcome env r s2 else (mw_uuid r \<in> mirror_ids s2 \<longleftrightarrow> mw_uuid r \<in> mirror_ids s1)"
    using Cons.IH [of s1] e Cons.prems(2) unfolding s2_def by auto
  have new: "mw_uuid row \<notin> mw_uuid ` set rows" using Cons.prems(2) by simp
  have rest: "if row_due r s then row_outcome env r s2 else (mw_uuid r \<in> mirror_ids s2 \<longleftrightarrow> mw_uuid r \<in> mirror_ids s)" if "r \<in> set rows" for r
  proof -
    have "mw_uuid r \<noteq> mw_uuid row" using new that by (metis imageI)
    from ids [OF this] have "row_due r s1 \<longleftrightarrow> row_due r s" by (simp add: row_due_def)
    with ih(4) [OF that] ids [OF \<open>mw_uuid r \<noteq> mw_uuid row\<close>] show ?thesis by simp
  qed
  have first: "if row_due row s then row_outcome env row s2 else (mw_uuid row \<in> mirror_ids s2 \<longleftrightarrow> mw_uuid row \<in> mirror_ids s)"
    using e ih(2) [OF new] row_outcome_cong [OF ih(2) [OF new] ih(3) [OF new], of env] by (cases "row_due row s") simp_all
  have out: "(u \<in> mirror_ids s2 \<longleftrightarrow> u \<in> mirror_ids s) \<and> status_of_row (mi_log s2) u = status_of_row (mi_log s) u" if "u \<notin> mw_uuid ` set (row # rows)" for u
    using that ih(2,3) [of u] ids [of u] e by auto
  have f: "fold (add_mirror env bridges vrfs) (row # rows) s = s2" by (simp add: s1_def s2_def)
  show ?case unfolding f using ih(1) out first rest by simp
qed simp

definition row_gone :: "mirror_row list \<Rightarrow> nat \<Rightarrow> bool" where
  "row_gone rows u = (case List.find (\<lambda>r. mw_uuid r = u) rows of None \<Rightarrow> True | Some row \<Rightarrow> mw_active row = Some False)"

lemma remove_mirrors_effect:
  assumes "distinct (map mi_uuid (br_mirrors s))"
  shows "distinct (map mi_uuid (br_mirrors (remove_mirrors env rows ms s)))
    \<and> mirror_ids (remove_mirrors env rows ms s) = mirror_ids s - {u \<in> mi_uuid ` set ms. row_gone rows u}"
  using assms
proof (induction ms arbitrary: s)
  case (Cons m ms)
  define s1 where "s1 = (case List.find (\<lambda>r. mw_uuid r = mi_uuid m) rows of
          None \<Rightarrow> snd (mirror_destroy env (mi_uuid m) s)
        | Some row \<Rightarrow>
            if mw_active row = Some False
            then let (err, s) = mirror_destroy env (mi_uuid m) s;
                     smap = smap_replace (mw_mirror_status row) (OPERATION_STATE env) (STATE_SHUTDOWN env);
                     smap = (if err \<noteq> 0 then smap_replace smap (OPERATION_STATE env) (mirror_strerror env err) else smap)
                 in mi_event (SetMirrorStatus (mw_uuid row) smap) s
            else s)"
  have e: "mirror_ids (mi_event x t) = mirror_ids t" "br_mirrors (mi_event x t) = br_mirrors t" for x t by (simp_all add: mi_event_def mirror_ids_def)
  note d = mirror_destroy_sel [where env = env and v = "mi_uuid m" and s = s]
  have "distinct (map mi_uuid (br_mirrors s1)) \<and> mirror_ids s1 = (if row_gone rows (mi_uuid m) then mirror_ids s - {mi_uuid m} else mirror_ids s)"
    using Cons.prems d by (auto simp: s1_def row_gone_def e Let_def case_prod_unfold split: option.split)
  with Cons.IH [of s1] have "distinct (map mi_uuid (br_mirrors (remove_mirrors env rows ms s1)))
      \<and> mirror_ids (remove_mirrors env rows ms s1) = mirror_ids s - {u \<in> mi_uuid ` set (m # ms). row_gone rows u}" by auto
  then show ?case by (simp add: s1_def)
qed simp

text \<open>If every port of a list is found, the provider gets exactly them; the array has no hole.\<close>

lemma mirror_ports_complete:
  assumes "\<forall>p\<in>set ports. mirror_port_lookup bridges vrfs p \<noteq> None"
  shows "take (snd (mirror_collect_ports bridges vrfs ports)) (fst (mirror_collect_ports bridges vrfs ports)) = map (mirror_port_lookup bridges vrfs) ports"
  using assms by (simp add: mirror_collect_ports_def filter_True)

text \<open>A missing port leaves a hole, and the last port found is cut off.\<close>

lemma mirror_ports_hole:
  assumes "mirror_port_lookup bridges vrfs p = None" "mirror_port_lookup bridges vrfs q \<noteq> None"
  shows "take (snd (mirror_collect_ports bridges vrfs [p, q])) (fst (mirror_collect_ports bridges vrfs [p, q])) = [None]"
  using assms by (simp add: mirror_collect_ports_def)

section \<open>Properties\<close>

definition sample_mirror_env :: mirror_env where
  "sample_mirror_env = \<lparr>ofproto_mirror_register = (\<lambda>_ _ _. 0), ofproto_mirror_unregister = (\<lambda>_ _. 0), ofproto_mirror_get_stats = (\<lambda>_ _. None),
     OPERATION_STATE = ''operation_state'', STATE_ACTIVE = ''active'', STATE_SHUTDOWN = ''shutdown'', ERROR_EXTERNAL = ''external driver error'',
     ERROR_INTERNAL = ''internal error'', ERROR_UNKNOWN = ''unknown error'', strerror_ENOMEM = ''Cannot allocate memory''\<rparr>"

definition sample_mirror_row :: "nat \<Rightarrow> mirror_row" where
  "sample_mirror_row u = \<lparr>mw_uuid = u, mw_name = ''m'', mw_active = Some True, mw_mirror_status = [], mw_output_port = Some ''p0'', mw_output_vlan = None,
     mw_select_src_port = [''p1''], mw_select_dst_port = [], mw_modified = True\<rparr>"



end
