(* ===== verification/Bridge_Settings.thy ===== *)
theory Bridge_Settings
  imports Ports_Props
begin

text \<open>
  Settings of a bridge as a whole, src/bridge.c: the Ethernet address of the local port, the datapath id, and
  the sFlow options.

  An Ethernet address is a 48-bit word; comparing two of them compares the words.  Parsers and the tests on
  addresses that the base library provides are the record \<open>addr_env\<close>.
\<close>

section \<open>The local hardware address\<close>

record addr_env =
  eth_addr_from_string :: "string \<Rightarrow> (48 word) option"
  netdev_get_etheraddr :: "string \<Rightarrow> (48 word) option"
  eth_addr_is_multicast :: "48 word \<Rightarrow> bool"
  eth_addr_is_local :: "48 word \<Rightarrow> bool"
  eth_addr_is_reserved :: "48 word \<Rightarrow> bool"
  dpid_from_string :: "string \<Rightarrow> u64 option"
  ae_default_ea :: "string \<Rightarrow> 48 word"
  OFPP_LOCAL :: int

text \<open>\<open>strcmp (s, t) < 0\<close>; characters compare as unsigned.\<close>

fun string_less :: "string \<Rightarrow> string \<Rightarrow> bool" where
  "string_less s [] = False"
| "string_less [] (b # t) = True"
| "string_less (a # s) (b # t) = ((of_char a :: nat) < of_char b \<or> a = b \<and> string_less s t)"

fun first_by_name :: "br_iface option \<Rightarrow> br_iface list \<Rightarrow> br_iface option" where
  "first_by_name i [] = i"
| "first_by_name i (c # cs) =
     first_by_name (case i of None \<Rightarrow> Some c | Some j \<Rightarrow> if string_less (bi_name c) (bi_name j) then Some c else Some j) cs"

fun last_with_addr :: "addr_env \<Rightarrow> 48 word \<Rightarrow> br_iface option \<Rightarrow> br_iface list \<Rightarrow> br_iface option" where
  "last_with_addr env ea i [] = i"
| "last_with_addr env ea i (c # cs) =
     last_with_addr env ea (if netdev_get_etheraddr env (bi_name c) = Some ea then Some c else i) cs"

text \<open>
  The address that represents a port and the interface it belongs to; \<open>Inr None\<close> skips the port.  The last
  argument is the VLAN tag of the fake bridge, if there is one.
\<close>

definition port_hw_addr ::
  "addr_env \<Rightarrow> br_port \<Rightarrow> br_iface list \<Rightarrow> int option \<Rightarrow> fault + ((48 word) \<times> br_iface option) option" where
  "port_hw_addr env p ifaces fake_tag =
     (case bp_cfg p of
        None \<Rightarrow> Inl Null_dereference
      | Some c \<Rightarrow>
          (case Option.bind (pc_mac c) (eth_addr_from_string env) of
             Some ea \<Rightarrow> Inr (Some (ea, last_with_addr env ea None ifaces))
           | None \<Rightarrow>
               (case first_by_name None ifaces of
                  None \<Rightarrow> Inl Null_dereference
                | Some i \<Rightarrow>
                    if bi_ofp_port i = OFPP_LOCAL env then Inr None
                    else if fake_tag \<noteq> None \<and> pc_vlan_tag c \<noteq> fake_tag then Inr None
                    else Inr (map_option (\<lambda>ea. (ea, Some i)) (netdev_get_etheraddr env (bi_name i))))))"

definition eth_addr_usable :: "addr_env \<Rightarrow> 48 word \<Rightarrow> bool" where
  "eth_addr_usable env ea \<longleftrightarrow> \<not> eth_addr_is_multicast env ea \<and> \<not> eth_addr_is_local env ea \<and> \<not> eth_addr_is_reserved env ea \<and> ea \<noteq> 0"

fun walk_hw_addrs ::
  "addr_env \<Rightarrow> (br_port \<times> br_iface list) list \<Rightarrow> int option \<Rightarrow> ((48 word) \<times> br_iface option) option
     \<Rightarrow> fault + ((48 word) \<times> br_iface option) option" where
  "walk_hw_addrs env [] tag best = Inr best"
| "walk_hw_addrs env ((p, ifaces) # ps) tag best =
     (case port_hw_addr env p ifaces tag of
        Inl e \<Rightarrow> Inl e
      | Inr None \<Rightarrow> walk_hw_addrs env ps tag best
      | Inr (Some (ea, i)) \<Rightarrow>
          walk_hw_addrs env ps tag
            (if eth_addr_usable env ea \<and> (case best of None \<Rightarrow> True | Some (b, _) \<Rightarrow> ea < b) then Some (ea, i) else best))"

definition port_ifaces :: "'a bridge_scheme \<Rightarrow> br_port \<Rightarrow> br_iface list" where
  "port_ifaces s p = List.map_filter (iface_lookup_br s) (bp_ifaces p)"

definition find_local_hw_addr :: "addr_env \<Rightarrow> 'a bridge_scheme \<Rightarrow> int option \<Rightarrow> fault + ((48 word) \<times> br_iface option)" where
  "find_local_hw_addr env s fake_tag =
     (case walk_hw_addrs env (map (\<lambda>p. (p, port_ifaces s p)) (br_ports s)) fake_tag None of
        Inl e \<Rightarrow> Inl e
      | Inr (Some r) \<Rightarrow> Inr r
      | Inr None \<Rightarrow> Inr (ae_default_ea env (br_default_ea s), None))"

definition bridge_pick_local_hw_addr :: "addr_env \<Rightarrow> bridge_cfg \<Rightarrow> 'a bridge_scheme \<Rightarrow> fault + ((48 word) \<times> br_iface option)" where
  "bridge_pick_local_hw_addr env cfg s =
     (case Option.bind (smap_get (bc_other_config cfg) ''hwaddr'') (eth_addr_from_string env) of
        None \<Rightarrow> find_local_hw_addr env s None
      | Some ea \<Rightarrow> if eth_addr_is_multicast env ea then find_local_hw_addr env s None
                   else if ea = 0 then find_local_hw_addr env s None
                   else Inr (ea, None))"

definition bridge_pick_datapath_id :: "addr_env \<Rightarrow> bridge_cfg \<Rightarrow> 48 word \<Rightarrow> u64" where
  "bridge_pick_datapath_id env cfg ea =
     (case Option.bind (smap_get (bc_other_config cfg) ''datapath-id'') (dpid_from_string env) of
        Some d \<Rightarrow> d
      | None \<Rightarrow> ucast ea)"

datatype dpid_event =
    SetLocalEtheraddr string "48 word"
  | SetDatapathId u64
  | SetDatapathIdColumn u64

text \<open>\<open>current\<close> is what \<open>ofproto_get_datapath_id\<close> returns.\<close>

definition bridge_configure_datapath_id ::
  "addr_env \<Rightarrow> u64 \<Rightarrow> bridge_cfg \<Rightarrow> 'a bridge_scheme \<Rightarrow> fault + ((48 word) \<times> dpid_event list)" where
  "bridge_configure_datapath_id env current cfg s =
     (case bridge_pick_local_hw_addr env cfg s of
        Inl e \<Rightarrow> Inl e
      | Inr (ea, _) \<Rightarrow>
          let dpid = bridge_pick_datapath_id env cfg ea
          in Inr (ea,
               (case iface_from_ofp_port s (OFPP_LOCAL env) of None \<Rightarrow> [] | Some n \<Rightarrow> [SetLocalEtheraddr n ea])
               @ (if dpid \<noteq> current then [SetDatapathId dpid] else [])
               @ [SetDatapathIdColumn dpid]))"

section \<open>sFlow\<close>

record sflow_port_row =
  sp_name :: string
  sp_ip4_address :: "string option"
  sp_ip6_address :: "string option"
  sp_other_config :: smap

record sflow_row =
  sf_targets :: "string list"
  sf_sampling :: "int option"
  sf_polling :: "int option"
  sf_header :: "int option"
  sf_max_datagram :: "int option"
  sf_agent :: "string option"
  sf_agent_addr_family :: "string option"

record sflow_options =
  oso_targets :: "string list"
  oso_sampling_rate :: u32
  oso_polling_interval :: u32
  oso_header_len :: u32
  oso_max_datagram :: u32
  oso_sub_id :: u32
  oso_agent_device :: "string option"
  oso_agent_ip :: string
  oso_ports :: "string list"

record sflow_env =
  SFL_DEFAULT_SAMPLING_RATE :: u32
  SFL_DEFAULT_POLLING_INTERVAL :: u32
  SFL_DEFAULT_HEADER_SIZE :: u32
  SFL_DEFAULT_DATAGRAM_SIZE :: u32
  SFLOW_PER_INTERFACE_KEY :: string
  DEFAULT_BRIDGE_NAME :: string

definition INET_ADDRSTRLEN :: nat where "INET_ADDRSTRLEN = 16"
definition INET6_ADDRSTRLEN :: nat where "INET6_ADDRSTRLEN = 46"

definition sflow_agent_address_default :: "sflow_port_row list \<Rightarrow> string" where
  "sflow_agent_address_default ports =
     (case List.find (\<lambda>p. sp_ip4_address p \<noteq> None) ports of
        None \<Rightarrow> []
      | Some p \<Rightarrow> take INET_ADDRSTRLEN (the (sp_ip4_address p)))"

datatype address_family = AF_UNSPEC | AF_INET | AF_INET6

definition address_family_of :: "string option \<Rightarrow> address_family" where
  "address_family_of af =
     (case af of None \<Rightarrow> AF_UNSPEC | Some a \<Rightarrow> if a = ''ipv4'' then AF_INET else if a = ''ipv6'' then AF_INET6 else AF_UNSPEC)"

definition sflow_agent_address :: "sflow_port_row list \<Rightarrow> string option \<Rightarrow> string option \<Rightarrow> string" where
  "sflow_agent_address ports intf_name af =
     (let addr = (case Option.bind intf_name (\<lambda>n. List.find (\<lambda>p. sp_name p = n) ports) of
                    None \<Rightarrow> sflow_agent_address_default ports
                  | Some p \<Rightarrow>
                      (case address_family_of af of
                         AF_INET6 \<Rightarrow> (case sp_ip6_address p of None \<Rightarrow> sflow_agent_address_default ports | Some a \<Rightarrow> take INET6_ADDRSTRLEN a)
                       | _ \<Rightarrow> (case sp_ip4_address p of None \<Rightarrow> sflow_agent_address_default ports | Some a \<Rightarrow> take INET_ADDRSTRLEN a)))
      in takeWhile (\<lambda>c. c \<noteq> CHR ''/'') addr)"

definition sflow_ports_disabled :: "sflow_env \<Rightarrow> sflow_port_row list \<Rightarrow> string list" where
  "sflow_ports_disabled env ports =
     map sp_name (filter (\<lambda>p. take (length (DEFAULT_BRIDGE_NAME env)) (sp_name p) \<noteq> DEFAULT_BRIDGE_NAME env
        \<and> sp_other_config p \<noteq> [] \<and> \<not> smap_get_bool (sp_other_config p) (SFLOW_PER_INTERFACE_KEY env) True) ports)"

definition u32_column :: "int option \<Rightarrow> u32 \<Rightarrow> u32" where
  "u32_column c def = (case c of None \<Rightarrow> def | Some v \<Rightarrow> word_of_int v)"

text \<open>\<open>None\<close> disables sFlow; the counter of bridges is returned incremented otherwise.\<close>

definition bridge_configure_sflow :: "sflow_env \<Rightarrow> sflow_port_row list \<Rightarrow> sflow_row option \<Rightarrow> u32 \<Rightarrow> sflow_options option \<times> u32" where
  "bridge_configure_sflow env ports cfg number =
     (case cfg of
        None \<Rightarrow> (None, number)
      | Some c \<Rightarrow>
          (Some \<lparr>oso_targets = remdups (sf_targets c),
                 oso_sampling_rate = u32_column (sf_sampling c) (SFL_DEFAULT_SAMPLING_RATE env),
                 oso_polling_interval = u32_column (sf_polling c) (SFL_DEFAULT_POLLING_INTERVAL env),
                 oso_header_len = u32_column (sf_header c) (SFL_DEFAULT_HEADER_SIZE env),
                 oso_max_datagram = u32_column (sf_max_datagram c) (SFL_DEFAULT_DATAGRAM_SIZE env),
                 oso_sub_id = number,
                 oso_agent_device = sf_agent c,
                 oso_agent_ip = sflow_agent_address ports (sf_agent c) (sf_agent_addr_family c),
                 oso_ports = remdups (sflow_ports_disabled env ports)\<rparr>, number + 1))"

section \<open>Facts\<close>

text \<open>The usable addresses that ports contribute, whatever their order.\<close>

definition hw_candidates :: "addr_env \<Rightarrow> (br_port \<times> br_iface list) list \<Rightarrow> int option \<Rightarrow> (48 word) set" where
  "hw_candidates env ps tag = {ea. eth_addr_usable env ea \<and> (\<exists>(p, ifaces)\<in>set ps. \<exists>i. port_hw_addr env p ifaces tag = Inr (Some (ea, i)))}"

definition ports_readable :: "addr_env \<Rightarrow> (br_port \<times> br_iface list) list \<Rightarrow> int option \<Rightarrow> bool" where
  "ports_readable env ps tag \<longleftrightarrow> (\<forall>(p, ifaces)\<in>set ps. \<exists>r. port_hw_addr env p ifaces tag = Inr r)"

lemma first_by_name_Some: "first_by_name (Some i) is \<noteq> None"
  by (induction "is" arbitrary: i) (auto simp: split: if_splits)

lemma port_hw_addr_total:
  assumes "bp_cfg p \<noteq> None" "ifaces \<noteq> []"
  shows "\<exists>r. port_hw_addr env p ifaces tag = Inr r"
proof -
  obtain i "is" where "ifaces = i # is" using assms(2) by (cases ifaces) auto
  then have "first_by_name None ifaces \<noteq> None" using first_by_name_Some by simp
  with assms(1) show ?thesis by (auto simp: port_hw_addr_def split: option.split)
qed

lemma finite_hw_candidates: "finite (hw_candidates env ps tag)"
  by (rule finite_subset [of _ UNIV]) auto

lemma hw_candidates_Cons:
  assumes "port_hw_addr env p ifaces tag = Inr r"
  shows "hw_candidates env ((p, ifaces) # ps) tag =
    (case r of None \<Rightarrow> {} | Some (ea, _) \<Rightarrow> if eth_addr_usable env ea then {ea} else {}) \<union> hw_candidates env ps tag"
  using assms by (auto simp: hw_candidates_def split: option.split prod.split)

lemma walk_hw_addrs_min:
  assumes "ports_readable env ps tag"
  shows "\<exists>r. walk_hw_addrs env ps tag best = Inr r \<and>
    map_option fst r = (let S = set_option (map_option fst best) \<union> hw_candidates env ps tag in if S = {} then None else Some (Min S))"
  using assms
proof (induction ps arbitrary: best)
  case Nil
  then show ?case by (cases best) (auto simp: hw_candidates_def)
next
  case (Cons a ps)
  obtain p ifaces where a: "a = (p, ifaces)" by fastforce
  obtain r where r: "port_hw_addr env p ifaces tag = Inr r" using Cons.prems by (auto simp: a ports_readable_def)
  have rest: "ports_readable env ps tag" using Cons.prems by (simp add: ports_readable_def)
  note c = hw_candidates_Cons [OF r, of ps]
  show ?case
  proof (cases "r")
    case None
    with Cons.IH [OF rest, of best] r c show ?thesis by (simp add: a)
  next
    case (Some x)
    obtain ea i where x: "x = (ea, i)" by fastforce
    define best' where "best' = (if eth_addr_usable env ea \<and> (case best of None \<Rightarrow> True | Some (b, _) \<Rightarrow> ea < b) then Some (ea, i) else best)"
    have w: "walk_hw_addrs env (a # ps) tag best = walk_hw_addrs env ps tag best'" using r Some x by (simp add: a best'_def)
    let ?S = "set_option (map_option fst best) \<union> hw_candidates env (a # ps) tag"
    let ?T = "set_option (map_option fst best') \<union> hw_candidates env ps tag"
    have fin: "finite ?S" "finite ?T" by (simp_all add: finite_hw_candidates option.set_map)
    have e: "?S = {} \<longleftrightarrow> ?T = {}" using c Some x by (auto simp: a best'_def split: if_splits option.splits)
    have m: "Min ?S = Min ?T" if "?S \<noteq> {}"
    proof (rule Min_eqI [OF fin(1)])
      show "Min ?T \<le> y" if y: "y \<in> ?S" for y
      proof -
        have "\<exists>z\<in>?T. z \<le> y" using y c Some x
          by (cases best) (auto simp: a best'_def not_less split: if_splits intro: less_imp_le)
        then show ?thesis using fin(2) Min_le [OF fin(2)] by (meson order_trans)
      qed
      have "?T \<noteq> {}" using that unfolding e .
      from Min_in [OF fin(2) this] have "Min ?T \<in> ?T" .
      moreover have "?T \<subseteq> ?S" using c Some x by (auto simp: a best'_def split: if_splits)
      ultimately show "Min ?T \<in> ?S" by blast
    qed
    have "(if ?S = {} then None else Some (Min ?S)) = (if ?T = {} then None else Some (Min ?T))"
      using e m by metis
    with Cons.IH [OF rest, of best'] show ?thesis unfolding w Let_def by presburger
  qed
qed

lemma sflow_default_address:
  assumes "List.find (\<lambda>p. sp_ip4_address p \<noteq> None) ports = Some p" "sp_ip4_address p = Some a" "length (takeWhile (\<lambda>c. c \<noteq> CHR ''/'') a) \<le> INET_ADDRSTRLEN"
  shows "sflow_agent_address ports None af = takeWhile (\<lambda>c. c \<noteq> CHR ''/'') a"
proof -
  have "takeWhile P (take n xs) = takeWhile P xs" if "length (takeWhile P xs) \<le> n" for P :: "char \<Rightarrow> bool" and n xs
    using that by (induction xs arbitrary: n) (auto simp: take_Cons' split: if_splits)
  with assms show ?thesis by (simp add: sflow_agent_address_def sflow_agent_address_default_def)
qed

lemma sflow_sub_ids: "snd (bridge_configure_sflow env ports (Some c) n) = n + 1" "oso_sub_id (the (fst (bridge_configure_sflow env ports (Some c) n))) = n"
  by (simp_all add: bridge_configure_sflow_def)

text \<open>In a consistent bridge every port has an interface.\<close>

lemma ports_ok_port_ifaces:
  assumes ok: "ports_ok env s" and p: "p \<in> set (br_ports s)"
  shows "port_ifaces s p \<noteq> []"
proof -
  have wf: "ports_wf env s" using ok by (simp add: ports_ok_def)
  have "bp_name p \<in> bi_port ` set (br_iface_by_name s)" using ports_ok_names [OF ok] p by (metis imageI)
  then obtain i where i: "i \<in> set (br_iface_by_name s)" "bi_port i = bp_name p" by auto
  then have "bi_name i \<in> set (bp_ifaces p)" using ports_wf_owns [OF wf p] by (auto simp: owns_def)
  moreover have "iface_lookup_br s (bi_name i) \<noteq> None" using i(1) by (auto simp: iface_lookup_br_None)
  ultimately have "set (port_ifaces s p) \<noteq> {}" by (auto simp: port_ifaces_def List.map_filter_def)
  then show ?thesis by auto
qed

lemma ports_ok_readable:
  assumes "ports_ok penv s" "\<forall>p\<in>set (br_ports s). bp_cfg p \<noteq> None"
  shows "ports_readable env (map (\<lambda>p. (p, port_ifaces s p)) (br_ports s)) tag"
  using assms ports_ok_port_ifaces [OF assms(1)] by (auto simp: ports_readable_def intro!: port_hw_addr_total)

section \<open>Properties\<close>

definition sample_addr_env :: addr_env where
  "sample_addr_env = \<lparr>eth_addr_from_string = (\<lambda>_. None), netdev_get_etheraddr = (\<lambda>n. if n = ''eth0'' then Some 9 else Some 4), eth_addr_is_multicast = (\<lambda>_. False),
     eth_addr_is_local = (\<lambda>_. False), eth_addr_is_reserved = (\<lambda>_. False), dpid_from_string = (\<lambda>_. None), ae_default_ea = (\<lambda>_. 1), OFPP_LOCAL = 65534\<rparr>"

definition sample_sw_cfg :: sw where
  "sample_sw_cfg = sample_sw\<lparr>br_ports := map (\<lambda>p. p\<lparr>bp_cfg := Some (sample_port_cfg (bp_name p) [])\<rparr>) (br_ports sample_sw)\<rparr>"

text \<open>
  C38: In a consistent bridge whose configuration names no address of its own, choosing the local hardware address does not
  fault and yields the least usable address that the ports contribute, or the default address if there is none.  The choice
  therefore does not depend on the order in which the hash table delivers the ports.
\<close>

theorem local_hw_addr_is_least:
  assumes "ports_ok penv s" "\<forall>p\<in>set (br_ports s). bp_cfg p \<noteq> None" "smap_get (bc_other_config cfg) ''hwaddr'' = None"
  shows "\<exists>i. bridge_pick_local_hw_addr env cfg s =
    Inr (let S = hw_candidates env (map (\<lambda>p. (p, port_ifaces s p)) (br_ports s)) None
         in if S = {} then ae_default_ea env (br_default_ea s) else Min S, i)"
proof -
  let ?ps = "map (\<lambda>p. (p, port_ifaces s p)) (br_ports s)"
  obtain r where r: "walk_hw_addrs env ?ps None None = Inr r"
    "map_option fst r = (if hw_candidates env ?ps None = {} then None else Some (Min (hw_candidates env ?ps None)))"
    using walk_hw_addrs_min [OF ports_ok_readable [OF assms(1,2)], of env None None] by (auto simp: Let_def)
  have "bridge_pick_local_hw_addr env cfg s = find_local_hw_addr env s None" using assms(3) by (simp add: bridge_pick_local_hw_addr_def)
  with r show ?thesis by (cases r) (auto simp: find_local_hw_addr_def Let_def split: if_splits)
qed

theorem local_hw_addr_is_least_witness:
  "\<exists>i. bridge_pick_local_hw_addr sample_addr_env sample_bridge_cfg sample_sw_cfg = Inr (4, i)"
proof -
  have "ports_ok sample_port_env sample_sw_cfg"
    by (auto simp: ports_ok_def ports_wf_def iface_rel_def port_rel_Union sample_sw_cfg_def sample_sw_def sample_br_iface_def sample_port_env_def)
  moreover have "\<forall>p\<in>set (br_ports sample_sw_cfg). bp_cfg p \<noteq> None" by (simp add: sample_sw_cfg_def)
  moreover have "smap_get (bc_other_config sample_bridge_cfg) ''hwaddr'' = None" by (simp add: sample_bridge_cfg_def smap_get_def)
  moreover have "hw_candidates sample_addr_env (map (\<lambda>p. (p, port_ifaces sample_sw_cfg p)) (br_ports sample_sw_cfg)) None = {9, 4}"
    by (auto simp: hw_candidates_def sample_sw_cfg_def sample_sw_def port_ifaces_def List.map_filter_simps iface_lookup_br_def sample_br_iface_def
        port_hw_addr_def sample_port_cfg_def synth_port_def sample_addr_env_def eth_addr_usable_def)
  moreover have "Min {9, 4 :: 48 word} = 4" by simp
  ultimately show ?thesis using local_hw_addr_is_least [of sample_port_env sample_sw_cfg sample_bridge_cfg sample_addr_env] by (simp add: Let_def)
qed

end
