(* ===== verification/Bridges.thy ===== *)
theory Bridges
  imports Mirrors
begin

text \<open>
  The bridges and VRFs of the switch, src/bridge.c: which of them exist, and the part of \<open>bridge_reconfigure\<close>
  that brings bridges, VRFs, ports and interfaces in line with the database.

  The state \<open>switch\<close> holds \<open>all_bridges\<close> and \<open>all_vrfs\<close> and what they share, the log of calls and the stats
  blocks; \<open>on_bridge\<close> runs an operation of \<open>Ports\<close> on one of them.  A loop over a hash map visits the names it
  held when the loop began; callbacks of reconfigure blocks run in between and may change the state.  What the
  VRFs share with each other (\<open>l3_shared\<close>: the log of layer 3 calls, the status column of the Nexthop table, the
  file-scope \<open>ecmp_config\<close>) is put into the record of a VRF by \<open>vrf_l3\<close> before an operation and taken out of it by
  \<open>put_l3\<close> after it; addresses are allocated for each VRF on its own, as pointers of different VRFs never meet.
  What a destroyed bridge did to its mirrors is kept in \<open>freed_mirrors\<close>.
\<close>

section \<open>Data\<close>

record vrf_cfg =
  vc_name :: string
  vc_ports :: "port_cfg list"

record ovs_cfg =
  oc_bridges :: "bridge_cfg list"
  oc_vrfs :: "vrf_cfg list"
  oc_system_mac :: string

record br_full =
  bf_bridge :: bridge
  bf_wanted :: "port_cfg shash"
  bf_vlans :: vlan_state
  bf_mirrors :: mirrors

record vrf_full =
  vf_up :: bridge
  vf_wanted :: "port_cfg shash"
  vf_cfg :: "vrf_cfg option"
  vf_l3 :: l3

record l3_shared =
  sh_nh_status :: "nat \<Rightarrow> smap option"
  sh_ecmp_config :: ecmp
  sh_l3_log :: "l3_call list"

record switch =
  all_bridges :: "br_full list"
  all_vrfs :: "vrf_full list"
  freed_mirrors :: "mirrors list"
  g_l3 :: l3_shared
  g_log :: "sw_event list"
  g_stats_blocks :: "(stats_params option \<Rightarrow> int \<Rightarrow> sw_event list \<Rightarrow> sw_event list) blocks"

record recon_env =
  re_ports :: port_env
  re_l3 :: l3_env
  re_mirrors :: mirror_env
  re_fmt :: "int \<Rightarrow> string"
  re_again :: bool
  ether_aton :: "string \<Rightarrow> string option"
  ofproto_normalize_type :: "string \<Rightarrow> string"
  ofproto_create :: "sw_event list \<Rightarrow> string \<Rightarrow> string \<Rightarrow> int"
  ofproto_enumerate :: "sw_event list \<Rightarrow> (string \<times> string) list"

abbreviation b_name :: "br_full \<Rightarrow> string" where "b_name b \<equiv> br_name (bf_bridge b)"
abbreviation v_name :: "vrf_full \<Rightarrow> string" where "v_name v \<equiv> br_name (vf_up v)"

text \<open>The name and the ports that the functions on neighbors and routes read are those of \<open>vrf->up\<close>.\<close>

definition vrf_l3 :: "l3_shared \<Rightarrow> vrf_full \<Rightarrow> l3" where
  "vrf_l3 g v = (vf_l3 v)\<lparr>vrf_name := v_name v, vrf_ports := map bp_name (br_ports (vf_up v)), nh_status := sh_nh_status g,
     ecmp_config := sh_ecmp_config g, l3_log := sh_l3_log g\<rparr>"

definition put_l3 :: "l3 \<Rightarrow> switch \<Rightarrow> switch" where
  "put_l3 s w = w\<lparr>g_l3 := \<lparr>sh_nh_status = nh_status s, sh_ecmp_config = ecmp_config s, sh_l3_log = l3_log s\<rparr>\<rparr>"

definition to_sw :: "bridge \<Rightarrow> switch \<Rightarrow> sw" where
  "to_sw b w = bridge.extend b (sw.fields (g_log w) (g_stats_blocks w))"

definition from_sw :: "sw \<Rightarrow> switch \<Rightarrow> switch" where
  "from_sw s w = w\<lparr>g_log := sw_log s, g_stats_blocks := sw_stats_blocks s\<rparr>"

definition g_event :: "sw_event \<Rightarrow> switch \<Rightarrow> switch" where
  "g_event e w = w\<lparr>g_log := g_log w @ [e]\<rparr>"

section \<open>Lookup, creation and removal\<close>

definition bridge_lookup :: "switch \<Rightarrow> string \<Rightarrow> br_full option" where
  "bridge_lookup w name = List.find (\<lambda>b. b_name b = name) (all_bridges w)"

definition vrf_lookup :: "switch \<Rightarrow> string \<Rightarrow> vrf_full option" where
  "vrf_lookup w name = List.find (\<lambda>v. v_name v = name) (all_vrfs w)"

definition put_bridge :: "br_full \<Rightarrow> switch \<Rightarrow> switch" where
  "put_bridge b w = w\<lparr>all_bridges := map (\<lambda>x. if b_name x = b_name b then b else x) (all_bridges w)\<rparr>"

definition put_vrf :: "vrf_full \<Rightarrow> switch \<Rightarrow> switch" where
  "put_vrf v w = w\<lparr>all_vrfs := map (\<lambda>x. if v_name x = v_name v then v else x) (all_vrfs w)\<rparr>"

definition empty_up :: "string \<Rightarrow> string \<Rightarrow> string \<Rightarrow> bridge_cfg option \<Rightarrow> bridge" where
  "empty_up name type ea cfg = \<lparr>br_name = name, br_type = type, br_default_ea = ea, br_cfg = cfg, br_ofproto = False,
     br_ports = [], br_iface_by_name = [], br_ifaces = []\<rparr>"

definition new_bridge :: "recon_env \<Rightarrow> string \<Rightarrow> bridge_cfg \<Rightarrow> br_full" where
  "new_bridge env ea c =
     \<lparr>bf_bridge = empty_up (bc_name c) (ofproto_normalize_type env (bc_datapath_type c)) ea (Some c), bf_wanted = [],
      bf_vlans = \<lparr>br_vlans = [], vlan_log = []\<rparr>, bf_mirrors = \<lparr>mi_ofproto = False, br_mirrors = [], mi_log = []\<rparr>\<rparr>"

text \<open>\<open>memcpy\<close> from a NULL result of \<open>ether_aton\<close> is a fault.\<close>

definition bridge_create :: "recon_env \<Rightarrow> ovs_cfg \<Rightarrow> bridge_cfg \<Rightarrow> switch \<Rightarrow> fault + switch" where
  "bridge_create env ovs c w =
     (case ether_aton env (oc_system_mac ovs) of
        None \<Rightarrow> Inl Null_dereference
      | Some ea \<Rightarrow> Inr (w\<lparr>all_bridges := all_bridges w @ [new_bridge env ea c]\<rparr>))"

definition ecmp_boot :: ecmp where
  "ecmp_boot = \<lparr>enabled = True, src_port_enabled = True, dst_port_enabled = True, src_ip_enabled = True, dst_ip_enabled = True,
     resilient_hash_enabled = True\<rparr>"

definition empty_l3 :: "string \<Rightarrow> l3" where
  "empty_l3 name = \<lparr>vrf_name = name, vrf_ports = [], all_neighbors = [], all_routes = [], all_nexthops = [], next_ptr = 0, nh_status = (\<lambda>_. None),
     ecmp_config = ecmp_boot, l3_log = []\<rparr>"

definition new_vrf :: "string \<Rightarrow> vrf_cfg \<Rightarrow> vrf_full" where
  "new_vrf ea c = \<lparr>vf_up = empty_up (vc_name c) ''vrf'' ea None, vf_wanted = [], vf_cfg = Some c, vf_l3 = empty_l3 (vc_name c)\<rparr>"

definition vrf_create :: "recon_env \<Rightarrow> ovs_cfg \<Rightarrow> vrf_cfg \<Rightarrow> switch \<Rightarrow> fault + switch" where
  "vrf_create env ovs c w =
     (case ether_aton env (oc_system_mac ovs) of
        None \<Rightarrow> Inl Null_dereference
      | Some ea \<Rightarrow> Inr (w\<lparr>all_vrfs := all_vrfs w @ [new_vrf ea c]\<rparr>))"

fun destroy_ports :: "port_env \<Rightarrow> br_port list \<Rightarrow> sw \<Rightarrow> sw" where
  "destroy_ports env [] s = s"
| "destroy_ports env (p # ps) s = destroy_ports env ps (port_destroy env p s)"

definition destroy_ofproto :: "bridge \<Rightarrow> switch \<Rightarrow> switch" where
  "destroy_ofproto b w = (if br_ofproto b then g_event (OfprotoDestroy (br_name b)) w else w)"

fun destroy_mirrors :: "mirror_env \<Rightarrow> mirror list \<Rightarrow> mirrors \<Rightarrow> mirrors" where
  "destroy_mirrors env [] s = s"
| "destroy_mirrors env (m # ms) s = destroy_mirrors env ms (snd (mirror_destroy env (mi_uuid m) s))"

definition bridge_destroy :: "recon_env \<Rightarrow> br_full \<Rightarrow> switch \<Rightarrow> switch" where
  "bridge_destroy env b w =
     (let w = from_sw (destroy_ports (re_ports env) (br_ports (bf_bridge b)) (to_sw (bf_bridge b) w)) w;
          w = w\<lparr>freed_mirrors := freed_mirrors w @ [destroy_mirrors (re_mirrors env) (br_mirrors (bf_mirrors b)) (bf_mirrors b)]\<rparr>;
          w = w\<lparr>all_bridges := filter (\<lambda>x. b_name x \<noteq> b_name b) (all_bridges w)\<rparr>
      in destroy_ofproto (bf_bridge b) w)"

definition vrf_destroy :: "recon_env \<Rightarrow> vrf_full \<Rightarrow> switch \<Rightarrow> switch" where
  "vrf_destroy env v w =
     (let w = put_l3 (vrf_delete_all_neighbors (re_l3 env) (vrf_l3 (g_l3 w) v)) w;
          w = from_sw (destroy_ports (re_ports env) (br_ports (vf_up v)) (to_sw (vf_up v) w)) w;
          w = w\<lparr>all_vrfs := filter (\<lambda>x. v_name x \<noteq> v_name v) (all_vrfs w)\<rparr>
      in destroy_ofproto (vf_up v) w)"

section \<open>Adding and deleting\<close>

text \<open>The rows whose name holds no slash, the first of each name.\<close>

definition collect_new :: "('r \<Rightarrow> string) \<Rightarrow> 'r list \<Rightarrow> 'r shash" where
  "collect_new key rows = shash_collect key (filter (\<lambda>r. CHR ''/'' \<notin> set (key r)) rows)"

definition del_bridge :: "recon_env \<Rightarrow> bridge_cfg shash \<Rightarrow> br_full \<Rightarrow> switch \<Rightarrow> switch" where
  "del_bridge env new b w =
     (let cfg = shash_find_data new (b_name b);
          b = b\<lparr>bf_bridge := (bf_bridge b)\<lparr>br_cfg := cfg\<rparr>\<rparr>;
          w = put_bridge b w
      in case cfg of
           None \<Rightarrow> bridge_destroy env b w
         | Some c \<Rightarrow> if br_type (bf_bridge b) \<noteq> ofproto_normalize_type env (bc_datapath_type c) then bridge_destroy env b w else w)"

fun del_bridges :: "recon_env \<Rightarrow> bridge_cfg shash \<Rightarrow> br_full list \<Rightarrow> switch \<Rightarrow> switch" where
  "del_bridges env new [] w = w"
| "del_bridges env new (b # bs) w = del_bridges env new bs (del_bridge env new b w)"

fun create_bridges :: "recon_env \<Rightarrow> ovs_cfg \<Rightarrow> bridge_cfg list \<Rightarrow> switch \<Rightarrow> fault + switch" where
  "create_bridges env ovs [] w = Inr w"
| "create_bridges env ovs (c # cs) w =
     (case (if bridge_lookup w (bc_name c) = None then bridge_create env ovs c w else Inr w) of
        Inl e \<Rightarrow> Inl e
      | Inr w \<Rightarrow> create_bridges env ovs cs w)"

definition add_del_bridges :: "recon_env \<Rightarrow> ovs_cfg \<Rightarrow> switch \<Rightarrow> fault + switch" where
  "add_del_bridges env ovs w =
     create_bridges env ovs (oc_bridges ovs) (del_bridges env (collect_new bc_name (oc_bridges ovs)) (all_bridges w) w)"

definition del_vrf :: "recon_env \<Rightarrow> vrf_cfg shash \<Rightarrow> vrf_full \<Rightarrow> switch \<Rightarrow> switch" where
  "del_vrf env new v w =
     (let cfg = shash_find_data new (v_name v);
          v = v\<lparr>vf_cfg := cfg\<rparr>;
          w = put_vrf v w
      in case cfg of None \<Rightarrow> vrf_destroy env v w | Some _ \<Rightarrow> w)"

fun del_vrfs :: "recon_env \<Rightarrow> vrf_cfg shash \<Rightarrow> vrf_full list \<Rightarrow> switch \<Rightarrow> switch" where
  "del_vrfs env new [] w = w"
| "del_vrfs env new (v # vs) w = del_vrfs env new vs (del_vrf env new v w)"

fun create_vrfs :: "recon_env \<Rightarrow> ovs_cfg \<Rightarrow> vrf_cfg list \<Rightarrow> switch \<Rightarrow> fault + switch" where
  "create_vrfs env ovs [] w = Inr w"
| "create_vrfs env ovs (c # cs) w =
     (case (if vrf_lookup w (vc_name c) = None then vrf_create env ovs c w else Inr w) of
        Inl e \<Rightarrow> Inl e
      | Inr w \<Rightarrow> create_vrfs env ovs cs w)"

definition add_del_vrfs :: "recon_env \<Rightarrow> ovs_cfg \<Rightarrow> switch \<Rightarrow> fault + switch" where
  "add_del_vrfs env ovs w =
     create_vrfs env ovs (oc_vrfs ovs) (del_vrfs env (collect_new vc_name (oc_vrfs ovs)) (all_vrfs w) w)"

section \<open>Reconfiguration of the tables\<close>

record blk_params =
  bp_ofproto :: "string option"
  bp_br :: "string option"
  bp_vrf :: "string option"
  bp_port :: "string option"

type_synonym recon = "(blk_params \<Rightarrow> switch \<Rightarrow> switch) blocks \<times> switch"

definition run_block :: "block_id \<Rightarrow> blk_params \<Rightarrow> recon \<Rightarrow> recon" where
  "run_block blk p st = (let (rc, bl, w) = execute_reconfigure_block (Some p) (block_num blk) (fst st) (snd st) in (bl, w))"

definition br_params :: "br_full \<Rightarrow> blk_params" where
  "br_params b = \<lparr>bp_ofproto = (if br_ofproto (bf_bridge b) then Some (b_name b) else None), bp_br = Some (b_name b), bp_vrf = None, bp_port = None\<rparr>"

definition vrf_params :: "vrf_full \<Rightarrow> blk_params" where
  "vrf_params v = \<lparr>bp_ofproto = (if br_ofproto (vf_up v) then Some (v_name v) else None), bp_br = None, bp_vrf = Some (v_name v), bp_port = None\<rparr>"

definition on_bridge :: "(br_full \<Rightarrow> sw \<Rightarrow> sw) \<Rightarrow> string \<Rightarrow> switch \<Rightarrow> switch" where
  "on_bridge f name w =
     (case bridge_lookup w name of
        None \<Rightarrow> w
      | Some b \<Rightarrow> let s = f b (to_sw (bf_bridge b) w) in put_bridge (b\<lparr>bf_bridge := bridge.truncate s\<rparr>) (from_sw s w))"

definition on_vrf :: "(vrf_full \<Rightarrow> sw \<Rightarrow> sw) \<Rightarrow> string \<Rightarrow> switch \<Rightarrow> switch" where
  "on_vrf f name w =
     (case vrf_lookup w name of
        None \<Rightarrow> w
      | Some v \<Rightarrow> let s = f v (to_sw (vf_up v) w) in put_vrf (v\<lparr>vf_up := bridge.truncate s\<rparr>) (from_sw s w))"

definition block_on_bridge :: "block_id \<Rightarrow> string \<Rightarrow> recon \<Rightarrow> recon" where
  "block_on_bridge blk name st =
     (case bridge_lookup (snd st) name of None \<Rightarrow> st | Some b \<Rightarrow> run_block blk (br_params b) st)"

definition block_on_vrf :: "block_id \<Rightarrow> string \<Rightarrow> recon \<Rightarrow> recon" where
  "block_on_vrf blk name st =
     (case vrf_lookup (snd st) name of None \<Rightarrow> st | Some v \<Rightarrow> run_block blk (vrf_params v) st)"

text \<open>Collecting the wanted ports, the callbacks, and deleting what is not wanted.\<close>

definition collect_bridge :: "string \<Rightarrow> switch \<Rightarrow> switch" where
  "collect_bridge name w =
     (case bridge_lookup w name of
        None \<Rightarrow> w
      | Some b \<Rightarrow> put_bridge (b\<lparr>bf_wanted := (case br_cfg (bf_bridge b) of None \<Rightarrow> [] | Some c \<Rightarrow> bridge_collect_wanted_ports (b_name b) c)\<rparr>) w)"

definition delete_bridge_ports :: "recon_env \<Rightarrow> string \<Rightarrow> recon \<Rightarrow> recon" where
  "delete_bridge_ports env name st =
     apsnd (on_bridge (\<lambda>b. bridge_del_ports (re_ports env) (bf_wanted b)) name)
       (block_on_bridge BLK_BR_DELETE_PORTS name (apsnd (collect_bridge name) st))"

definition collect_vrf :: "string \<Rightarrow> switch \<Rightarrow> switch" where
  "collect_vrf name w =
     (case vrf_lookup w name of
        None \<Rightarrow> w
      | Some v \<Rightarrow> put_vrf (v\<lparr>vf_wanted := (case vf_cfg v of None \<Rightarrow> [] | Some c \<Rightarrow> vrf_collect_wanted_ports (vc_ports c))\<rparr>) w)"

definition del_vrf_ports :: "recon_env \<Rightarrow> string \<Rightarrow> switch \<Rightarrow> switch" where
  "del_vrf_ports env name w =
     (case vrf_lookup w name of
        None \<Rightarrow> w
      | Some v \<Rightarrow>
          let (l3, s) = vrf_del_ports (re_ports env) (re_l3 env) (vf_wanted v) (vrf_l3 (g_l3 w) v, to_sw (vf_up v) w)
          in put_vrf (v\<lparr>vf_up := bridge.truncate s, vf_l3 := l3\<rparr>) (from_sw s (put_l3 l3 w)))"

definition delete_vrf_ports :: "recon_env \<Rightarrow> string \<Rightarrow> recon \<Rightarrow> recon" where
  "delete_vrf_ports env name st =
     apsnd (del_vrf_ports env name) (block_on_vrf BLK_VRF_DELETE_PORTS name (apsnd (collect_vrf name) st))"

definition bridge_delete_ofprotos :: "recon_env \<Rightarrow> switch \<Rightarrow> switch" where
  "bridge_delete_ofprotos env w =
     fold (\<lambda>(type, name) w.
         if (case bridge_lookup w name of None \<Rightarrow> True | Some b \<Rightarrow> type \<noteq> br_type (bf_bridge b)) \<and> (vrf_lookup w name = None \<or> type \<noteq> ''vrf'')
         then g_event (OfprotoDelete name type) w else w)
       (ofproto_enumerate env (g_log w)) w"

definition reconfigure_bridge_ports :: "recon_env \<Rightarrow> string \<Rightarrow> recon \<Rightarrow> recon" where
  "reconfigure_bridge_ports env name st =
     (case bridge_lookup (snd st) name of
        None \<Rightarrow> st
      | Some b \<Rightarrow>
          if br_ofproto (bf_bridge b)
          then block_on_bridge BLK_BR_RECONFIGURE_PORTS name
                 (apsnd (on_bridge (\<lambda>_. bridge_delete_or_reconfigure_ports (re_ports env)) name) st)
          else st)"

definition reconfigure_vrf_ports :: "recon_env \<Rightarrow> string \<Rightarrow> recon \<Rightarrow> recon" where
  "reconfigure_vrf_ports env name st =
     (case vrf_lookup (snd st) name of
        None \<Rightarrow> st
      | Some v \<Rightarrow>
          if br_ofproto (vf_up v)
          then block_on_vrf BLK_VRF_RECONFIGURE_PORTS name
                 (apsnd (on_vrf (\<lambda>_. vrf_delete_or_reconfigure_ports (re_ports env) (re_fmt env)) name) st)
          else st)"

definition create_ofproto :: "recon_env \<Rightarrow> string \<Rightarrow> switch \<Rightarrow> switch" where
  "create_ofproto env name w =
     (case bridge_lookup w name of
        None \<Rightarrow> w
      | Some b \<Rightarrow>
          if br_ofproto (bf_bridge b) then w
          else let error = ofproto_create env (g_log w) name (br_type (bf_bridge b));
                   w = g_event (OfprotoCreate name (br_type (bf_bridge b))) w
               in if error \<noteq> 0 then bridge_destroy env b w
                  else put_bridge (b\<lparr>bf_bridge := (bf_bridge b)\<lparr>br_ofproto := True\<rparr>, bf_mirrors := (bf_mirrors b)\<lparr>mi_ofproto := True\<rparr>\<rparr>) w)"

definition create_vrf_ofproto :: "recon_env \<Rightarrow> string \<Rightarrow> switch \<Rightarrow> switch" where
  "create_vrf_ofproto env name w =
     (case vrf_lookup w name of
        None \<Rightarrow> w
      | Some v \<Rightarrow>
          if br_ofproto (vf_up v) then w
          else let error = ofproto_create env (g_log w) name ''vrf'';
                   w = g_event (OfprotoCreate name ''vrf'') w
               in if error \<noteq> 0 then vrf_destroy env v w
                  else put_vrf (v\<lparr>vf_up := (vf_up v)\<lparr>br_ofproto := True\<rparr>\<rparr>) w)"

definition clear_wanted :: "string \<Rightarrow> switch \<Rightarrow> switch" where
  "clear_wanted name w = (case bridge_lookup w name of None \<Rightarrow> w | Some b \<Rightarrow> put_bridge (b\<lparr>bf_wanted := []\<rparr>) w)"

definition clear_vrf_wanted :: "string \<Rightarrow> switch \<Rightarrow> switch" where
  "clear_vrf_wanted name w = (case vrf_lookup w name of None \<Rightarrow> w | Some v \<Rightarrow> put_vrf (v\<lparr>vf_wanted := []\<rparr>) w)"

definition add_bridge_ports :: "recon_env \<Rightarrow> string \<Rightarrow> recon \<Rightarrow> recon" where
  "add_bridge_ports env name st =
     apsnd (clear_wanted name) (block_on_bridge BLK_BR_ADD_PORTS name
       (apsnd (\<lambda>w. on_bridge (\<lambda>b. bridge_add_ports (re_ports env) (re_fmt env) (map bf_vlans (all_bridges w)) (re_again env) (bf_wanted b)) name w) st))"

definition add_vrf_ports :: "recon_env \<Rightarrow> string \<Rightarrow> recon \<Rightarrow> recon" where
  "add_vrf_ports env name st =
     apsnd (clear_vrf_wanted name) (block_on_vrf BLK_VRF_ADD_PORTS name
       (apsnd (\<lambda>w. on_vrf (\<lambda>v. bridge_add_ports (re_ports env) (re_fmt env) (map bf_vlans (all_bridges w)) (re_again env) (vf_wanted v)) name w) st))"

definition bridge_names :: "recon \<Rightarrow> string list" where "bridge_names st = map b_name (all_bridges (snd st))"
definition vrf_names :: "recon \<Rightarrow> string list" where "vrf_names st = map v_name (all_vrfs (snd st))"

definition reconfigure_tables :: "recon_env \<Rightarrow> ovs_cfg \<Rightarrow> recon \<Rightarrow> fault + recon" where
  "reconfigure_tables env ovs st =
     (case add_del_bridges env ovs (snd st) of
        Inl e \<Rightarrow> Inl e
      | Inr w \<Rightarrow>
          (case add_del_vrfs env ovs w of
             Inl e \<Rightarrow> Inl e
           | Inr w \<Rightarrow>
               let st = run_block BLK_INIT_RECONFIGURE \<lparr>bp_ofproto = None, bp_br = None, bp_vrf = None, bp_port = None\<rparr> (fst st, w);
                   st = fold (delete_bridge_ports env) (bridge_names st) st;
                   st = fold (delete_vrf_ports env) (vrf_names st) st;
                   st = apsnd (bridge_delete_ofprotos env) st;
                   st = fold (reconfigure_bridge_ports env) (bridge_names st) st;
                   st = fold (reconfigure_vrf_ports env) (vrf_names st) st;
                   st = fold (\<lambda>n. apsnd (create_ofproto env n)) (bridge_names st) st;
                   st = fold (\<lambda>n. apsnd (create_vrf_ofproto env n)) (vrf_names st) st;
                   st = fold (add_bridge_ports env) (bridge_names st) st
               in Inr (fold (add_vrf_ports env) (vrf_names st) st)))"

end
