(* ===== verification/Port_Rows.thy ===== *)
theory Port_Rows
  imports Ports_Props
begin

text \<open>
  Every port has its Port row: \<open>port->cfg\<close> is what \<open>port_configure\<close> and the choice of the local address
  dereference without a test.  The passes of a reconfiguration keep this; in between, \<open>bridge_del_ports\<close> clears
  the pointer of a port just before it destroys the port.  \<open>rows_but A\<close> leaves out the ports named in \<open>A\<close>.
\<close>

definition rows_but :: "string set \<Rightarrow> 'a bridge_scheme \<Rightarrow> bool" where
  "rows_but A s \<longleftrightarrow> (\<forall>p\<in>set (br_ports s). bp_name p \<notin> A \<longrightarrow> bp_cfg p \<noteq> None)"

abbreviation have_rows :: "'a bridge_scheme \<Rightarrow> bool" where "have_rows \<equiv> rows_but {}"

lemma rows_log [simp]: "rows_but A (log_ev e s) = rows_but A s"
  by (simp add: rows_but_def)

lemma rows_but_map: "rows_but A s \<longleftrightarrow> (\<forall>x\<in>set (map (\<lambda>p. (bp_name p, bp_cfg p)) (br_ports s)). fst x \<notin> A \<longrightarrow> snd x \<noteq> None)"
  by (simp add: rows_but_def)

lemma rows_iface_destroy_raw [simp]: "rows_but A (iface_destroy_raw env i s) = rows_but A s"
proof -
  have "map (\<lambda>p. (bp_name p, bp_cfg p)) (br_ports (iface_destroy_raw env i s)) = map (\<lambda>p. (bp_name p, bp_cfg p)) (br_ports s)"
    by (simp add: br_ports_iface_destroy_raw)
  then show ?thesis unfolding rows_but_map by simp
qed

lemma rows_destroy_iface_list [simp]: "rows_but A (destroy_iface_list env ns s) = rows_but A s"
  by (induction ns arbitrary: s) (simp_all split: option.split)

lemma rows_port_destroy: "rows_but (insert (bp_name p) A) s \<Longrightarrow> rows_but A (port_destroy env p s)"
proof -
  let ?s = "destroy_iface_list env (bp_ifaces p) (if br_ofproto s then log_ev (BundleUnregister (br_name s) (bp_name p)) s else s)"
  assume "rows_but (insert (bp_name p) A) s"
  then have "rows_but (insert (bp_name p) A) ?s" by simp
  then show ?thesis by (auto simp: rows_but_def port_destroy_def Let_def)
qed

lemma rows_but_weaken: "rows_but A s \<Longrightarrow> A \<subseteq> B \<Longrightarrow> rows_but B s"
  by (auto simp: rows_but_def)

lemma rows_destroy_if_empty: "rows_but A s \<Longrightarrow> rows_but A (destroy_if_empty env n s)"
  by (auto simp: destroy_if_empty_def intro: rows_port_destroy rows_but_weaken split: option.split)

lemma rows_iface_destroy_br: "rows_but A s \<Longrightarrow> rows_but A (iface_destroy_br env i s)"
  by (auto simp: iface_destroy_br_def rows_destroy_if_empty split: option.split)

lemma rows_del_iface_list: "rows_but A s \<Longrightarrow> rows_but A (del_iface_list env new ns s)"
  by (induction ns arbitrary: s) (simp_all add: rows_iface_destroy_br)

lemma rows_set_port_cfg:
  "have_rows s \<Longrightarrow> rows_but {n} (set_port_cfg n None s)" "have_rows s \<Longrightarrow> have_rows (set_port_cfg n (Some c) s)"
  by (auto simp: rows_but_def set_port_cfg_def)

lemma rows_del_port_list: "have_rows s \<Longrightarrow> have_rows (del_port_list env wanted ps s)"
  by (induction ps arbitrary: s)
    (auto simp: Let_def rows_port_destroy rows_set_port_cfg port_del_ifaces_def rows_del_iface_list split: option.split)

lemma rows_update_ifaces: "rows_but A (update_ifaces env cs s) = rows_but A s"
  by (induction cs arbitrary: s) (auto simp: update_iface_def put_iface_def rows_but_def split: option.split)

lemma rows_bridge_del_ports: "have_rows s \<Longrightarrow> have_rows (bridge_del_ports env wanted s)"
  by (simp add: bridge_del_ports_def rows_update_ifaces rows_del_port_list)

lemma rows_set_config: "set_config env n m s = (rc, s') \<Longrightarrow> rows_but A s' = rows_but A s"
  by (auto simp: set_config_def Let_def)

lemma rows_reconfigure_dumped:
  assumes "have_rows s"
  shows "have_rows (snd (reconfigure_dumped env op s))" "have_rows (snd (vrf_reconfigure_dumped env fmt op s))"
proof -
  show r: "have_rows (snd (reconfigure_dumped env op s))"
    using assms by (auto simp: reconfigure_dumped_def rows_iface_destroy_br rows_set_config split: prod.split option.split)
  then show "have_rows (snd (vrf_reconfigure_dumped env fmt op s))"
    using assms by (auto simp: vrf_reconfigure_dumped_def rows_iface_destroy_br rows_set_config split: prod.splits option.split)
qed

lemma rows_walk_dump:
  assumes "\<And>op s. have_rows s \<Longrightarrow> have_rows (snd (f op s))"
  shows "have_rows s \<Longrightarrow> have_rows (snd (walk_dump f ops s))"
proof (induction ops arbitrary: s)
  case (Cons op ops)
  have "have_rows (snd (walk_dump f ops (snd (f op s))))" by (rule Cons.IH) (rule assms [OF Cons.prems])
  then show ?case by (simp add: Let_def case_prod_unfold)
qed simp

lemma rows_ofproto_port_dels: "rows_but A (ofproto_port_dels ps s) = rows_but A s"
  by (induction ps arbitrary: s) simp_all

lemma rows_remove_vanished: "rows_but A s \<Longrightarrow> rows_but A (remove_vanished env seen ps s)"
  by (induction ps arbitrary: s) (simp_all add: rows_destroy_if_empty)

lemma rows_delete_or_reconfigure:
  assumes "\<And>op s. have_rows s \<Longrightarrow> have_rows (snd (f op s))" "have_rows s"
  shows "have_rows (delete_or_reconfigure env f s)"
  using rows_walk_dump [of f s, OF assms]
  by (simp add: delete_or_reconfigure_def Let_def case_prod_unfold rows_remove_vanished rows_ofproto_port_dels)

lemma rows_reconfigure_ports:
  assumes "have_rows s"
  shows "have_rows (bridge_delete_or_reconfigure_ports env s)" "have_rows (vrf_delete_or_reconfigure_ports env fmt s)"
  unfolding bridge_delete_or_reconfigure_ports_def vrf_delete_or_reconfigure_ports_def
  by (rule rows_delete_or_reconfigure [OF _ assms], rule rows_reconfigure_dumped, assumption)+

lemma rows_link_iface: "have_rows s \<Longrightarrow> have_rows (link_iface i c s)"
  by (auto simp: rows_but_def link_iface_def port_create_def put_port_def port_lookup_def Let_def find_Some_iff
      split: option.split)

lemma rows_iface_create_br: 
  assumes "have_rows s"
  shows "have_rows (snd (iface_create_br env fmt vlans again c pcfg s))"
proof -
  obtain e ofp s1 where d: "iface_do_create_br env fmt c s = (e, ofp, s1)" by (metis prod_cases3)
  have s1: "have_rows s1"
    using d assms
    by (auto simp: iface_do_create_br_def iface_set_netdev_config_def Let_def rows_set_config split: if_splits prod.splits)
  show ?thesis
    using rows_link_iface [OF s1] s1
    by (auto simp: iface_create_br_def d Let_def iface_clear_db_record_def iface_set_ofport_def iface_refresh_netdev_status_br_def
        iface_refresh_stats_br_def stats_block_br_def put_iface_def rows_but_def split: prod.split)
qed

lemma rows_bridge_add_ports: 
  assumes "have_rows s"
  shows "have_rows (bridge_add_ports env fmt vlans again wanted s)"
proof -
  have a: "have_rows s \<Longrightarrow> have_rows (add_iface_list env fmt vlans again pcfg cs s)" for pcfg cs s
    by (induction cs arbitrary: s) (auto simp: rows_iface_create_br split: option.split)
  have "have_rows s \<Longrightarrow> have_rows (bridge_add_ports_raw env fmt vlans again wanted s)"
    by (induction wanted arbitrary: s) (auto simp: a)
  with assms show ?thesis by (simp add: bridge_add_ports_def)
qed

end
