(* ===== verification/Bridges_Props.thy ===== *)
theory Bridges_Props
  imports Bridges Port_Rows
begin

text \<open>
  The tables of bridges and VRFs follow the rows of the database.  The locale \<open>row_table\<close> is what adding and
  deleting bridges and VRFs have in common; both are interpretations.  \<open>switch_ok\<close> is the invariant of the whole
  switch that a reconfiguration of the tables keeps, whatever well-behaved callbacks do in between.
\<close>

section \<open>Tables that follow rows\<close>

text \<open>
  A table of objects with unique names.  \<open>keep new b\<close> is what becomes of the object \<open>b\<close> under the collected rows
  \<open>new\<close>; \<open>create\<close> may fault, and otherwise appends one fresh object.
\<close>

locale row_table =
  fixes tbl :: "'w \<Rightarrow> 'b list"
    and name :: "'b \<Rightarrow> string"
    and key :: "'r \<Rightarrow> string"
    and keep :: "'r shash \<Rightarrow> 'b \<Rightarrow> 'b option"
    and fresh :: "'r \<Rightarrow> 'b \<Rightarrow> bool"
    and del :: "'r shash \<Rightarrow> 'b \<Rightarrow> 'w \<Rightarrow> 'w"
    and del_all :: "'r shash \<Rightarrow> 'b list \<Rightarrow> 'w \<Rightarrow> 'w"
    and create :: "'r \<Rightarrow> 'w \<Rightarrow> fault + 'w"
    and create_all :: "'r list \<Rightarrow> 'w \<Rightarrow> fault + 'w"
  assumes keep_name: "keep new b = Some b' \<Longrightarrow> name b' = name b"
    and keep_row: "keep new b \<noteq> None \<Longrightarrow> name b \<in> fst ` set new"
    and fresh_name: "fresh r b \<Longrightarrow> name b = key r"
    and del_tbl: "\<lbrakk>tbl w = xs @ b # ys; distinct (map name (tbl w))\<rbrakk>
      \<Longrightarrow> tbl (del new b w) = xs @ (case keep new b of None \<Rightarrow> [] | Some b' \<Rightarrow> [b']) @ ys"
    and del_all: "del_all new [] w = w" "del_all new (b # bs) w = del_all new bs (del new b w)"
    and create_tbl: "create r w = Inr w' \<Longrightarrow> \<exists>b. fresh r b \<and> tbl w' = tbl w @ [b]"
    and create_all: "create_all [] w = Inr w" "create_all (r # rs) w =
      (case (if key r \<notin> name ` set (tbl w) then create r w else Inr w) of Inl e \<Rightarrow> Inl e | Inr w \<Rightarrow> create_all rs w)"
begin

lemma del_all_tbl:
  assumes "tbl w = xs @ bs" "distinct (map name (tbl w))"
  shows "tbl (del_all new bs w) = xs @ List.map_filter (keep new) bs"
  using assms
proof (induction bs arbitrary: xs w)
  case (Cons b bs)
  let ?w = "del new b w"
  note t = del_tbl [OF Cons.prems]
  define ks where "ks = (case keep new b of None \<Rightarrow> [] | Some b' \<Rightarrow> [b'])"
  have t: "tbl ?w = (xs @ ks) @ bs" using t by (simp add: ks_def)
  have "distinct (map name (tbl ?w))" unfolding t using Cons.prems(1,2)
    by (auto simp: ks_def keep_name split: option.split)
  from Cons.IH [OF t this] show ?case by (simp add: del_all ks_def List.map_filter_def split: option.split)
qed (simp add: del_all List.map_filter_def)

lemma create_all_tbl:
  assumes "create_all rs w = Inr w'" "distinct (map name (tbl w))"
  shows "distinct (map name (tbl w')) \<and> name ` set (tbl w') = name ` set (tbl w) \<union> key ` set rs
    \<and> set (tbl w) \<subseteq> set (tbl w') \<and> (\<forall>b\<in>set (tbl w'). b \<in> set (tbl w) \<or> (\<exists>r\<in>set rs. fresh r b))"
  using assms
proof (induction rs arbitrary: w)
  case (Cons r rs)
  show ?case
  proof (cases "key r \<in> name ` set (tbl w)")
    case True
    with Cons.prems have "create_all rs w = Inr w'" by (simp add: create_all)
    from Cons.IH [OF this Cons.prems(2)] True show ?thesis by auto
  next
    case False
    with Cons.prems(1) obtain w1 where c: "create r w = Inr w1" "create_all rs w1 = Inr w'"
      by (auto simp: create_all split: sum.splits)
    from create_tbl [OF c(1)] obtain b where b: "fresh r b" "tbl w1 = tbl w @ [b]" by blast
    have "distinct (map name (tbl w1))" using b Cons.prems(2) False by (simp add: fresh_name)
    from Cons.IH [OF c(2) this] b show ?thesis by (auto simp: fresh_name)
  qed
qed (simp add: create_all)

lemma follow_rows:
  assumes d: "distinct (map name (tbl w))" and c: "create_all rs (del_all new (tbl w) w) = Inr w'"
    and new: "fst ` set new \<subseteq> key ` set rs"
  shows "distinct (map name (tbl w'))" "name ` set (tbl w') = key ` set rs"
    "b' \<in> set (tbl w') \<Longrightarrow> (\<exists>b\<in>set (tbl w). keep new b = Some b') \<or> (\<exists>r\<in>set rs. fresh r b')"
    "b \<in> set (tbl w) \<Longrightarrow> keep new b = Some b' \<Longrightarrow> b' \<in> set (tbl w')"
proof -
  define w1 where "w1 = del_all new (tbl w) w"
  have t: "tbl w1 = List.map_filter (keep new) (tbl w)" using del_all_tbl [of w "[]"] d by (simp add: w1_def)
  have s: "set (tbl w1) = {b'. \<exists>b\<in>set (tbl w). keep new b = Some b'}" by (force simp: t List.map_filter_def)
  have n: "distinct (map name (List.map_filter (keep new) bs)) \<and> name ` set (List.map_filter (keep new) bs) \<subseteq> name ` set bs"
    if "distinct (map name bs)" for bs
    using that by (induction bs) (auto simp: List.map_filter_def keep_name split: option.split)
  have "distinct (map name (tbl w1))" using n [OF d] by (simp add: t)
  note a = create_all_tbl [OF c [folded w1_def] this]
  show "distinct (map name (tbl w'))" using a by blast
  have "name b' \<in> key ` set rs" if "keep new b = Some b'" for b b'
    using keep_row [of new b] keep_name [OF that] that new by auto
  then have "name ` set (tbl w1) \<subseteq> key ` set rs" by (auto simp: s)
  with a show "name ` set (tbl w') = key ` set rs" by blast
  show "b' \<in> set (tbl w') \<Longrightarrow> (\<exists>b\<in>set (tbl w). keep new b = Some b') \<or> (\<exists>r\<in>set rs. fresh r b')"
    using a s by blast
  show "b \<in> set (tbl w) \<Longrightarrow> keep new b = Some b' \<Longrightarrow> b' \<in> set (tbl w')" using a s by blast
qed

end

section \<open>Bridges and VRFs\<close>

lemma put_l3_simps [simp]:
  "all_bridges (put_l3 s w) = all_bridges w" "all_vrfs (put_l3 s w) = all_vrfs w" "g_log (put_l3 s w) = g_log w"
  "g_stats_blocks (put_l3 s w) = g_stats_blocks w"
  by (simp_all add: put_l3_def)

lemma from_sw_sel [simp]: "all_bridges (from_sw s w) = all_bridges w" "all_vrfs (from_sw s w) = all_vrfs w"
  by (simp_all add: from_sw_def)

lemma g_event_sel [simp]: "all_bridges (g_event e w) = all_bridges w" "all_vrfs (g_event e w) = all_vrfs w"
  by (simp_all add: g_event_def)

lemma destroy_sel [simp]:
  "all_bridges (bridge_destroy env b w) = filter (\<lambda>x. b_name x \<noteq> b_name b) (all_bridges w)"
  "all_vrfs (bridge_destroy env b w) = all_vrfs w"
  "all_vrfs (vrf_destroy env v w) = filter (\<lambda>x. v_name x \<noteq> v_name v) (all_vrfs w)"
  "all_bridges (vrf_destroy env v w) = all_bridges w"
  by (simp_all add: bridge_destroy_def vrf_destroy_def destroy_ofproto_def Let_def)

lemma put_sel [simp]: "all_vrfs (put_bridge b w) = all_vrfs w" "all_bridges (put_vrf v w) = all_bridges w"
  by (simp_all add: put_bridge_def put_vrf_def)

definition keep_bridge :: "recon_env \<Rightarrow> bridge_cfg shash \<Rightarrow> br_full \<Rightarrow> br_full option" where
  "keep_bridge env new b =
     (case shash_find_data new (b_name b) of
        None \<Rightarrow> None
      | Some c \<Rightarrow> if br_type (bf_bridge b) = ofproto_normalize_type env (bc_datapath_type c)
                  then Some (b\<lparr>bf_bridge := (bf_bridge b)\<lparr>br_cfg := Some c\<rparr>\<rparr>) else None)"

definition keep_vrf :: "vrf_cfg shash \<Rightarrow> vrf_full \<Rightarrow> vrf_full option" where
  "keep_vrf new v = map_option (\<lambda>c. v\<lparr>vf_cfg := Some c\<rparr>) (shash_find_data new (v_name v))"

lemma find_names: "List.find (\<lambda>b. f b = n) xs = None \<longleftrightarrow> n \<notin> f ` set xs"
  by (auto simp: find_None_iff)

lemma distinct_map_middle:
  assumes "distinct (map f (xs @ b # ys))" "x \<in> set xs \<union> set ys"
  shows "f x \<noteq> f b"
proof -
  have "f b \<notin> f ` (set xs \<union> set ys)" using assms(1) by (simp add: image_Un)
  then show ?thesis using imageI [OF assms(2), of f] by metis
qed

lemma map_replace_unique:
  assumes "distinct (map f (xs @ b # ys))" "f b' = f b"
  shows "map (\<lambda>x. if f x = f b' then b' else x) (xs @ b # ys) = xs @ b' # ys"
proof -
  have "f x \<noteq> f b'" if "x \<in> set xs \<union> set ys" for x using distinct_map_middle [OF assms(1) that] assms(2) by simp
  then have "map (\<lambda>x. if f x = f b' then b' else x) xs = xs" "map (\<lambda>x. if f x = f b' then b' else x) ys = ys"
    by (simp_all add: map_idI)
  then show ?thesis using assms(2) by simp
qed

lemma filter_unique:
  assumes "distinct (map f (xs @ b # ys))" "f b' = f b"
  shows "filter (\<lambda>x. f x \<noteq> f b') (xs @ b' # ys) = xs @ ys"
proof -
  have "f x \<noteq> f b'" if "x \<in> set xs \<union> set ys" for x using distinct_map_middle [OF assms(1) that] assms(2) by simp
  then show ?thesis by simp
qed

lemma del_bridge_tbl:
  assumes w: "all_bridges w = xs @ b # ys" and d: "distinct (map b_name (all_bridges w))"
  shows "all_bridges (del_bridge env new b w) = xs @ (case keep_bridge env new b of None \<Rightarrow> [] | Some b' \<Rightarrow> [b']) @ ys"
proof -
  define b' where "b' = b\<lparr>bf_bridge := (bf_bridge b)\<lparr>br_cfg := shash_find_data new (b_name b)\<rparr>\<rparr>"
  have n: "b_name b' = b_name b" by (simp add: b'_def)
  have d: "distinct (map b_name (xs @ b # ys))" using d w by simp
  have p: "all_bridges (put_bridge b' w) = xs @ b' # ys"
    using map_replace_unique [OF d n] by (simp add: put_bridge_def w)
  have x: "all_bridges (bridge_destroy env b' (put_bridge b' w)) = xs @ ys"
    using filter_unique [OF d n] by (simp add: p)
  have "del_bridge env new b w = (if keep_bridge env new b = None then bridge_destroy env b' (put_bridge b' w) else put_bridge b' w)"
    by (simp add: del_bridge_def keep_bridge_def b'_def Let_def split: option.split)
  moreover have "keep_bridge env new b = None \<or> keep_bridge env new b = Some b'"
    by (simp add: keep_bridge_def b'_def split: option.split)
  ultimately show ?thesis using p x by auto
qed

lemma del_vrf_tbl:
  assumes w: "all_vrfs w = xs @ v # ys" and d: "distinct (map v_name (all_vrfs w))"
  shows "all_vrfs (del_vrf env new v w) = xs @ (case keep_vrf new v of None \<Rightarrow> [] | Some v' \<Rightarrow> [v']) @ ys"
proof -
  define v' where "v' = v\<lparr>vf_cfg := shash_find_data new (v_name v)\<rparr>"
  have n: "v_name v' = v_name v" by (simp add: v'_def)
  have d: "distinct (map v_name (xs @ v # ys))" using d w by simp
  have p: "all_vrfs (put_vrf v' w) = xs @ v' # ys"
    using map_replace_unique [OF d n] by (simp add: put_vrf_def w)
  have x: "all_vrfs (vrf_destroy env v' (put_vrf v' w)) = xs @ ys"
    using filter_unique [OF d n] by (simp add: p)
  have "del_vrf env new v w = (if keep_vrf new v = None then vrf_destroy env v' (put_vrf v' w) else put_vrf v' w)"
    by (simp add: del_vrf_def keep_vrf_def v'_def Let_def split: option.split)
  moreover have "keep_vrf new v = None \<or> keep_vrf new v = Some v'"
    by (cases "shash_find_data new (v_name v)") (simp_all add: keep_vrf_def v'_def)
  ultimately show ?thesis using p x by auto
qed

lemma shash_find_data_fst: "shash_find_data sh k = Some v \<Longrightarrow> k \<in> fst ` set sh"
  by (force simp: shash_find_data_def dest: map_of_SomeD)

interpretation bridges: row_table all_bridges b_name bc_name "keep_bridge env"
  "\<lambda>c b. \<exists>ea. ether_aton env (oc_system_mac ovs) = Some ea \<and> b = new_bridge env ea c"
  "del_bridge env" "del_bridges env" "bridge_create env ovs" "create_bridges env ovs" for env ovs
proof
  show "\<And>new b. keep_bridge env new b \<noteq> None \<Longrightarrow> b_name b \<in> fst ` set new"
    by (auto simp: keep_bridge_def split: option.splits intro: shash_find_data_fst)
qed (auto simp: del_bridge_tbl keep_bridge_def new_bridge_def empty_up_def bridge_create_def bridge_lookup_def find_names
    split: option.splits if_splits)

interpretation vrfs: row_table all_vrfs v_name vc_name keep_vrf
  "\<lambda>c v. \<exists>ea. ether_aton env (oc_system_mac ovs) = Some ea \<and> v = new_vrf ea c"
  "del_vrf env" "del_vrfs env" "vrf_create env ovs" "create_vrfs env ovs" for env ovs
proof
  show "\<And>new v. keep_vrf new v \<noteq> None \<Longrightarrow> v_name v \<in> fst ` set new"
    by (auto simp: keep_vrf_def intro: shash_find_data_fst)
qed (auto simp: del_vrf_tbl keep_vrf_def new_vrf_def empty_up_def vrf_create_def vrf_lookup_def find_names
    split: option.splits if_splits)


lemma collect_new_find:
  "shash_find_data (collect_new key rows) n = (if CHR ''/'' \<in> set n then None else List.find (\<lambda>r. key r = n) rows)"
proof -
  have m: "map_of (map (\<lambda>r. (key r, r)) (filter (\<lambda>r. CHR ''/'' \<notin> set (key r)) rs)) n =
      (if CHR ''/'' \<in> set n then None else List.find (\<lambda>r. key r = n) rs)" for rs
    by (induction rs) auto
  show ?thesis unfolding collect_new_def shash_find_collect m ..
qed

lemma collect_new_fst: "fst ` set (collect_new key rows) \<subseteq> key ` set rows"
  by (auto simp: collect_new_def fst_set_shash_collect)

lemma add_del_bridges_sel:
  assumes "add_del_bridges env ovs w = Inr w'" "distinct (map b_name (all_bridges w))"
  shows "distinct (map b_name (all_bridges w'))" "b_name ` set (all_bridges w') = bc_name ` set (oc_bridges ovs)"
    "b' \<in> set (all_bridges w') \<Longrightarrow> (\<exists>b\<in>set (all_bridges w). keep_bridge env (collect_new bc_name (oc_bridges ovs)) b = Some b')
       \<or> (\<exists>c\<in>set (oc_bridges ovs). \<exists>ea. ether_aton env (oc_system_mac ovs) = Some ea \<and> b' = new_bridge env ea c)"
    "b \<in> set (all_bridges w) \<Longrightarrow> keep_bridge env (collect_new bc_name (oc_bridges ovs)) b = Some b' \<Longrightarrow> b' \<in> set (all_bridges w')"
  using bridges.follow_rows [OF assms(2) assms(1) [unfolded add_del_bridges_def] collect_new_fst] by blast+

lemma add_del_vrfs_sel:
  assumes "add_del_vrfs env ovs w = Inr w'" "distinct (map v_name (all_vrfs w))"
  shows "distinct (map v_name (all_vrfs w'))" "v_name ` set (all_vrfs w') = vc_name ` set (oc_vrfs ovs)"
    "v' \<in> set (all_vrfs w') \<Longrightarrow> (\<exists>v\<in>set (all_vrfs w). keep_vrf (collect_new vc_name (oc_vrfs ovs)) v = Some v')
       \<or> (\<exists>c\<in>set (oc_vrfs ovs). \<exists>ea. ether_aton env (oc_system_mac ovs) = Some ea \<and> v' = new_vrf ea c)"
    "v \<in> set (all_vrfs w) \<Longrightarrow> keep_vrf (collect_new vc_name (oc_vrfs ovs)) v = Some v' \<Longrightarrow> v' \<in> set (all_vrfs w')"
  using vrfs.follow_rows [OF assms(2) assms(1) [unfolded add_del_vrfs_def] collect_new_fst] by blast+

lemma keep_bridge_new:
  "keep_bridge env (collect_new bc_name rows) b = Some b' \<longleftrightarrow>
     (\<exists>c. CHR ''/'' \<notin> set (b_name b) \<and> List.find (\<lambda>r. bc_name r = b_name b) rows = Some c \<and>
        br_type (bf_bridge b) = ofproto_normalize_type env (bc_datapath_type c) \<and>
        b' = b\<lparr>bf_bridge := (bf_bridge b)\<lparr>br_cfg := Some c\<rparr>\<rparr>)"
  by (auto simp: keep_bridge_def collect_new_find split: option.split)

text \<open>
  A name with a slash is skipped when the rows are collected, yet a bridge is created for it: every
  reconfiguration replaces such a bridge, with its ports and its VLANs, by an empty one.
\<close>

lemma slash_bridge_recreated:
  assumes "add_del_bridges env ovs w = Inr w'" "distinct (map b_name (all_bridges w))"
    "b \<in> set (all_bridges w')" "CHR ''/'' \<in> set (b_name b)"
  shows "br_ports (bf_bridge b) = [] \<and> br_ofproto (bf_bridge b) = False \<and> br_vlans (bf_vlans b) = []"
proof -
  from add_del_bridges_sel(3) [OF assms(1-3)] assms(4) obtain ea c where "b = new_bridge env ea c"
    by (auto simp: keep_bridge_new)
  then show ?thesis by (simp add: new_bridge_def empty_up_def)
qed


section \<open>The invariant of the switch\<close>

definition wanted_ok :: "port_cfg shash \<Rightarrow> bool" where
  "wanted_ok wanted \<longleftrightarrow> (\<forall>(k, c)\<in>set wanted. k = pc_name c)"

definition tables_ok :: "port_env \<Rightarrow> 'a bridge_scheme \<Rightarrow> bool" where
  "tables_ok env s \<longleftrightarrow> ports_ok env s \<and> have_rows s"

definition bridge_ok :: "port_env \<Rightarrow> br_full \<Rightarrow> bool" where
  "bridge_ok env b \<longleftrightarrow> tables_ok env (bf_bridge b) \<and> br_cfg (bf_bridge b) \<noteq> None \<and> wanted_ok (bf_wanted b)"

definition l3_ok :: "l3 \<Rightarrow> bool" where
  "l3_ok s \<longleftrightarrow> cache_ok s \<and> distinct (nb_ips s)"

definition vrf_ok :: "port_env \<Rightarrow> vrf_full \<Rightarrow> bool" where
  "vrf_ok env v \<longleftrightarrow> tables_ok env (vf_up v) \<and> wanted_ok (vf_wanted v) \<and> l3_ok (vf_l3 v)"

definition switch_ok :: "port_env \<Rightarrow> switch \<Rightarrow> bool" where
  "switch_ok env w \<longleftrightarrow> distinct (map b_name (all_bridges w)) \<and> distinct (map v_name (all_vrfs w)) \<and>
     (\<forall>b\<in>set (all_bridges w). bridge_ok env b) \<and> (\<forall>v\<in>set (all_vrfs w). vrf_ok env v)"

definition table_names :: "switch \<Rightarrow> string list \<times> string list" where
  "table_names w = (map b_name (all_bridges w), map v_name (all_vrfs w))"

definition ofproto_all :: "switch \<Rightarrow> bool" where
  "ofproto_all w \<longleftrightarrow> (\<forall>b\<in>set (all_bridges w). br_ofproto (bf_bridge b)) \<and> (\<forall>v\<in>set (all_vrfs w). br_ofproto (vf_up v))"

text \<open>What is asked of a callback of a reconfigure block: it may change ports, but it neither breaks the tables
  nor adds or removes bridges, VRFs or their ofprotos.\<close>

definition handler_ok :: "port_env \<Rightarrow> (blk_params \<Rightarrow> switch \<Rightarrow> switch) \<Rightarrow> bool" where
  "handler_ok env h \<longleftrightarrow> (\<forall>p w. switch_ok env w \<longrightarrow>
     switch_ok env (h p w) \<and> table_names (h p w) = table_names w \<and> (ofproto_all w \<longrightarrow> ofproto_all (h p w)))"

definition blocks_ok :: "port_env \<Rightarrow> (blk_params \<Rightarrow> switch \<Rightarrow> switch) blocks \<Rightarrow> bool" where
  "blocks_ok env bl \<longleftrightarrow> blocks_wf MAX_BLOCKS_NUM bl \<and>
     (\<forall>b. 0 \<le> b \<and> b < int MAX_BLOCKS_NUM \<longrightarrow> (\<forall>(h, _)\<in>set (blk_handlers bl b). handler_ok env h))"

text \<open>The invariant between the steps; \<open>q\<close> says whether the ofprotos have been created.\<close>

definition st_ok :: "port_env \<Rightarrow> string list \<times> string list \<Rightarrow> bool \<Rightarrow> recon \<Rightarrow> bool" where
  "st_ok env ns q st \<longleftrightarrow> blocks_ok env (fst st) \<and> switch_ok env (snd st) \<and> table_names (snd st) = ns \<and> (q \<longrightarrow> ofproto_all (snd st))"

lemma fold_inv: "P x \<Longrightarrow> (\<And>n x. P x \<Longrightarrow> P (f n x)) \<Longrightarrow> P (fold f ns x)"
  by (induction ns arbitrary: x) auto

lemma block_num_range: "0 \<le> block_num b \<and> block_num b < int MAX_BLOCKS_NUM"
  by (cases b) (simp_all add: MAX_BLOCKS_NUM_def)

lemma handlers_fold_ok:
  assumes "\<forall>(h, _)\<in>set hs. handler_ok env h" "switch_ok env w" "q \<longrightarrow> ofproto_all w"
  shows "switch_ok env (fold (\<lambda>(h, _). h p) hs w) \<and> table_names (fold (\<lambda>(h, _). h p) hs w) = table_names w
    \<and> (q \<longrightarrow> ofproto_all (fold (\<lambda>(h, _). h p) hs w))"
  using assms
proof (induction hs arbitrary: w)
  case (Cons x hs)
  obtain h k where x: "x = (h, k)" by fastforce
  have "handler_ok env h" using Cons.prems(1) by (simp add: x)
  then have "switch_ok env (h p w)" "table_names (h p w) = table_names w" "q \<longrightarrow> ofproto_all (h p w)"
    using Cons.prems(2,3) by (simp_all add: handler_ok_def)
  with Cons.IH [of "h p w"] Cons.prems(1) show ?case by (simp add: x)
qed simp

lemma run_block_ok:
  assumes "st_ok env ns q st"
  shows "st_ok env ns q (run_block blk p st)"
proof -
  obtain bl w where st: "st = (bl, w)" by fastforce
  obtain rc bl' w' where e: "execute_reconfigure_block (Some p) (block_num blk) bl w = (rc, bl', w')" by (metis prod_cases3)
  have bl: "blocks_ok env bl" and w: "switch_ok env w" "table_names w = ns" "q \<longrightarrow> ofproto_all w"
    using assms by (simp_all add: st_ok_def st)
  then have wf: "blocks_wf MAX_BLOCKS_NUM bl" by (simp add: blocks_ok_def)
  have x: "w' = fold (\<lambda>(h, _). h p) (blk_handlers bl (block_num blk)) w" "blocks_wf MAX_BLOCKS_NUM bl'"
    "\<forall>c. 0 \<le> c \<and> c < int MAX_BLOCKS_NUM \<longrightarrow> blk_handlers bl' c = blk_handlers bl c"
    using reconfigure.execute_ok [OF wf, of "block_num blk" p w] block_num_range [of blk] by (simp_all add: e)
  have "\<forall>(h, _)\<in>set (blk_handlers bl (block_num blk)). handler_ok env h" using bl block_num_range [of blk] by (simp add: blocks_ok_def)
  note h = handlers_fold_ok [OF this w(1,3), of p, folded x(1)]
  have "blocks_ok env bl'" using bl x(2,3) by (simp add: blocks_ok_def)
  with h w show ?thesis by (simp add: run_block_def st e st_ok_def)
qed

section \<open>Steps on one bridge or VRF\<close>

lemma to_sw_sel [simp]: "br_name (to_sw b w) = br_name b" "br_ofproto (to_sw b w) = br_ofproto b"
  "br_ports (to_sw b w) = br_ports b" "br_iface_by_name (to_sw b w) = br_iface_by_name b" "br_ifaces (to_sw b w) = br_ifaces b"
  "br_cfg (to_sw b w) = br_cfg b"
  by (simp_all add: to_sw_def bridge.extend_def sw.fields_def)

lemma truncate_sel [simp]: "br_name (bridge.truncate s) = br_name s" "br_ofproto (bridge.truncate s) = br_ofproto s"
  "br_ports (bridge.truncate s) = br_ports s" "br_iface_by_name (bridge.truncate s) = br_iface_by_name s"
  "br_ifaces (bridge.truncate s) = br_ifaces s" "br_cfg (bridge.truncate s) = br_cfg s"
  by (simp_all add: bridge.truncate_def)

lemma tables_ok_cong:
  "br_ports s' = br_ports s \<Longrightarrow> br_iface_by_name s' = br_iface_by_name s \<Longrightarrow> br_ifaces s' = br_ifaces s \<Longrightarrow> tables_ok env s' = tables_ok env s"
  using same_tables_wf(2) [of s s' env] by (simp add: tables_ok_def rows_but_def same_tables_def)

lemma tables_ok_to_sw [simp]: "tables_ok env (to_sw b w) = tables_ok env b"
  by (rule tables_ok_cong) simp_all

lemma tables_ok_truncate [simp]: "tables_ok env (bridge.truncate s) = tables_ok env s"
  by (rule tables_ok_cong) simp_all

lemma bridge_lookup_in: "bridge_lookup w n = Some b \<Longrightarrow> b \<in> set (all_bridges w) \<and> b_name b = n"
  by (auto simp: bridge_lookup_def find_Some_iff)

lemma vrf_lookup_in: "vrf_lookup w n = Some v \<Longrightarrow> v \<in> set (all_vrfs w) \<and> v_name v = n"
  by (auto simp: vrf_lookup_def find_Some_iff)

lemma put_bridge_ok:
  assumes "switch_ok env w" "bridge_ok env b" "q \<longrightarrow> ofproto_all w \<and> br_ofproto (bf_bridge b)"
  shows "switch_ok env (put_bridge b w) \<and> table_names (put_bridge b w) = table_names w \<and> (q \<longrightarrow> ofproto_all (put_bridge b w))"
proof -
  have "map b_name (all_bridges (put_bridge b w)) = map b_name (all_bridges w)" by (simp add: put_bridge_def comp_def) 
  with assms show ?thesis by (auto simp: switch_ok_def table_names_def ofproto_all_def) (auto simp: put_bridge_def)
qed

lemma put_vrf_ok:
  assumes "switch_ok env w" "vrf_ok env v" "q \<longrightarrow> ofproto_all w \<and> br_ofproto (vf_up v)"
  shows "switch_ok env (put_vrf v w) \<and> table_names (put_vrf v w) = table_names w \<and> (q \<longrightarrow> ofproto_all (put_vrf v w))"
proof -
  have "map v_name (all_vrfs (put_vrf v w)) = map v_name (all_vrfs w)" by (simp add: put_vrf_def comp_def)
  with assms show ?thesis by (auto simp: switch_ok_def table_names_def ofproto_all_def) (auto simp: put_vrf_def)
qed

lemma g_event_ok [simp]: "switch_ok env (g_event e w) = switch_ok env w" "table_names (g_event e w) = table_names w"
  "ofproto_all (g_event e w) = ofproto_all w"
  by (simp_all add: switch_ok_def table_names_def ofproto_all_def)

lemma put_l3_ok [simp]: "switch_ok env (put_l3 s w) = switch_ok env w" "table_names (put_l3 s w) = table_names w"
  "ofproto_all (put_l3 s w) = ofproto_all w"
  by (simp_all add: switch_ok_def table_names_def ofproto_all_def)

lemma from_sw_ok [simp]: "switch_ok env (from_sw s w) = switch_ok env w" "table_names (from_sw s w) = table_names w"
  "ofproto_all (from_sw s w) = ofproto_all w"
  by (simp_all add: switch_ok_def table_names_def ofproto_all_def)


lemma on_bridge_ok:
  assumes w: "switch_ok env w" "q \<longrightarrow> ofproto_all w"
    and f: "\<And>b s. wanted_ok (bf_wanted b) \<Longrightarrow> tables_ok env s \<Longrightarrow> tables_ok env (f b s) \<and> br_cfg (f b s) = br_cfg s \<and> (q \<longrightarrow> br_ofproto (f b s) = br_ofproto s)"
  shows "switch_ok env (on_bridge f n w) \<and> table_names (on_bridge f n w) = table_names w \<and> (q \<longrightarrow> ofproto_all (on_bridge f n w))"
proof (cases "bridge_lookup w n")
  case (Some b)
  define s where "s = f b (to_sw (bf_bridge b) w)"
  have b: "b \<in> set (all_bridges w)" using bridge_lookup_in [OF Some] by simp
  then have "wanted_ok (bf_wanted b)" "tables_ok env (to_sw (bf_bridge b) w)" using w(1) by (simp_all add: switch_ok_def bridge_ok_def)
  note s = f [OF this, folded s_def]
  have "bridge_ok env (b\<lparr>bf_bridge := bridge.truncate s\<rparr>)" using s b w(1) by (simp add: switch_ok_def bridge_ok_def)
  moreover have "q \<longrightarrow> ofproto_all (from_sw s w) \<and> br_ofproto (bf_bridge (b\<lparr>bf_bridge := bridge.truncate s\<rparr>))"
    using s b w(2) by (simp add: ofproto_all_def)
  moreover have "on_bridge f n w = put_bridge (b\<lparr>bf_bridge := bridge.truncate s\<rparr>) (from_sw s w)"
    using Some by (simp add: on_bridge_def Let_def s_def)
  ultimately show ?thesis using put_bridge_ok [of env "from_sw s w" "b\<lparr>bf_bridge := bridge.truncate s\<rparr>" q] w(1) by simp
qed (simp add: on_bridge_def w)

lemma put_vrf_sw_ok:
  assumes w: "switch_ok env w" "q \<longrightarrow> ofproto_all w" and v: "v \<in> set (all_vrfs w)"
    and s: "tables_ok env s" "q \<longrightarrow> br_ofproto s = br_ofproto (vf_up v)"
    and v': "vf_up v' = bridge.truncate s" "vf_wanted v' = vf_wanted v" "l3_ok (vf_l3 v')"
  shows "switch_ok env (put_vrf v' (from_sw s w)) \<and> table_names (put_vrf v' (from_sw s w)) = table_names w
    \<and> (q \<longrightarrow> ofproto_all (put_vrf v' (from_sw s w)))"
proof -
  have "vrf_ok env v'" using s v v' w(1) by (simp add: switch_ok_def vrf_ok_def)
  moreover have "q \<longrightarrow> ofproto_all (from_sw s w) \<and> br_ofproto (vf_up v')" using s v v' w(2) by (simp add: ofproto_all_def)
  ultimately show ?thesis using put_vrf_ok [of env "from_sw s w" v' q] w by simp
qed

lemma on_vrf_ok:
  assumes w: "switch_ok env w" "q \<longrightarrow> ofproto_all w"
    and f: "\<And>v s. wanted_ok (vf_wanted v) \<Longrightarrow> tables_ok env s \<Longrightarrow> tables_ok env (f v s) \<and> (q \<longrightarrow> br_ofproto (f v s) = br_ofproto s)"
  shows "switch_ok env (on_vrf f n w) \<and> table_names (on_vrf f n w) = table_names w \<and> (q \<longrightarrow> ofproto_all (on_vrf f n w))"
proof (cases "vrf_lookup w n")
  case (Some v)
  have v: "v \<in> set (all_vrfs w)" using vrf_lookup_in [OF Some] by simp
  then have "wanted_ok (vf_wanted v)" "tables_ok env (to_sw (vf_up v) w)" and l: "l3_ok (vf_l3 v)" using w(1) by (simp_all add: switch_ok_def vrf_ok_def)
  from f [OF this(1,2)] l put_vrf_sw_ok [OF w v, of "f v (to_sw (vf_up v) w)"] Some show ?thesis by (simp add: on_vrf_def Let_def)
qed (simp add: on_vrf_def w)

lemma tables_ok_del_ports: "tables_ok env s \<Longrightarrow> tables_ok env (bridge_del_ports env wanted s)"
  by (simp add: tables_ok_def bridge_del_ports_ok rows_bridge_del_ports)

lemma snd_vrf_del_ports: "snd (vrf_del_ports env env3 wanted (v, s)) = bridge_del_ports env wanted s"
  using snd_vrf_del_port_list [of env env3 wanted "br_ports s" v s]
  by (auto simp: vrf_del_ports_def bridge_del_ports_def split: prod.split)

lemma l3_ok_shared [simp]: "l3_ok (vrf_l3 g v) = l3_ok (vf_l3 v)"
  by (simp add: l3_ok_def cache_ok_def cache_wf_def cache_inv_def nb_ips_def vrf_l3_def)

lemma l3_ok_delete_neighbors: "l3_ok s \<Longrightarrow> l3_ok (delete_neighbors env ns s)"
  using delete_neighbors_effect [of s env ns] by (auto simp: l3_ok_def nb_frame_cache)

lemma fst_vrf_del_ports: "l3_ok v \<Longrightarrow> l3_ok (fst (vrf_del_ports env env3 wanted (v, s)))"
proof -
  assume "l3_ok v"
  then have "l3_ok (fold (vrf_delete_port_neighbors env3) ps v)" for ps
    by (rule fold_inv) (simp add: vrf_delete_port_neighbors_def l3_ok_delete_neighbors)
  moreover have "fst (vrf_del_ports env env3 wanted (v, s)) = fst (vrf_del_port_list env env3 wanted (br_ports s) (v, s))"
    by (simp add: vrf_del_ports_def split: prod.split)
  ultimately show ?thesis by (simp add: fst_vrf_del_port_list)
qed

lemma del_vrf_ports_ok:
  assumes w: "switch_ok (re_ports env) w"
  shows "switch_ok (re_ports env) (del_vrf_ports env n w) \<and> table_names (del_vrf_ports env n w) = table_names w"
proof (cases "vrf_lookup w n")
  case (Some v)
  obtain l3 s where d: "vrf_del_ports (re_ports env) (re_l3 env) (vf_wanted v) (vrf_l3 (g_l3 w) v, to_sw (vf_up v) w) = (l3, s)" by fastforce
  have v: "v \<in> set (all_vrfs w)" using vrf_lookup_in [OF Some] by simp
  then have "tables_ok (re_ports env) (to_sw (vf_up v) w)" "l3_ok (vrf_l3 (g_l3 w) v)" using w by (simp_all add: switch_ok_def vrf_ok_def)
  then have s: "tables_ok (re_ports env) s" and l: "l3_ok l3"
    using tables_ok_del_ports snd_vrf_del_ports fst_vrf_del_ports d by (metis snd_conv, metis fst_conv)
  have "switch_ok (re_ports env) (put_l3 l3 w)" "v \<in> set (all_vrfs (put_l3 l3 w))" using w v by simp_all
  from put_vrf_sw_ok [OF this(1) _ this(2) s, where q = False] l d Some show ?thesis by (simp add: del_vrf_ports_def)
qed (simp add: del_vrf_ports_def w)

lemma set_wanted_ok:
  assumes w: "switch_ok env w" "q \<longrightarrow> ofproto_all w" and f: "\<And>b. wanted_ok (f b)"
  shows "switch_ok env (case bridge_lookup w n of None \<Rightarrow> w | Some b \<Rightarrow> put_bridge (b\<lparr>bf_wanted := f b\<rparr>) w)
    \<and> table_names (case bridge_lookup w n of None \<Rightarrow> w | Some b \<Rightarrow> put_bridge (b\<lparr>bf_wanted := f b\<rparr>) w) = table_names w
    \<and> (q \<longrightarrow> ofproto_all (case bridge_lookup w n of None \<Rightarrow> w | Some b \<Rightarrow> put_bridge (b\<lparr>bf_wanted := f b\<rparr>) w))"
proof (cases "bridge_lookup w n")
  case (Some b)
  have "b \<in> set (all_bridges w)" using bridge_lookup_in [OF Some] by simp
  then have "bridge_ok env (b\<lparr>bf_wanted := f b\<rparr>)" "q \<longrightarrow> br_ofproto (bf_bridge b)"
    using w f by (simp_all add: switch_ok_def bridge_ok_def ofproto_all_def)
  with put_bridge_ok [OF w(1), of "b\<lparr>bf_wanted := f b\<rparr>" q] Some w(2) show ?thesis by simp
qed (simp add: w)

lemma set_vrf_wanted_ok:
  assumes w: "switch_ok env w" "q \<longrightarrow> ofproto_all w" and f: "\<And>v. wanted_ok (f v)"
  shows "switch_ok env (case vrf_lookup w n of None \<Rightarrow> w | Some v \<Rightarrow> put_vrf (v\<lparr>vf_wanted := f v\<rparr>) w)
    \<and> table_names (case vrf_lookup w n of None \<Rightarrow> w | Some v \<Rightarrow> put_vrf (v\<lparr>vf_wanted := f v\<rparr>) w) = table_names w
    \<and> (q \<longrightarrow> ofproto_all (case vrf_lookup w n of None \<Rightarrow> w | Some v \<Rightarrow> put_vrf (v\<lparr>vf_wanted := f v\<rparr>) w))"
proof (cases "vrf_lookup w n")
  case (Some v)
  have "v \<in> set (all_vrfs w)" using vrf_lookup_in [OF Some] by simp
  then have "vrf_ok env (v\<lparr>vf_wanted := f v\<rparr>)" "q \<longrightarrow> br_ofproto (vf_up v)"
    using w f by (simp_all add: switch_ok_def vrf_ok_def ofproto_all_def)
  with put_vrf_ok [OF w(1), of "v\<lparr>vf_wanted := f v\<rparr>" q] Some w(2) show ?thesis by simp
qed (simp add: w)

lemma wanted_ok_collect [simp]:
  "wanted_ok []" "wanted_ok (bridge_collect_wanted_ports n c)" "wanted_ok (vrf_collect_wanted_ports ps)"
  using shash_collect_key [of _ _ pc_name ps] snd_bridge_collect_wanted_ports [of n c]
  by (auto simp: wanted_ok_def vrf_collect_wanted_ports_def)

lemma st_ok_apsnd:
  assumes "st_ok env ns q st"
    and "\<And>w. switch_ok env w \<Longrightarrow> q \<longrightarrow> ofproto_all w \<Longrightarrow> switch_ok env (f w) \<and> table_names (f w) = table_names w \<and> (q \<longrightarrow> ofproto_all (f w))"
  shows "st_ok env ns q (apsnd f st)"
  using assms(1) assms(2) [of "snd st"] by (simp add: st_ok_def)

lemma block_on_ok:
  assumes "st_ok env ns q st"
  shows "st_ok env ns q (block_on_bridge blk n st)" "st_ok env ns q (block_on_vrf blk n st)"
  using assms by (auto simp: block_on_bridge_def block_on_vrf_def run_block_ok split: option.split)


section \<open>The passes over all bridges and VRFs\<close>

text \<open>The laws of the ofproto layer, as for a single bridge.\<close>

definition ofproto_laws :: "port_env \<Rightarrow> bool" where
  "ofproto_laws env \<longleftrightarrow> ofproto_assigns env \<and> (\<forall>lg n. distinct (map fst (ofproto_ports env lg n)))"

lemma link_iface_ofproto: "br_ofproto (link_iface i c s) = br_ofproto s"
  by (simp add: link_iface_def port_create_def put_port_def Let_def split: option.split)

lemma iface_create_br_ofproto: "br_ofproto (snd (iface_create_br env fmt vlans again c pcfg s)) = br_ofproto s"
proof -
  obtain e ofp s1 where d: "iface_do_create_br env fmt c s = (e, ofp, s1)" by (metis prod_cases3)
  have s1: "br_ofproto s1 = br_ofproto s"
    using d by (auto simp: iface_do_create_br_def iface_set_netdev_config_def set_config_def Let_def split: if_splits prod.splits)
  then show ?thesis
    by (auto simp: iface_create_br_def d Let_def iface_clear_db_record_def iface_set_ofport_def stats_block_br_def put_iface_def
        iface_refresh_netdev_status_br_def iface_refresh_stats_br_def link_iface_ofproto split: prod.split)
qed

lemma bridge_add_ports_ofproto: "br_ofproto (bridge_add_ports env fmt vlans again wanted s) = br_ofproto s"
proof -
  have a: "br_ofproto (add_iface_list env fmt vlans again pcfg cs s) = br_ofproto s" for pcfg cs s
    by (induction cs arbitrary: s) (auto simp: iface_create_br_ofproto split: option.split)
  have "br_ofproto (bridge_add_ports_raw env fmt vlans again wanted s) = br_ofproto s"
  proof (induction wanted arbitrary: s)
    case (Cons w wanted)
    then show ?case by (cases w) (simp add: a)
  qed simp
  then show ?thesis by (simp add: bridge_add_ports_def)
qed

lemma pass_ok:
  assumes "ofproto_laws env" "tables_ok env s"
  shows "tables_ok env (bridge_delete_or_reconfigure_ports env s)" "tables_ok env (vrf_delete_or_reconfigure_ports env fmt s)"
    "br_cfg (bridge_delete_or_reconfigure_ports env s) = br_cfg s"
    "wanted_ok wanted \<Longrightarrow> tables_ok env (bridge_add_ports env fmt vlans again wanted s)"
    "wanted_ok wanted \<Longrightarrow> br_cfg (bridge_add_ports env fmt vlans again wanted s) = br_cfg s"
proof -
  have s: "ports_ok env s" "have_rows s" using assms(2) by (simp_all add: tables_ok_def)
  have d: "distinct (map fst (ofproto_ports env (sw_log s) (br_name s)))" and a: "ofproto_assigns env"
    using assms(1) by (simp_all add: ofproto_laws_def)
  note r = bridge_dump.delete_or_reconfigure_ok [OF s(1) d] vrf_dump.delete_or_reconfigure_ok [OF s(1) d]
  show "tables_ok env (bridge_delete_or_reconfigure_ports env s)" "tables_ok env (vrf_delete_or_reconfigure_ports env fmt s)"
    using r(1,7) rows_reconfigure_ports [OF s(2)]
    by (simp_all add: tables_ok_def bridge_delete_or_reconfigure_ports_def vrf_delete_or_reconfigure_ports_def)
  show "br_cfg (bridge_delete_or_reconfigure_ports env s) = br_cfg s" using r(6) by (simp add: bridge_delete_or_reconfigure_ports_def)
  show "tables_ok env (bridge_add_ports env fmt vlans again wanted s)" "br_cfg (bridge_add_ports env fmt vlans again wanted s) = br_cfg s"
    if "wanted_ok wanted"
    using bridge_add_ports_ok [OF s(1) a that [unfolded wanted_ok_def]] rows_bridge_add_ports [OF s(2)]
    by (simp_all add: tables_ok_def bridge_add_ports_def)
qed

lemma delete_bridge_ports_ok:
  assumes "st_ok (re_ports env) ns False st"
  shows "st_ok (re_ports env) ns False (delete_bridge_ports env n st)"
  unfolding delete_bridge_ports_def collect_bridge_def
proof (intro st_ok_apsnd block_on_ok(1) assms)
  show "switch_ok (re_ports env) w \<Longrightarrow> switch_ok (re_ports env) (on_bridge (\<lambda>b. bridge_del_ports (re_ports env) (bf_wanted b)) n w)
      \<and> table_names (on_bridge (\<lambda>b. bridge_del_ports (re_ports env) (bf_wanted b)) n w) = table_names w
      \<and> (False \<longrightarrow> ofproto_all (on_bridge (\<lambda>b. bridge_del_ports (re_ports env) (bf_wanted b)) n w))" for w
    by (rule on_bridge_ok) (simp_all add: tables_ok_del_ports, simp add: tables_ok_def bridge_del_ports_ok)
qed (rule set_wanted_ok, simp_all split: option.split)

lemma delete_vrf_ports_ok:
  assumes "st_ok (re_ports env) ns False st"
  shows "st_ok (re_ports env) ns False (delete_vrf_ports env n st)"
  unfolding delete_vrf_ports_def collect_vrf_def
proof (intro st_ok_apsnd block_on_ok(2) assms)
qed (simp_all add: del_vrf_ports_ok, rule set_vrf_wanted_ok [where q = False, simplified], simp_all split: option.split)

lemma reconfigure_bridge_ports_ok:
  assumes "ofproto_laws (re_ports env)" "st_ok (re_ports env) ns False st"
  shows "st_ok (re_ports env) ns False (reconfigure_bridge_ports env n st)"
proof -
  have "st_ok (re_ports env) ns False (block_on_bridge BLK_BR_RECONFIGURE_PORTS n
      (apsnd (on_bridge (\<lambda>_. bridge_delete_or_reconfigure_ports (re_ports env)) n) st))"
    by (intro block_on_ok st_ok_apsnd assms on_bridge_ok) (simp_all add: pass_ok assms)
  with assms show ?thesis by (simp add: reconfigure_bridge_ports_def split: option.split)
qed

lemma reconfigure_vrf_ports_ok:
  assumes "ofproto_laws (re_ports env)" "st_ok (re_ports env) ns False st"
  shows "st_ok (re_ports env) ns False (reconfigure_vrf_ports env n st)"
proof -
  have "st_ok (re_ports env) ns False (block_on_vrf BLK_VRF_RECONFIGURE_PORTS n
      (apsnd (on_vrf (\<lambda>_. vrf_delete_or_reconfigure_ports (re_ports env) (re_fmt env)) n) st))"
    by (intro block_on_ok st_ok_apsnd assms on_vrf_ok) (simp_all add: pass_ok assms)
  with assms show ?thesis by (simp add: reconfigure_vrf_ports_def split: option.split)
qed

lemma add_bridge_ports_ok:
  assumes "ofproto_laws (re_ports env)" "st_ok (re_ports env) ns q st"
  shows "st_ok (re_ports env) ns q (add_bridge_ports env n st)"
  unfolding add_bridge_ports_def clear_wanted_def
  by (intro st_ok_apsnd block_on_ok assms on_bridge_ok set_wanted_ok) (simp_all add: pass_ok assms bridge_add_ports_ofproto)

lemma add_vrf_ports_ok:
  assumes "ofproto_laws (re_ports env)" "st_ok (re_ports env) ns q st"
  shows "st_ok (re_ports env) ns q (add_vrf_ports env n st)"
  unfolding add_vrf_ports_def clear_vrf_wanted_def
  by (intro st_ok_apsnd block_on_ok assms on_vrf_ok set_vrf_wanted_ok) (simp_all add: pass_ok assms bridge_add_ports_ofproto)

lemma delete_ofprotos_ok:
  "switch_ok env' w \<Longrightarrow> switch_ok env' (bridge_delete_ofprotos env w) \<and> table_names (bridge_delete_ofprotos env w) = table_names w"
  unfolding bridge_delete_ofprotos_def
  by (rule fold_inv [where P = "\<lambda>x. switch_ok env' x \<and> table_names x = table_names w"])
    (simp_all split: prod.split)


section \<open>Creating the ofprotos\<close>

text \<open>A loop that gives each object its ofproto or removes it; \<open>ok\<close> says that no creation fails.\<close>

locale ofproto_loop =
  fixes tbl :: "switch \<Rightarrow> 'b list"
    and other :: "switch \<Rightarrow> 'c list"
    and name :: "'b \<Rightarrow> string"
    and has :: "'b \<Rightarrow> bool"
    and inv :: "switch \<Rightarrow> bool"
    and ok :: bool
    and step :: "string \<Rightarrow> switch \<Rightarrow> switch"
  assumes step_inv: "inv w \<Longrightarrow> inv (step n w)"
    and step_tbl: "inv w \<Longrightarrow> b \<in> set (tbl (step n w)) \<Longrightarrow> (if name b = n then has b else b \<in> set (tbl w))"
    and step_names: "inv w \<Longrightarrow> name ` set (tbl (step n w)) \<subseteq> name ` set (tbl w)"
    and step_ok: "inv w \<Longrightarrow> ok \<Longrightarrow> map name (tbl (step n w)) = map name (tbl w)"
    and step_other: "other (step n w) = other w"
begin

lemma loop:
  assumes "inv w"
  shows "inv (fold step ns w) \<and> other (fold step ns w) = other w \<and> name ` set (tbl (fold step ns w)) \<subseteq> name ` set (tbl w)
    \<and> (ok \<longrightarrow> map name (tbl (fold step ns w)) = map name (tbl w))
    \<and> (\<forall>b\<in>set (tbl (fold step ns w)). if name b \<in> set ns then has b else b \<in> set (tbl w))"
  using assms
proof (induction ns arbitrary: w)
  case (Cons n ns)
  let ?w = "step n w"
  note ih = Cons.IH [OF step_inv [OF Cons.prems, of n]]
  have t: "if name b \<in> set (n # ns) then has b else b \<in> set (tbl w)" if "b \<in> set (tbl (fold step ns ?w))" for b
    using ih step_tbl [OF Cons.prems, of b n] that by (auto split: if_splits)
  have "name ` set (tbl (fold step ns ?w)) \<subseteq> name ` set (tbl w)" using ih step_names [OF Cons.prems, of n] by blast
  moreover have "ok \<longrightarrow> map name (tbl (fold step ns ?w)) = map name (tbl w)" using ih step_ok [OF Cons.prems, of n] by simp
  ultimately show ?case using ih t by (simp add: step_other)
qed simp

end

definition creates :: "recon_env \<Rightarrow> bool" where
  "creates env \<longleftrightarrow> (\<forall>lg n t. ofproto_create env lg n t = 0)"

lemma bridge_destroy_ok: "switch_ok env' w \<Longrightarrow> switch_ok env' (bridge_destroy env b w)"
  by (simp add: switch_ok_def distinct_map_filter)

lemma vrf_destroy_ok: "switch_ok env' w \<Longrightarrow> switch_ok env' (vrf_destroy env v w)"
  by (simp add: switch_ok_def distinct_map_filter)

lemma tables_ok_ofproto [simp]: "tables_ok env (b\<lparr>br_ofproto := x\<rparr>) = tables_ok env b"
  by (rule tables_ok_cong) simp_all

lemma unique_named: "distinct (map f xs) \<Longrightarrow> a \<in> set xs \<Longrightarrow> b \<in> set xs \<Longrightarrow> f a = f b \<Longrightarrow> a = b"
  by (simp add: distinct_map inj_on_def)

text \<open>The three outcomes of a step.\<close>

lemma create_ofproto_cases:
  assumes "switch_ok env' w"
  obtains (same) "create_ofproto env n w = w" "\<forall>b\<in>set (all_bridges w). b_name b = n \<longrightarrow> br_ofproto (bf_bridge b)"
  | (gone) b w1 where "create_ofproto env n w = bridge_destroy env b (g_event w1 w)" "b_name b = n" "\<not> creates env"
  | (made) b w1 where "create_ofproto env n w = put_bridge b (g_event w1 w)" "b_name b = n" "br_ofproto (bf_bridge b)" "bridge_ok env' b"
proof (cases "bridge_lookup w n")
  case None
  then have "\<forall>b\<in>set (all_bridges w). b_name b \<noteq> n" by (auto simp: bridge_lookup_def find_None_iff)
  with None same show ?thesis by (simp add: create_ofproto_def)
next
  case (Some b)
  note b = bridge_lookup_in [OF Some]
  show ?thesis
  proof (cases "br_ofproto (bf_bridge b)")
    case True
    have "\<forall>x\<in>set (all_bridges w). b_name x = n \<longrightarrow> x = b"
      using assms b unique_named [of b_name "all_bridges w"] by (auto simp: switch_ok_def)
    with True Some same show ?thesis by (auto simp: create_ofproto_def)
  next
    case False
    let ?e = "OfprotoCreate n (br_type (bf_bridge b))"
    let ?b = "b\<lparr>bf_bridge := (bf_bridge b)\<lparr>br_ofproto := True\<rparr>, bf_mirrors := (bf_mirrors b)\<lparr>mi_ofproto := True\<rparr>\<rparr>"
    have "bridge_ok env' ?b" using assms b by (simp add: switch_ok_def bridge_ok_def)
    moreover have "create_ofproto env n w = (if ofproto_create env (g_log w) n (br_type (bf_bridge b)) \<noteq> 0
        then bridge_destroy env b (g_event ?e w) else put_bridge ?b (g_event ?e w))"
      using False Some by (simp add: create_ofproto_def Let_def)
    ultimately show ?thesis using b gone [of b ?e] made [of ?b ?e] 
      by (cases "ofproto_create env (g_log w) n (br_type (bf_bridge b)) = 0") (simp_all add: creates_def, blast)
  qed
qed

lemma create_vrf_ofproto_cases:
  assumes "switch_ok env' w"
  obtains (same) "create_vrf_ofproto env n w = w" "\<forall>v\<in>set (all_vrfs w). v_name v = n \<longrightarrow> br_ofproto (vf_up v)"
  | (gone) v w1 where "create_vrf_ofproto env n w = vrf_destroy env v (g_event w1 w)" "v_name v = n" "\<not> creates env"
  | (made) v w1 where "create_vrf_ofproto env n w = put_vrf v (g_event w1 w)" "v_name v = n" "br_ofproto (vf_up v)" "vrf_ok env' v"
proof (cases "vrf_lookup w n")
  case None
  then have "\<forall>v\<in>set (all_vrfs w). v_name v \<noteq> n" by (auto simp: vrf_lookup_def find_None_iff)
  with None same show ?thesis by (simp add: create_vrf_ofproto_def)
next
  case (Some v)
  note v = vrf_lookup_in [OF Some]
  show ?thesis
  proof (cases "br_ofproto (vf_up v)")
    case True
    have "\<forall>x\<in>set (all_vrfs w). v_name x = n \<longrightarrow> x = v"
      using assms v unique_named [of v_name "all_vrfs w"] by (auto simp: switch_ok_def)
    with True Some same show ?thesis by (auto simp: create_vrf_ofproto_def)
  next
    case False
    let ?e = "OfprotoCreate n ''vrf''"
    let ?v = "v\<lparr>vf_up := (vf_up v)\<lparr>br_ofproto := True\<rparr>\<rparr>"
    have "vrf_ok env' ?v" using assms v by (simp add: switch_ok_def vrf_ok_def)
    moreover have "create_vrf_ofproto env n w = (if ofproto_create env (g_log w) n ''vrf'' \<noteq> 0
        then vrf_destroy env v (g_event ?e w) else put_vrf ?v (g_event ?e w))"
      using False Some by (simp add: create_vrf_ofproto_def Let_def)
    ultimately show ?thesis using v gone [of v ?e] made [of ?v ?e] 
      by (cases "ofproto_create env (g_log w) n ''vrf'' = 0") (simp_all add: creates_def, blast)
  qed
qed

lemma put_bridge_names: "map b_name (all_bridges (put_bridge b w)) = map b_name (all_bridges w)"
  by (simp add: put_bridge_def comp_def)

lemma put_vrf_names: "map v_name (all_vrfs (put_vrf v w)) = map v_name (all_vrfs w)"
  by (simp add: put_vrf_def comp_def)

interpretation bridge_ofprotos: ofproto_loop all_bridges all_vrfs b_name "\<lambda>b. br_ofproto (bf_bridge b)" "switch_ok env'" "creates env"
  "create_ofproto env" for env env'
proof
  fix w n
  assume w: "switch_ok env' w"
  show "switch_ok env' (create_ofproto env n w)"
    using w put_bridge_ok [where q = False] by (cases rule: create_ofproto_cases [OF w, of env n]) (simp_all add: bridge_destroy_ok)
  show "if b_name b = n then br_ofproto (bf_bridge b) else b \<in> set (all_bridges w)"
    if "b \<in> set (all_bridges (create_ofproto env n w))" for b
    using that by (cases rule: create_ofproto_cases [OF w, of env n]) (auto simp: put_bridge_def)
  show "b_name ` set (all_bridges (create_ofproto env n w)) \<subseteq> b_name ` set (all_bridges w)"
    using arg_cong [OF put_bridge_names, of set]
    by (cases rule: create_ofproto_cases [OF w, of env n]) auto
  show "map b_name (all_bridges (create_ofproto env n w)) = map b_name (all_bridges w)" if "creates env"
    using that by (cases rule: create_ofproto_cases [OF w, of env n]) (simp_all add: put_bridge_names)
next
  show "all_vrfs (create_ofproto env n w) = all_vrfs w" for n w
    by (auto simp: create_ofproto_def Let_def split: option.split)
qed

interpretation vrf_ofprotos: ofproto_loop all_vrfs all_bridges v_name "\<lambda>v. br_ofproto (vf_up v)" "switch_ok env'" "creates env"
  "create_vrf_ofproto env" for env env'
proof
  fix w n
  assume w: "switch_ok env' w"
  show "switch_ok env' (create_vrf_ofproto env n w)"
    using w put_vrf_ok [where q = False] by (cases rule: create_vrf_ofproto_cases [OF w, of env n]) (simp_all add: vrf_destroy_ok)
  show "if v_name v = n then br_ofproto (vf_up v) else v \<in> set (all_vrfs w)"
    if "v \<in> set (all_vrfs (create_vrf_ofproto env n w))" for v
    using that by (cases rule: create_vrf_ofproto_cases [OF w, of env n]) (auto simp: put_vrf_def)
  show "v_name ` set (all_vrfs (create_vrf_ofproto env n w)) \<subseteq> v_name ` set (all_vrfs w)"
    using arg_cong [OF put_vrf_names, of set]
    by (cases rule: create_vrf_ofproto_cases [OF w, of env n]) auto
  show "map v_name (all_vrfs (create_vrf_ofproto env n w)) = map v_name (all_vrfs w)" if "creates env"
    using that by (cases rule: create_vrf_ofproto_cases [OF w, of env n]) (simp_all add: put_vrf_names)
next
  show "all_bridges (create_vrf_ofproto env n w) = all_bridges w" for n w
    by (auto simp: create_vrf_ofproto_def Let_def split: option.split)
qed


section \<open>The whole pass\<close>

lemma add_del_bridges_vrfs:
  assumes "add_del_bridges env ovs w = Inr w'"
  shows "all_vrfs w' = all_vrfs w"
proof -
  have d: "all_vrfs (del_bridges env new bs w) = all_vrfs w" for new bs w
    by (induction bs arbitrary: w) (simp_all add: del_bridge_def Let_def split: option.split)
  have c: "create_bridges env ovs cs w = Inr w' \<Longrightarrow> all_vrfs w' = all_vrfs w" for cs w
    by (induction cs arbitrary: w) (auto simp: bridge_create_def split: if_splits sum.splits option.splits)
  show ?thesis using assms by (simp add: add_del_bridges_def d c)
qed

lemma add_del_vrfs_bridges:
  assumes "add_del_vrfs env ovs w = Inr w'"
  shows "all_bridges w' = all_bridges w"
proof -
  have d: "all_bridges (del_vrfs env new bs w) = all_bridges w" for new bs w
    by (induction bs arbitrary: w) (simp_all add: del_vrf_def Let_def split: option.split)
  have c: "create_vrfs env ovs cs w = Inr w' \<Longrightarrow> all_bridges w' = all_bridges w" for cs w
    by (induction cs arbitrary: w) (auto simp: vrf_create_def split: if_splits sum.splits option.splits)
  show ?thesis using assms by (simp add: add_del_vrfs_def d c)
qed

lemma tables_ok_empty: "tables_ok env (empty_up n t ea c)" "br_cfg (empty_up n t ea c) = c"
  by (simp_all add: tables_ok_def rows_but_def ports_ok_def ports_wf_def iface_rel_def port_rel_def empty_up_def)

lemma tables_ok_cfg [simp]: "tables_ok env (b\<lparr>br_cfg := x\<rparr>) = tables_ok env b"
  by (rule tables_ok_cong) simp_all

lemma l3_ok_empty: "l3_ok (empty_l3 n)"
  by (simp add: l3_ok_def cache_ok_def cache_wf_def cache_inv_def nb_ips_def empty_l3_def)

lemma add_del_ok:
  assumes w: "switch_ok env' w" and b: "add_del_bridges env ovs w = Inr w1" and v: "add_del_vrfs env ovs w1 = Inr w2"
  shows "switch_ok env' w2" "b_name ` set (all_bridges w2) = bc_name ` set (oc_bridges ovs)"
    "v_name ` set (all_vrfs w2) = vc_name ` set (oc_vrfs ovs)"
proof -
  have d: "distinct (map b_name (all_bridges w))" "distinct (map v_name (all_vrfs w))" using w by (simp_all add: switch_ok_def)
  note f = add_del_bridges_vrfs [OF b] add_del_vrfs_bridges [OF v]
  have d1: "distinct (map v_name (all_vrfs w1))" using d f by simp
  note sb = add_del_bridges_sel [OF b d(1)] and sv = add_del_vrfs_sel [OF v d1]
  have "bridge_ok env' x" if "x \<in> set (all_bridges w1)" for x
    using sb(3) [OF that] w
    by (auto simp: keep_bridge_new switch_ok_def bridge_ok_def new_bridge_def tables_ok_empty)
  moreover have "vrf_ok env' x" if "x \<in> set (all_vrfs w2)" for x
    using sv(3) [OF that] w f
    by (auto simp: keep_vrf_def switch_ok_def vrf_ok_def new_vrf_def tables_ok_empty l3_ok_empty)
  ultimately show "switch_ok env' w2" using sb(1) sv(1) f by (simp add: switch_ok_def)
  show "b_name ` set (all_bridges w2) = bc_name ` set (oc_bridges ovs)"
    "v_name ` set (all_vrfs w2) = vc_name ` set (oc_vrfs ovs)" using sb(2) sv(2) f by simp_all
qed

definition create_ofprotos :: "recon_env \<Rightarrow> recon \<Rightarrow> recon" where
  "create_ofprotos env st = (let st = fold (\<lambda>n. apsnd (create_ofproto env n)) (bridge_names st) st
     in fold (\<lambda>n. apsnd (create_vrf_ofproto env n)) (vrf_names st) st)"

lemma fold_apsnd: "fold (\<lambda>n. apsnd (f n)) ns st = (fst st, fold f ns (snd st))"
  by (induction ns arbitrary: st) (simp_all add: apsnd_def)

lemma create_ofprotos_ok:
  assumes "st_ok (re_ports env) ns False st"
  shows "\<exists>ns'. st_ok (re_ports env) ns' True (create_ofprotos env st) \<and> set (fst ns') \<subseteq> set (fst ns) \<and> set (snd ns') \<subseteq> set (snd ns)
    \<and> (creates env \<longrightarrow> ns' = ns)"
proof -
  obtain bl w where st: "st = (bl, w)" by fastforce
  have w: "blocks_ok (re_ports env) bl" "switch_ok (re_ports env) w" "table_names w = ns" using assms by (simp_all add: st_ok_def st)
  define w1 where "w1 = fold (create_ofproto env) (map b_name (all_bridges w)) w"
  define w2 where "w2 = fold (create_vrf_ofproto env) (map v_name (all_vrfs w1)) w1"
  have e: "create_ofprotos env st = (bl, w2)"
    by (simp add: create_ofprotos_def fold_apsnd bridge_names_def vrf_names_def st Let_def w1_def w2_def)
  note l1 = bridge_ofprotos.loop [OF w(2), of env "map b_name (all_bridges w)", folded w1_def]
  have s1: "switch_ok (re_ports env) w1" using l1 by blast
  note l2 = vrf_ofprotos.loop [OF s1, of env "map v_name (all_vrfs w1)", folded w2_def]
  have "br_ofproto (bf_bridge b)" if "b \<in> set (all_bridges w2)" for b
  proof -
    have b: "b \<in> set (all_bridges w1)" using that l2 by metis
    then have "b_name b \<in> set (map b_name (all_bridges w))" using l1 by (metis imageI set_map subsetD)
    with b l1 show ?thesis by metis
  qed
  moreover have "br_ofproto (vf_up v)" if "v \<in> set (all_vrfs w2)" for v
  proof -
    have "v_name v \<in> set (map v_name (all_vrfs w1))" using that l2 by (metis imageI set_map subsetD)
    with that l2 show ?thesis by metis
  qed
  ultimately have "ofproto_all w2" by (simp add: ofproto_all_def)
  then have "st_ok (re_ports env) (table_names w2) True (bl, w2)" using w l2 by (simp add: st_ok_def)
  moreover have "set (fst (table_names w2)) \<subseteq> set (fst ns)" "set (snd (table_names w2)) \<subseteq> set (snd ns)"
    using l1 l2 by (auto simp: table_names_def simp flip: w(3))
  moreover have "creates env \<longrightarrow> table_names w2 = ns" using l1 l2 by (simp add: table_names_def flip: w(3))
  ultimately show ?thesis unfolding e by blast
qed

lemma reconfigure_tables_steps:
  assumes "reconfigure_tables env ovs st = Inr st'"
  obtains w1 w2 st1 where "add_del_bridges env ovs (snd st) = Inr w1" "add_del_vrfs env ovs w1 = Inr w2"
    "st1 = (let st = run_block BLK_INIT_RECONFIGURE \<lparr>bp_ofproto = None, bp_br = None, bp_vrf = None, bp_port = None\<rparr> (fst st, w2);
                st = fold (delete_bridge_ports env) (bridge_names st) st;
                st = fold (delete_vrf_ports env) (vrf_names st) st;
                st = apsnd (bridge_delete_ofprotos env) st;
                st = fold (reconfigure_bridge_ports env) (bridge_names st) st
            in fold (reconfigure_vrf_ports env) (vrf_names st) st)"
    "st' = (let st = fold (add_bridge_ports env) (bridge_names (create_ofprotos env st1)) (create_ofprotos env st1)
            in fold (add_vrf_ports env) (vrf_names st) st)"
  using assms that by (auto simp: reconfigure_tables_def create_ofprotos_def Let_def split: sum.splits)

lemma reconfigure_tables_ok:
  assumes "switch_ok (re_ports env) (snd st)" "blocks_ok (re_ports env) (fst st)" "ofproto_laws (re_ports env)"
    and "reconfigure_tables env ovs st = Inr st'"
  shows "\<exists>ns. st_ok (re_ports env) ns True st' \<and> set (fst ns) \<subseteq> bc_name ` set (oc_bridges ovs) \<and> set (snd ns) \<subseteq> vc_name ` set (oc_vrfs ovs)
    \<and> (creates env \<longrightarrow> set (fst ns) = bc_name ` set (oc_bridges ovs) \<and> set (snd ns) = vc_name ` set (oc_vrfs ovs))"
proof -
  obtain w1 w2 st1 where s: "add_del_bridges env ovs (snd st) = Inr w1" "add_del_vrfs env ovs w1 = Inr w2"
    "st1 = (let st = run_block BLK_INIT_RECONFIGURE \<lparr>bp_ofproto = None, bp_br = None, bp_vrf = None, bp_port = None\<rparr> (fst st, w2);
                st = fold (delete_bridge_ports env) (bridge_names st) st;
                st = fold (delete_vrf_ports env) (vrf_names st) st;
                st = apsnd (bridge_delete_ofprotos env) st;
                st = fold (reconfigure_bridge_ports env) (bridge_names st) st
            in fold (reconfigure_vrf_ports env) (vrf_names st) st)"
    "st' = (let st = fold (add_bridge_ports env) (bridge_names (create_ofprotos env st1)) (create_ofprotos env st1)
            in fold (add_vrf_ports env) (vrf_names st) st)"
    using reconfigure_tables_steps [OF assms(4)] by metis
  let ?P = "re_ports env"
  note a = add_del_ok [OF assms(1) s(1,2)]
  define ns where "ns = table_names w2"
  have "st_ok ?P ns False (fst st, w2)" using a(1) assms(2) by (simp add: st_ok_def ns_def)
  then have "st_ok ?P ns False st1" unfolding s(3) Let_def
    by (intro fold_inv [where P = "st_ok ?P ns False"] st_ok_apsnd run_block_ok delete_bridge_ports_ok delete_vrf_ports_ok
        reconfigure_bridge_ports_ok reconfigure_vrf_ports_ok assms) (simp_all add: delete_ofprotos_ok)
  then obtain ns' where n: "st_ok ?P ns' True (create_ofprotos env st1)" "set (fst ns') \<subseteq> set (fst ns)" "set (snd ns') \<subseteq> set (snd ns)"
    "creates env \<longrightarrow> ns' = ns" using create_ofprotos_ok by metis
  have r: "st_ok ?P ns' True st'" unfolding s(4) Let_def
    by (intro fold_inv [where P = "st_ok ?P ns' True"] add_bridge_ports_ok add_vrf_ports_ok assms n(1))
  have "set (fst ns) = bc_name ` set (oc_bridges ovs)" "set (snd ns) = vc_name ` set (oc_vrfs ovs)"
    using a by (simp_all add: ns_def table_names_def)
  with r n show ?thesis by (intro exI [of _ ns']) simp
qed

text \<open>
  Bringing bridges, VRFs, ports and interfaces in line with the database keeps the invariant of the whole
  switch: names stay unique, and the port tables of every bridge and VRF and the neighbor and route caches of every VRF consistent, whatever callbacks the
  reconfigure blocks hold, as long as each callback keeps the tables consistent and creates or removes no bridge.
  Afterwards every bridge and VRF has its ofproto and a row; and when no creation of an ofproto fails, every
  row has its bridge or VRF.
\<close>

theorem reconfigure_keeps_switch:
  assumes "switch_ok (re_ports env) (snd st)" "blocks_ok (re_ports env) (fst st)" "ofproto_laws (re_ports env)"
    and "reconfigure_tables env ovs st = Inr st'"
  shows "switch_ok (re_ports env) (snd st') \<and> ofproto_all (snd st')
    \<and> b_name ` set (all_bridges (snd st')) \<subseteq> bc_name ` set (oc_bridges ovs)
    \<and> v_name ` set (all_vrfs (snd st')) \<subseteq> vc_name ` set (oc_vrfs ovs)
    \<and> (creates env \<longrightarrow> b_name ` set (all_bridges (snd st')) = bc_name ` set (oc_bridges ovs)
         \<and> v_name ` set (all_vrfs (snd st')) = vc_name ` set (oc_vrfs ovs))"
proof -
  obtain ns where "st_ok (re_ports env) ns True st'" "set (fst ns) \<subseteq> bc_name ` set (oc_bridges ovs)" "set (snd ns) \<subseteq> vc_name ` set (oc_vrfs ovs)"
    "creates env \<longrightarrow> set (fst ns) = bc_name ` set (oc_bridges ovs) \<and> set (snd ns) = vc_name ` set (oc_vrfs ovs)"
    using reconfigure_tables_ok [OF assms] by blast
  then show ?thesis by (auto simp: st_ok_def table_names_def)
qed


lemma create_no_fault:
  assumes "ether_aton env (oc_system_mac ovs) = Some ea"
  shows "\<exists>w'. create_bridges env ovs cs w = Inr w'" "\<exists>w'. create_vrfs env ovs vs w = Inr w'"
proof -
  show "\<exists>w'. create_bridges env ovs cs w = Inr w'" using assms by (induction cs arbitrary: w) (auto simp: bridge_create_def)
  show "\<exists>w'. create_vrfs env ovs vs w = Inr w'" using assms by (induction vs arbitrary: w) (auto simp: vrf_create_def)
qed

lemma reconfigure_no_fault:
  assumes "ether_aton env (oc_system_mac ovs) = Some ea"
  shows "\<exists>st'. reconfigure_tables env ovs st = Inr st'"
proof -
  obtain w1 where "add_del_bridges env ovs (snd st) = Inr w1"
    unfolding add_del_bridges_def using create_no_fault(1) [OF assms] by blast
  moreover obtain w2 where "add_del_vrfs env ovs w1 = Inr w2"
    unfolding add_del_vrfs_def using create_no_fault(2) [OF assms] by blast
  ultimately show ?thesis by (simp only: reconfigure_tables_def sum.case Let_def) blast
qed

text \<open>A switch with the bridge of \<open>Ports_Props\<close> and one that has lost its row, and a plugin that records its calls.\<close>

definition sample_recon_env :: recon_env where
  "sample_recon_env = \<lparr>re_ports = sample_port_env, re_l3 = sample_env, re_mirrors = sample_mirror_env, re_fmt = (\<lambda>_. []), re_again = False,
     ether_aton = (\<lambda>s. if s = [] then None else Some s), ofproto_normalize_type = (\<lambda>t. t), ofproto_create = (\<lambda>_ _ _. 0),
     ofproto_enumerate = (\<lambda>_. [([], ''old'')])\<rparr>"

definition sample_br_full :: "string \<Rightarrow> br_full" where
  "sample_br_full n = \<lparr>bf_bridge = (bridge.truncate sample_sw)\<lparr>br_name := n,
       br_ports := map (\<lambda>p. p\<lparr>bp_cfg := Some (sample_port_cfg (bp_name p) (bp_ifaces p))\<rparr>) (br_ports sample_sw)\<rparr>, bf_wanted = [], bf_vlans = \<lparr>br_vlans = [], vlan_log = []\<rparr>,
     bf_mirrors = \<lparr>mi_ofproto = True, br_mirrors = [], mi_log = []\<rparr>\<rparr>"

definition sample_switch :: switch where
  "sample_switch = \<lparr>all_bridges = [sample_br_full ''br0'', sample_br_full ''old''], all_vrfs = [], freed_mirrors = [], g_l3 = \<lparr>sh_nh_status = (\<lambda>_. None), sh_ecmp_config = ecmp_boot, sh_l3_log = []\<rparr>,
     g_log = [], g_stats_blocks = blocks_boot\<rparr>"

definition sample_ovs :: ovs_cfg where
  "sample_ovs = \<lparr>oc_bridges = [sample_bridge_cfg, sample_bridge_cfg\<lparr>bc_name := ''br1''\<rparr>],
     oc_vrfs = [\<lparr>vc_name = ''vrf_default'', vc_ports = []\<rparr>], oc_system_mac = ''aa''\<rparr>"

definition sample_plugin :: "blk_params \<Rightarrow> switch \<Rightarrow> switch" where
  "sample_plugin p w = g_event (PluginEvent ''seen'') w"

definition sample_blocks :: "(blk_params \<Rightarrow> switch \<Rightarrow> switch) blocks" where
  "sample_blocks = snd (register_reconfigure_callback (Some sample_plugin) 2 7 blocks_boot)"

lemma sample_blocks_ok: "blocks_ok env sample_blocks"
proof -
  have "handler_ok env sample_plugin" by (simp add: handler_ok_def sample_plugin_def)
  moreover have "blocks_wf MAX_BLOCKS_NUM sample_blocks" "\<forall>c. 0 \<le> c \<and> c < int MAX_BLOCKS_NUM \<longrightarrow>
      set (blk_handlers sample_blocks c) \<subseteq> {(sample_plugin, 7)}"
    unfolding sample_blocks_def using reconfigure.register_ok [OF reconfigure.invar_boot, of 2 sample_plugin 7]
    by (auto simp: MAX_BLOCKS_NUM_def reconfigure.handlers_boot insert_after_le_def)
  ultimately show ?thesis by (auto simp: blocks_ok_def)
qed

lemma sample_switch_ok: "switch_ok sample_port_env sample_switch"
proof -
  have "ports_ok sample_port_env (bf_bridge (sample_br_full n))" for n
    using same_tables_wf(2) [of sample_sw "bf_bridge (sample_br_full n)"] sample_sw_ok
    by (simp add: same_tables_def sample_br_full_def port_key_def)
  then have "tables_ok sample_port_env (bf_bridge (sample_br_full n))" for n by (simp add: tables_ok_def rows_but_def sample_br_full_def)
  moreover have "br_cfg sample_sw = Some sample_bridge_cfg" by (simp add: sample_sw_def)
  ultimately show ?thesis by (simp add: switch_ok_def sample_switch_def bridge_ok_def sample_br_full_def)
qed

theorem reconfigure_keeps_switch_witness:
  "\<exists>st'. reconfigure_tables sample_recon_env sample_ovs (sample_blocks, sample_switch) = Inr st'
     \<and> switch_ok sample_port_env (snd st') \<and> ofproto_all (snd st')
     \<and> b_name ` set (all_bridges (snd st')) = {''br0'', ''br1''} \<and> v_name ` set (all_vrfs (snd st')) = {''vrf_default''}"
proof -
  have e: "re_ports sample_recon_env = sample_port_env" "creates sample_recon_env" "ether_aton sample_recon_env (oc_system_mac sample_ovs) = Some ''aa''"
    by (simp_all add: sample_recon_env_def creates_def sample_ovs_def)
  obtain st' where r: "reconfigure_tables sample_recon_env sample_ovs (sample_blocks, sample_switch) = Inr st'"
    using reconfigure_no_fault [OF e(3)] by blast
  have "ofproto_laws sample_port_env" using sample_port_env_laws by (simp add: ofproto_laws_def)
  with reconfigure_keeps_switch [OF _ _ _ r] sample_switch_ok sample_blocks_ok e(1,2) have
    "switch_ok sample_port_env (snd st') \<and> ofproto_all (snd st') \<and> b_name ` set (all_bridges (snd st')) = bc_name ` set (oc_bridges sample_ovs)
       \<and> v_name ` set (all_vrfs (snd st')) = vc_name ` set (oc_vrfs sample_ovs)" by simp
  with r show ?thesis by (auto simp: sample_ovs_def sample_bridge_cfg_def)
qed



end
