(* ===== verification/System_Stats.thy ===== *)
theory System_Stats
  imports Prelude "HOL-Library.Sublist"
begin

text \<open>
  System statistics, src/system-stats.c: what the statistics thread collects and how its snapshots reach the
  main thread.

  The record \<open>proc_env\<close> is what the kernel answers during one collection: the lines \<open>fgets\<close> delivers for a file,
  the results of the scan functions on them, directory entries, mounted file systems and clocks.  Both clocks are
  read as constants of a collection.  The code is the Linux variant (LINUX is 1).  Reading a variable that no
  call has filled is the fault \<open>Uninitialized_read\<close>.
\<close>

section \<open>Printing numbers\<close>

text \<open>The conversions \<open>%d\<close>, \<open>%ld\<close>, \<open>%lu\<close> and \<open>%llu\<close> of printf.\<close>

definition digit_char :: "nat \<Rightarrow> char" where
  "digit_char d = char_of (48 + d)"

fun show_nat :: "nat \<Rightarrow> string" where
  "show_nat n = (if n < 10 then [digit_char n] else show_nat (n div 10) @ [digit_char (n mod 10)])"

declare show_nat.simps [simp del]

definition show_int :: "int \<Rightarrow> string" where
  "show_int i = (if i < 0 then CHR ''-'' # show_nat (nat (- i)) else show_nat (nat i))"

fun join_comma :: "string list \<Rightarrow> string" where
  "join_comma [] = []"
| "join_comma [s] = s"
| "join_comma (s # t # ss) = s @ CHR '','' # join_comma (t # ss)"

section \<open>Data\<close>

record raw_stat =
  st_name :: string
  st_ppid :: u64
  st_utime :: u64
  st_stime :: u64
  st_start_time :: u64
  st_vsize :: u64
  st_rss :: u64

text \<open>Outcome of \<open>fscanf\<close> on /proc/pid/stat: too few conversions may still have stored the name.\<close>

datatype stat_read = Open_failed | Scan_failed "string option" | Scanned raw_stat

record mntent =
  mnt_fsname :: string
  mnt_dir :: string
  mnt_opts :: string

record vfs =
  f_frsize :: u64
  f_blocks :: u64
  f_bfree :: u64
  f_rdonly :: bool

record proc_env =
  count_cpu_cores :: int
  load_average :: "string option"
  fgets_lines :: "string \<Rightarrow> string list option"
  scan_meminfo :: "string \<Rightarrow> (string \<times> int) option"
  scan_btime :: "string \<Rightarrow> int option"
  scan_int :: "string \<Rightarrow> int option"
  proc_stat :: "int \<Rightarrow> stat_read"
  proc_cmdline :: "int \<Rightarrow> string option"
  run_dir :: "(string \<times> bool) list option"
  read_pidfile :: "string \<Rightarrow> int"
  mtab :: "mntent list option"
  statvfs :: "string \<Rightarrow> vfs option"
  getpagesize :: int
  now_msec :: int
  wall_msec :: int

record raw_process_info =
  ri_vsz :: u64
  ri_rss :: u64
  ri_uptime :: int
  ri_cputime :: int
  ri_ppid :: int
  ri_name :: string

record process_info =
  pi_vsz :: u64
  pi_rss :: u64
  pi_booted :: int
  pi_crashes :: int
  pi_uptime :: int
  pi_cputime :: int

text \<open>The static variables of \<open>get_boot_time\<close>.\<close>

record boot_cache =
  cache_expiration :: int
  boot_time :: int

definition boot_cache_init :: boot_cache where
  "boot_cache_init = \<lparr>cache_expiration = - (2 ^ 63), boot_time = 0\<rparr>"

section \<open>Collection\<close>

definition smap_add :: "smap \<Rightarrow> string \<Rightarrow> string \<Rightarrow> smap" where
  "smap_add m k v = m @ [(k, v)]"

definition get_cpu_cores :: "proc_env \<Rightarrow> smap \<Rightarrow> smap" where
  "get_cpu_cores env stats = (if count_cpu_cores env > 0 then smap_add stats ''cpu'' (show_int (count_cpu_cores env)) else stats)"

definition get_load_average :: "proc_env \<Rightarrow> smap \<Rightarrow> smap" where
  "get_load_average env stats = (case load_average env of None \<Rightarrow> stats | Some s \<Rightarrow> smap_add stats ''load_average'' s)"

text \<open>The counters of /proc/meminfo that are kept; all start at 0.  An overflow of \<open>int\<close> wraps around.\<close>

definition mem_keys :: "string list" where
  "mem_keys = [''MemTotal'', ''MemFree'', ''Buffers'', ''Cached'', ''SwapTotal'', ''SwapFree'']"

definition meminfo_line :: "proc_env \<Rightarrow> string \<Rightarrow> (string \<Rightarrow> int) \<Rightarrow> string \<Rightarrow> int" where
  "meminfo_line env line v = (case scan_meminfo env line of
     None \<Rightarrow> v
   | Some (k, x) \<Rightarrow> if k \<in> set mem_keys then v(k := int32 x) else v)"

definition memory_fields :: "(string \<Rightarrow> int) \<Rightarrow> int list" where
  "memory_fields v = [v ''MemTotal'', int32 (v ''MemTotal'' - v ''MemFree''), int32 (v ''Buffers'' + v ''Cached''),
     v ''SwapTotal'', int32 (v ''SwapTotal'' - v ''SwapFree'')]"

definition get_memory_stats :: "proc_env \<Rightarrow> smap \<Rightarrow> smap" where
  "get_memory_stats env stats = (case fgets_lines env ''/proc/meminfo'' of
     None \<Rightarrow> stats
   | Some lines \<Rightarrow> smap_add stats ''memory'' (join_comma (map show_int (memory_fields (fold (meminfo_line env) lines (\<lambda>_. 0))))))"

definition get_boot_time :: "proc_env \<Rightarrow> boot_cache \<Rightarrow> int \<times> boot_cache" where
  "get_boot_time env c =
     (if now_msec env \<ge> cache_expiration c
      then let c = c\<lparr>cache_expiration := now_msec env + 5 * 1000\<rparr> in
           (case fgets_lines env ''/proc/stat'' of
              None \<Rightarrow> (boot_time c, c)
            | Some lines \<Rightarrow> (case List.map_filter (scan_btime env) lines of
                               [] \<Rightarrow> (boot_time c, c)
                             | btime # _ \<Rightarrow> (btime * 1000, c\<lparr>boot_time := btime * 1000\<rparr>)))
      else (boot_time c, c))"

definition ticks_to_ms :: "u64 \<Rightarrow> u64" where
  "ticks_to_ms ticks = ticks * (1000 div 100)"

definition raw_of_stat :: "proc_env \<Rightarrow> int \<Rightarrow> raw_stat \<Rightarrow> raw_process_info" where
  "raw_of_stat env boot st =
     (let start_msec = word_of_int boot + ticks_to_ms (st_start_time st)
      in \<lparr>ri_vsz = st_vsize st div 1024, ri_rss = st_rss st * word_of_int (getpagesize env div 1024),
          ri_uptime = sint (word_of_int (wall_msec env) - start_msec), ri_cputime = sint (ticks_to_ms (st_utime st + st_stime st)),
          ri_ppid = int32 (uint (st_ppid st)), ri_name = st_name st\<rparr>)"

definition get_raw_process_info :: "proc_env \<Rightarrow> int \<Rightarrow> boot_cache \<Rightarrow> raw_process_info option \<times> boot_cache" where
  "get_raw_process_info env pid c = (case proc_stat env pid of
     Scanned st \<Rightarrow> let (boot, c) = get_boot_time env c in (Some (raw_of_stat env boot st), c)
   | _ \<Rightarrow> (None, c))"

definition count_crashes :: "proc_env \<Rightarrow> int \<Rightarrow> int" where
  "count_crashes env pid = (case proc_cmdline env pid of
     None \<Rightarrow> 0
   | Some line \<Rightarrow> (case dropWhile (\<lambda>c. c \<noteq> CHR ''('') line of
                     [] \<Rightarrow> 0
                   | _ # rest \<Rightarrow> (case scan_int env rest of None \<Rightarrow> 0 | Some x \<Rightarrow> x)))"

text \<open>The result of the second call is not tested; the local \<open>parent\<close> may be unset or only its name set.\<close>

definition get_process_info :: "proc_env \<Rightarrow> int \<Rightarrow> boot_cache \<Rightarrow> fault + process_info option \<times> boot_cache" where
  "get_process_info env pid c = (case get_raw_process_info env pid c of
     (None, c) \<Rightarrow> Inr (None, c)
   | (Some child, c) \<Rightarrow>
       let pinfo = \<lparr>pi_vsz = ri_vsz child, pi_rss = ri_rss child, pi_booted = ri_uptime child, pi_crashes = 0,
                    pi_uptime = ri_uptime child, pi_cputime = ri_cputime child\<rparr> in
       if ri_ppid child = 0 then Inr (Some pinfo, c)
       else (case get_raw_process_info env (ri_ppid child) c of
               (Some parent, c) \<Rightarrow>
                 if ri_name child = ri_name parent
                 then Inr (Some (pinfo\<lparr>pi_booted := ri_uptime parent, pi_crashes := count_crashes env (ri_ppid child)\<rparr>), c)
                 else Inr (Some pinfo, c)
             | (None, c) \<Rightarrow>
                 (case proc_stat env (ri_ppid child) of
                    Scan_failed (Some n) \<Rightarrow> if ri_name child = n then Inl Uninitialized_read else Inr (Some pinfo, c)
                  | _ \<Rightarrow> Inl Uninitialized_read)))"

text \<open>\<open>strrchr\<close> for the dot: the part before it and the extension with it.\<close>

definition split_extension :: "string \<Rightarrow> (string \<times> string) option" where
  "split_extension s =
     (let r = takeWhile (\<lambda>c. c \<noteq> CHR ''.'') (rev s)
      in if length r = length s then None else Some (take (length s - length r - 1) s, CHR ''.'' # rev r))"

definition show_pinfo :: "process_info \<Rightarrow> string" where
  "show_pinfo p = join_comma [show_nat (unat (pi_vsz p)), show_nat (unat (pi_rss p)), show_int (pi_cputime p), show_int (pi_crashes p),
     show_int (pi_booted p), show_int (pi_uptime p)]"

definition process_entry :: "proc_env \<Rightarrow> string \<times> bool \<Rightarrow> smap \<times> boot_cache \<Rightarrow> fault + smap \<times> boot_cache" where
  "process_entry env e st =
     (case (e, st) of ((name, regular), (stats, c)) \<Rightarrow>
        if \<not> regular then Inr (stats, c)
        else case split_extension name of
          None \<Rightarrow> Inr (stats, c)
        | Some (base, ext) \<Rightarrow>
            if ext \<noteq> ''.pid'' then Inr (stats, c)
            else let pid = read_pidfile env name; key = ''process_'' @ base in
                 if pid < 0 \<or> smap_get stats key \<noteq> None then Inr (stats, c)
                 else case get_process_info env pid c of
                        Inl f \<Rightarrow> Inl f
                      | Inr (Some pinfo, c) \<Rightarrow> Inr (smap_add stats key (show_pinfo pinfo), c)
                      | Inr (None, c) \<Rightarrow> Inr (smap_add stats key [], c))"

fun process_entries :: "proc_env \<Rightarrow> (string \<times> bool) list \<Rightarrow> smap \<times> boot_cache \<Rightarrow> fault + smap \<times> boot_cache" where
  "process_entries env [] st = Inr st"
| "process_entries env (e # es) st = (case process_entry env e st of Inl f \<Rightarrow> Inl f | Inr st \<Rightarrow> process_entries env es st)"

definition get_process_stats :: "proc_env \<Rightarrow> smap \<times> boot_cache \<Rightarrow> fault + smap \<times> boot_cache" where
  "get_process_stats env st = (case run_dir env of None \<Rightarrow> Inr st | Some es \<Rightarrow> process_entries env es st)"

fun strstr :: "string \<Rightarrow> string \<Rightarrow> bool" where
  "strstr needle [] = (needle = [])"
| "strstr needle (c # cs) = (take (length needle) (c # cs) = needle \<or> strstr needle cs)"

definition show_filesys :: "string \<Rightarrow> vfs \<Rightarrow> string" where
  "show_filesys dir v =
     (let total = f_frsize v * f_blocks v div 1024; free = f_frsize v * f_bfree v div 1024
      in map (\<lambda>c. if c = CHR '' '' \<or> c = CHR '','' then CHR ''_'' else c) dir @
           CHR '','' # join_comma [show_nat (unat total), show_nat (unat (total - free))])"

text \<open>
  The condition of the code skips a file system only if \<open>statvfs\<close> fails and then reads the flags it did not
  fill.
\<close>

fun filesys_entries :: "proc_env \<Rightarrow> mntent list \<Rightarrow> string \<Rightarrow> fault + string" where
  "filesys_entries env [] s = Inr s"
| "filesys_entries env (me # mes) s =
     (if take 4 (mnt_fsname me) \<noteq> ''/dev'' \<or> \<not> strstr ''rw'' (mnt_opts me) then filesys_entries env mes s
      else case statvfs env (mnt_dir me) of
             None \<Rightarrow> Inl Uninitialized_read
           | Some v \<Rightarrow> filesys_entries env mes ((if s = [] then [] else s @ '' '') @ show_filesys (mnt_dir me) v))"

definition get_filesys_stats :: "proc_env \<Rightarrow> smap \<Rightarrow> fault + smap" where
  "get_filesys_stats env stats = (case mtab env of
     None \<Rightarrow> Inr stats
   | Some mes \<Rightarrow> (case filesys_entries env mes [] of
                    Inl f \<Rightarrow> Inl f
                  | Inr s \<Rightarrow> Inr (if s \<noteq> [] then smap_add stats ''file_systems'' s else stats)))"

definition collect_stats :: "proc_env \<Rightarrow> boot_cache \<Rightarrow> fault + smap \<times> boot_cache" where
  "collect_stats env c =
     (let stats = get_memory_stats env (get_load_average env (get_cpu_cores env []))
      in case get_process_stats env (stats, c) of
           Inl f \<Rightarrow> Inl f
         | Inr (stats, c) \<Rightarrow> (case get_filesys_stats env stats of Inl f \<Rightarrow> Inl f | Inr stats \<Rightarrow> Inr (stats, c)))"

section \<open>The two threads\<close>

definition SYSTEM_STATS_INTERVAL :: int where
  "SYSTEM_STATS_INTERVAL = 5 * 1000"

datatype stats_worker = Cond_wait | Collecting | Collected smap | Sleeping int

text \<open>The file-scope variables; \<open>sy_worker\<close> is where the statistics thread stands, if it exists.\<close>

record sys_stats =
  sy_enabled :: bool
  sy_started :: bool
  sy_latch :: bool
  sy_stats :: "smap option"
  sy_worker :: "stats_worker option"

definition sys_stats_boot :: sys_stats where
  "sys_stats_boot = \<lparr>sy_enabled = False, sy_started = False, sy_latch = False, sy_stats = None, sy_worker = None\<rparr>"

definition discard_stats :: "sys_stats \<Rightarrow> sys_stats" where
  "discard_stats s = s\<lparr>sy_stats := None\<rparr>"

definition system_stats_enable :: "bool \<Rightarrow> sys_stats \<Rightarrow> sys_stats" where
  "system_stats_enable enable s =
     (if sy_enabled s \<noteq> enable
      then let s = (if enable
                    then discard_stats (if \<not> sy_started s then s\<lparr>sy_worker := Some Cond_wait, sy_latch := False, sy_started := True\<rparr> else s)
                    else s)
           in s\<lparr>sy_enabled := enable\<rparr>
      else s)"

definition system_stats_run :: "sys_stats \<Rightarrow> smap option \<times> sys_stats" where
  "system_stats_run s = (case sy_stats s of
     None \<Rightarrow> (None, s)
   | Some m \<Rightarrow> let s = s\<lparr>sy_latch := False\<rparr> in
               if sy_enabled s then (Some m, s\<lparr>sy_stats := None\<rparr>) else (None, discard_stats s))"

text \<open>Whether \<open>poll_block\<close> returns at once because of the latch.\<close>

definition system_stats_wait :: "sys_stats \<Rightarrow> bool" where
  "system_stats_wait s \<longleftrightarrow> sy_enabled s \<and> sy_latch s"

definition publish_stats :: "smap \<Rightarrow> int \<Rightarrow> sys_stats \<Rightarrow> sys_stats" where
  "publish_stats m now s =
     (discard_stats s)\<lparr>sy_stats := Some m, sy_latch := True, sy_worker := Some (Sleeping (now + SYSTEM_STATS_INTERVAL))\<rparr>"

text \<open>
  The steps of either thread, each under the mutex or on local data.  The history records what is published and
  what \<open>system_stats_run\<close> returns.
\<close>

datatype sys_event = Enabled bool | Ran "smap option" | Woke | Gathered smap | Published smap int | Timed int

fun worker_event :: "sys_event \<Rightarrow> bool" where
  "worker_event (Enabled _) = False"
| "worker_event (Ran _) = False"
| "worker_event _ = True"

inductive sys_step :: "sys_stats \<Rightarrow> sys_event \<Rightarrow> sys_stats \<Rightarrow> bool" where
  enable: "sys_step s (Enabled b) (system_stats_enable b s)"
| run: "system_stats_run s = (r, s') \<Longrightarrow> sys_step s (Ran r) s'"
| wake: "sy_worker s = Some Cond_wait \<Longrightarrow> sy_enabled s \<Longrightarrow> sys_step s Woke (s\<lparr>sy_worker := Some Collecting\<rparr>)"
| gather: "sy_worker s = Some Collecting \<Longrightarrow> sys_step s (Gathered m) (s\<lparr>sy_worker := Some (Collected m)\<rparr>)"
| publish: "sy_worker s = Some (Collected m) \<Longrightarrow> sys_step s (Published m now) (publish_stats m now s)"
| timed: "sy_worker s = Some (Sleeping t) \<Longrightarrow> now \<ge> t \<Longrightarrow> sys_step s (Timed now) (s\<lparr>sy_worker := Some Cond_wait\<rparr>)"

inductive_cases sys_stepE: "sys_step s e s'"

inductive sys_steps :: "sys_stats \<Rightarrow> sys_event list \<Rightarrow> sys_stats \<Rightarrow> bool" where
  none: "sys_steps s [] s"
| more: "sys_steps s h s' \<Longrightarrow> sys_step s' e s'' \<Longrightarrow> sys_steps s (h @ [e]) s''"

definition published :: "sys_event list \<Rightarrow> smap list" where
  "published h = List.map_filter (\<lambda>e. case e of Published m _ \<Rightarrow> Some m | _ \<Rightarrow> None) h"

definition returned :: "sys_event list \<Rightarrow> smap list" where
  "returned h = List.map_filter (\<lambda>e. case e of Ran r \<Rightarrow> r | _ \<Rightarrow> None) h"


section \<open>Numbers read back\<close>

lemma digits_value_digit:
  "d < 10 \<Longrightarrow> digits_value acc (digit_char d # cs) = digits_value (acc * 10 + int d) cs"
  by (simp add: digit_char_def of_char_of Let_def)

lemma digits_value_show: "digits_value acc (show_nat n @ cs) = digits_value (acc * 10 ^ length (show_nat n) + int n) cs"
proof (induction n arbitrary: acc cs rule: show_nat.induct)
  case (1 n)
  show ?case
  proof (cases "n < 10")
    case True
    then show ?thesis by (simp add: show_nat.simps digits_value_digit del: digits_value.simps)
  next
    case False
    define k where "k = length (show_nat (n div 10))"
    have e: "show_nat n = show_nat (n div 10) @ [digit_char (n mod 10)]" using False by (simp add: show_nat.simps)
    have "digits_value acc (show_nat n @ cs) = digits_value ((acc * 10 ^ k + int (n div 10)) * 10 + int (n mod 10)) cs"
      unfolding e using 1 [OF False, of acc "digit_char (n mod 10) # cs"] by (simp add: digits_value_digit k_def del: digits_value.simps)
    also have "(acc * 10 ^ k + int (n div 10)) * 10 + int (n mod 10) = acc * 10 ^ Suc k + int n"
      by (simp add: algebra_simps flip: of_nat_mult of_nat_add) presburger
    finally show ?thesis by (simp add: e k_def)
  qed
qed

definition is_digit :: "char \<Rightarrow> bool" where
  "is_digit c \<longleftrightarrow> 48 \<le> (of_char c :: nat) \<and> of_char c \<le> (57 :: nat)"

lemma is_digit_digit_char: "d < 10 \<Longrightarrow> is_digit (digit_char d)"
  by (simp add: is_digit_def digit_char_def)

lemma is_digit_neq: "is_digit c \<Longrightarrow> c \<noteq> CHR '','' \<and> c \<noteq> CHR ''-'' \<and> c \<noteq> CHR ''+'' \<and>
    c \<notin> {CHR '' '', CHR 0x09, CHR 0x0A, CHR 0x0B, CHR 0x0C, CHR 0x0D}"
  by (auto simp: is_digit_def)

lemma show_nat_digits: "(\<forall>c\<in>set (show_nat n). is_digit c) \<and> show_nat n \<noteq> []"
proof (induction n rule: show_nat.induct)
  case (1 n)
  then show ?case using is_digit_digit_char [of n] is_digit_digit_char [of "n mod 10"]
    by (cases "n < 10") (simp_all add: show_nat.simps [of n])
qed

lemma show_int_no_comma: "CHR '','' \<notin> set (show_int i)"
  using show_nat_digits [of "nat i"] show_nat_digits [of "nat (- i)"] is_digit_neq by (auto simp: show_int_def)

lemma atoi_show_int: "atoi (show_int i) = i"
proof (cases "i < 0")
  case True
  have "digits_value 0 (show_nat (nat (- i))) = - i"
    using digits_value_show [of 0 "nat (- i)" "[]"] True by simp
  with True show ?thesis by (simp add: show_int_def atoi_def)
next
  case False
  obtain c cs where c: "show_nat (nat i) = c # cs" using show_nat_digits [of "nat i"] by (cases "show_nat (nat i)") auto
  then have "is_digit c" using show_nat_digits [of "nat i"] by auto
  then have "atoi (show_nat (nat i)) = digits_value 0 (show_nat (nat i))"
    using is_digit_neq [of c] by (simp add: atoi_def c Let_def del: digits_value.simps)
  also have "\<dots> = i" using digits_value_show [of 0 "nat i" "[]"] False by simp
  finally show ?thesis using False by (simp add: show_int_def)
qed

fun split_comma :: "string \<Rightarrow> string list" where
  "split_comma [] = [[]]"
| "split_comma (c # cs) = (if c = CHR '','' then [] # split_comma cs else (case split_comma cs of s # ss \<Rightarrow> (c # s) # ss | [] \<Rightarrow> [[c]]))"

lemma split_comma_field: "CHR '','' \<notin> set s \<Longrightarrow> split_comma s = [s] \<and> split_comma (s @ CHR '','' # t) = s # split_comma t"
  by (induction s) auto

lemma split_join: "ss \<noteq> [] \<Longrightarrow> \<forall>s\<in>set ss. CHR '','' \<notin> set s \<Longrightarrow> split_comma (join_comma ss) = ss"
  by (induction ss rule: join_comma.induct) (auto simp: split_comma_field)


section \<open>Snapshots\<close>

lemma published_snoc [simp]: "published (h @ [e]) = published h @ (case e of Published m _ \<Rightarrow> [m] | _ \<Rightarrow> [])"
  by (cases e) (simp_all add: published_def List.map_filter_def)

lemma returned_snoc [simp]: "returned (h @ [e]) = returned h @ (case e of Ran (Some m) \<Rightarrow> [m] | _ \<Rightarrow> [])"
  by (cases e) (auto simp: returned_def List.map_filter_def split: option.split)

definition pending :: "sys_stats \<Rightarrow> smap list" where
  "pending s = (case sy_stats s of None \<Rightarrow> [] | Some m \<Rightarrow> [m])"

definition sys_inv :: "sys_stats \<Rightarrow> sys_event list \<Rightarrow> bool" where
  "sys_inv s h \<longleftrightarrow> subseq (returned h @ pending s) (published h) \<and> (sy_stats s \<noteq> None \<longrightarrow> sy_latch s) \<and>
     (sy_worker s \<noteq> None \<longleftrightarrow> sy_started s) \<and> (sy_enabled s \<longrightarrow> sy_started s) \<and> (sy_stats s \<noteq> None \<longrightarrow> sy_started s)"

lemma subseq_drop_pending: "subseq (xs @ ys) zs \<Longrightarrow> subseq xs zs"
  by (rule subseq_order.order_trans [OF subseq_rev_drop_many [OF subseq_order.order_refl]])

lemma sys_inv_step:
  assumes "sys_inv s h" "sys_step s e s'"
  shows "sys_inv s' (h @ [e])"
  using assms(2)
proof (cases rule: sys_step.cases)
  case (enable b)
  then show ?thesis using assms(1)
    by (auto simp: sys_inv_def system_stats_enable_def discard_stats_def pending_def Let_def intro: subseq_drop_pending)
next
  case (run r)
  then show ?thesis using assms(1)
    by (auto simp: sys_inv_def system_stats_run_def discard_stats_def pending_def Let_def intro: subseq_drop_pending
        split: option.splits if_splits)
next
  case (publish m now)
  then show ?thesis using assms(1)
    by (auto simp: sys_inv_def publish_stats_def discard_stats_def pending_def dest: subseq_drop_pending)
qed (use assms(1) in \<open>auto simp: sys_inv_def pending_def\<close>)

lemma sys_inv_steps:
  assumes "sys_steps sys_stats_boot h s"
  shows "sys_inv s h"
proof -
  have boot: "sys_inv sys_stats_boot []"
    by (simp add: sys_inv_def sys_stats_boot_def pending_def returned_def published_def List.map_filter_def)
  have "sys_steps s0 h s \<Longrightarrow> sys_inv s0 [] \<Longrightarrow> sys_inv s h" for s0
    by (induction rule: sys_steps.induct) (blast intro: sys_inv_step)+
  with assms boot show ?thesis by blast
qed

text \<open>A snapshot published while collection is switched off and on again leaves the latch set with nothing to fetch.\<close>

lemma stale_latch:
  "\<exists>h s. sys_steps sys_stats_boot h s \<and> system_stats_wait s \<and> system_stats_run s = (None, s)"
proof -
  let ?s1 = "system_stats_enable True sys_stats_boot"
  let ?s2 = "?s1\<lparr>sy_worker := Some Collecting\<rparr>"
  let ?s3 = "system_stats_enable False ?s2"
  let ?s4 = "?s3\<lparr>sy_worker := Some (Collected [])\<rparr>"
  let ?s5 = "publish_stats [] 0 ?s4"
  let ?s6 = "system_stats_enable True ?s5"
  note defs = system_stats_enable_def sys_stats_boot_def discard_stats_def publish_stats_def Let_def
  have st: "sys_step sys_stats_boot (Enabled True) ?s1" "sys_step ?s1 Woke ?s2" "sys_step ?s2 (Enabled False) ?s3"
    "sys_step ?s3 (Gathered []) ?s4" "sys_step ?s4 (Published [] 0) ?s5" "sys_step ?s5 (Enabled True) ?s6"
    by (rule sys_step.enable sys_step.wake sys_step.gather sys_step.publish; simp add: defs)+
  note sys_steps.more [OF sys_steps.more [OF sys_steps.more [OF sys_steps.more [OF sys_steps.more [OF sys_steps.more [OF
    sys_steps.none st(1)] st(2)] st(3)] st(4)] st(5)] st(6)]
  moreover have "system_stats_wait ?s6" "system_stats_run ?s6 = (None, ?s6)"
    by (simp_all add: defs system_stats_wait_def system_stats_run_def)
  ultimately show ?thesis by blast
qed

section \<open>Properties\<close>

text \<open>The value of the last line with a key, 0 if there is none.\<close>

definition last_value :: "proc_env \<Rightarrow> string list \<Rightarrow> string \<Rightarrow> int" where
  "last_value env lines k =
     (case rev (List.map_filter (\<lambda>l. case scan_meminfo env l of Some (k', x) \<Rightarrow> if k' = k then Some (int32 x) else None | None \<Rightarrow> None) lines) of
        [] \<Rightarrow> 0 | x # _ \<Rightarrow> x)"

lemma meminfo_last: "k \<in> set mem_keys \<Longrightarrow> fold (meminfo_line env) lines (\<lambda>_. 0) k = last_value env lines k"
  by (induction lines rule: rev_induct)
    (auto simp: last_value_def meminfo_line_def List.map_filter_def split: option.splits if_splits)

text \<open>
  The memory entry of a snapshot holds, for each counter, the value of the last line of /proc/meminfo with that
  key and 0 if there is none: total, total less free, buffers plus cached, swap, and swap less free, in this order.
  Reading the fields back with atoi gives exactly these numbers.
\<close>

theorem memory_entry_reads_back:
  assumes "fgets_lines env ''/proc/meminfo'' = Some lines"
  shows "\<exists>entry. get_memory_stats env stats = stats @ [(''memory'', entry)]
    \<and> map atoi (split_comma entry) = memory_fields (last_value env lines)"
proof -
  let ?v = "fold (meminfo_line env) lines (\<lambda>_. 0)"
  have f: "memory_fields ?v = memory_fields (last_value env lines)"
    using meminfo_last [of _ env lines] by (simp add: memory_fields_def mem_keys_def)
  have "split_comma (join_comma (map show_int (memory_fields ?v))) = map show_int (memory_fields ?v)"
    by (rule split_join) (auto simp: memory_fields_def show_int_no_comma)
  then have "map atoi (split_comma (join_comma (map show_int (memory_fields ?v)))) = memory_fields (last_value env lines)"
    by (simp add: f atoi_show_int comp_def)
  then show ?thesis using assms by (simp add: get_memory_stats_def smap_add_def)
qed

definition sample_proc :: proc_env where
  "sample_proc = \<lparr>count_cpu_cores = 4, load_average = None,
     fgets_lines = (\<lambda>f. if f = ''/proc/meminfo'' then Some [''t'', ''f'', ''x''] else None),
     scan_meminfo = (\<lambda>l. if l = ''t'' then Some (''MemTotal'', 1000) else if l = ''f'' then Some (''MemFree'', 1200) else None),
     scan_btime = (\<lambda>_. None), scan_int = (\<lambda>_. None), proc_stat = (\<lambda>_. Open_failed), proc_cmdline = (\<lambda>_. None), run_dir = None,
     read_pidfile = (\<lambda>_. -1), mtab = None, statvfs = (\<lambda>_. None), getpagesize = 4096, now_msec = 0, wall_msec = 0\<rparr>"

theorem memory_entry_reads_back_witness:
  "\<exists>entry. get_memory_stats sample_proc [] = [(''memory'', entry)] \<and> map atoi (split_comma entry) = [1000, -200, 0, 0, 0]"
proof -
  have "fgets_lines sample_proc ''/proc/meminfo'' = Some [''t'', ''f'', ''x'']" by (simp add: sample_proc_def)
  from memory_entry_reads_back [OF this, of "[]"] show ?thesis
    by (simp add: memory_fields_def last_value_def List.map_filter_def sample_proc_def int32_def)
qed



lemma worker_step:
  assumes "sy_enabled s" "sy_worker s = Some w"
  shows "\<exists>e s'. sys_step s e s' \<and> worker_event e \<and> sy_enabled s' \<and>
    (case w of Sleeping _ \<Rightarrow> sy_worker s' = Some Cond_wait | Cond_wait \<Rightarrow> sy_worker s' = Some Collecting
     | Collecting \<Rightarrow> (\<exists>m. sy_worker s' = Some (Collected m)) | Collected m \<Rightarrow> sy_stats s' = Some m)"
proof (cases w)
  case Cond_wait
  then show ?thesis using sys_step.wake [of s] assms
    by (intro exI [of _ Woke] exI [of _ "s\<lparr>sy_worker := Some Collecting\<rparr>"]) simp
next
  case Collecting
  then show ?thesis using sys_step.gather [of s "[]"] assms
    by (intro exI [of _ "Gathered []"] exI [of _ "s\<lparr>sy_worker := Some (Collected [])\<rparr>"]) simp
next
  case (Collected m)
  then show ?thesis using sys_step.publish [of s m 0] assms
    by (intro exI [of _ "Published m 0"] exI [of _ "publish_stats m 0 s"]) (auto simp: publish_stats_def discard_stats_def)
next
  case (Sleeping t)
  then show ?thesis using sys_step.timed [of s t t] assms
    by (intro exI [of _ "Timed t"] exI [of _ "s\<lparr>sy_worker := Some Cond_wait\<rparr>"]) simp
qed

lemma worker_steps:
  assumes "sy_enabled s" "sy_worker s = Some w" "n = (case w of Collected _ \<Rightarrow> 1 | Collecting \<Rightarrow> 2 | Cond_wait \<Rightarrow> 3 | Sleeping _ \<Rightarrow> (4::nat))"
  shows "\<exists>h s'. length h = n \<and> (\<forall>e\<in>set h. worker_event e) \<and> sy_enabled s' \<and> sy_stats s' \<noteq> None
    \<and> (\<forall>h0 s0. sys_steps s0 h0 s \<longrightarrow> sys_steps s0 (h0 @ h) s')"
  using assms
proof (induction n arbitrary: s w)
  case (Suc n)
  obtain e s1 where e: "sys_step s e s1" "worker_event e" "sy_enabled s1"
    "case w of Sleeping _ \<Rightarrow> sy_worker s1 = Some Cond_wait | Cond_wait \<Rightarrow> sy_worker s1 = Some Collecting
     | Collecting \<Rightarrow> (\<exists>m. sy_worker s1 = Some (Collected m)) | Collected m \<Rightarrow> sy_stats s1 = Some m"
    using worker_step [OF Suc.prems(1,2)] by blast
  show ?case
  proof (cases "n = 0")
    case True
    then have "sy_stats s1 \<noteq> None" using Suc.prems(3) e(4) by (auto split: stats_worker.splits)
    with e True show ?thesis by (intro exI [of _ "[e]"] exI [of _ s1]) (auto intro: sys_steps.more)
  next
    case False
    then obtain w1 where w1: "sy_worker s1 = Some w1" "n = (case w1 of Collected _ \<Rightarrow> 1 | Collecting \<Rightarrow> 2 | Cond_wait \<Rightarrow> 3 | Sleeping _ \<Rightarrow> 4)"
      using Suc.prems(3) e(4) by (auto split: stats_worker.splits)
    from Suc.IH [OF e(3) w1] obtain h s' where h: "length h = n" "\<forall>x\<in>set h. worker_event x" "sy_enabled s'" "sy_stats s' \<noteq> None"
      "\<forall>h0 s0. sys_steps s0 h0 s1 \<longrightarrow> sys_steps s0 (h0 @ h) s'" by blast
    have "sys_steps s0 (h0 @ e # h) s'" if "sys_steps s0 h0 s" for h0 s0
      using h(5) sys_steps.more [OF that e(1)] by force
    with h(1-4) e(2) show ?thesis by (intro exI [of _ "e # h"] exI [of _ s']) simp
  qed
qed (auto split: stats_worker.splits)



text \<open>A parent that is gone between the two reads, and a read-only file system.\<close>

lemma orphan_reads_uninitialized:
  assumes "proc_stat env pid = Scanned st" "int32 (uint (st_ppid st)) \<noteq> 0" "proc_stat env (int32 (uint (st_ppid st))) = Open_failed"
  shows "get_process_info env pid c = Inl Uninitialized_read"
  using assms by (simp add: get_process_info_def get_raw_process_info_def raw_of_stat_def Let_def split: prod.split)

lemma readonly_filesys_reported:
  assumes "take 4 (mnt_fsname me) = ''/dev''" "strstr ''rw'' (mnt_opts me)" "statvfs env (mnt_dir me) = Some v" "f_rdonly v"
  shows "filesys_entries env [me] [] = Inr (show_filesys (mnt_dir me) v)"
  using assms by simp

end
