(* ===== verification/Remotes.thy ===== *)
theory Remotes
  imports Ports_Props "HOL-Library.Signed_Division" "HOL-Library.Sublist"
begin

text \<open>
  OpenFlow controllers and flow tables of a bridge, src/bridge.c: which controllers are passed to the ofproto
  layer, with the test that keeps a remote database user from opening arbitrary sockets, the local interface,
  in-band managers and table settings.

  Parsers of addresses, versions and subfields and the directory \<open>ovs_rundir\<close> are the record \<open>remote_env\<close>.
  The prefix fields of a table are always the default ones: the code that reads the column is not compiled.
\<close>

section \<open>Data\<close>

record controller_row =
  cr_target :: string
  cr_max_backoff :: "int option"
  cr_inactivity_probe :: "int option"
  cr_connection_mode :: "string option"
  cr_rate_limit :: "int option"
  cr_burst_limit :: "int option"
  cr_enable_async :: "bool option"
  cr_other_config :: smap
  cr_local_ip :: "string option"
  cr_local_netmask :: "string option"
  cr_local_gateway :: "string option"

record manager_row =
  mr_target :: string
  mr_connection_mode :: "string option"

datatype ofproto_band = OFPROTO_IN_BAND | OFPROTO_OUT_OF_BAND

record ofproto_controller =
  oc_target :: string
  oc_max_backoff :: int
  oc_probe_interval :: int
  oc_band :: ofproto_band
  oc_rate_limit :: int
  oc_burst_limit :: int
  oc_enable_async_msgs :: bool
  oc_dscp :: int

record 'f table_settings =
  ts_name :: "string option"
  ts_max_flows :: u32
  ts_groups :: "'f option list"
  ts_n_groups :: nat

record flow_table_row =
  ft_name :: "string option"
  ft_flow_limit :: "int option"
  ft_overflow_policy :: "string option"
  ft_groups :: "string list"

record remote_cfg =
  rm_controllers :: "controller_row list"
  rm_protocols :: "string list"
  rm_fail_mode :: "string option"
  rm_flow_tables :: "(int \<times> flow_table_row) list"
  rm_other_config :: smap

datatype 'f remote_event =
    SetInBandQueue int
  | SetExtraInBandRemotes "u32 list"
  | TurnUp string
  | SetIn4 string u32 u32
  | AddRouter string u32
  | SetControllers "ofproto_controller list" u32
  | SetFailModeStandalone bool
  | SetSnoops "string list"
  | ConfigureTable nat "'f table_settings"
  | SetDpDesc "string option"

record 'f remote_env =
  ovs_rundir :: string
  inet_pton :: "string \<Rightarrow> u32 option"
  guess_netmask :: "u32 \<Rightarrow> u32"
  versions_from_strings :: "string list \<Rightarrow> u32"
  parse_manager :: "string \<Rightarrow> u32 option"
  parse_subfield :: "string \<Rightarrow> ('f \<times> string) option"
  ofproto_has_snoops :: "string \<Rightarrow> bool"
  ofproto_n_tables :: "string \<Rightarrow> nat"
  DSCP_DEFAULT :: int
  LOCAL_PORT :: int

section \<open>Controllers\<close>

text \<open>A set of targets in the order of insertion; the addresses of those that parse to IPv4.\<close>

definition manager_targets :: "manager_row list \<Rightarrow> string list" where
  "manager_targets ms = fold (\<lambda>m ts. if mr_connection_mode m = Some ''out-of-band'' then filter (\<lambda>t. t \<noteq> mr_target m) ts
     else if mr_target m \<in> set ts then ts else ts @ [mr_target m]) ms []"

definition collect_in_band_managers :: "'f remote_env \<Rightarrow> manager_row list \<Rightarrow> u32 list" where
  "collect_in_band_managers env ms = List.map_filter (parse_manager env) (manager_targets ms)"

definition get_controllers :: "controller_row list \<Rightarrow> controller_row list" where
  "get_controllers cs = (if map cr_target cs = [''none''] then [] else cs)"

definition bridge_ofproto_controller_for_mgmt :: "'f remote_env \<Rightarrow> string \<Rightarrow> ofproto_controller" where
  "bridge_ofproto_controller_for_mgmt env name =
     \<lparr>oc_target = ''punix:'' @ ovs_rundir env @ ''/'' @ name @ ''.mgmt'', oc_max_backoff = 0, oc_probe_interval = 60,
      oc_band = OFPROTO_OUT_OF_BAND, oc_rate_limit = 0, oc_burst_limit = 0, oc_enable_async_msgs = True, oc_dscp = 0\<rparr>"

definition int_column :: "int option \<Rightarrow> (int \<Rightarrow> int) \<Rightarrow> int \<Rightarrow> int" where
  "int_column c f def = (case c of None \<Rightarrow> def | Some v \<Rightarrow> int32 (f v))"

definition bridge_ofproto_controller_from_ovsrec :: "'f remote_env \<Rightarrow> controller_row \<Rightarrow> ofproto_controller" where
  "bridge_ofproto_controller_from_ovsrec env c =
     (let dscp = smap_get_int (cr_other_config c) ''dscp'' (DSCP_DEFAULT env);
          dscp = (if dscp < 0 \<or> dscp > 63 then DSCP_DEFAULT env else dscp)
      in \<lparr>oc_target = cr_target c,
          oc_max_backoff = int_column (cr_max_backoff c) (\<lambda>v. v sdiv 1000) 8,
          oc_probe_interval = int_column (cr_inactivity_probe c) (\<lambda>v. v sdiv 1000) 5,
          oc_band = (if cr_connection_mode c = None \<or> cr_connection_mode c = Some ''in-band'' then OFPROTO_IN_BAND else OFPROTO_OUT_OF_BAND),
          oc_rate_limit = int_column (cr_rate_limit c) (\<lambda>v. v) 0,
          oc_burst_limit = int_column (cr_burst_limit c) (\<lambda>v. v) 0,
          oc_enable_async_msgs = (cr_enable_async c = None \<or> cr_enable_async c = Some True),
          oc_dscp = dscp\<rparr>)"

definition bridge_configure_local_iface_netdev ::
  "'f remote_env \<Rightarrow> 'a bridge_scheme \<Rightarrow> controller_row \<Rightarrow> 'f remote_event list" where
  "bridge_configure_local_iface_netdev env br c =
     (case (iface_from_ofp_port br (LOCAL_PORT env), Option.bind (cr_local_ip c) (inet_pton env)) of
        (Some local, Some ip) \<Rightarrow>
          let mask = (case Option.bind (cr_local_netmask c) (inet_pton env) of
                        None \<Rightarrow> guess_netmask env ip
                      | Some m \<Rightarrow> if m = 0 then guess_netmask env ip else m)
          in [TurnUp local, SetIn4 local ip mask]
             @ (case Option.bind (cr_local_gateway c) (inet_pton env) of
                  None \<Rightarrow> []
                | Some g \<Rightarrow> if g \<noteq> 0 then [AddRouter local g] else [])
      | _ \<Rightarrow> [])"

text \<open>
  The loop of \<open>equal_pathnames\<close>: \<open>k\<close> is \<open>b - b_start\<close>, a stop length of SIZE_MAX is \<open>None\<close>; the end of a list is the
  terminating NUL.
\<close>

function equal_pathnames :: "string \<Rightarrow> string \<Rightarrow> nat \<Rightarrow> nat option \<Rightarrow> bool" where
  "equal_pathnames a b k stop =
     (if (case stop of None \<Rightarrow> False | Some n \<Rightarrow> k \<ge> n) then True
      else case (a, b) of
             ([], []) \<Rightarrow> True
           | ([], _ # _) \<Rightarrow> False
           | (_ # _, []) \<Rightarrow> False
           | (x # a', y # b') \<Rightarrow>
               if x \<noteq> y then False
               else if x = CHR ''/''
               then equal_pathnames (dropWhile (\<lambda>c. c = CHR ''/'') a) (dropWhile (\<lambda>c. c = CHR ''/'') b)
                      (k + length (takeWhile (\<lambda>c. c = CHR ''/'') b)) stop
               else equal_pathnames a' b' (k + 1) stop)"
  by pat_completeness auto
termination
  by (relation "measure (\<lambda>(a, _). length a)") (auto simp: less_Suc_eq_le length_dropWhile_le)

declare equal_pathnames.simps [simp del]

definition starts_with :: "string \<Rightarrow> string \<Rightarrow> bool" where
  "starts_with p s \<longleftrightarrow> take (length p) s = p"

definition unix_whitelist :: "'f remote_env \<Rightarrow> string" where
  "unix_whitelist env = ''unix:'' @ ovs_rundir env @ ''/''"

definition punix_whitelist :: "'f remote_env \<Rightarrow> string \<Rightarrow> string" where
  "punix_whitelist env name = ''punix:'' @ ovs_rundir env @ ''/'' @ name @ ''.controller''"

definition controller_allowed :: "'f remote_env \<Rightarrow> string \<Rightarrow> string \<Rightarrow> bool" where
  "controller_allowed env name target =
     (if starts_with ''punix:'' target \<or> starts_with ''unix:'' target
      then if starts_with ''unix:'' target
           then \<not> (CHR ''/'' \<in> set target \<and> \<not> equal_pathnames target (unix_whitelist env) 0 (Some (length (unix_whitelist env))))
           else equal_pathnames target (punix_whitelist env name) 0 None
      else True)"

fun configure_controllers ::
  "'f remote_env \<Rightarrow> 'a bridge_scheme \<Rightarrow> bool \<Rightarrow> controller_row list \<Rightarrow> ofproto_controller list \<times> 'f remote_event list" where
  "configure_controllers env br disable_in_band [] = ([], [])"
| "configure_controllers env br disable_in_band (c # cs) =
     (let (ocs, ev) = configure_controllers env br disable_in_band cs
      in if controller_allowed env (br_name br) (cr_target c)
         then let oc = bridge_ofproto_controller_from_ovsrec env c;
                  oc = (if disable_in_band then oc\<lparr>oc_band := OFPROTO_OUT_OF_BAND\<rparr> else oc)
              in (oc # ocs, bridge_configure_local_iface_netdev env br c @ ev)
         else (ocs, ev))"

definition bridge_get_allowed_versions :: "'f remote_env \<Rightarrow> remote_cfg \<Rightarrow> u32" where
  "bridge_get_allowed_versions env cfg = (if rm_protocols cfg = [] then 0 else versions_from_strings env (rm_protocols cfg))"

definition bridge_configure_remotes :: "'f remote_env \<Rightarrow> 'a bridge_scheme \<Rightarrow> remote_cfg \<Rightarrow> u32 list \<Rightarrow> 'f remote_event list" where
  "bridge_configure_remotes env br cfg managers =
     (let disable_in_band = smap_get_bool (rm_other_config cfg) ''disable-in-band'' False;
          (ocs, ev) = configure_controllers env br disable_in_band (get_controllers (rm_controllers cfg))
      in [SetInBandQueue (smap_get_int (rm_other_config cfg) ''in-band-queue'' (-1)),
          SetExtraInBandRemotes (if disable_in_band then [] else managers)]
         @ ev
         @ [SetControllers (bridge_ofproto_controller_for_mgmt env (br_name br) # ocs) (bridge_get_allowed_versions env cfg),
            SetFailModeStandalone (rm_fail_mode cfg = None \<or> rm_fail_mode cfg = Some ''standalone'')]
         @ (if \<not> ofproto_has_snoops env (br_name br) then [SetSnoops [''punix:'' @ ovs_rundir env @ ''/'' @ br_name br @ ''.snoop'']] else []))"

section \<open>Flow tables\<close>

text \<open>
  Each element of \<open>groups\<close> fills its own slot of the array when it parses, but the counter only grows when nothing
  follows the subfield.
\<close>

definition table_groups :: "'f remote_env \<Rightarrow> string list \<Rightarrow> 'f option list \<times> nat" where
  "table_groups env gs = (map (\<lambda>g. map_option fst (parse_subfield env g)) gs,
     length (filter (\<lambda>g. case parse_subfield env g of Some (_, rest) \<Rightarrow> rest = [] | None \<Rightarrow> False) gs))"

definition default_settings :: "'f table_settings" where
  "default_settings = \<lparr>ts_name = None, ts_max_flows = -1, ts_groups = [], ts_n_groups = 0\<rparr>"

definition settings_of_row :: "'f remote_env \<Rightarrow> flow_table_row \<Rightarrow> 'f table_settings" where
  "settings_of_row env c =
     (let s = default_settings\<lparr>ts_name := ft_name c\<rparr>;
          s = (case ft_flow_limit c of None \<Rightarrow> s | Some l \<Rightarrow> if l < 2 ^ 32 - 1 then s\<lparr>ts_max_flows := word_of_int l\<rparr> else s)
      in if ft_overflow_policy c = Some ''evict''
         then let (gs, n) = table_groups env (ft_groups c) in s\<lparr>ts_groups := gs, ts_n_groups := n\<rparr>
         else s)"

fun configure_tables_from :: "'f remote_env \<Rightarrow> nat \<Rightarrow> nat \<Rightarrow> (int \<times> flow_table_row) list \<Rightarrow> 'f remote_event list" where
  "configure_tables_from env i 0 rows = []"
| "configure_tables_from env i (Suc n) rows =
     (case rows of
        (key, c) # rest \<Rightarrow>
          if int i = key then ConfigureTable i (settings_of_row env c) # configure_tables_from env (i + 1) n rest
          else ConfigureTable i default_settings # configure_tables_from env (i + 1) n rows
      | [] \<Rightarrow> ConfigureTable i default_settings # configure_tables_from env (i + 1) n rows)"

definition bridge_configure_tables :: "'f remote_env \<Rightarrow> string \<Rightarrow> remote_cfg \<Rightarrow> 'f remote_event list" where
  "bridge_configure_tables env name cfg = configure_tables_from env 0 (ofproto_n_tables env name) (rm_flow_tables cfg)"

definition bridge_configure_dp_desc :: "remote_cfg \<Rightarrow> 'f remote_event list" where
  "bridge_configure_dp_desc cfg = [SetDpDesc (smap_get (rm_other_config cfg) ''dp-desc'')]"


section \<open>Path names\<close>

text \<open>A run of slashes counts as one.\<close>

function squeeze :: "string \<Rightarrow> string" where
  "squeeze [] = []"
| "squeeze (c # cs) = c # squeeze (if c = CHR ''/'' then dropWhile (\<lambda>x. x = CHR ''/'') cs else cs)"
  by pat_completeness auto
termination
  by (relation "measure length") (auto simp: less_Suc_eq_le length_dropWhile_le)

lemma squeeze_slash: "squeeze (CHR ''/'' # s) = CHR ''/'' # squeeze (dropWhile (\<lambda>x. x = CHR ''/'') s)"
  by simp

lemma equal_pathnames_all: "equal_pathnames a b k None \<longleftrightarrow> squeeze a = squeeze b"
proof (induction a b k "None :: nat option" rule: equal_pathnames.induct)
  case (1 a b k)
  show ?case
  proof (cases a)
    case Nil
    then show ?thesis by (subst equal_pathnames.simps) (simp split: list.split)
  next
    case (Cons x a')
    show ?thesis
    proof (cases b)
      case Nil
      with Cons show ?thesis by (subst equal_pathnames.simps) simp
    next
      case b: (Cons y b')
      have slash: "x = y \<Longrightarrow> x = CHR ''/'' \<Longrightarrow>
          equal_pathnames (dropWhile (\<lambda>c. c = CHR ''/'') a) (dropWhile (\<lambda>c. c = CHR ''/'') b) (k + length (takeWhile (\<lambda>c. c = CHR ''/'') b)) None
            \<longleftrightarrow> squeeze (dropWhile (\<lambda>c. c = CHR ''/'') a) = squeeze (dropWhile (\<lambda>c. c = CHR ''/'') b)"
        by (rule 1(1) [OF _ refl Cons b]) simp_all
      have other: "x = y \<Longrightarrow> x \<noteq> CHR ''/'' \<Longrightarrow> equal_pathnames a' b' (k + 1) None \<longleftrightarrow> squeeze a' = squeeze b'"
        by (rule 1(2) [OF _ refl Cons b]) simp_all
      show ?thesis
      proof (cases "x = y")
        case True
        with slash other show ?thesis by (subst equal_pathnames.simps) (cases "x = CHR ''/''"; simp add: Cons b)
      qed (subst equal_pathnames.simps, simp add: Cons b)
    qed
  qed
qed

lemma equal_pathnames_prefix:
  "k + length b = n \<Longrightarrow> equal_pathnames a b k (Some n) \<longleftrightarrow> prefix (squeeze b) (squeeze a)"
proof (induction a b k "Some n" rule: equal_pathnames.induct)
  case (1 a b k)
  show ?case
  proof (cases b)
    case Nil
    with 1(3) show ?thesis by (subst equal_pathnames.simps) simp
  next
    case b: (Cons y b')
    then have k: "\<not> k \<ge> n" using 1(3) by simp
    show ?thesis
    proof (cases a)
      case Nil
      with b k show ?thesis by (subst equal_pathnames.simps) simp
    next
      case a: (Cons x a')
      have len: "k + length (takeWhile (\<lambda>c. c = CHR ''/'') b) + length (dropWhile (\<lambda>c. c = CHR ''/'') b) = n"
        using 1(3) arg_cong [OF takeWhile_dropWhile_id [of "\<lambda>c. c = CHR ''/''" b], of length] unfolding length_append by linarith
      have slash: "x = y \<Longrightarrow> x = CHR ''/'' \<Longrightarrow>
          equal_pathnames (dropWhile (\<lambda>c. c = CHR ''/'') a) (dropWhile (\<lambda>c. c = CHR ''/'') b) (k + length (takeWhile (\<lambda>c. c = CHR ''/'') b)) (Some n)
            \<longleftrightarrow> prefix (squeeze (dropWhile (\<lambda>c. c = CHR ''/'') b)) (squeeze (dropWhile (\<lambda>c. c = CHR ''/'') a))"
        by (rule 1(1) [OF _ refl a b _ _ len]) (simp_all add: k)
      have other: "x = y \<Longrightarrow> x \<noteq> CHR ''/'' \<Longrightarrow> equal_pathnames a' b' (k + 1) (Some n) \<longleftrightarrow> prefix (squeeze b') (squeeze a')"
        by (rule 1(2) [OF _ refl a b]) (use 1(3) k b in simp_all)
      show ?thesis
      proof (cases "x = y")
        case True
        with slash other show ?thesis by (subst equal_pathnames.simps) (cases "x = CHR ''/''"; simp add: a b k)
      qed (subst equal_pathnames.simps, simp add: a b k)
    qed
  qed
qed

text \<open>What a target must look like; \<open>..\<close> is not looked at.\<close>

definition target_ok :: "'f remote_env \<Rightarrow> string \<Rightarrow> string \<Rightarrow> bool" where
  "target_ok env name t \<longleftrightarrow>
     (starts_with ''punix:'' t \<longrightarrow> squeeze t = squeeze (punix_whitelist env name)) \<and>
     (starts_with ''unix:'' t \<and> CHR ''/'' \<in> set t \<longrightarrow> prefix (squeeze (unix_whitelist env)) (squeeze t))"

lemma starts_with_exclusive: "starts_with ''punix:'' t \<Longrightarrow> \<not> starts_with ''unix:'' t"
  by (cases t) (auto simp: starts_with_def)

lemma controller_allowed_iff: "controller_allowed env name t \<longleftrightarrow> target_ok env name t"
  using starts_with_exclusive [of t]
  by (auto simp: controller_allowed_def target_ok_def equal_pathnames_all equal_pathnames_prefix)

lemma configure_controllers_fst:
  "fst (configure_controllers env br dis cs) =
     map (\<lambda>c. let oc = bridge_ofproto_controller_from_ovsrec env c in if dis then oc\<lparr>oc_band := OFPROTO_OUT_OF_BAND\<rparr> else oc)
       (filter (\<lambda>c. target_ok env (br_name br) (cr_target c)) cs)"
  by (induction cs) (auto simp: controller_allowed_iff Let_def split: prod.split)

lemma from_ovsrec_target: "oc_target (bridge_ofproto_controller_from_ovsrec env c) = cr_target c"
  by (simp add: bridge_ofproto_controller_from_ovsrec_def Let_def)

lemma local_iface_no_controllers: "SetControllers ocs v \<notin> set (bridge_configure_local_iface_netdev env br c)"
  by (auto simp: bridge_configure_local_iface_netdev_def Let_def split: option.splits)

lemma controllers_no_controllers: "SetControllers ocs v \<notin> set (snd (configure_controllers env br dis cs))"
  by (induction cs) (auto simp: local_iface_no_controllers Let_def split: prod.splits)

text \<open>A path that leaves the directory again passes the test.\<close>

lemma dotdot_accepted:
  "controller_allowed env name (unix_whitelist env @ ''../'' @ f)"
proof -
  have "prefix (squeeze s) (squeeze (s @ CHR ''.'' # t))" for s t
    by (induction s rule: squeeze.induct) (simp_all add: dropWhile_append3 split: if_splits)
  then have "prefix (squeeze (unix_whitelist env)) (squeeze (unix_whitelist env @ ''../'' @ f))" by simp
  moreover have "\<not> starts_with ''punix:'' (unix_whitelist env @ ''../'' @ f)" by (simp add: unix_whitelist_def starts_with_def)
  ultimately show ?thesis by (simp add: controller_allowed_iff target_ok_def)
qed

text \<open>A group that does not parse leaves a hole, and the last group is not counted.\<close>

lemma table_groups_hole:
  assumes "parse_subfield env g = None" "parse_subfield env h = Some (f, [])"
  shows "table_groups env [g, h] = ([None, Some f], 1)"
  using assms by (simp add: table_groups_def)

section \<open>Properties\<close>

definition sample_remote_env :: "nat remote_env" where
  "sample_remote_env = \<lparr>ovs_rundir = ''/run'', inet_pton = (\<lambda>_. None), guess_netmask = (\<lambda>_. 0), versions_from_strings = (\<lambda>_. 1),
     parse_manager = (\<lambda>_. None), parse_subfield = (\<lambda>_. None), ofproto_has_snoops = (\<lambda>_. True), ofproto_n_tables = (\<lambda>_. 1),
     DSCP_DEFAULT = 48, LOCAL_PORT = 65534\<rparr>"

definition sample_controller :: "string \<Rightarrow> controller_row" where
  "sample_controller t = \<lparr>cr_target = t, cr_max_backoff = None, cr_inactivity_probe = Some 9999, cr_connection_mode = None, cr_rate_limit = None,
     cr_burst_limit = None, cr_enable_async = None, cr_other_config = [], cr_local_ip = None, cr_local_netmask = None, cr_local_gateway = None\<rparr>"

definition sample_remote_cfg :: remote_cfg where
  "sample_remote_cfg = \<lparr>rm_controllers = map sample_controller [''unix:/etc/x'', ''unix://run///y'', ''tcp:1.2.3.4''],
     rm_protocols = [], rm_fail_mode = None, rm_flow_tables = [], rm_other_config = [(''disable-in-band'', ''true'')]\<rparr>"

text \<open>
  C31: The controllers that bridge_configure_remotes hands to the ofproto layer are the management socket and, in their order,
  the rows whose target passes the whitelist: a punix socket must be the controller socket of the bridge, and a unix
  socket with a path must lie under the run directory, both up to repeated slashes.  With in-band control disabled every
  one of them is out of band.
\<close>

theorem controllers_whitelisted:
  assumes "SetControllers ocs v \<in> set (bridge_configure_remotes env br cfg managers)"
  shows "map oc_target ocs = (''punix:'' @ ovs_rundir env @ ''/'' @ br_name br @ ''.mgmt'')
      # filter (target_ok env (br_name br)) (map cr_target (get_controllers (rm_controllers cfg)))
    \<and> (smap_get_bool (rm_other_config cfg) ''disable-in-band'' False \<longrightarrow> (\<forall>oc\<in>set ocs. oc_band oc = OFPROTO_OUT_OF_BAND))"
proof -
  let ?dis = "smap_get_bool (rm_other_config cfg) ''disable-in-band'' False"
  let ?cs = "get_controllers (rm_controllers cfg)"
  have ocs: "ocs = bridge_ofproto_controller_for_mgmt env (br_name br) # fst (configure_controllers env br ?dis ?cs)"
    using assms controllers_no_controllers [of ocs v env br ?dis ?cs]
    by (auto simp: bridge_configure_remotes_def Let_def case_prod_unfold split: if_splits)
  have "map oc_target (fst (configure_controllers env br ?dis ?cs)) = map cr_target (filter (\<lambda>c. target_ok env (br_name br) (cr_target c)) ?cs)"
    by (simp add: configure_controllers_fst from_ovsrec_target Let_def)
  moreover have "?dis \<longrightarrow> (\<forall>oc\<in>set (fst (configure_controllers env br ?dis ?cs)). oc_band oc = OFPROTO_OUT_OF_BAND)"
    by (simp add: configure_controllers_fst Let_def)
  ultimately show ?thesis
    by (simp add: ocs bridge_ofproto_controller_for_mgmt_def filter_map comp_def)
qed

theorem controllers_whitelisted_witness:
  "\<exists>ocs v. SetControllers ocs v \<in> set (bridge_configure_remotes sample_remote_env sample_sw sample_remote_cfg [])
     \<and> map oc_target ocs = [''punix:/run/br0.mgmt'', ''unix://run///y'', ''tcp:1.2.3.4'']"
proof -
  let ?ev = "bridge_configure_remotes sample_remote_env sample_sw sample_remote_cfg []"
  obtain ocs v where o: "SetControllers ocs v \<in> set ?ev" by (auto simp: bridge_configure_remotes_def Let_def case_prod_unfold)
  have f: "filter (target_ok sample_remote_env ''br0'') [''unix:/etc/x'', ''unix://run///y'', ''tcp:1.2.3.4''] = [''unix://run///y'', ''tcp:1.2.3.4'']"
    by (simp add: target_ok_def starts_with_def unix_whitelist_def sample_remote_env_def)
  have "get_controllers (rm_controllers sample_remote_cfg) = map sample_controller [''unix:/etc/x'', ''unix://run///y'', ''tcp:1.2.3.4'']"
    by (simp add: get_controllers_def sample_remote_cfg_def)
  then have "map cr_target (get_controllers (rm_controllers sample_remote_cfg)) = [''unix:/etc/x'', ''unix://run///y'', ''tcp:1.2.3.4'']"
    by (simp add: sample_controller_def)
  with controllers_whitelisted [OF o] f have "map oc_target ocs = [''punix:/run/br0.mgmt'', ''unix://run///y'', ''tcp:1.2.3.4'']"
    by (simp add: sample_sw_def sample_remote_env_def)
  with o show ?thesis by (intro exI [of _ ocs] exI [of _ v] conjI)
qed

end
