(* ===== verification/Reconfigure.thy ===== *)
theory Reconfigure
  imports Bridges_Props Port_Config Bridge_Settings Remotes System_Stats
begin

text \<open>
  The whole of \<open>bridge_reconfigure\<close>, src/bridge.c: the global settings, the tables (\<open>Bridges\<close>), system
  statistics, and then for every bridge and every VRF the settings that the other theories model one by one,
  with the callbacks of the reconfigure blocks in between.

  The state \<open>conf\<close> holds blocks and switch, the statistics module, and the log of the settings handed to the
  ofproto layer.  What a row says is the record \<open>conf_db\<close>; parameters of all components are \<open>conf_params\<close>.
  A loop over a hash map visits the names it held when the loop began, as in \<open>Bridges\<close>.
\<close>

section \<open>Data\<close>

record 'f conf_params =
  cp_recon :: recon_env
  cp_conf :: conf_env
  cp_addr :: addr_env
  cp_sflow :: sflow_env
  cp_remote :: "'f remote_env"
  cp_vlans :: vlan_names
  FLOW_LIMIT_DEFAULT :: int
  MAX_IDLE_DEFAULT :: int

record conf_db =
  cd_ovs :: ovs_cfg
  cd_other_config :: smap
  cd_managers :: "manager_row list"
  cd_sflow :: "sflow_row option"
  cd_sflow_ports :: "sflow_port_row list"
  cd_address_flags :: "string \<Rightarrow> address_flags"
  cd_datapath_id :: "string \<Rightarrow> u64"
  cd_mirrors :: "string \<Rightarrow> mirror_row list"
  cd_remotes :: "string \<Rightarrow> remote_cfg"
  cd_neighbors :: neighbor_idl
  cd_routes :: route_idl
  cd_datapath_types :: "string list"

datatype 'f setting =
    SetFlowLimit int
  | SetMaxIdle int
  | SetDpdkRxqs int
  | SetCpuMask "string option"
  | SetThreads int int
  | ClearStatistics
  | Datapath string "48 word" "dpid_event list"
  | PortSettings string string "conf_event list"
  | MacTable conf_event
  | Sflow string "sflow_options option"
  | RemoteSettings string "'f remote_event list"
  | TypeRun string
  | OfprotoRun string

record 'f conf =
  cf_recon :: recon
  cf_stats :: sys_stats
  cf_log :: "'f setting list"
  cf_sflow_number :: u32

abbreviation cf_switch :: "'f conf \<Rightarrow> switch" where "cf_switch cs \<equiv> snd (cf_recon cs)"

definition settings :: "'f setting list \<Rightarrow> 'f conf \<Rightarrow> 'f conf" where
  "settings es cs = cs\<lparr>cf_log := cf_log cs @ es\<rparr>"

definition recon_step :: "(recon \<Rightarrow> recon) \<Rightarrow> 'f conf \<Rightarrow> 'f conf" where
  "recon_step f cs = cs\<lparr>cf_recon := f (cf_recon cs)\<rparr>"

definition switch_step :: "(switch \<Rightarrow> switch) \<Rightarrow> 'f conf \<Rightarrow> 'f conf" where
  "switch_step f cs = recon_step (apsnd f) cs"

definition and_then :: "fault + 'a \<Rightarrow> ('a \<Rightarrow> fault + 'b) \<Rightarrow> fault + 'b" where
  "and_then r f = (case r of Inl e \<Rightarrow> Inl e | Inr x \<Rightarrow> f x)"

fun for_each :: "('x \<Rightarrow> 's \<Rightarrow> fault + 's) \<Rightarrow> 'x list \<Rightarrow> 's \<Rightarrow> fault + 's" where
  "for_each f [] s = Inr s"
| "for_each f (x # xs) s = and_then (f x s) (for_each f xs)"

section \<open>Ports\<close>

text \<open>\<open>port_configure\<close> changes the handle of the bond and nothing else of the port table.\<close>

definition set_port :: "br_port \<Rightarrow> 'a bridge_scheme \<Rightarrow> 'a bridge_scheme" where
  "set_port p br = br\<lparr>br_ports := map (\<lambda>x. if bp_name x = bp_name p then x\<lparr>bond_hw_handle := bond_hw_handle p\<rparr> else x) (br_ports br)\<rparr>"

definition any_iface_changed :: "br_iface list \<Rightarrow> bool" where
  "any_iface_changed ifaces \<longleftrightarrow> (\<exists>i\<in>set ifaces. ic_modified (bi_cfg i))"

definition set_ofports :: "port_env \<Rightarrow> string \<Rightarrow> sw \<Rightarrow> sw" where
  "set_ofports env pname s =
     (case port_lookup s pname of
        None \<Rightarrow> s
      | Some p \<Rightarrow> fold (\<lambda>i. if ic_modified (bi_cfg i) then iface_set_ofport env (bi_cfg i) (bi_ofp_port i) else id) (port_ifaces s p) s)"

definition configure_br_port :: "'f conf_params \<Rightarrow> conf_db \<Rightarrow> string \<Rightarrow> string \<Rightarrow> 'f conf \<Rightarrow> fault + 'f conf" where
  "configure_br_port cp db bname pname cs =
     (case Option.bind (bridge_lookup (cf_switch cs) bname) (\<lambda>b. map_option (\<lambda>p. (b, p)) (port_lookup (bf_bridge b) pname)) of
        None \<Rightarrow> Inr cs
      | Some (b, p) \<Rightarrow>
          let ifaces = port_ifaces (bf_bridge b) p in
          (case bp_cfg p of
             None \<Rightarrow> Inl Null_dereference
           | Some c \<Rightarrow>
               if pc_modified c \<or> any_iface_changed ifaces
               then and_then (port_configure (cp_conf cp) (cd_address_flags db pname) ifaces p)
                 (\<lambda>(p, ev). Inr (
                   let cs = settings [PortSettings bname pname ev] cs;
                       cs = switch_step (on_bridge (\<lambda>_. set_port p) bname) cs;
                       cs = recon_step (run_block BLK_BR_PORT_UPDATE ((br_params b)\<lparr>bp_port := Some pname\<rparr>)) cs
                   in switch_step (on_bridge (\<lambda>_. set_ofports (re_ports (cp_recon cp)) pname) bname) cs))
               else Inr cs))"

definition bridge_port_names :: "string \<Rightarrow> switch \<Rightarrow> string list" where
  "bridge_port_names n w = (case bridge_lookup w n of None \<Rightarrow> [] | Some b \<Rightarrow> map bp_name (br_ports (bf_bridge b)))"

definition vrf_port_names :: "string \<Rightarrow> switch \<Rightarrow> string list" where
  "vrf_port_names n w = (case vrf_lookup w n of None \<Rightarrow> [] | Some v \<Rightarrow> map bp_name (br_ports (vf_up v)))"

section \<open>Bridges\<close>

definition configure_datapath_id :: "'f conf_params \<Rightarrow> conf_db \<Rightarrow> string \<Rightarrow> 'f conf \<Rightarrow> fault + 'f conf" where
  "configure_datapath_id cp db n cs =
     (case bridge_lookup (cf_switch cs) n of
        None \<Rightarrow> Inr cs
      | Some b \<Rightarrow>
          (case br_cfg (bf_bridge b) of
             None \<Rightarrow> Inl Null_dereference
           | Some c \<Rightarrow> and_then (bridge_configure_datapath_id (cp_addr cp) (cd_datapath_id db n) c (bf_bridge b))
                         (\<lambda>(ea, ev). Inr (settings [Datapath n ea ev] cs))))"

definition configure_tables :: "'f conf_params \<Rightarrow> conf_db \<Rightarrow> string \<Rightarrow> switch \<Rightarrow> switch" where
  "configure_tables cp db n w =
     (case bridge_lookup w n of
        None \<Rightarrow> w
      | Some b \<Rightarrow>
          put_bridge (b\<lparr>bf_vlans := (case br_cfg (bf_bridge b) of None \<Rightarrow> bf_vlans b | Some c \<Rightarrow> bridge_configure_vlans (cp_vlans cp) (bc_vlans c) (bf_vlans b)),
                        bf_mirrors := bridge_configure_mirrors (re_mirrors (cp_recon cp)) (map bf_bridge (all_bridges w)) (map vf_up (all_vrfs w))
                                        (cd_mirrors db n) (bf_mirrors b)\<rparr>) w)"

definition configure_sflow :: "'f conf_params \<Rightarrow> conf_db \<Rightarrow> string \<Rightarrow> 'f conf \<Rightarrow> 'f conf" where
  "configure_sflow cp db n cs =
     (let (o', k) = bridge_configure_sflow (cp_sflow cp) (cd_sflow_ports db) (cd_sflow db) (cf_sflow_number cs)
      in settings [Sflow n o'] (cs\<lparr>cf_sflow_number := k\<rparr>))"

definition configure_remotes :: "'f conf_params \<Rightarrow> conf_db \<Rightarrow> string \<Rightarrow> 'f conf \<Rightarrow> 'f conf" where
  "configure_remotes cp db n cs =
     (case bridge_lookup (cf_switch cs) n of
        None \<Rightarrow> cs
      | Some b \<Rightarrow>
          settings [RemoteSettings n (bridge_configure_remotes (cp_remote cp) (bf_bridge b) (cd_remotes db n) (collect_in_band_managers (cp_remote cp) (cd_managers db))
            @ bridge_configure_tables (cp_remote cp) n (cd_remotes db n) @ bridge_configure_dp_desc (cd_remotes db n))] cs)"

definition configure_mac_table :: "'f conf_params \<Rightarrow> string \<Rightarrow> 'f conf \<Rightarrow> 'f conf" where
  "configure_mac_table cp n cs =
     (case Option.bind (bridge_lookup (cf_switch cs) n) (\<lambda>b. br_cfg (bf_bridge b)) of
        None \<Rightarrow> cs
      | Some c \<Rightarrow> settings [MacTable (bridge_configure_mac_table (cp_conf cp) n c)] cs)"

definition configure_bridge :: "'f conf_params \<Rightarrow> conf_db \<Rightarrow> string \<Rightarrow> 'f conf \<Rightarrow> fault + 'f conf" where
  "configure_bridge cp db n cs =
     and_then (configure_datapath_id cp db n cs) (\<lambda>cs.
     and_then (for_each (configure_br_port cp db n) (bridge_port_names n (cf_switch cs)) cs) (\<lambda>cs. Inr (
       let cs = switch_step (configure_tables cp db n) cs;
           cs = configure_mac_table cp n cs;
           cs = configure_sflow cp db n cs;
           cs = configure_remotes cp db n cs
       in recon_step (block_on_bridge BLK_BR_FEATURE_RECONFIG n) cs)))"

section \<open>VRFs\<close>

text \<open>Internal interfaces and subinterfaces get their hardware configuration; \<open>iface->type\<close> is never NULL.\<close>

definition set_hw_config :: "port_env \<Rightarrow> br_iface \<Rightarrow> sw \<Rightarrow> sw" where
  "set_hw_config env i s =
     (if ic_modified (bi_cfg i) \<and> (bi_type i = INTERFACE_TYPE_INTERNAL env \<or> ic_type (bi_cfg i) = INTERFACE_TYPE_VLANSUBINT env)
      then log_ev (DevSetHwIntfConfig (bi_name i) (ic_hw_intf_config (bi_cfg i))) s else s)"

text \<open>The flag \<open>is_port_configured\<close> travels beside the state.\<close>

definition configure_vrf_port ::
  "'f conf_params \<Rightarrow> conf_db \<Rightarrow> string \<Rightarrow> string \<Rightarrow> bool \<times> 'f conf \<Rightarrow> fault + (bool \<times> 'f conf)" where
  "configure_vrf_port cp db vname pname st =
     (case Option.bind (vrf_lookup (cf_switch (snd st)) vname) (\<lambda>v. map_option (\<lambda>p. (v, p)) (port_lookup (vf_up v) pname)) of
        None \<Rightarrow> Inr st
      | Some (v, p) \<Rightarrow>
          let ifaces = port_ifaces (vf_up v) p;
              cs = switch_step (on_vrf (\<lambda>_. fold (set_hw_config (re_ports (cp_recon cp))) ifaces) vname) (snd st)
          in (case bp_cfg p of
                None \<Rightarrow> Inl Null_dereference
              | Some c \<Rightarrow>
                  if pc_modified c \<or> any_iface_changed ifaces
                  then and_then (port_configure (cp_conf cp) (cd_address_flags db pname) ifaces p)
                    (\<lambda>(p, ev). Inr (True,
                      let cs = settings [PortSettings vname pname ev] cs;
                          cs = switch_step (on_vrf (\<lambda>_. set_port p) vname) cs
                      in recon_step (run_block BLK_VRF_PORT_UPDATE ((vrf_params v)\<lparr>bp_port := Some pname\<rparr>)) cs))
                  else Inr (fst st, cs)))"

definition l3_step :: "(l3 \<Rightarrow> l3) \<Rightarrow> string \<Rightarrow> switch \<Rightarrow> switch" where
  "l3_step f n w =
     (case vrf_lookup w n of
        None \<Rightarrow> w
      | Some v \<Rightarrow> let s = f (vrf_l3 (g_l3 w) v) in put_vrf (v\<lparr>vf_l3 := s\<rparr>) (put_l3 s w))"

definition ofproto_params :: "vrf_full \<Rightarrow> blk_params" where
  "ofproto_params v = (vrf_params v)\<lparr>bp_vrf := None\<rparr>"

definition reconfigure_l3 :: "'f conf_params \<Rightarrow> conf_db \<Rightarrow> l3 \<Rightarrow> l3" where
  "reconfigure_l3 cp db s =
     (let env = re_l3 (cp_recon cp);
          s = vrf_reconfigure_neighbors env (cd_neighbors db) s;
          s = vrf_reconfigure_routes env (cd_routes db) s
      in vrf_reconfigure_nexthops env (cd_routes db) s)"

definition configure_vrf :: "'f conf_params \<Rightarrow> conf_db \<Rightarrow> string \<Rightarrow> 'f conf \<Rightarrow> fault + 'f conf" where
  "configure_vrf cp db n cs =
     and_then (for_each (configure_vrf_port cp db n) (vrf_port_names n (cf_switch cs)) (False, cs)) (\<lambda>(is_port_configured, cs). Inr (
       let cs = (if is_port_configured
                 then recon_step (block_on_vrf BLK_VRF_ADD_NEIGHBORS n)
                        (switch_step (l3_step (vrf_add_neighbors (re_l3 (cp_recon cp)) (idl_neighbors (cd_neighbors db))) n) cs)
                 else cs);
           cs = switch_step (l3_step (reconfigure_l3 cp db) n) cs;
           cs = configure_sflow cp db n cs
       in (case vrf_lookup (cf_switch cs) n of
             None \<Rightarrow> cs
           | Some v \<Rightarrow> recon_step (run_block BLK_RECONFIGURE_NEIGHBORS (ofproto_params v)) cs)))"

section \<open>The whole\<close>

definition bridge_run_raw :: "conf_db \<Rightarrow> 'f conf \<Rightarrow> 'f conf" where
  "bridge_run_raw db cs =
     settings (map TypeRun (cd_datapath_types db) @ map OfprotoRun (bridge_names (cf_recon cs)) @ map OfprotoRun (vrf_names (cf_recon cs))) cs"

definition global_settings :: "'f conf_params \<Rightarrow> smap \<Rightarrow> 'f setting list" where
  "global_settings cp m =
     [SetFlowLimit (smap_get_int m ''flow-limit'' (FLOW_LIMIT_DEFAULT cp)), SetMaxIdle (smap_get_int m ''max-idle'' (MAX_IDLE_DEFAULT cp)),
      SetDpdkRxqs (smap_get_int m ''n-dpdk-rxqs'' 0), SetCpuMask (smap_get m ''pmd-cpu-mask''),
      SetThreads (smap_get_int m ''n-handler-threads'' 0) (smap_get_int m ''n-revalidator-threads'' 0)]"

definition enable_system_stats :: "smap \<Rightarrow> bool" where
  "enable_system_stats m = smap_get_bool m ''enable-statistics'' False"

definition reconfigure_system_stats :: "smap \<Rightarrow> 'f conf \<Rightarrow> 'f conf" where
  "reconfigure_system_stats m cs =
     (let enable = enable_system_stats m;
          cs = cs\<lparr>cf_stats := system_stats_enable enable (cf_stats cs)\<rparr>
      in if \<not> enable then settings [ClearStatistics] cs else cs)"

definition configure_all :: "'f conf_params \<Rightarrow> conf_db \<Rightarrow> 'f conf \<Rightarrow> fault + 'f conf" where
  "configure_all cp db cs =
     and_then (for_each (configure_bridge cp db) (bridge_names (cf_recon cs)) cs) (\<lambda>cs.
     for_each (configure_vrf cp db) (vrf_names (cf_recon cs)) cs)"

definition bridge_reconfigure :: "'f conf_params \<Rightarrow> conf_db \<Rightarrow> 'f conf \<Rightarrow> fault + 'f conf" where
  "bridge_reconfigure cp db cs =
     (let cs = settings (global_settings cp (cd_other_config db)) (cs\<lparr>cf_sflow_number := 0\<rparr>) in
      and_then (reconfigure_tables (cp_recon cp) (cd_ovs db) (cf_recon cs)) (\<lambda>st.
      and_then (configure_all cp db (reconfigure_system_stats (cd_other_config db) (cs\<lparr>cf_recon := st\<rparr>))) (\<lambda>cs.
      Inr (bridge_run_raw db cs))))"

section \<open>The invariant\<close>

lemma settings_sel [simp]: "cf_recon (settings es cs) = cf_recon cs" "cf_sflow_number (settings es cs) = cf_sflow_number cs"
  "cf_log (settings es cs) = cf_log cs @ es"
  by (simp_all add: settings_def)

lemma step_sel [simp]:
  "cf_recon (recon_step f cs) = f (cf_recon cs)" "cf_recon (switch_step g cs) = apsnd g (cf_recon cs)"
  "cf_log (recon_step f cs) = cf_log cs" "cf_log (switch_step g cs) = cf_log cs"
  "cf_sflow_number (recon_step f cs) = cf_sflow_number cs" "cf_sflow_number (switch_step g cs) = cf_sflow_number cs"
  by (simp_all add: recon_step_def switch_step_def)

lemma and_then_simps [simp]: "and_then (Inr x) f = f x" "and_then (Inl e) f = Inl e"
  by (simp_all add: and_then_def)

lemma for_each_ok:
  assumes "\<And>x s. P s \<Longrightarrow> \<exists>s'. f x s = Inr s' \<and> P s'" "P s"
  shows "\<exists>s'. for_each f xs s = Inr s' \<and> P s'"
  using assms(2)
proof (induction xs arbitrary: s)
  case (Cons x xs)
  obtain s1 where "f x s = Inr s1" "P s1" using assms(1) [OF Cons.prems] by blast
  with Cons.IH [of s1] show ?case by simp
qed simp

text \<open>Steps on the tables of one bridge that keep keys and rows.\<close>

lemma set_port_ok [simp]: "tables_ok env (set_port p s) = tables_ok env s" "br_cfg (set_port p s) = br_cfg s" "br_ofproto (set_port p s) = br_ofproto s"
proof -
  have "map port_key (br_ports (set_port p s)) = map port_key (br_ports s)"
    "map (\<lambda>p. (bp_name p, bp_cfg p)) (br_ports (set_port p s)) = map (\<lambda>p. (bp_name p, bp_cfg p)) (br_ports s)"
    by (simp_all add: set_port_def port_key_def)
  then show "tables_ok env (set_port p s) = tables_ok env s"
    using same_tables_wf(2) [of s "set_port p s" env] unfolding tables_ok_def rows_but_map same_tables_def
    by (simp add: set_port_def)
qed (simp_all add: set_port_def)

lemma log_ev_ok [simp]: "tables_ok env (log_ev e s) = tables_ok env s"
  by (rule tables_ok_cong) simp_all

lemma iface_set_ofport_ok [simp]:
  "tables_ok env' (iface_set_ofport env c k s) = tables_ok env' s" "br_cfg (iface_set_ofport env c k s) = br_cfg s"
  "br_ofproto (iface_set_ofport env c k s) = br_ofproto s"
  by (simp_all add: iface_set_ofport_def)

lemma set_ofports_ok:
  assumes "tables_ok env s"
  shows "tables_ok env (set_ofports env' n s) \<and> br_cfg (set_ofports env' n s) = br_cfg s \<and> br_ofproto (set_ofports env' n s) = br_ofproto s"
proof (cases "port_lookup s n")
  case (Some p)
  let ?f = "\<lambda>i. if ic_modified (bi_cfg i) then iface_set_ofport env' (bi_cfg i) (bi_ofp_port i) else id"
  have "tables_ok env (fold ?f is s) \<and> br_cfg (fold ?f is s) = br_cfg s \<and> br_ofproto (fold ?f is s) = br_ofproto s" for "is"
    by (rule fold_inv [where P = "\<lambda>x. tables_ok env x \<and> br_cfg x = br_cfg s \<and> br_ofproto x = br_ofproto s"]) (simp_all add: assms)
  with Some show ?thesis by (simp add: set_ofports_def)
qed (simp add: set_ofports_def assms)

lemma set_hw_config_ok:
  assumes "tables_ok env s"
  shows "tables_ok env (fold (set_hw_config env') is s) \<and> br_ofproto (fold (set_hw_config env') is s) = br_ofproto s"
  by (rule fold_inv [where P = "\<lambda>x. tables_ok env x \<and> br_ofproto x = br_ofproto s"]) (simp_all add: assms set_hw_config_def)

lemma port_configure_total: "bp_cfg p \<noteq> None \<Longrightarrow> \<exists>p' ev. port_configure env fl is p = Inr (p', ev)"
  by (auto simp: port_configure_def Let_def case_prod_unfold)

lemma lookup_port_row: "tables_ok env s \<Longrightarrow> port_lookup s n = Some p \<Longrightarrow> bp_cfg p \<noteq> None"
  by (auto simp: tables_ok_def rows_but_def port_lookup_def find_Some_iff)

lemma st_ok_on_bridge:
  assumes "st_ok env ns q st"
    and "\<And>b s. tables_ok env s \<Longrightarrow> tables_ok env (f b s) \<and> br_cfg (f b s) = br_cfg s \<and> br_ofproto (f b s) = br_ofproto s"
  shows "st_ok env ns q (apsnd (on_bridge f n) st)"
  by (intro st_ok_apsnd on_bridge_ok assms(1)) (simp_all add: assms(2))

lemma st_ok_on_vrf:
  assumes "st_ok env ns q st"
    and "\<And>v s. tables_ok env s \<Longrightarrow> tables_ok env (f v s) \<and> br_ofproto (f v s) = br_ofproto s"
  shows "st_ok env ns q (apsnd (on_vrf f n) st)"
  by (intro st_ok_apsnd on_vrf_ok assms(1)) (simp_all add: assms(2))

subsection \<open>Bridges\<close>

lemma configure_br_port_ok:
  assumes "st_ok (re_ports (cp_recon cp)) ns True (cf_recon cs)"
  shows "\<exists>cs'. configure_br_port cp db n pn cs = Inr cs' \<and> st_ok (re_ports (cp_recon cp)) ns True (cf_recon cs')"
proof (cases "Option.bind (bridge_lookup (cf_switch cs) n) (\<lambda>b. map_option (\<lambda>p. (b, p)) (port_lookup (bf_bridge b) pn))")
  case None
  with assms show ?thesis by (simp add: configure_br_port_def)
next
  case (Some x)
  then obtain b p where x: "x = (b, p)" "bridge_lookup (cf_switch cs) n = Some b" "port_lookup (bf_bridge b) pn = Some p"
    by (auto simp: bind_eq_Some_conv)
  have "bridge_ok (re_ports (cp_recon cp)) b" using bridge_lookup_in [OF x(2)] assms by (simp add: st_ok_def switch_ok_def)
  then have c: "bp_cfg p \<noteq> None" using lookup_port_row x(3) by (auto simp: bridge_ok_def)
  obtain p' ev where r: "port_configure (cp_conf cp) (cd_address_flags db pn) (port_ifaces (bf_bridge b) p) p = Inr (p', ev)"
    using port_configure_total [OF c] by blast
  let ?cs = "switch_step (on_bridge (\<lambda>_. set_ofports (re_ports (cp_recon cp)) pn) n)
    (recon_step (run_block BLK_BR_PORT_UPDATE ((br_params b)\<lparr>bp_port := Some pn\<rparr>))
      (switch_step (on_bridge (\<lambda>_. set_port p') n) (settings [PortSettings n pn ev] cs)))"
  have "st_ok (re_ports (cp_recon cp)) ns True (cf_recon ?cs)"
    by (simp add: assms st_ok_on_bridge run_block_ok set_ofports_ok)
  then show ?thesis using Some c assms by (auto simp: configure_br_port_def x(1) r Let_def)
qed

lemma datapath_id_total:
  assumes "tables_ok penv s"
  shows "\<exists>ea ev. bridge_configure_datapath_id env cur cfg s = Inr (ea, ev)"
proof -
  have "ports_ok penv s" "\<forall>p\<in>set (br_ports s). bp_cfg p \<noteq> None" using assms by (simp_all add: tables_ok_def rows_but_def)
  from walk_hw_addrs_min [OF ports_ok_readable [OF this], of env None None]
  have "\<exists>r. find_local_hw_addr env s None = Inr r" by (auto simp: find_local_hw_addr_def split: option.split)
  then have "\<exists>r. bridge_pick_local_hw_addr env cfg s = Inr r" by (auto simp: bridge_pick_local_hw_addr_def split: option.split)
  then show ?thesis by (auto simp: bridge_configure_datapath_id_def Let_def case_prod_unfold)
qed

lemma configure_datapath_id_ok:
  assumes "st_ok (re_ports (cp_recon cp)) ns True (cf_recon cs)"
  shows "\<exists>cs'. configure_datapath_id cp db n cs = Inr cs' \<and> st_ok (re_ports (cp_recon cp)) ns True (cf_recon cs')"
proof (cases "bridge_lookup (cf_switch cs) n")
  case (Some b)
  then have "bridge_ok (re_ports (cp_recon cp)) b" using bridge_lookup_in assms by (simp add: st_ok_def switch_ok_def)
  then obtain c where "br_cfg (bf_bridge b) = Some c" "tables_ok (re_ports (cp_recon cp)) (bf_bridge b)" by (auto simp: bridge_ok_def)
  with Some datapath_id_total [OF this(2), of "cp_addr cp" "cd_datapath_id db n" c] assms
  show ?thesis by (auto simp: configure_datapath_id_def)
qed (simp add: configure_datapath_id_def assms)

lemma configure_tables_ok:
  assumes "switch_ok env w" "q \<longrightarrow> ofproto_all w"
  shows "switch_ok env (configure_tables cp db n w) \<and> table_names (configure_tables cp db n w) = table_names w
    \<and> (q \<longrightarrow> ofproto_all (configure_tables cp db n w))"
proof (cases "bridge_lookup w n")
  case (Some b)
  let ?b = "b\<lparr>bf_vlans := (case br_cfg (bf_bridge b) of None \<Rightarrow> bf_vlans b | Some c \<Rightarrow> bridge_configure_vlans (cp_vlans cp) (bc_vlans c) (bf_vlans b)),
    bf_mirrors := bridge_configure_mirrors (re_mirrors (cp_recon cp)) (map bf_bridge (all_bridges w)) (map vf_up (all_vrfs w))
      (cd_mirrors db n) (bf_mirrors b)\<rparr>"
  have "b \<in> set (all_bridges w)" using bridge_lookup_in [OF Some] by simp
  then have "bridge_ok env ?b" "q \<longrightarrow> br_ofproto (bf_bridge ?b)" using assms by (auto simp: switch_ok_def bridge_ok_def ofproto_all_def)
  with put_bridge_ok [OF assms(1), of ?b q] assms(2) Some show ?thesis by (simp add: configure_tables_def)
qed (simp add: configure_tables_def assms)

lemma logged_sel [simp]: "cf_recon (configure_sflow cp db n cs) = cf_recon cs" "cf_recon (configure_remotes cp db n cs) = cf_recon cs"
  "cf_recon (configure_mac_table cp n cs) = cf_recon cs" "cf_recon (reconfigure_system_stats m cs) = cf_recon cs" "cf_recon (bridge_run_raw db cs) = cf_recon cs"
  by (simp_all add: configure_sflow_def configure_remotes_def configure_mac_table_def reconfigure_system_stats_def bridge_run_raw_def Let_def
      split: option.split prod.split)

lemma configure_bridge_ok:
  assumes "st_ok (re_ports (cp_recon cp)) ns True (cf_recon cs)"
  shows "\<exists>cs'. configure_bridge cp db n cs = Inr cs' \<and> st_ok (re_ports (cp_recon cp)) ns True (cf_recon cs')"
proof -
  let ?P = "\<lambda>cs. st_ok (re_ports (cp_recon cp)) ns True (cf_recon cs)"
  obtain cs1 where c1: "configure_datapath_id cp db n cs = Inr cs1" "?P cs1" using configure_datapath_id_ok [OF assms] by blast
  obtain cs2 where c2: "for_each (configure_br_port cp db n) (bridge_port_names n (cf_switch cs1)) cs1 = Inr cs2" "?P cs2"
    using for_each_ok [of ?P "configure_br_port cp db n", OF configure_br_port_ok c1(2)] by blast
  have "st_ok (re_ports (cp_recon cp)) ns True (apsnd (configure_tables cp db n) (cf_recon cs2))"
    by (intro st_ok_apsnd c2(2)) (simp add: configure_tables_ok [where q = True, simplified])
  then show ?thesis by (simp add: configure_bridge_def c1(1) c2(1) Let_def block_on_ok)
qed

subsection \<open>VRFs\<close>

lemma configure_vrf_port_ok:
  assumes "st_ok (re_ports (cp_recon cp)) ns True (cf_recon (snd st))"
  shows "\<exists>st'. configure_vrf_port cp db n pn st = Inr st' \<and> st_ok (re_ports (cp_recon cp)) ns True (cf_recon (snd st'))"
proof (cases "Option.bind (vrf_lookup (cf_switch (snd st)) n) (\<lambda>v. map_option (\<lambda>p. (v, p)) (port_lookup (vf_up v) pn))")
  case None
  with assms show ?thesis by (simp add: configure_vrf_port_def)
next
  case (Some x)
  then obtain v p where x: "x = (v, p)" "vrf_lookup (cf_switch (snd st)) n = Some v" "port_lookup (vf_up v) pn = Some p"
    by (auto simp: bind_eq_Some_conv)
  have "vrf_ok (re_ports (cp_recon cp)) v" using vrf_lookup_in [OF x(2)] assms by (simp add: st_ok_def switch_ok_def)
  then have c: "bp_cfg p \<noteq> None" using lookup_port_row x(3) by (auto simp: vrf_ok_def)
  let ?is = "port_ifaces (vf_up v) p"
  obtain p' ev where r: "port_configure (cp_conf cp) (cd_address_flags db pn) ?is p = Inr (p', ev)"
    using port_configure_total [OF c] by blast
  let ?cs = "switch_step (on_vrf (\<lambda>_. fold (set_hw_config (re_ports (cp_recon cp))) ?is) n) (snd st)"
  let ?cs' = "recon_step (run_block BLK_VRF_PORT_UPDATE ((vrf_params v)\<lparr>bp_port := Some pn\<rparr>))
    (switch_step (on_vrf (\<lambda>_. set_port p') n) (settings [PortSettings n pn ev] ?cs))"
  have 1: "st_ok (re_ports (cp_recon cp)) ns True (cf_recon ?cs)"
    by (simp add: assms st_ok_on_vrf set_hw_config_ok)
  then have 2: "st_ok (re_ports (cp_recon cp)) ns True (cf_recon ?cs')"
    by (simp add: st_ok_on_vrf run_block_ok)
  from c obtain d where d: "bp_cfg p = Some d" by blast
  show ?thesis
  proof (cases "pc_modified d \<or> any_iface_changed ?is")
    case True
    then have "configure_vrf_port cp db n pn st = Inr (True, ?cs')" using Some by (simp add: configure_vrf_port_def x(1) d r Let_def)
    with 2 show ?thesis by simp
  next
    case False
    then have "configure_vrf_port cp db n pn st = Inr (fst st, ?cs)" using Some by (simp add: configure_vrf_port_def x(1) d Let_def)
    with 1 show ?thesis by simp
  qed
qed

lemma l3_step_ok:
  assumes "switch_ok env w" "q \<longrightarrow> ofproto_all w" and f: "\<And>s. l3_ok s \<Longrightarrow> l3_ok (f s)"
  shows "switch_ok env (l3_step f n w) \<and> table_names (l3_step f n w) = table_names w \<and> (q \<longrightarrow> ofproto_all (l3_step f n w))"
proof (cases "vrf_lookup w n")
  case (Some v)
  let ?s = "f (vrf_l3 (g_l3 w) v)"
  have v: "v \<in> set (all_vrfs w)" using vrf_lookup_in [OF Some] by simp
  then have "l3_ok (vrf_l3 (g_l3 w) v)" using assms(1) by (simp add: switch_ok_def vrf_ok_def)
  then have "vrf_ok env (v\<lparr>vf_l3 := ?s\<rparr>)" using f v assms(1) by (simp add: switch_ok_def vrf_ok_def)
  moreover have "q \<longrightarrow> br_ofproto (vf_up v)" using assms(2) v by (simp add: ofproto_all_def)
  ultimately show ?thesis using put_vrf_ok [of env "put_l3 ?s w" "v\<lparr>vf_l3 := ?s\<rparr>" q] assms Some by (simp add: l3_step_def Let_def)
qed (simp add: l3_step_def assms)

lemma l3_ok_add_neighbors: "l3_ok s \<Longrightarrow> l3_ok (vrf_add_neighbors env rows s)"
proof (induction rows arbitrary: s)
  case (Cons row rows)
  have "l3_ok (add_neighbor env row s)"
    using Cons.prems add_neighbor_effect [where s = s and env = env and row = row] nb_frame_cache by (auto simp: l3_ok_def)
  with Cons show ?case by simp
qed simp

text \<open>Route updates leave the neighbors alone.\<close>

lemma neighbors_modify_row: "cache_ok s \<Longrightarrow> all_neighbors (modify_route_row env row s) = all_neighbors s"
  using cache_modify_row [of s env row] by (simp add: keeps_vrf_def)

lemma neighbors_modify_routes: "cache_ok s \<Longrightarrow> all_neighbors (modify_routes env rows s) = all_neighbors s"
  by (induction rows arbitrary: s) (auto simp: neighbors_modify_row cache_modify_row)

lemma neighbors_modify_nexthops: "cache_ok s \<Longrightarrow> all_neighbors (modify_routes_of_nexthops env rows s) = all_neighbors s"
proof (induction rows arbitrary: s)
  case (Cons row rows)
  have "all_neighbors (vrf_route_modify env rt row s) = all_neighbors s" "cache_ok (vrf_route_modify env rt row s)"
    if "vrf_route_hash_lookup env s row = Some rt" for rt
    using cache_modify(1,2) [OF Cons.prems] route_lookup_Some [OF that] by (auto simp: keeps_vrf_def)
  with Cons show ?case by (auto split: option.split)
qed simp

lemma neighbors_reconfigure_ecmp [simp]: "all_neighbors (vrf_reconfigure_ecmp env idl s) = all_neighbors s"
  by (simp add: vrf_reconfigure_ecmp_def Let_def vrf_l3_ecmp_set_def vrf_l3_ecmp_hash_set_def split: option.split)

lemma neighbors_reconfigure_routes:
  assumes "cache_ok s"
  shows "all_neighbors (vrf_reconfigure_routes env idl s) = all_neighbors s"
proof -
  define s0 where "s0 = vrf_reconfigure_ecmp env idl s"
  have s0: "cache_ok s0" "distinct (map rid (all_routes s0))" "all_neighbors s0 = all_neighbors s"
    using assms by (auto simp: s0_def cache_ok_def cache_wf_def cache_inv_def)
  have del: "cache_ok (vrf_delete_routes env (filter P (all_routes s0)) s0)"
    "all_neighbors (vrf_delete_routes env (filter P (all_routes s0)) s0) = all_neighbors s" for P
    using cache_delete_all [OF s0(1), of "filter P (all_routes s0)" env] distinct_map_filter [OF s0(2)] s0(3) by (auto simp: keeps_vrf_def)
  have add: "cache_ok (add_missing_routes env rows x) \<and> all_neighbors (add_missing_routes env rows x) = all_neighbors x" if "cache_ok x" for rows x
    using cache_add_missing [OF that, of env rows] by (simp add: keeps_vrf_def)
  from del [of "\<lambda>_. True"] s0 show ?thesis
    unfolding vrf_reconfigure_routes_def s0_def [symmetric] Let_def
    by (auto simp: del add neighbors_modify_routes)
qed

lemma l3_ok_reconfigure: "l3_ok s \<Longrightarrow> l3_ok (reconfigure_l3 cp db s)"
proof -
  assume s: "l3_ok s"
  let ?env = "re_l3 (cp_recon cp)"
  define s1 where "s1 = vrf_reconfigure_neighbors ?env (cd_neighbors db) s"
  define s2 where "s2 = vrf_reconfigure_routes ?env (cd_routes db) s1"
  have 1: "cache_ok s1" "distinct (nb_ips s1)"
    using s reconfigure_neighbors_effect(1,2) [where s = s and env = ?env and idl = "cd_neighbors db"] nb_frame_cache by (auto simp: l3_ok_def s1_def)
  have 2: "cache_ok s2" "nb_ips s2 = nb_ips s1"
    using 1 by (simp_all add: s2_def cache_ok_reconfigure_routes neighbors_reconfigure_routes nb_ips_def)
  have 3: "cache_ok (vrf_reconfigure_nexthops ?env (cd_routes db) s2)" "nb_ips (vrf_reconfigure_nexthops ?env (cd_routes db) s2) = nb_ips s2"
    using 2(1) by (simp_all add: vrf_reconfigure_nexthops_def cache_ok_modify_nexthops neighbors_modify_nexthops nb_ips_def)
  with 1 2 show ?thesis by (simp add: reconfigure_l3_def Let_def l3_ok_def flip: s1_def s2_def)
qed

lemma configure_vrf_ok:
  assumes "st_ok (re_ports (cp_recon cp)) ns True (cf_recon cs)"
  shows "\<exists>cs'. configure_vrf cp db n cs = Inr cs' \<and> st_ok (re_ports (cp_recon cp)) ns True (cf_recon cs')"
proof -
  let ?E = "re_ports (cp_recon cp)"
  obtain st1 where c1: "for_each (configure_vrf_port cp db n) (vrf_port_names n (cf_switch cs)) (False, cs) = Inr st1"
    "st_ok ?E ns True (cf_recon (snd st1))"
    using for_each_ok [of "\<lambda>st. st_ok ?E ns True (cf_recon (snd st))" "configure_vrf_port cp db n" "(False, cs)" "vrf_port_names n (cf_switch cs)",
        OF configure_vrf_port_ok] assms by auto
  have l3: "st_ok ?E ns True (apsnd (l3_step f n) st)" if "st_ok ?E ns True st" "\<And>s. l3_ok s \<Longrightarrow> l3_ok (f s)" for f st
    by (intro st_ok_apsnd that(1)) (simp add: l3_step_ok [where q = True, simplified] that(2))
  define cs1 where "cs1 = (if fst st1 then recon_step (block_on_vrf BLK_VRF_ADD_NEIGHBORS n)
    (switch_step (l3_step (vrf_add_neighbors (re_l3 (cp_recon cp)) (idl_neighbors (cd_neighbors db))) n) (snd st1)) else snd st1)"
  have "st_ok ?E ns True (cf_recon cs1)" using c1(2) by (simp add: cs1_def block_on_ok l3 l3_ok_add_neighbors)
  moreover define cs2 where "cs2 = configure_sflow cp db n (switch_step (l3_step (reconfigure_l3 cp db) n) cs1)"
  ultimately have "st_ok ?E ns True (cf_recon cs2)" by (simp add: l3 l3_ok_reconfigure)
  moreover have "configure_vrf cp db n cs = Inr (case vrf_lookup (cf_switch cs2) n of None \<Rightarrow> cs2
      | Some v \<Rightarrow> recon_step (run_block BLK_RECONFIGURE_NEIGHBORS (ofproto_params v)) cs2)"
    unfolding configure_vrf_def c1(1) and_then_simps case_prod_unfold Let_def cs2_def cs1_def ..
  ultimately show ?thesis by (auto simp: run_block_ok split: option.split)
qed

text \<open>The states between the parts of a reconfiguration; no part faults.\<close>

definition before_settings :: "'f conf_params \<Rightarrow> conf_db \<Rightarrow> recon \<Rightarrow> 'f conf \<Rightarrow> 'f conf" where
  "before_settings cp db st cs =
     reconfigure_system_stats (cd_other_config db) ((settings (global_settings cp (cd_other_config db)) (cs\<lparr>cf_sflow_number := 0\<rparr>))\<lparr>cf_recon := st\<rparr>)"

lemma reconfigure_parts:
  assumes "switch_ok (re_ports (cp_recon cp)) (cf_switch cs)" "blocks_ok (re_ports (cp_recon cp)) (fst (cf_recon cs))"
    "ofproto_laws (re_ports (cp_recon cp))" "ether_aton (cp_recon cp) (oc_system_mac (cd_ovs db)) = Some ea"
  obtains ns st cs1 cs2 where "for_each (configure_bridge cp db) (fst ns) (before_settings cp db st cs) = Inr cs1"
    "for_each (configure_vrf cp db) (snd ns) cs1 = Inr cs2" "bridge_reconfigure cp db cs = Inr (bridge_run_raw db cs2)"
    "st_ok (re_ports (cp_recon cp)) ns True (cf_recon cs2)"
    "set (fst ns) \<subseteq> bc_name ` set (oc_bridges (cd_ovs db))" "set (snd ns) \<subseteq> vc_name ` set (oc_vrfs (cd_ovs db))"
    "creates (cp_recon cp) \<longrightarrow> set (fst ns) = bc_name ` set (oc_bridges (cd_ovs db)) \<and> set (snd ns) = vc_name ` set (oc_vrfs (cd_ovs db))"
proof -
  obtain st where st: "reconfigure_tables (cp_recon cp) (cd_ovs db) (cf_recon cs) = Inr st" using reconfigure_no_fault [OF assms(4)] by blast
  obtain ns where ns: "st_ok (re_ports (cp_recon cp)) ns True st"
    "set (fst ns) \<subseteq> bc_name ` set (oc_bridges (cd_ovs db))" "set (snd ns) \<subseteq> vc_name ` set (oc_vrfs (cd_ovs db))"
    "creates (cp_recon cp) \<longrightarrow> set (fst ns) = bc_name ` set (oc_bridges (cd_ovs db)) \<and> set (snd ns) = vc_name ` set (oc_vrfs (cd_ovs db))"
    using reconfigure_tables_ok [OF assms(1-3) st] by blast
  let ?P = "\<lambda>cs. st_ok (re_ports (cp_recon cp)) ns True (cf_recon cs)"
  have names: "bridge_names (cf_recon x) = fst ns" "vrf_names (cf_recon x) = snd ns" if "?P x" for x :: "'a conf"
    using that by (auto simp: st_ok_def table_names_def bridge_names_def vrf_names_def)
  let ?cs = "before_settings cp db st cs"
  have 0: "?P ?cs" using ns(1) by (simp add: before_settings_def)
  obtain cs1 where 1: "for_each (configure_bridge cp db) (fst ns) ?cs = Inr cs1" "?P cs1"
    using for_each_ok [of ?P "configure_bridge cp db", OF configure_bridge_ok 0] by blast
  obtain cs2 where 2: "for_each (configure_vrf cp db) (snd ns) cs1 = Inr cs2" "?P cs2"
    using for_each_ok [of ?P "configure_vrf cp db", OF configure_vrf_ok 1(2)] by blast
  have "configure_all cp db ?cs = Inr cs2" using 1 2 names [OF 0] names [OF 1(2)] by (simp add: configure_all_def)
  then have "bridge_reconfigure cp db cs = Inr (bridge_run_raw db cs2)" using st by (simp add: bridge_reconfigure_def before_settings_def Let_def)
  from that [OF 1(1) 2(1) this 2(2) ns(2-4)] show ?thesis .
qed

section \<open>sFlow numbers\<close>

text \<open>The agents set up so far, with their sub-agent ids.\<close>

definition sflow_agents :: "'f setting list \<Rightarrow> (string \<times> u32) list" where
  "sflow_agents log = List.map_filter (\<lambda>e. case e of Sflow n (Some o') \<Rightarrow> Some (n, oso_sub_id o') | _ \<Rightarrow> None) log"

definition adds_agents :: "(string \<times> u32) list \<Rightarrow> 'f conf \<Rightarrow> 'f conf \<Rightarrow> bool" where
  "adds_agents as cs cs' \<longleftrightarrow> sflow_agents (cf_log cs') = sflow_agents (cf_log cs) @ as \<and> cf_sflow_number cs' = cf_sflow_number cs + of_nat (length as)"

lemma sflow_agents_append [simp]: "sflow_agents (a @ b) = sflow_agents a @ sflow_agents b" "sflow_agents [] = []"
  by (simp_all add: sflow_agents_def List.map_filter_def)

lemma adds_agents_refl [simp]: "adds_agents [] cs cs"
  by (simp add: adds_agents_def)

lemma adds_agents_trans: "adds_agents as cs cs1 \<Longrightarrow> adds_agents bs cs1 cs2 \<Longrightarrow> adds_agents (as @ bs) cs cs2"
  by (simp add: adds_agents_def)

lemma adds_agents_step [simp]:
  "adds_agents as cs (recon_step f cs') = adds_agents as cs cs'" "adds_agents as cs (switch_step g cs') = adds_agents as cs cs'"
  by (simp_all add: adds_agents_def)

lemma adds_agents_settings: "sflow_agents es = [] \<Longrightarrow> adds_agents as cs (settings es cs') = adds_agents as cs cs'"
  by (simp add: adds_agents_def)

lemma other_settings [simp]:
  "sflow_agents [PortSettings a b ev] = []" "sflow_agents [Datapath n ea dev] = []" "sflow_agents [MacTable e] = []"
  "sflow_agents [RemoteSettings n re] = []" "sflow_agents [ClearStatistics] = []" "sflow_agents (global_settings cp m) = []"
  by (simp_all add: sflow_agents_def List.map_filter_def global_settings_def)

lemma run_settings [simp]: "sflow_agents (map TypeRun ts) = []" "sflow_agents (map OfprotoRun ns) = []"
  by (induction ts; simp add: sflow_agents_def List.map_filter_simps) (induction ns; simp add: sflow_agents_def List.map_filter_simps)

lemma configure_sflow_agent:
  assumes "cd_sflow db = Some c"
  shows "adds_agents [(n, cf_sflow_number cs)] cs (configure_sflow cp db n cs)"
  using assms by (simp add: configure_sflow_def bridge_configure_sflow_def adds_agents_def sflow_agents_def List.map_filter_simps List.map_filter_def)

lemma for_each_agents:
  assumes "\<And>x s s'. f x s = Inr s' \<Longrightarrow> adds_agents [] (h s) (h s')" "for_each f xs s = Inr s'"
  shows "adds_agents [] (h s) (h s')"
  using assms(2)
proof (induction xs arbitrary: s)
  case (Cons x xs)
  then obtain s1 where "f x s = Inr s1" "for_each f xs s1 = Inr s'" by (auto simp: and_then_def split: sum.splits)
  from assms(1) [OF this(1)] Cons.IH [OF this(2)] show ?case using adds_agents_trans [of "[]" "h s" "h s1" "[]"] by simp
qed simp

lemma br_port_agents: "configure_br_port cp db n pn cs = Inr cs' \<Longrightarrow> adds_agents [] cs cs'"
  by (auto simp: configure_br_port_def and_then_def Let_def adds_agents_settings split: option.splits if_splits sum.splits)

lemma vrf_port_agents: "configure_vrf_port cp db n pn st = Inr st' \<Longrightarrow> adds_agents [] (snd st) (snd st')"
  by (auto simp: configure_vrf_port_def and_then_def Let_def adds_agents_settings split: option.splits if_splits sum.splits)

lemma remotes_agents: "adds_agents as cs (configure_remotes cp db n cs') = adds_agents as cs cs'"
  "adds_agents as cs (configure_mac_table cp n cs') = adds_agents as cs cs'"
  by (simp_all add: configure_remotes_def configure_mac_table_def adds_agents_settings split: option.split)

lemma adds_then_sflow:
  assumes "cd_sflow db = Some c" "adds_agents [] cs cs'"
  shows "adds_agents [(n, cf_sflow_number cs)] cs (configure_sflow cp db n cs')"
  using adds_agents_trans [OF assms(2) configure_sflow_agent [OF assms(1), of n cs' cp]] assms(2) by (simp add: adds_agents_def)

lemma bridge_agent:
  assumes "cd_sflow db = Some c" "configure_bridge cp db n cs = Inr cs'"
  shows "adds_agents [(n, cf_sflow_number cs)] cs cs'"
proof -
  obtain cs1 cs2 where c: "configure_datapath_id cp db n cs = Inr cs1"
    "for_each (configure_br_port cp db n) (bridge_port_names n (cf_switch cs1)) cs1 = Inr cs2"
    "cs' = recon_step (block_on_bridge BLK_BR_FEATURE_RECONFIG n) (configure_remotes cp db n (configure_sflow cp db n
       (configure_mac_table cp n (switch_step (configure_tables cp db n) cs2))))"
    using assms(2) by (auto simp: configure_bridge_def and_then_def Let_def split: sum.splits)
  have "adds_agents [] cs cs1" using c(1)
    by (auto simp: configure_datapath_id_def and_then_def adds_agents_settings split: option.splits sum.splits)
  moreover have "adds_agents [] cs1 cs2" using for_each_agents [of _ "\<lambda>x. x", OF br_port_agents c(2)] by simp
  ultimately have "adds_agents [] cs cs2" using adds_agents_trans [of "[]" cs cs1 "[]"] by simp
  then show ?thesis using adds_then_sflow [OF assms(1), of cs] by (simp add: c(3) remotes_agents)
qed

lemma vrf_agent:
  assumes "cd_sflow db = Some c" "configure_vrf cp db n cs = Inr cs'"
  shows "adds_agents [(n, cf_sflow_number cs)] cs cs'"
proof -
  obtain st where f: "for_each (configure_vrf_port cp db n) (vrf_port_names n (cf_switch cs)) (False, cs) = Inr st"
    using assms(2) by (auto simp: configure_vrf_def and_then_def split: sum.splits)
  have "adds_agents [] cs (snd st)" using for_each_agents [of _ snd, OF vrf_port_agents f] by simp
  then show ?thesis using assms(2) adds_then_sflow [OF assms(1), of cs]
    by (auto simp: configure_vrf_def f case_prod_unfold Let_def split: option.splits)
qed

text \<open>A loop that adds one agent at each step numbers them consecutively.\<close>

lemma for_each_numbered:
  assumes "\<And>n cs cs'. f n cs = Inr cs' \<Longrightarrow> adds_agents [(n, cf_sflow_number cs)] cs cs'" "for_each f ns cs = Inr cs'"
  shows "adds_agents (zip ns (map (\<lambda>i. cf_sflow_number cs + of_nat i) [0..<length ns])) cs cs'"
  using assms(2)
proof (induction ns arbitrary: cs)
  case (Cons n ns)
  then obtain cs1 where c: "f n cs = Inr cs1" "for_each f ns cs1 = Inr cs'" by (auto simp: and_then_def split: sum.splits)
  note a = assms(1) [OF c(1)]
  have "map (\<lambda>i. cf_sflow_number cs1 + of_nat i) [0..<length ns] = map (\<lambda>i. cf_sflow_number cs + of_nat i) (map Suc [0..<length ns])"
    using a by (simp add: adds_agents_def add.assoc)
  then show ?case using adds_agents_trans [OF a Cons.IH [OF c(2)]] by (simp add: upt_conv_Cons map_Suc_upt del: upt_Suc)
qed simp

section \<open>Properties\<close>


definition sample_conf_params :: "nat conf_params" where
  "sample_conf_params = \<lparr>cp_recon = sample_recon_env, cp_conf = sample_conf, cp_addr = sample_addr_env,
     cp_sflow = \<lparr>SFL_DEFAULT_SAMPLING_RATE = 4096, SFL_DEFAULT_POLLING_INTERVAL = 30, SFL_DEFAULT_HEADER_SIZE = 128, SFL_DEFAULT_DATAGRAM_SIZE = 1400,
       SFLOW_PER_INTERFACE_KEY = ''sflow-enabled'', DEFAULT_BRIDGE_NAME = ''bridge_normal''\<rparr>,
     cp_remote = sample_remote_env, cp_vlans = \<lparr>VLAN_HW_CONFIG_MAP_ENABLE = ''enable'', VLAN_HW_CONFIG_MAP_ENABLE_TRUE = ''true''\<rparr>,
     FLOW_LIMIT_DEFAULT = 200000, MAX_IDLE_DEFAULT = 10000\<rparr>"

definition sample_conf_db :: conf_db where
  "sample_conf_db = \<lparr>cd_ovs = sample_ovs, cd_other_config = [], cd_managers = [],
     cd_sflow = Some \<lparr>sf_targets = [''10.0.0.1''], sf_sampling = None, sf_polling = None, sf_header = None, sf_max_datagram = None, sf_agent = None, sf_agent_addr_family = None\<rparr>,
     cd_sflow_ports = [], cd_address_flags = (\<lambda>_. \<lparr>ip4_modified = False, ip6_modified = False, ip4_secondary_modified = False, ip6_secondary_modified = False\<rparr>), cd_datapath_id = (\<lambda>_. 0), cd_mirrors = (\<lambda>_. []), cd_remotes = (\<lambda>_. sample_remote_cfg),
     cd_neighbors = sample_neighbor_idl [], cd_routes = sample_idl [] False False False, cd_datapath_types = [''system'']\<rparr>"

definition sample_conf_state :: "nat conf" where
  "sample_conf_state = \<lparr>cf_recon = (sample_blocks, sample_switch), cf_stats = sys_stats_boot, cf_log = [], cf_sflow_number = 0\<rparr>"




end
