(* ===== verification/Route_Table.thy ===== *)
theory Route_Table
  imports Reconfigure
begin

text \<open>
  What the switch is asked to route through, compared with the route cache of src/vrf.c.

  A hop is a prefix with the kind and the name of one nexthop.  The table the calls ask for is the set of
  hops whose last mention in the calls is by \<open>OFPROTO_ROUTE_ADD\<close> and not by one of the two delete actions;
  what a provider makes of a call is not needed.  The abstraction of a VRF is the set of the hops of its
  cached routes.  The theory shows that the calls of a reconfiguration never leave a hop asked for that
  is not cached and that, where each prefix comes from one protocol, every cached hop is asked for unless
  its address is not resolved.
\<close>

section \<open>The table asked for\<close>

type_synonym hop = "string \<times> nh_type \<times> string"

definition hops :: "string \<Rightarrow> ofproto_route_nexthop list \<Rightarrow> hop set" where
  "hops p onhs = (\<lambda>onh. (p, on_type onh, on_id onh)) ` set onhs"

fun ask :: "l3_call \<Rightarrow> hop set \<Rightarrow> hop set" where
  "ask (RouteAction a r) T =
     (if a = OFPROTO_ROUTE_ADD then T \<union> hops (or_prefix r) (or_nexthops r) else T - hops (or_prefix r) (or_nexthops r))"
| "ask _ T = T"

definition asked :: "l3_call list \<Rightarrow> hop set \<Rightarrow> hop set" where
  "asked calls T = fold ask calls T"

definition nh_hop :: "string \<Rightarrow> nexthop \<Rightarrow> hop" where
  "nh_hop p nh =
     (case port_name nh of Some q \<Rightarrow> (p, OFPROTO_NH_PORT, q) | None \<Rightarrow> (p, OFPROTO_NH_IPADDR, the (ip_addr nh)))"

definition route_hops :: "route \<Rightarrow> hop set" where
  "route_hops rt = nh_hop (rt_prefix rt) ` set (nexthops rt)"

definition cached_hops :: "'a vrf_scheme \<Rightarrow> hop set" where
  "cached_hops s = (\<Union>rt\<in>set (all_routes s). route_hops rt)"

text \<open>The address of the hop has no neighbor with a positive egress id.\<close>

definition unresolved :: "l3_env \<Rightarrow> 'a vrf_scheme \<Rightarrow> hop \<Rightarrow> bool" where
  "unresolved env s h \<longleftrightarrow> fst (snd h) = OFPROTO_NH_IPADDR \<and> resolved_egress env s (snd (snd h)) = None"

definition nothing_stale :: "l3 \<Rightarrow> hop set \<Rightarrow> bool" where
  "nothing_stale s T \<longleftrightarrow> T \<subseteq> cached_hops s"

definition nothing_missing :: "l3_env \<Rightarrow> l3 \<Rightarrow> hop set \<Rightarrow> bool" where
  "nothing_missing env s T \<longleftrightarrow> (\<forall>h\<in>cached_hops s. h \<in> T \<or> unresolved env s h)"

text \<open>\<open>asks s s' D N\<close>: the calls between the states withdraw the hops \<open>D\<close> and then add the hops \<open>N\<close>.\<close>

definition asks :: "l3 \<Rightarrow> l3 \<Rightarrow> hop set \<Rightarrow> hop set \<Rightarrow> bool" where
  "asks s s' D N \<longleftrightarrow> (\<exists>calls. l3_log s' = l3_log s @ calls \<and> (\<forall>T. asked calls T = T - D \<union> N))"

text \<open>\<open>carries R s s'\<close>: the calls between the states take a table that fits the first to one that fits the second.\<close>

definition carries :: "(l3 \<Rightarrow> hop set \<Rightarrow> bool) \<Rightarrow> l3 \<Rightarrow> l3 \<Rightarrow> bool" where
  "carries R s s' \<longleftrightarrow> (\<exists>calls. l3_log s' = l3_log s @ calls \<and> (\<forall>T. R s T \<longrightarrow> R s' (asked calls T)))"

lemma asked_simps [simp]:
  "asked [] T = T" "asked (c # cs) T = asked cs (ask c T)" "asked (cs @ ds) T = asked ds (asked cs T)"
  by (simp_all add: asked_def)

lemma hops_simps [simp]: "hops p [] = {}" "hops p (o' # os) = insert (p, on_type o', on_id o') (hops p os)"
  by (simp_all add: hops_def)

lemma carries_refl [simp]: "carries R s s"
  by (auto simp: carries_def)

lemma carries_trans [trans]: "carries R s s1 \<Longrightarrow> carries R s1 s2 \<Longrightarrow> carries R s s2"
  unfolding carries_def by (metis append_assoc asked_simps(3))

lemma asks_carries: "asks s s' D N \<Longrightarrow> (\<And>T. R s T \<Longrightarrow> R s' (T - D \<union> N)) \<Longrightarrow> carries R s s'"
  by (auto simp: asks_def carries_def)

lemma asks_nothing: "l3_log s' = l3_log s \<Longrightarrow> asks s s' {} {}"
  by (auto simp: asks_def intro: exI [of _ "[]"])

lemma asks_call: "l3_log s' = l3_log s @ [RouteAction a (ofp_route_of rt onhs)] \<Longrightarrow>
    asks s s' (if a = OFPROTO_ROUTE_ADD then {} else hops (rt_prefix rt) onhs)
              (if a = OFPROTO_ROUTE_ADD then hops (rt_prefix rt) onhs else {})"
  by (auto simp: asks_def ofp_route_of_def)

lemma asks_trans: "asks s s1 D N \<Longrightarrow> asks s1 s2 E M \<Longrightarrow> asks s s2 (D \<union> E) (N - E \<union> M)"
  unfolding asks_def by (elim exE conjE, intro exI conjI, simp) auto

lemma asks_push:
  "asks s (if onhs \<noteq> [] then vrf_ofproto_route_add env onhs rt s else s) {} (hops (rt_prefix rt) onhs)"
  using asks_call [of "vrf_ofproto_route_add env onhs rt s" s OFPROTO_ROUTE_ADD rt onhs] asks_nothing [of s s] by simp

lemma asks_withdraw:
  "asks s (if onhs \<noteq> [] then vrf_ofproto_route_delete env onhs rt d s else s) (hops (rt_prefix rt) onhs) {}"
  using asks_call [of "vrf_ofproto_route_delete env onhs rt d s" s
      "if d then OFPROTO_ROUTE_DELETE else OFPROTO_ROUTE_DELETE_NH" rt onhs] asks_nothing [of s s]
  by (cases d) auto

lemma asks_cong: "asks s s' D N \<Longrightarrow> l3_log t = l3_log s \<Longrightarrow> l3_log t' = l3_log s' \<Longrightarrow> asks t t' D N"
  by (simp add: asks_def)

section \<open>The hops of one route\<close>

lemma nh_hop_id: "(ip_addr nh = None \<longleftrightarrow> port_name nh \<noteq> None) \<Longrightarrow> snd (snd (nh_hop p nh)) = nh_key nh"
  by (auto simp: nh_hop_def nh_key_def split: option.split)

lemma nh_hop_prefix [simp]: "fst (nh_hop p nh) = p"
  by (simp add: nh_hop_def split: option.split)

lemma set_nh_hop [simp]: "(p, on_type (vrf_ofproto_set_nh env s nh), on_id (vrf_ofproto_set_nh env s nh)) = nh_hop p nh"
  by (simp add: vrf_ofproto_set_nh_def nh_hop_def port_nh_def split: option.split)

lemma set_nh_hops: "hops p (map (vrf_ofproto_set_nh env s) nhs) = nh_hop p ` set nhs"
  by (induction nhs) simp_all

lemma update_resolved_hop:
  assumes "vrf_ofproto_update_resolved_nh env s nh = Some o'"
  shows "(p, on_type o', on_id o') = nh_hop p nh"
  using assms by (auto simp: vrf_ofproto_update_resolved_nh_def nh_hop_def port_nh_def split: option.splits)

lemma not_updated_unresolved:
  "vrf_ofproto_update_resolved_nh env s nh = None \<Longrightarrow> unresolved env s (nh_hop p nh)"
  by (auto simp: vrf_ofproto_update_resolved_nh_def nh_hop_def unresolved_def split: option.splits)

lemma unresolved_cong: "all_neighbors s' = all_neighbors s \<Longrightarrow> unresolved env s' h = unresolved env s h"
  by (simp add: unresolved_def resolved_egress_def neighbor_hash_lookup_def)

text \<open>A nexthop that joins a route adds its hop.\<close>

lemma nexthop_add_hops:
  assumes "vrf_nexthop_add rt row s = (nh, rt', s')"
  shows "route_hops rt' = (case nh of None \<Rightarrow> route_hops rt | Some h \<Rightarrow> insert (nh_hop (rt_prefix rt) h) (route_hops rt))"
    "rt_prefix rt' = rt_prefix rt" "all_neighbors s' = all_neighbors s"
  using nexthop_add_effect [OF assms]
  by (cases "nh_row_valid row"; auto simp: route_hops_def grows_def)+

lemma add_single_hops:
  assumes "add_single_nhs env rows rt s = (onhs, rt', s')"
  shows "route_hops rt' = route_hops rt \<union> hops (rt_prefix rt) onhs"
  using assms
proof (induction rows arbitrary: rt s onhs)
  case (Cons row rows)
  show ?case
  proof (cases "nh_row_usable row")
    case True
    obtain nh rt1 s1 where 1: "vrf_nexthop_add rt row s = (nh, rt1, s1)" by (rule prod_cases3)
    obtain onhs1 where 2: "add_single_nhs env rows rt1 s1 = (onhs1, rt', s')"
      "onhs = (case nh of None \<Rightarrow> onhs1 | Some h \<Rightarrow> vrf_ofproto_set_nh env s1 h # onhs1)"
      using Cons.prems True 1 by (cases nh) (auto simp: Let_def split: prod.splits)
    show ?thesis using Cons.IH [OF 2(1)] nexthop_add_hops [OF 1] 2(2) by (cases nh) auto
  qed (use Cons in simp)
qed simp

lemma add_new_hops:
  assumes "add_new_nhs env is_ecmp rows rt s = (onhs, rt', s')"
  shows "route_hops rt \<union> hops (rt_prefix rt) onhs \<subseteq> route_hops rt' \<and>
    (\<forall>h\<in>route_hops rt'. h \<in> route_hops rt \<or> h \<in> hops (rt_prefix rt) onhs \<or> unresolved env s h)"
  using assms
proof (induction rows arbitrary: rt s onhs)
  case (Cons row rows)
  show ?case
  proof (cases "vrf_route_nexthop_lookup env rt (nhr_ip_address row) (nh_row_port row)")
    case None
    obtain nh rt1 s1 where 1: "vrf_nexthop_add rt row s = (nh, rt1, s1)" by (rule prod_cases3)
    define onh where "onh h = (if is_ecmp then vrf_ofproto_update_resolved_nh env s1 h else Some (vrf_ofproto_set_nh env s1 h))" for h
    obtain onhs1 where 2: "add_new_nhs env is_ecmp rows rt1 s1 = (onhs1, rt', s')"
      "onhs = (case nh of None \<Rightarrow> onhs1 | Some h \<Rightarrow> (case onh h of None \<Rightarrow> onhs1 | Some o' \<Rightarrow> o' # onhs1))"
      using Cons.prems None 1 by (cases nh) (auto simp: Let_def onh_def split: prod.splits)
    have hop: "(p, on_type o', on_id o') = nh_hop p h" if "onh h = Some o'" for p h o'
      using that update_resolved_hop by (auto simp: onh_def split: if_splits)
    note add = nexthop_add_hops [OF 1]
    have un: "unresolved env s (nh_hop p h)" if "onh h = None" for p h
      using that not_updated_unresolved [of env s1 h p] unresolved_cong [OF add(3)] by (simp add: onh_def split: if_splits)
    let ?H = "hops (rt_prefix rt)"
    have new: "?H onhs1 \<subseteq> ?H onhs \<and> ?H onhs \<subseteq> ?H onhs1 \<union> route_hops rt1 \<and>
        (\<forall>h\<in>route_hops rt1. h \<in> route_hops rt \<or> h \<in> ?H onhs \<or> unresolved env s h)"
    proof (cases nh)
      case (Some h)
      then show ?thesis using add(1) 2(2) un [of h "rt_prefix rt"] hop [of h _ "rt_prefix rt"] by (cases "onh h") auto
    qed (use add(1) 2(2) in simp)
    have "route_hops rt1 \<union> ?H onhs1 \<subseteq> route_hops rt'"
      "\<forall>h\<in>route_hops rt'. h \<in> route_hops rt1 \<or> h \<in> ?H onhs1 \<or> unresolved env s h"
      using Cons.IH [OF 2(1)] by (simp_all add: add(2) unresolved_cong [OF add(3)])
    moreover have "route_hops rt \<subseteq> route_hops rt1" using add(1) by (cases nh) auto
    ultimately show ?thesis using new by blast
  qed (use Cons in simp)
qed simp

text \<open>The hops of a multipath route: those the resolved, port and fallback entries stand for.\<close>

definition nh_of_row :: "nexthop_row \<Rightarrow> nexthop \<Rightarrow> bool" where
  "nh_of_row row nh \<longleftrightarrow> nh_key nh = nh_row_key row \<and> (ip_addr nh = None \<longleftrightarrow> port_name nh \<noteq> None) \<and>
     ip_addr nh = nhr_ip_address row \<and> (nhr_ip_address row = None \<longrightarrow> port_name nh = nh_row_port row)"

lemma nexthop_add_row:
  "vrf_nexthop_add rt row s = (nh, rt', s') \<Longrightarrow> nh_row_valid row \<Longrightarrow>
     \<exists>h. nh = Some h \<and> nexthops rt' = nexthops rt @ [h] \<and> nh_of_row row h"
  unfolding nh_of_row_def by (rule nexthop_add_effect(2))

lemma add_selected_origin:
  assumes "add_selected_nhs rows rt s = (rt', s')" "nh \<in> set (nexthops rt')"
  shows "nh \<in> set (nexthops rt) \<or> (\<exists>row\<in>set rows. nh_row_usable row \<and> nh_of_row row nh)"
  using assms
proof (induction rows arbitrary: rt s)
  case (Cons row rows)
  show ?case
  proof (cases "nh_row_usable row")
    case True
    obtain h rt1 s1 where 1: "vrf_nexthop_add rt row s = (h, rt1, s1)" by (rule prod_cases3)
    with Cons.prems True have 2: "add_selected_nhs rows rt1 s1 = (rt', s')" by simp
    obtain h' where "nexthops rt1 = nexthops rt @ [h']" "nh_of_row row h'"
      using nexthop_add_row [OF 1 usable_valid [OF True]] by blast
    with Cons.IH [OF 2 Cons.prems(2)] True show ?thesis by auto
  qed (use Cons in auto)
qed simp

lemma found_same_hop:
  assumes "vrf_route_nexthop_lookup env rt (nhr_ip_address row) (nh_row_port row) = Some nh'"
    and "nh_of_row row nh" "nh_row_single row" "nhs_single rt"
  shows "nh_hop p nh' = nh_hop p nh"
proof -
  have "ip_addr nh' = None \<longleftrightarrow> port_name nh' \<noteq> None"
    using nexthop_lookup_SomeD(1) [OF assms(1)] assms(4) by (simp add: nhs_single_def)
  with nexthop_lookup_SomeD(2) [OF assms(1)] assms(2,3) show ?thesis
    by (cases "nhr_ip_address row") (auto simp: nh_of_row_def nh_row_single_def nh_row_port_def nh_hop_def split: option.splits list.splits)
qed

lemma multipath_parts:
  assumes "vrf_ofproto_add_resolved_nh env row rt s = (onhs, rt', s')"
  shows "add_selected_nhs (rr_nexthops row) rt s = (rt', s')"
    "onhs = (if List.map_filter (ecmp_nh env s' rt') (rr_nexthops row) = []
      then first_unresolved_nh env rt' (rr_nexthops row) else List.map_filter (ecmp_nh env s' rt') (rr_nexthops row))"
  using assms by (auto simp: vrf_ofproto_add_resolved_nh_def Let_def split: prod.splits)

lemma first_unresolved_hops:
  "nhs_single rt \<Longrightarrow> hops (rt_prefix rt) (first_unresolved_nh env rt rows) \<subseteq> route_hops rt"
proof (induction rows)
  case (Cons row rows)
  have "(rt_prefix rt, OFPROTO_NH_IPADDR, the (ip_addr nh)) \<in> route_hops rt"
    if "vrf_route_nexthop_lookup env rt ip None = Some nh" for ip nh
  proof -
    have nh: "nh \<in> set (nexthops rt)" "ip_addr nh \<noteq> None" using nexthop_lookup_SomeD [OF that] by auto
    then have "port_name nh = None" using Cons.prems by (auto simp: nhs_single_def)
    then show ?thesis using nh by (auto simp: route_hops_def nh_hop_def image_iff intro!: bexI [of _ nh])
  qed
  with Cons show ?case by (auto split: option.split)
qed simp

lemma multipath_hops_cached:
  assumes "vrf_ofproto_add_resolved_nh env row rt s = (onhs, rt', s')" "nhs_single rt'"
  shows "hops (rt_prefix rt') onhs \<subseteq> route_hops rt'"
proof -
  have "(rt_prefix rt', on_type o', on_id o') \<in> route_hops rt'" if "ecmp_nh env s' rt' r = Some o'" for r o'
  proof -
    obtain nh where nh: "vrf_route_nexthop_lookup env rt' (nhr_ip_address r) (nh_row_port r) = Some nh"
      "vrf_ofproto_update_resolved_nh env s' nh = Some o'"
      using \<open>ecmp_nh env s' rt' r = Some o'\<close> by (auto simp: ecmp_nh_def split: option.splits if_splits)
    then show ?thesis
      using nexthop_lookup_SomeD(1) [OF nh(1)] update_resolved_hop [OF nh(2), of "rt_prefix rt'"] by (simp add: route_hops_def)
  qed
  then have "hops (rt_prefix rt') (List.map_filter (ecmp_nh env s' rt') (rr_nexthops row)) \<subseteq> route_hops rt'"
    by (auto simp: hops_def set_map_filter)
  with first_unresolved_hops [OF assms(2)] show ?thesis unfolding multipath_parts(2) [OF assms(1)] by simp
qed

lemma multipath_hops_complete:
  assumes "vrf_ofproto_add_resolved_nh env row rt s = (onhs, rt', s')" "nhs_single rt'" "nexthops rt = []"
    "\<forall>r\<in>set (rr_nexthops row). nh_row_single r" "h \<in> route_hops rt'"
  shows "h \<in> hops (rt_prefix rt') onhs \<or> unresolved env s' h"
proof -
  let ?p = "rt_prefix rt'"
  obtain nh where nh: "nh \<in> set (nexthops rt')" "h = nh_hop ?p nh" using assms(5) by (auto simp: route_hops_def)
  obtain r where r: "r \<in> set (rr_nexthops row)" "nh_row_usable r" "nh_of_row r nh"
    using add_selected_origin [OF multipath_parts(1) [OF assms(1)] nh(1)] assms(3) by auto
  have "vrf_route_nexthop_lookup env rt' (nhr_ip_address r) (nh_row_port r) \<noteq> None"
    using lookup_of_added [of nh r rt' env] r nh(1) assms(4) usable_valid [of r] by (auto simp: nh_of_row_def)
  then obtain nh' where nh': "vrf_route_nexthop_lookup env rt' (nhr_ip_address r) (nh_row_port r) = Some nh'" by auto
  have h: "h = nh_hop ?p nh'" using found_same_hop [OF nh' r(3) _ assms(2)] r(1) assms(4) nh(2) by metis
  show ?thesis
  proof (cases "vrf_ofproto_update_resolved_nh env s' nh'")
    case None
    then show ?thesis using not_updated_unresolved [of env s' nh' ?p] h by simp
  next
    case (Some o')
    then have "ecmp_nh env s' rt' r = Some o'" using nh' r(2) by (simp add: ecmp_nh_def)
    with r(1) have o': "o' \<in> set (List.map_filter (ecmp_nh env s' rt') (rr_nexthops row))" by (auto simp: set_map_filter)
    then have "o' \<in> set onhs" unfolding multipath_parts(2) [OF assms(1)] by auto
    then have "(?p, on_type o', on_id o') \<in> hops ?p onhs" by (simp add: hops_def)
    with update_resolved_hop [OF Some, of ?p] h show ?thesis by simp
  qed
qed

section \<open>The operations on a route\<close>

text \<open>
  An operation replaces the hops \<open>A\<close> of one route by \<open>B\<close> and leaves the hops \<open>R\<close> of the others.  In the
  cache the route is told from the others by its address.
\<close>

definition other_hops :: "route \<Rightarrow> 'a vrf_scheme \<Rightarrow> hop set" where
  "other_hops rt s = (\<Union>x\<in>{x \<in> set (all_routes s). rid x \<noteq> rid rt}. route_hops x)"

lemma swap_not_stale:
  assumes "asks s s' D N" "cached_hops s = A \<union> R" "cached_hops s' = B \<union> R" "A - D \<subseteq> B" "N \<subseteq> B"
  shows "carries nothing_stale s s'"
  using assms(1) by (rule asks_carries) (use assms(2-5) in \<open>unfold nothing_stale_def, blast\<close>)

lemma swap_not_missing:
  assumes "asks s s' D N" "cached_hops s = A \<union> R" "cached_hops s' = B \<union> R" "all_neighbors s' = all_neighbors s"
    "\<forall>h\<in>B. h \<in> A - D \<or> h \<in> N \<or> unresolved env s h" "D \<inter> R = {}"
  shows "carries (nothing_missing env) s s'"
  using assms(1)
proof (rule asks_carries)
  fix T assume "nothing_missing env s T"
  then show "nothing_missing env s' (T - D \<union> N)"
    unfolding nothing_missing_def assms(2,3) unresolved_cong [OF assms(4)] using assms(5,6) by blast
qed

lemma cached_split:
  assumes "distinct (map rid (all_routes s))" "rt \<in> set (all_routes s)"
  shows "cached_hops s = route_hops rt \<union> other_hops rt s"
  using assms by (auto simp: cached_hops_def other_hops_def distinct_map inj_on_def)

lemma cached_put:
  assumes "all_routes s' = map (\<lambda>x. if rid x = rid rt then rt' else x) (all_routes s)" "rt \<in> set (all_routes s)"
  shows "cached_hops s' = route_hops rt' \<union> other_hops rt s"
  using assms by (auto simp: cached_hops_def other_hops_def)

lemma wf_rids: "cache_wf s \<Longrightarrow> distinct (map rid (all_routes s))"
  by (simp add: cache_wf_def cache_inv_def)

lemma route_delete_asks:
  assumes "cache_wf s" "rt \<in> set (all_routes s)"
  shows "asks s (vrf_route_delete env rt s) (route_hops rt) {}"
    "cached_hops (vrf_route_delete env rt s) = other_hops rt s"
proof -
  let ?s0 = "s\<lparr>all_routes := filter (\<lambda>x. rid x \<noteq> rid rt) (all_routes s)\<rparr>"
  obtain onhs rt1 s1 where 1: "delete_route_nhs env (nexthops rt) rt ?s0 = (onhs, rt1, s1)" by (rule prod_cases3)
  note eff = delete_route_nhs_effect [OF 1]
  have "l3_log s1 = l3_log s" using eff(3) by auto
  moreover have "hops (rt_prefix rt1) onhs = route_hops rt" using eff(1,2) by (simp add: set_nh_hops route_hops_def)
  moreover have "vrf_route_delete env rt s = (if onhs \<noteq> [] then vrf_ofproto_route_delete env onhs rt1 True s1 else s1)"
    by (simp add: vrf_route_delete_def 1)
  ultimately show "asks s (vrf_route_delete env rt s) (route_hops rt) {}"
    using asks_cong [OF asks_withdraw [of s1 onhs env rt1 True], of s "vrf_route_delete env rt s"] by simp
  show "cached_hops (vrf_route_delete env rt s) = other_hops rt s"
    using route_delete_effect(3) [OF assms, of env] by (simp add: cached_hops_def other_hops_def)
qed

lemma route_add_asks:
  assumes "cache_wf s"
  obtains rt N where "asks s (vrf_route_add env row s) {} N"
    "cached_hops (vrf_route_add env row s) = route_hops rt \<union> cached_hops s" "N \<subseteq> route_hops rt"
    "(\<forall>r\<in>set (rr_nexthops row). nh_row_single r) \<longrightarrow> (\<forall>h\<in>route_hops rt. h \<in> N \<or> unresolved env s h)"
proof -
  obtain rt0 s0 onhs rt s1 where rt0: "nexthops rt0 = []" and s0: "keeps_vrf s s0" "l3_log s0 = l3_log s"
    and 1: "(if length (rr_nexthops row) > 1 then vrf_ofproto_add_resolved_nh env row rt0 s0
      else add_single_nhs env (rr_nexthops row) rt0 s0) = (onhs, rt, s1)"
    and g: "grows rt0 s0 rt s1" and inv: "cache_inv (rt # all_routes s) s1"
    and res: "vrf_route_add env row s =
       (let s2 = if onhs \<noteq> [] then vrf_ofproto_route_add env onhs rt s1 else s1 in s2\<lparr>all_routes := all_routes s @ [rt]\<rparr>)"
    by (rule route_add_parts [OF assms, of row env])
  let ?N = "hops (rt_prefix rt) onhs"
  have "all_neighbors s1 = all_neighbors s" "rt_prefix rt0 = rt_prefix rt" "l3_log s1 = l3_log s"
    using g s0 by (simp_all add: grows_def keeps_vrf_def)
  note s1 = this
  have hops: "?N \<subseteq> route_hops rt \<and>
      ((\<forall>r\<in>set (rr_nexthops row). nh_row_single r) \<longrightarrow> (\<forall>h\<in>route_hops rt. h \<in> ?N \<or> unresolved env s h))"
  proof (cases "length (rr_nexthops row) > 1")
    case True
    then have 2: "vrf_ofproto_add_resolved_nh env row rt0 s0 = (onhs, rt, s1)" using 1 by simp
    from multipath_hops_cached [OF 2] multipath_hops_complete [OF 2] cache_inv_single [OF inv] rt0
    show ?thesis by (simp add: unresolved_cong [OF s1(1)])
  next
    case False
    then have 2: "add_single_nhs env (rr_nexthops row) rt0 s0 = (onhs, rt, s1)" using 1 by simp
    show ?thesis using add_single_hops [OF 2] rt0 s1(2) by (simp add: route_hops_def)
  qed
  have "asks s (vrf_route_add env row s) {} ?N"
    by (rule asks_cong [OF asks_push [of s1 onhs env rt]]) (simp_all add: s1(3) res Let_def)
  moreover have "cached_hops (vrf_route_add env row s) = route_hops rt \<union> cached_hops s"
    by (simp add: cached_hops_def res Let_def)
  ultimately show thesis using that hops by blast
qed

lemma route_modify_asks:
  assumes "cache_wf s" "rt \<in> set (all_routes s)"
  obtains rt' D N where "asks s (vrf_route_modify env rt row s) D N"
    "cached_hops (vrf_route_modify env rt row s) = route_hops rt' \<union> other_hops rt s"
    "D \<subseteq> route_hops rt" "route_hops rt - D \<subseteq> route_hops rt'" "N \<subseteq> route_hops rt'"
    "\<forall>h\<in>route_hops rt'. h \<in> route_hops rt - D \<or> h \<in> N \<or> unresolved env s h"
proof -
  let ?rts = "filter (\<lambda>x. rid x \<noteq> rid rt) (all_routes s)" and ?p = "rt_prefix rt" and ?gone = "gone_nhs rt row"
  obtain s1 s2 rt1 onhs rt2 s3 where
    rt1: "rt1 = rt\<lparr>nexthops := filter (\<lambda>x. shash_find_data (current_nhs row) (nh_key x) \<noteq> None) (nexthops rt)\<rparr>"
    and s1: "\<exists>a. s1 = s\<lparr>all_nexthops := a\<rparr>"
    and s2: "s2 = (if ?gone \<noteq> [] then vrf_ofproto_route_delete env (map (vrf_ofproto_set_nh env s) ?gone) rt1 False s1 else s1)"
    and add: "add_new_nhs env (length (rr_nexthops row) > 1) (map snd (current_nhs row)) rt1 s2 = (onhs, rt2, s3)"
    and g: "grows rt1 s2 rt2 s3"
    and res: "vrf_route_modify env rt row s =
       (if onhs \<noteq> [] then vrf_ofproto_route_add env onhs rt2 (put_route rt2 s3) else put_route rt2 s3)"
    by (rule route_modify_parts [OF assms, of row env])
  define D where "D = nh_hop ?p ` set ?gone"
  have log: "l3_log s1 = l3_log s" "l3_log (put_route rt2 s3) = l3_log s2" "all_neighbors s2 = all_neighbors s"
    "rt_prefix rt2 = ?p" "rt_prefix rt1 = ?p" "all_routes s3 = all_routes s" "rid rt2 = rid rt"
    using s1 g by (auto simp: put_route_def grows_def s2 rt1)
  have "asks s s2 D {}"
    by (rule asks_cong [OF asks_withdraw [of s1 "map (vrf_ofproto_set_nh env s) ?gone" env rt1 False, unfolded set_nh_hops log(5), folded D_def]])
      (simp_all add: log(1) s2)
  moreover have "asks s2 (vrf_route_modify env rt row s) {} (hops ?p onhs)"
    by (rule asks_cong [OF asks_push [of "put_route rt2 s3" onhs env rt2, unfolded log(4)]]) (simp_all add: log(2) res)
  ultimately have asks: "asks s (vrf_route_modify env rt row s) D (hops ?p onhs)"
    using asks_trans by fastforce
  have "all_routes (vrf_route_modify env rt row s) = map (\<lambda>x. if rid x = rid rt then rt2 else x) (all_routes s)"
    by (simp add: res put_route_def log(6,7))
  then have cached: "cached_hops (vrf_route_modify env rt row s) = route_hops rt2 \<union> other_hops rt s"
    by (rule cached_put) (rule assms(2))
  have single: "snd (snd (nh_hop p nh)) = nh_key nh" if "nh \<in> set (nexthops rt)" for p nh
    using assms that by (intro nh_hop_id) (auto simp: cache_wf_def cache_inv_def nh_ok_def)
  have kept: "route_hops rt1 = route_hops rt - D"
  proof -
    have "nh_hop ?p x \<noteq> nh_hop ?p y" if "x \<in> set (nexthops rt1)" "y \<in> set ?gone" for x y
      using that single [of x ?p] single [of y ?p] by (auto simp: rt1 gone_nhs_def)
    then have "route_hops rt1 \<inter> D = {}" unfolding route_hops_def D_def log(5) by blast
    moreover have "set (nexthops rt) = set (nexthops rt1) \<union> set ?gone" by (auto simp: rt1 gone_nhs_def)
    then have "route_hops rt = route_hops rt1 \<union> D" unfolding route_hops_def D_def log(5) by (simp only: image_Un)
    ultimately show ?thesis by blast
  qed
  have "D \<subseteq> route_hops rt" by (auto simp: D_def route_hops_def gone_nhs_def)
  moreover note add_new_hops [OF add, unfolded kept log(5) unresolved_cong [OF log(3)]]
  ultimately show thesis using that [OF asks cached] by blast
qed

section \<open>The operations on a neighbor\<close>

text \<open>
  \<open>nb_ok env s s'\<close>: the routes are untouched, only cached hops are asked for, and a hop whose address
  became resolved is among them.
\<close>

definition nb_ok :: "l3_env \<Rightarrow> l3 \<Rightarrow> l3 \<Rightarrow> bool" where
  "nb_ok env s s' \<longleftrightarrow> nb_frame s s' \<and> (\<exists>N. asks s s' {} N \<and> N \<subseteq> cached_hops s \<and>
     (\<forall>h\<in>cached_hops s. unresolved env s h \<longrightarrow> unresolved env s' h \<or> h \<in> N))"

definition nb_hops :: "string \<Rightarrow> 'a vrf_scheme \<Rightarrow> hop set" where
  "nb_hops ip s = {h \<in> cached_hops s. snd h = (OFPROTO_NH_IPADDR, ip)}"

definition egress_kept :: "l3_env \<Rightarrow> string set \<Rightarrow> l3 \<Rightarrow> l3 \<Rightarrow> bool" where
  "egress_kept env A s s' \<longleftrightarrow> (\<forall>a. a \<notin> A \<longrightarrow> resolved_egress env s a = None \<longrightarrow> resolved_egress env s' a = None)"

lemma cached_hops_frame: "nb_frame s s' \<Longrightarrow> cached_hops s' = cached_hops s"
  by (simp add: nb_frame_def cached_hops_def)

lemma nb_ok_refl [simp]: "nb_ok env s s"
  using asks_nothing [of s s] by (auto simp: nb_ok_def)

lemma nb_ok_trans [trans]:
  assumes "nb_ok env s s1" "nb_ok env s1 s2"
  shows "nb_ok env s s2"
proof -
  obtain N where N: "nb_frame s s1" "asks s s1 {} N" "N \<subseteq> cached_hops s"
    "\<forall>h\<in>cached_hops s. unresolved env s h \<longrightarrow> unresolved env s1 h \<or> h \<in> N"
    using assms(1) by (auto simp: nb_ok_def)
  obtain M where M: "nb_frame s1 s2" "asks s1 s2 {} M" "M \<subseteq> cached_hops s"
    "\<forall>h\<in>cached_hops s. unresolved env s1 h \<longrightarrow> unresolved env s2 h \<or> h \<in> M"
    using assms(2) cached_hops_frame [OF N(1)] by (auto simp: nb_ok_def)
  have "asks s s2 {} (N \<union> M)" using asks_trans [OF N(2) M(2)] by simp
  moreover have "nb_frame s s2" by (rule nb_frame_trans [OF N(1) M(1)])
  moreover have "\<forall>h\<in>cached_hops s. unresolved env s h \<longrightarrow> unresolved env s2 h \<or> h \<in> N \<union> M" using N(4) M(4) by blast
  ultimately show ?thesis using N(3) M(3) unfolding nb_ok_def by (meson Un_least)
qed

lemma nb_ok_wf: "nb_ok env s s' \<Longrightarrow> cache_wf s \<Longrightarrow> cache_wf s'"
  using nb_frame_wf by (auto simp: nb_ok_def)

lemma nb_ok_quiet:
  assumes "nb_frame s s'" "asks s s' {} {}" "egress_kept env {} s s'"
  shows "nb_ok env s s'"
  using assms by (auto simp: nb_ok_def egress_kept_def unresolved_def intro!: exI [of _ "{}"])

lemma nb_ok_push:
  assumes "nb_frame s s'" "asks s s' {} (nb_hops ip s)" "egress_kept env {ip} s s'"
  shows "nb_ok env s s'"
proof -
  have "unresolved env s' h \<or> h \<in> nb_hops ip s" if "h \<in> cached_hops s" "unresolved env s h" for h
    using that assms(3) by (cases h) (auto simp: unresolved_def egress_kept_def nb_hops_def)
  moreover have "nb_hops ip s \<subseteq> cached_hops s" by (auto simp: nb_hops_def)
  ultimately show ?thesis using assms(1,2) unfolding nb_ok_def by blast
qed

lemma asks_other: "l3_log s' = l3_log s @ [c] \<Longrightarrow> (\<And>T. ask c T = T) \<Longrightarrow> asks s s' {} {}"
  by (auto simp: asks_def intro: exI [of _ "[c]"])

text \<open>The pushes made for an address ask for all cached hops with this address.\<close>

lemma asked_pushes:
  "asked (neighbor_pushes s n b nhs) T = T \<union>
     {(rt_prefix (the (deref_route s (nh_route nh))), OFPROTO_NH_IPADDR, nb_ip_address n) |nh. nh \<in> set nhs \<and> ip_addr nh = Some (nb_ip_address n)}"
proof (induction nhs arbitrary: T)
  case (Cons nh nhs)
  have "neighbor_pushes s n b (nh # nhs) = neighbor_pushes s n b [nh] @ neighbor_pushes s n b nhs"
    by (simp add: neighbor_pushes_def)
  moreover have "asked (neighbor_pushes s n b [nh]) T =
      (if ip_addr nh = Some (nb_ip_address n)
       then insert (rt_prefix (the (deref_route s (nh_route nh))), OFPROTO_NH_IPADDR, nb_ip_address n) T else T)"
    by (simp add: neighbor_pushes_def neighbor_nh_def ofp_route_of_def)
  ultimately show ?case using Cons.IH by auto
qed (simp add: neighbor_pushes_def)

lemma pushed_hops:
  assumes "cache_wf s"
  shows "{(rt_prefix (the (deref_route s (nh_route nh))), OFPROTO_NH_IPADDR, ip) |nh. nh \<in> set (all_nexthops s) \<and> ip_addr nh = Some ip}
    = nb_hops ip s" (is "?L = _")
proof
  have ok: "ip_addr nh = None \<longleftrightarrow> port_name nh \<noteq> None" "nh_route nh = rid rt" if "rt \<in> set (all_routes s)" "nh \<in> set (nexthops rt)" for rt nh
    using assms that by (auto simp: cache_wf_def cache_inv_def nh_ok_def)
  show "?L \<subseteq> nb_hops ip s"
  proof
    fix h assume "h \<in> ?L"
    then obtain nh where nh: "nh \<in> set (all_nexthops s)" "ip_addr nh = Some ip"
      "h = (rt_prefix (the (deref_route s (nh_route nh))), OFPROTO_NH_IPADDR, ip)" by auto
    obtain rt where rt: "deref_route s (nh_route nh) = Some rt" "rt \<in> set (all_routes s)" "nh \<in> set (nexthops rt)"
      by (rule deref_all_nexthops [OF assms nh(1)])
    have "h = nh_hop (rt_prefix rt) nh" using nh(2,3) rt(1) ok(1) [OF rt(2,3)] by (simp add: nh_hop_def split: option.split)
    then have "h \<in> cached_hops s" using rt by (auto simp: cached_hops_def route_hops_def)
    then show "h \<in> nb_hops ip s" using nh(3) by (simp add: nb_hops_def)
  qed
  show "nb_hops ip s \<subseteq> ?L"
  proof
    fix h assume "h \<in> nb_hops ip s"
    then obtain rt nh where rt: "rt \<in> set (all_routes s)" "nh \<in> set (nexthops rt)" "h = nh_hop (rt_prefix rt) nh"
      "snd h = (OFPROTO_NH_IPADDR, ip)" by (auto simp: nb_hops_def cached_hops_def route_hops_def)
    then have ip: "ip_addr nh = Some ip" "h = (rt_prefix rt, OFPROTO_NH_IPADDR, ip)"
      using ok(1) [OF rt(1,2)] by (auto simp: nh_hop_def split: option.splits)
    have "set (all_nexthops s) = set (filter has_ip (concat (map nexthops (all_routes s))))"
      using assms unfolding cache_wf_def cache_inv_def by (metis set_mset_mset)
    then have "nh \<in> set (all_nexthops s)" using rt(1,2) ip(1) by (auto simp: has_ip_def)
    moreover have "deref_route s (nh_route nh) = Some rt"
      using find_distinct_key [of rid "all_routes s" rt] wf_rids [OF assms] rt(1) ok(2) [OF rt(1,2)] by (simp add: deref_route_def)
    ultimately show "h \<in> ?L" using ip by force
  qed
qed

lemma update_neighbor_asks:
  assumes "cache_wf s"
  shows "asks s (vrf_ofproto_update_route_with_neighbor env n b s) {} (nb_hops (nb_ip_address n) s)"
  using update_route_with_neighbor_effect(1) [OF assms, of env n b] asked_pushes [of s n b "all_nexthops s"]
    pushed_hops [OF assms, of "nb_ip_address n"] by (auto simp: asks_def)

text \<open>What the steps on the neighbor cache do to the egress ids.\<close>

lemma lookup_find: "neighbor_hash_lookup env s ip = List.find (\<lambda>n. nb_ip_address n = ip) (all_neighbors s)"
  unfolding neighbor_hash_lookup_def by (rule arg_cong [where f = "\<lambda>P. List.find P (all_neighbors s)"]) auto

lemma find_map_keep:
  "(\<And>x. P (f x) = P x) \<Longrightarrow> List.find P (map f xs) = map_option f (List.find P xs)"
  by (induction xs) auto

lemma egress_append:
  "l3_egress_id n \<le> 0 \<Longrightarrow> resolved_egress env (s\<lparr>all_neighbors := all_neighbors s @ [n]\<rparr>) ip = resolved_egress env s ip"
proof -
  assume "l3_egress_id n \<le> 0"
  moreover have "List.find P (xs @ [n]) = (case List.find P xs of Some x \<Rightarrow> Some x | None \<Rightarrow> if P n then Some n else None)" for P xs
    by (induction xs) auto
  ultimately show ?thesis by (simp add: resolved_egress_def lookup_find split: option.split)
qed

lemma egress_cfg:
  "resolved_egress env (s\<lparr>all_neighbors := map (\<lambda>n. n\<lparr>nb_cfg := f n\<rparr>) (all_neighbors s)\<rparr>) ip = resolved_egress env s ip"
  by (simp add: resolved_egress_def lookup_find find_map_keep split: option.split)

lemma lookup_put_neighbor:
  "neighbor_hash_lookup env (put_neighbor n s) ip =
     (case neighbor_hash_lookup env s ip of None \<Rightarrow> None | Some x \<Rightarrow> Some (if ip = nb_ip_address n then n else x))"
proof -
  have "List.find (\<lambda>x. nb_ip_address x = ip) (map (\<lambda>x. if nb_ip_address x = nb_ip_address n then n else x) xs) =
      map_option (\<lambda>x. if nb_ip_address x = nb_ip_address n then n else x) (List.find (\<lambda>x. nb_ip_address x = ip) xs)" for xs
    by (rule find_map_keep) auto
  then show ?thesis
    by (auto simp: lookup_find put_neighbor_def split: option.split dest: find_Some_conv)
qed

lemma lookup_hash_delete:
  "neighbor_hash_lookup env (neighbor_hash_delete n s) ip = (if ip = nb_ip_address n then None else neighbor_hash_lookup env s ip)"
proof -
  have "List.find (\<lambda>x. nb_ip_address x = ip) (filter (\<lambda>x. nb_ip_address x \<noteq> nb_ip_address n) xs) =
      (if ip = nb_ip_address n then None else List.find (\<lambda>x. nb_ip_address x = ip) xs)" for xs
    by (induction xs) auto
  from this [of "all_neighbors s"] show ?thesis unfolding lookup_find neighbor_hash_delete_def by simp
qed

lemma egress_same_neighbors: "all_neighbors s' = all_neighbors s \<Longrightarrow> resolved_egress env s' ip = resolved_egress env s ip"
  by (simp add: resolved_egress_def neighbor_hash_lookup_def)

lemma egress_ops [simp]:
  "ip \<noteq> nb_ip_address n \<Longrightarrow> resolved_egress env (put_neighbor n s) ip = resolved_egress env s ip"
  "ip \<noteq> nb_ip_address n \<Longrightarrow> resolved_egress env (neighbor_hash_delete n s) ip = resolved_egress env s ip"
  "resolved_egress env (neighbor_hash_delete n s) (nb_ip_address n) = None"
  by (simp_all add: resolved_egress_def lookup_put_neighbor lookup_hash_delete split: option.split)

lemma egress_calls [simp]:
  "resolved_egress env (log_call c s) ip = resolved_egress env s ip"
  "resolved_egress env (vrf_ofproto_update_route_with_neighbor env m b s) ip = resolved_egress env s ip"
  by (rule egress_same_neighbors, simp)+

lemma egress_put_same:
  assumes "neighbor_hash_lookup env s (nb_ip_address n) = Some m" "l3_egress_id n = l3_egress_id m"
  shows "resolved_egress env (put_neighbor n s) ip = resolved_egress env s ip"
  using assms by (cases "ip = nb_ip_address n") (simp_all add: resolved_egress_def lookup_put_neighbor split: option.split)

text \<open>Each operation on a neighbor is \<open>nb_ok\<close>.\<close>

lemma update_then_ok:
  assumes "cache_wf s" "nb_frame s s'" "l3_log s' = l3_log (vrf_ofproto_update_route_with_neighbor env n b s) @ cs"
    "\<forall>T. asked cs T = T" "egress_kept env {nb_ip_address n} s s'"
  shows "nb_ok env s s'"
proof -
  have "asks (vrf_ofproto_update_route_with_neighbor env n b s) s' {} {}" using assms(3,4) by (auto simp: asks_def)
  from asks_trans [OF update_neighbor_asks [OF assms(1), of env n b] this]
  show ?thesis using assms(2,5) by (intro nb_ok_push) simp_all
qed

lemma set_host_forms:
  assumes "neighbor_set_l3_host_entry env n s = (rc, n', s')"
  shows "nb_ip_address n' = nb_ip_address n \<and>
    (s' = neighbor_hash_delete n' s \<and> rc \<noteq> 0 \<or>
     (\<exists>p v a m. s' = put_neighbor n' (log_call (AddHost p v a m) s)) \<and> rc = 0 \<or>
     (\<exists>p v a m. s' = neighbor_hash_delete n' (log_call (AddHost p v a m) s)) \<and> rc \<noteq> 0)"
  using assms by (auto simp: neighbor_set_l3_host_entry_def Let_def split: option.splits prod.splits if_splits)

lemma program_neighbor_ok:
  assumes "cache_wf s"
  shows "nb_ok env s (program_neighbor env n s)"
proof -
  obtain rc n' s' where 1: "neighbor_set_l3_host_entry env n s = (rc, n', s')" by (rule prod_cases3)
  obtain t where n': "nb_ip_address n' = nb_ip_address n"
    and s': "s' = put_neighbor n' t \<and> rc = 0 \<or> s' = neighbor_hash_delete n' t \<and> rc \<noteq> 0"
    and t: "t = s \<or> (\<exists>p v a m. t = log_call (AddHost p v a m) s)" using set_host_forms [OF 1] by blast
  have t': "asks s t {} {}" "nb_frame s t" "\<And>ip. resolved_egress env t ip = resolved_egress env s ip"
    using t asks_nothing [of s s] by (auto intro: asks_other)
  have calls: "asks s s' {} {}" using s' by (auto intro: asks_cong [OF t'(1)])
  have frame: "nb_frame s s'" using s' t'(2) by auto
  show ?thesis
  proof (cases "rc = 0")
    case True
    note upd = update_neighbor_asks [OF nb_frame_wf [OF frame assms], of env n' True]
    have "nb_hops (nb_ip_address n') s' = nb_hops (nb_ip_address n') s" by (simp add: nb_hops_def cached_hops_frame [OF frame])
    with asks_trans [OF calls upd] have "asks s (vrf_ofproto_update_route_with_neighbor env n' True s') {} (nb_hops (nb_ip_address n') s)"
      by simp
    moreover have "egress_kept env {nb_ip_address n'} s s'" using True s' t'(3) by (auto simp: egress_kept_def)
    ultimately show ?thesis using True frame
      by (simp add: program_neighbor_def 1 nb_ok_push [of s _ "nb_ip_address n'"] egress_kept_def)
  next
    case False
    then have "egress_kept env {} s s'"
      unfolding egress_kept_def using s' t'(3) by (metis egress_ops(2,3))
    with False calls frame show ?thesis by (simp add: program_neighbor_def 1 nb_ok_quiet)
  qed
qed

lemma neighbor_create_ok:
  assumes "cache_wf s"
  shows "nb_ok env s (neighbor_create env row s)"
proof -
  define n where "n = new_neighbor env row (-1)"
  define s0 where "s0 = s\<lparr>all_neighbors := all_neighbors s @ [n]\<rparr>"
  have "nb_ok env s s0"
    by (rule nb_ok_quiet) (simp_all add: s0_def nb_frame_def asks_nothing egress_kept_def egress_append n_def new_neighbor_def)
  moreover have "neighbor_create env row s = s0 \<or> neighbor_create env row s = program_neighbor env n s0"
    by (auto simp: neighbor_create_def s0_def n_def new_neighbor_def Let_def split: option.split)
  ultimately show ?thesis using program_neighbor_ok [of s0 env n] nb_ok_wf [of env s s0] nb_ok_trans assms by metis
qed

lemma delete_host_forms:
  assumes "neighbor_delete_l3_host_entry env n s = (rc, n', s')"
  shows "nb_ip_address n' = nb_ip_address n \<and>
    (s' = s \<and> n' = n \<or> (\<exists>p v a. s' = put_neighbor n' (log_call (DeleteHost p v a) s)))"
  using assms by (auto simp: neighbor_delete_l3_host_entry_def Let_def split: option.splits prod.splits)

lemma delete_host_egress:
  assumes "neighbor_delete_l3_host_entry env n s = (rc, n', s')"
  shows "\<exists>cs. l3_log s' = l3_log s @ cs \<and> (\<forall>T. asked cs T = T)"
    and "ip \<noteq> nb_ip_address n \<Longrightarrow> resolved_egress env s' ip = resolved_egress env s ip"
  using delete_host_forms [OF assms] by auto

lemma neighbor_delete_ok:
  assumes "cache_wf s"
  shows "nb_ok env s (neighbor_delete env n s)"
proof -
  let ?s1 = "vrf_ofproto_update_route_with_neighbor env n False s"
  obtain rc n' s' where 1: "neighbor_delete_l3_host_entry env n ?s1 = (rc, n', s')" by (rule prod_cases3)
  define s2 where "s2 = (if l3_egress_id n \<noteq> -1 then s' else ?s1)"
  have res: "neighbor_delete env n s = neighbor_hash_delete n s2" by (simp add: neighbor_delete_def Let_def 1 s2_def)
  have "\<exists>cs. l3_log s2 = l3_log ?s1 @ cs \<and> (\<forall>T. asked cs T = T)"
    using delete_host_egress(1) [OF 1] by (auto simp: s2_def intro: exI [of _ "[]"])
  then obtain cs where cs: "l3_log s2 = l3_log ?s1 @ cs" "\<forall>T. asked cs T = T" by blast
  have "resolved_egress env s2 ip = resolved_egress env s ip" if "ip \<noteq> nb_ip_address n" for ip
    using that delete_host_egress(2) [OF 1] by (simp add: s2_def)
  then have "egress_kept env {nb_ip_address n} s (neighbor_delete env n s)" by (simp add: egress_kept_def res)
  with update_then_ok [OF assms neighbor_delete_effect(1) [of s env n] _ cs(2), of env n False] show ?thesis
    by (simp add: res cs(1))
qed

lemma put_same_ok:
  assumes "neighbor_hash_lookup env s (nb_ip_address n) = Some m" "l3_egress_id n = l3_egress_id m"
  shows "nb_ok env s (put_neighbor n s)"
  by (rule nb_ok_quiet) (simp_all add: asks_nothing egress_kept_def egress_put_same [OF assms])

lemma neighbor_modify_ok:
  assumes "cache_wf s" "neighbor_hash_lookup env s ip = Some n"
  shows "nb_ok env s (neighbor_modify env n row s)"
proof -
  obtain pb pa a1 d1 where p: "modify_port (nb_port_name n) (nbr_port row) = (pb, pa, a1, d1)" by (rule prod_cases4)
  obtain m a2 d2 where m: "modify_mac (nb_mac n) (nbr_mac row) = (m, a2, d2)" by (rule prod_cases3)
  define n1 where "n1 = n\<lparr>nb_cfg := Some row, nb_port_name := pb, nb_mac := m\<rparr>"
  define s1 where "s1 = put_neighbor n1 s"
  let ?u = "vrf_ofproto_update_route_with_neighbor env n1 False s1"
  obtain rc n2 s2 where 2: "neighbor_delete_l3_host_entry env n1 ?u = (rc, n2, s2)" by (rule prod_cases3)
  define c where "c = ((d1 \<or> d2) \<and> l3_egress_id n1 \<noteq> -1)"
  define n3 where "n3 = (if c then n2 else n1)\<lparr>nb_port_name := pa\<rparr>"
  define s3 where "s3 = put_neighbor n3 (if c then s2 else s1)"
  have ip: "nb_ip_address n = ip" using assms(2) by (auto simp: lookup_find dest: find_Some_conv)
  have res: "neighbor_modify env n row s = s3 \<or> neighbor_modify env n row s = program_neighbor env n3 s3"
    unfolding neighbor_modify_def p m Let_def prod.case n1_def [symmetric] s1_def [symmetric] 2 c_def [symmetric]
    by (auto simp: n3_def s3_def split: option.split)
  have 1: "nb_ok env s s1" unfolding s1_def by (rule put_same_ok [of env s n1 n]) (simp_all add: n1_def ip assms(2))
  then have wf: "cache_wf s1" using nb_ok_wf assms(1) by blast
  have look: "neighbor_hash_lookup env s1 (nb_ip_address n1) = Some n1"
    by (simp add: s1_def lookup_put_neighbor n1_def ip assms(2))
  have "nb_ok env s1 s3"
  proof (cases c)
    case True
    have ip2: "nb_ip_address n2 = nb_ip_address n1" and frame: "nb_frame s1 s2"
      using delete_host_effect(1,2) [OF 2] nb_frame_trans [of s1 ?u s2] by auto
    obtain cs where cs: "l3_log s2 = l3_log ?u @ cs" "\<forall>T. asked cs T = T" using delete_host_egress(1) [OF 2] by blast
    have "egress_kept env {nb_ip_address n1} s1 s3"
      using delete_host_egress(2) [OF 2] True ip2 by (simp add: egress_kept_def s3_def n3_def)
    with update_then_ok [OF wf _ _ cs(2), of s3 env n1 False] True frame cs(1) show ?thesis by (simp add: s3_def)
  next
    case False
    then show ?thesis using put_same_ok [of env s1 n3 n1] look by (simp add: s3_def n3_def)
  qed
  with 1 have 3: "nb_ok env s s3" by (rule nb_ok_trans)
  then have "nb_ok env s (program_neighbor env n3 s3)"
    using nb_ok_trans program_neighbor_ok nb_ok_wf assms(1) by blast
  with 3 res show ?thesis by metis
qed

text \<open>The walks over the neighbors.\<close>

lemma nb_ok_fold:
  assumes "\<And>i s. cache_wf s \<Longrightarrow> nb_ok env s (f i s)" "cache_wf s"
  shows "nb_ok env s (fold f xs s)"
  using assms(2)
proof (induction xs arbitrary: s)
  case (Cons x xs)
  then have "nb_ok env s (f x s)" "cache_wf (f x s)" using assms(1) nb_ok_wf by blast+
  with Cons.IH show ?case using nb_ok_trans by fastforce
qed simp

lemma neighbor_walks_fold:
  "delete_neighbors env ns s = fold (neighbor_delete env) ns s"
  "vrf_add_neighbors env rows s = fold (\<lambda>row s. if vrf_name s = nbr_vrf row then add_neighbor env row s else s) rows s"
  "add_all_neighbors env rows s = fold (add_neighbor env) rows s"
  "modify_neighbors env rows s = fold (\<lambda>row s. if nbr_modified row \<and> \<not> nbr_inserted row
     then (case neighbor_hash_lookup env s (nbr_ip_address row) of None \<Rightarrow> s | Some n \<Rightarrow> neighbor_modify env n row s) else s) rows s"
proof -
  show "delete_neighbors env ns s = fold (neighbor_delete env) ns s" by (induction ns arbitrary: s) simp_all
qed (induction rows arbitrary: s; simp)+

lemma add_neighbor_ok: "cache_wf s \<Longrightarrow> nb_ok env s (add_neighbor env row s)"
  by (simp add: add_neighbor_def neighbor_create_ok split: option.split)

lemma neighbor_walks_ok:
  assumes "cache_wf s"
  shows "nb_ok env s (delete_neighbors env ns s)" "nb_ok env s (vrf_add_neighbors env rows s)"
    "nb_ok env s (add_all_neighbors env rows s)" "nb_ok env s (modify_neighbors env rows s)"
  unfolding neighbor_walks_fold
  by (rule nb_ok_fold [OF _ assms], simp add: neighbor_delete_ok add_neighbor_ok neighbor_modify_ok split: option.split)+

lemma reconfigure_neighbors_ok:
  assumes "cache_wf s"
  shows "nb_ok env s (vrf_reconfigure_neighbors env idl s)"
proof -
  define cur where "cur = shash_collect nbr_ip_address (filter (\<lambda>row. vrf_name s = nbr_vrf row) (idl_neighbors idl))"
  define s1 where "s1 = s\<lparr>all_neighbors := map (\<lambda>n. n\<lparr>nb_cfg := shash_find_data cur (nb_ip_address n)\<rparr>) (all_neighbors s)\<rparr>"
  define s2 where "s2 = delete_neighbors env (filter (\<lambda>n. nb_cfg n = None) (all_neighbors s1)) s1"
  define s3 where "s3 = add_all_neighbors env (idl_neighbors idl) s2"
  define s4 where "s4 = (if idl_neighbors_modified idl then modify_neighbors env (idl_neighbors idl) s3 else s3)"
  have 1: "nb_ok env s s1"
    by (rule nb_ok_quiet) (simp_all add: s1_def nb_frame_def asks_nothing egress_kept_def egress_cfg)
  also have 2: "nb_ok env s1 s2" unfolding s2_def by (rule neighbor_walks_ok(1)) (rule nb_ok_wf [OF 1 assms])
  also have "nb_ok env s2 s3"
    unfolding s3_def by (rule neighbor_walks_ok(3)) (rule nb_ok_wf [OF nb_ok_trans [OF 1 2] assms])
  finally have 3: "nb_ok env s s3" .
  have "nb_ok env s s4"
    using 3 nb_ok_trans [OF 3 neighbor_walks_ok(4) [OF nb_ok_wf [OF 3 assms]]] by (simp add: s4_def)
  moreover have "vrf_reconfigure_neighbors env idl s =
      (if idl_neighbors idl = [] then delete_neighbors env (all_neighbors s) s
       else if \<not> idl_neighbors_modified idl \<and> \<not> idl_neighbors_deleted idl \<and> \<not> idl_neighbors_inserted idl then s else s4)"
    by (simp add: vrf_reconfigure_neighbors_def Let_def s4_def s3_def s2_def s1_def cur_def)
  ultimately show ?thesis using neighbor_walks_ok(1) [OF assms] by simp
qed

section \<open>A relation the operations carry along\<close>

lemma asks_more: "asks s t {} {} \<Longrightarrow> l3_log u = l3_log t @ [c] \<Longrightarrow> (\<And>T. ask c T = T) \<Longrightarrow> asks s u {} {}"
  using asks_trans [OF _ asks_other [of u t c], of s "{}" "{}"] by simp

lemma ecmp_calls_quiet:
  assumes "asks s t {} {}"
  shows "asks s (if b then (vrf_l3_ecmp_set v t)\<lparr>ecmp_config := e\<rparr> else t) {} {}"
    "asks s (if b then (vrf_l3_ecmp_hash_set k v t)\<lparr>ecmp_config := e\<rparr> else t) {} {}"
  using assms
  by (auto simp: vrf_l3_ecmp_set_def vrf_l3_ecmp_hash_set_def
      intro: asks_more [OF assms, of _ "EcmpSet v"] asks_more [OF assms, of _ "EcmpHashSet k v"])

lemma ecmp_asks_nothing: "asks s (vrf_reconfigure_ecmp env idl s) {} {}"
proof (cases "idl_system_ecmp_config idl")
  case (Some cfg)
  show ?thesis
  proof (cases "idl_ecmp_modified idl")
    case True
    show ?thesis
      unfolding vrf_reconfigure_ecmp_def Some option.case Let_def eqTrueI [OF True] not_True_eq_False if_False
      by (intro ecmp_calls_quiet asks_nothing refl)
  qed (simp add: vrf_reconfigure_ecmp_def Some asks_nothing)
qed (simp add: vrf_reconfigure_ecmp_def asks_nothing)

text \<open>
  What a reconfiguration needs of the route and neighbor operations to carry a relation \<open>R\<close> between
  the VRF and the table along: \<open>ready\<close> is the invariant of the VRF, \<open>ok\<close> the condition on the rows of
  new routes.
\<close>

locale route_table =
  fixes env :: l3_env and R :: "l3 \<Rightarrow> hop set \<Rightarrow> bool" and ready :: "l3 \<Rightarrow> bool" and ok :: "route_row \<Rightarrow> bool"
  assumes ready_cache: "ready s \<Longrightarrow> cache_ok s"
    and ready_cong: "ready s \<Longrightarrow> all_routes s' = all_routes s \<Longrightarrow> all_nexthops s' = all_nexthops s \<Longrightarrow>
      next_ptr s' = next_ptr s \<Longrightarrow> ready s'"
    and add_law: "ready s \<Longrightarrow> ok row \<Longrightarrow> rr_key row \<notin> cache_keys s \<Longrightarrow>
      ready (vrf_route_add env row s) \<and> carries R s (vrf_route_add env row s)"
    and delete_law: "ready s \<Longrightarrow> rt \<in> set (all_routes s) \<Longrightarrow>
      ready (vrf_route_delete env rt s) \<and> carries R s (vrf_route_delete env rt s)"
    and modify_law: "ready s \<Longrightarrow> rt \<in> set (all_routes s) \<Longrightarrow>
      ready (vrf_route_modify env rt row s) \<and> carries R s (vrf_route_modify env rt row s)"
    and quiet_law: "all_routes s' = all_routes s \<Longrightarrow> all_neighbors s' = all_neighbors s \<Longrightarrow> asks s s' {} {} \<Longrightarrow> carries R s s'"
    and neighbor_law: "ready s \<Longrightarrow> nb_ok env s s' \<Longrightarrow> carries R s s'"
begin

lemma carried_delete_all:
  assumes "ready s" "set rts \<subseteq> set (all_routes s)" "distinct (map rid rts)"
  shows "ready (vrf_delete_routes env rts s) \<and> carries R s (vrf_delete_routes env rts s)"
  using assms
proof (induction rts arbitrary: s)
  case (Cons rt rts)
  let ?s = "vrf_route_delete env rt s"
  have rt: "rt \<in> set (all_routes s)" and wf: "cache_wf s" using Cons.prems ready_cache by (auto simp: cache_ok_def)
  have "set rts \<subseteq> set (all_routes ?s)"
    using Cons.prems route_delete_effect(3) [OF wf rt, of env] by (auto simp: image_iff)
  with Cons.IH [of ?s] delete_law [OF Cons.prems(1) rt] Cons.prems(3) show ?case by (auto intro: carries_trans)
qed simp

lemma carried_add_missing:
  assumes "ready s" "\<forall>r\<in>set rows. ok r"
  shows "ready (add_missing_routes env rows s) \<and> carries R s (add_missing_routes env rows s)"
  using assms
proof (induction rows arbitrary: s)
  case (Cons row rows)
  let ?s = "case vrf_route_hash_lookup env s row of None \<Rightarrow> vrf_route_add env row s | Some _ \<Rightarrow> s"
  have "ready ?s \<and> carries R s ?s"
    using add_law [OF Cons.prems(1), of row] Cons.prems route_lookup_None [of env s row] by (auto split: option.split)
  with Cons.IH [of ?s] Cons.prems(2) show ?case by (auto intro: carries_trans)
qed simp

lemma carried_modify_row:
  assumes "ready s" "rr_vrf row = vrf_name s \<Longrightarrow> ok row"
  shows "ready (modify_route_row env row s) \<and> carries R s (modify_route_row env row s)"
proof (cases "vrf_route_hash_lookup env s row")
  case None
  with add_law [OF assms(1), of row] assms route_lookup_None [of env s row] show ?thesis
    by (auto simp: modify_route_row_def)
next
  case (Some rt)
  then have "rt \<in> set (all_routes s)" by (auto dest: route_lookup_Some)
  with delete_law [OF assms(1)] modify_law [OF assms(1), of rt row] Some assms(1) show ?thesis
    by (simp add: modify_route_row_def)
qed

lemma carried_modify_rows:
  assumes "ready s" "\<forall>r\<in>set rows. rr_vrf r = vrf_name s \<longrightarrow> ok r"
  shows "ready (modify_routes env rows s) \<and> carries R s (modify_routes env rows s)"
  using assms
proof (induction rows arbitrary: s)
  case (Cons row rows)
  let ?s = "modify_route_row env row s"
  have "vrf_name ?s = vrf_name s" using cache_modify_row [OF ready_cache [OF Cons.prems(1)], of env row] by (simp add: keeps_vrf_def)
  moreover have "ready ?s \<and> carries R s ?s" using carried_modify_row Cons.prems by simp
  ultimately show ?case using Cons.IH [of ?s] Cons.prems(2) by (auto intro: carries_trans)
qed simp

lemma carried_modify_nexthops:
  assumes "ready s"
  shows "ready (modify_routes_of_nexthops env rows s) \<and> carries R s (modify_routes_of_nexthops env rows s)"
  using assms
proof (induction rows arbitrary: s)
  case (Cons row rows)
  let ?s = "if rr_nexthops row \<noteq> [] \<and> is_route_nh_rows_modified row
        then (case vrf_route_hash_lookup env s row of Some rt \<Rightarrow> vrf_route_modify env rt row s | None \<Rightarrow> s) else s"
  have "ready ?s \<and> carries R s ?s"
    using modify_law [OF Cons.prems] Cons.prems by (auto split: option.split dest: route_lookup_Some)
  with Cons.IH [of ?s] show ?case by (auto intro: carries_trans)
qed simp

lemma carried_routes:
  assumes "ready s" "\<forall>r\<in>set (idl_routes idl). rr_vrf r = vrf_name s \<longrightarrow> ok r"
  shows "ready (vrf_reconfigure_routes env idl s) \<and> carries R s (vrf_reconfigure_routes env idl s)"
proof -
  define s0 where "s0 = vrf_reconfigure_ecmp env idl s"
  have s0: "ready s0" "vrf_name s0 = vrf_name s" "carries R s s0"
    using assms(1) ready_cong [of s s0] quiet_law [of s0 s] by (simp_all add: s0_def ecmp_asks_nothing)
  then have d: "distinct (map rid (all_routes s0))" using ready_cache wf_rids by (simp add: cache_ok_def)
  define cur where "cur = shash_collect rr_hash
    (filter (\<lambda>row. vrf_is_route_row_selected row \<and> vrf_name s0 = rr_vrf row) (idl_routes idl))"
  have cur: "\<forall>r\<in>set (map snd cur). ok r" using assms(2) s0(2) by (auto simp: cur_def dest!: shash_collect_key)
  define s1 where "s1 = (if idl_routes_deleted idl
    then vrf_delete_routes env (filter (\<lambda>rt. shash_find_data cur (rt_hash rt) = None) (all_routes s0)) s0 else s0)"
  have s1: "ready s1 \<and> carries R s0 s1" "vrf_name s1 = vrf_name s0"
    using s0(1) carried_delete_all [OF s0(1)] cache_delete_all [OF ready_cache [OF s0(1)]] distinct_map_filter [OF d]
    by (auto simp: s1_def keeps_vrf_def)
  define s2 where "s2 = (if idl_routes_inserted idl then add_missing_routes env (map snd cur) s1 else s1)"
  have s2: "ready s2 \<and> carries R s1 s2" "vrf_name s2 = vrf_name s1"
    using s1(1) carried_add_missing [of s1 "map snd cur"] cur cache_add_missing [OF ready_cache, of s1 env "map snd cur"]
    by (auto simp: s2_def keeps_vrf_def)
  define s3 where "s3 = (if idl_routes_modified idl then modify_routes env (idl_routes idl) s2 else s2)"
  have "ready s3 \<and> carries R s2 s3"
    using carried_modify_rows [of s2 "idl_routes idl"] s0(2) s1(2) s2 assms(2) by (simp add: s3_def)
  with s0 s1 s2 have s3: "ready s3 \<and> carries R s s3" by (blast intro: carries_trans)
  have all: "ready (vrf_delete_routes env (all_routes s0) s0) \<and> carries R s (vrf_delete_routes env (all_routes s0) s0)"
    using carried_delete_all [OF s0(1) order_refl d] s0(3) carries_trans by blast
  have "vrf_reconfigure_routes env idl s \<in> {s0, vrf_delete_routes env (all_routes s0) s0, s3}"
    unfolding vrf_reconfigure_routes_def s0_def [symmetric] Let_def
    by (simp add: s3_def s2_def s1_def cur_def)
  with s0 s3 all show ?thesis by auto
qed

lemma carried_nexthops:
  "ready s \<Longrightarrow> ready (vrf_reconfigure_nexthops env idl s) \<and> carries R s (vrf_reconfigure_nexthops env idl s)"
  by (simp add: vrf_reconfigure_nexthops_def carried_modify_nexthops)

lemma carried_neighbors:
  assumes "ready s" "nb_ok env s s'"
  shows "ready s' \<and> carries R s s' \<and> vrf_name s' = vrf_name s"
  using neighbor_law [OF assms] ready_cong [OF assms(1)] assms(2) by (auto simp: nb_ok_def nb_frame_def)

text \<open>The three parts of the reconfiguration of a VRF, in their order.\<close>

lemma carried_all:
  assumes "ready s" "\<forall>r\<in>set (idl_routes idl). rr_vrf r = vrf_name s \<longrightarrow> ok r"
  shows "carries R s (vrf_reconfigure_nexthops env idl (vrf_reconfigure_routes env idl (vrf_reconfigure_neighbors env nidl s)))"
proof -
  have "cache_wf s" using ready_cache [OF assms(1)] by (simp add: cache_ok_def)
  note nb = carried_neighbors [OF assms(1) reconfigure_neighbors_ok [OF this, of env nidl]]
  with carried_routes [of "vrf_reconfigure_neighbors env nidl s" idl] assms(2)
  show ?thesis using carried_nexthops carries_trans by (metis (no_types, lifting))
qed

end

section \<open>The two relations\<close>

lemma carries_same:
  assumes "all_routes s' = all_routes s" "all_neighbors s' = all_neighbors s" "asks s s' {} {}"
  shows "carries nothing_stale s s'" "carries (nothing_missing env) s s'"
  using assms(1)
  by (auto intro!: asks_carries [OF assms(3)] simp: nothing_stale_def nothing_missing_def cached_hops_def unresolved_cong [OF assms(2)])

lemma nb_ok_carries:
  assumes "nb_ok env s s'"
  shows "carries nothing_stale s s'" "carries (nothing_missing env) s s'"
proof -
  obtain N where N: "nb_frame s s'" "asks s s' {} N" "N \<subseteq> cached_hops s"
    "\<forall>h\<in>cached_hops s. unresolved env s h \<longrightarrow> unresolved env s' h \<or> h \<in> N"
    using assms by (auto simp: nb_ok_def)
  note same = cached_hops_frame [OF N(1)]
  show "carries nothing_stale s s'" by (rule asks_carries [OF N(2)]) (use N(3) same in \<open>auto simp: nothing_stale_def\<close>)
  show "carries (nothing_missing env) s s'"
    by (rule asks_carries [OF N(2)]) (use N(4) in \<open>unfold nothing_missing_def same, blast\<close>)
qed

text \<open>\<open>one_source U s\<close>: the cached routes have keys in \<open>U\<close>, where no prefix comes from two protocols.\<close>

definition one_source :: "(string \<times> string) set \<Rightarrow> l3 \<Rightarrow> bool" where
  "one_source U s \<longleftrightarrow> cache_ok s \<and> cache_keys s \<subseteq> U \<and> inj_on snd U"

definition row_fits :: "(string \<times> string) set \<Rightarrow> route_row \<Rightarrow> bool" where
  "row_fits U row \<longleftrightarrow> rr_key row \<in> U \<and> (\<forall>r\<in>set (rr_nexthops row). nh_row_single r)"

lemma other_hops_disjoint:
  assumes "one_source U s" "rt \<in> set (all_routes s)"
  shows "route_hops rt \<inter> other_hops rt s = {}"
proof -
  have "rt_prefix x \<noteq> rt_prefix rt" if "x \<in> set (all_routes s)" "rid x \<noteq> rid rt" for x
  proof
    assume "rt_prefix x = rt_prefix rt"
    moreover have "rt_key x \<in> U" "rt_key rt \<in> U" using assms that by (auto simp: one_source_def cache_keys_def)
    ultimately have "rt_key x = rt_key rt" using assms(1) inj_onD [of snd U "rt_key x" "rt_key rt"] by (simp add: one_source_def rt_key_def)
    then show False using assms that by (auto simp: one_source_def cache_ok_def distinct_map inj_on_def)
  qed
  moreover have "fst h = rt_prefix x" if "h \<in> route_hops x" for h x using that by (auto simp: route_hops_def)
  ultimately show ?thesis unfolding other_hops_def disjoint_iff by (metis (mono_tags, lifting) UN_E mem_Collect_eq)
qed

interpretation stale: route_table env nothing_stale cache_ok "\<lambda>_. True" for env
proof
  fix s :: l3 and row rt
  assume s: "cache_ok s"
  then have wf: "cache_wf s" by (simp add: cache_ok_def)
  show "cache_ok (vrf_route_add env row s) \<and> carries nothing_stale s (vrf_route_add env row s)" if "rr_key row \<notin> cache_keys s"
  proof -
    obtain rt N where "asks s (vrf_route_add env row s) {} N"
      "cached_hops (vrf_route_add env row s) = route_hops rt \<union> cached_hops s" "N \<subseteq> route_hops rt"
      by (rule route_add_asks [OF wf, where env = env and row = row])
    then show ?thesis using swap_not_stale [of s _ "{}" N "{}"] cache_add(1) [OF s that] by simp
  qed
  show "cache_ok (vrf_route_delete env rt s) \<and> carries nothing_stale s (vrf_route_delete env rt s)" if rt: "rt \<in> set (all_routes s)"
    using swap_not_stale [OF route_delete_asks(1) [OF wf rt, of env] cached_split [OF wf_rids [OF wf] rt], where B = "{}"]
      route_delete_asks(2) [OF wf rt] cache_delete(1) [OF s rt] by simp
  show "cache_ok (vrf_route_modify env rt row s) \<and> carries nothing_stale s (vrf_route_modify env rt row s)" if rt: "rt \<in> set (all_routes s)"
    by (rule route_modify_asks [OF wf rt, of env row])
      (use swap_not_stale [OF _ cached_split [OF wf_rids [OF wf] rt]] cache_modify(1) [OF s rt] in blast)
qed (auto simp: cache_ok_def cache_wf_def cache_inv_def nb_ok_carries carries_same)

interpretation missing: route_table env "nothing_missing env" "one_source U" "row_fits U" for env U
proof
  fix s :: l3 and row rt
  assume s: "one_source U s"
  then have ok: "cache_ok s" and wf: "cache_wf s" by (simp_all add: one_source_def cache_ok_def)
  show "one_source U (vrf_route_add env row s) \<and> carries (nothing_missing env) s (vrf_route_add env row s)"
    if row: "row_fits U row" and new: "rr_key row \<notin> cache_keys s"
  proof -
    obtain rt N where "asks s (vrf_route_add env row s) {} N"
      "cached_hops (vrf_route_add env row s) = route_hops rt \<union> cached_hops s" "N \<subseteq> route_hops rt"
      "(\<forall>r\<in>set (rr_nexthops row). nh_row_single r) \<longrightarrow> (\<forall>h\<in>route_hops rt. h \<in> N \<or> unresolved env s h)"
      by (rule route_add_asks [OF wf, where env = env and row = row])
    then have "carries (nothing_missing env) s (vrf_route_add env row s)"
      using swap_not_missing [of s _ "{}" N "{}" "cached_hops s" "route_hops rt"] cache_add(2) [OF ok new, of env] row
      by (simp add: keeps_vrf_def row_fits_def)
    then show ?thesis using cache_add(1,3) [OF ok new, of env] s row by (simp add: one_source_def row_fits_def)
  qed
  show "one_source U (vrf_route_delete env rt s) \<and> carries (nothing_missing env) s (vrf_route_delete env rt s)"
    if rt: "rt \<in> set (all_routes s)"
    using swap_not_missing [OF route_delete_asks(1) [OF wf rt, of env] cached_split [OF wf_rids [OF wf] rt], where B = "{}"]
      route_delete_asks(2) [OF wf rt] cache_delete [OF ok rt, of env] other_hops_disjoint [OF s rt] s
    by (auto simp: keeps_vrf_def one_source_def)
  show "one_source U (vrf_route_modify env rt row s) \<and> carries (nothing_missing env) s (vrf_route_modify env rt row s)"
    if rt: "rt \<in> set (all_routes s)"
  proof -
    obtain rt' D N where "asks s (vrf_route_modify env rt row s) D N"
      "cached_hops (vrf_route_modify env rt row s) = route_hops rt' \<union> other_hops rt s" "D \<subseteq> route_hops rt"
      "\<forall>h\<in>route_hops rt'. h \<in> route_hops rt - D \<or> h \<in> N \<or> unresolved env s h"
      by (rule route_modify_asks [OF wf rt, of env row])
    then have "carries (nothing_missing env) s (vrf_route_modify env rt row s)"
      using swap_not_missing [OF _ cached_split [OF wf_rids [OF wf] rt]] cache_modify(2) [OF ok rt, of env row]
        other_hops_disjoint [OF s rt] unfolding keeps_vrf_def by blast
    then show ?thesis using cache_modify(1,3) [OF ok rt, of env row] s by (simp add: one_source_def)
  qed
qed (auto simp: one_source_def cache_ok_def cache_wf_def cache_inv_def cache_keys_def nb_ok_carries carries_same)

section \<open>Properties\<close>

text \<open>The keys that a reconfiguration may meet: those of the cache and those of the rows of the VRF.\<close>

definition keys_met :: "conf_db \<Rightarrow> l3 \<Rightarrow> (string \<times> string) set" where
  "keys_met db s = cache_keys s \<union> rr_key ` set (filter (\<lambda>r. rr_vrf r = vrf_name s) (idl_routes (cd_routes db)))"

definition rows_single :: "conf_db \<Rightarrow> bool" where
  "rows_single db \<longleftrightarrow> list_all (\<lambda>row. list_all nh_row_single (rr_nexthops row)) (idl_routes (cd_routes db))"

lemma reconfigure_l3_carries:
  assumes "cache_ok s"
  shows "carries nothing_stale s (reconfigure_l3 cp db s)"
    "inj_on snd (keys_met db s) \<Longrightarrow> rows_single db \<Longrightarrow> carries (nothing_missing (re_l3 (cp_recon cp))) s (reconfigure_l3 cp db s)"
proof -
  show "carries nothing_stale s (reconfigure_l3 cp db s)"
    unfolding reconfigure_l3_def Let_def by (rule stale.carried_all [OF assms]) simp
  assume "inj_on snd (keys_met db s)" "rows_single db"
  then have "one_source (keys_met db s) s"
    "\<forall>r\<in>set (idl_routes (cd_routes db)). rr_vrf r = vrf_name s \<longrightarrow> row_fits (keys_met db s) r"
    using assms by (auto simp: one_source_def row_fits_def keys_met_def rows_single_def list_all_iff)
  then show "carries (nothing_missing (re_l3 (cp_recon cp))) s (reconfigure_l3 cp db s)"
    unfolding reconfigure_l3_def Let_def by (rule missing.carried_all)
qed

text \<open>
  C3: Reconfiguring neighbors, routes and nexthops of a VRF keeps what the switch is asked to route in
  line with the route cache.  If only cached hops were asked for before, only cached hops are asked for
  afterwards, whatever the providers answer.  If moreover no two protocols offer the same prefix and a nexthop
  row has an address or a port but not both, and if every cached hop was asked for unless its address was
  unresolved, then this holds afterwards as well, with the neighbors then known.
\<close>

theorem asked_hops_follow_cache:
  assumes "cache_ok s" "nothing_stale s T"
  shows "\<exists>calls. l3_log (reconfigure_l3 cp db s) = l3_log s @ calls \<and>
    nothing_stale (reconfigure_l3 cp db s) (asked calls T) \<and>
    (inj_on snd (keys_met db s) \<and> rows_single db \<and> nothing_missing (re_l3 (cp_recon cp)) s T \<longrightarrow>
       nothing_missing (re_l3 (cp_recon cp)) (reconfigure_l3 cp db s) (asked calls T))"
proof -
  obtain calls where calls: "l3_log (reconfigure_l3 cp db s) = l3_log s @ calls" "nothing_stale (reconfigure_l3 cp db s) (asked calls T)"
    using reconfigure_l3_carries(1) [OF assms(1), of cp db] assms(2) by (auto simp: carries_def)
  moreover have "nothing_missing (re_l3 (cp_recon cp)) (reconfigure_l3 cp db s) (asked calls T)"
    if "inj_on snd (keys_met db s)" "rows_single db" "nothing_missing (re_l3 (cp_recon cp)) s T"
    using reconfigure_l3_carries(2) [OF assms(1) that(1,2), of cp] that(3) calls(1) by (auto simp: carries_def)
  ultimately show ?thesis by blast
qed

definition two_hops_db :: conf_db where
  "two_hops_db = sample_conf_db\<lparr>
     cd_neighbors := sample_neighbor_idl [sample_neighbor_row ''red'' ''2.2.2.2''],
     cd_routes := sample_idl [sample_row 5 ''red'' [ip_row 8 ''2.2.2.2'', ip_row 9 ''3.3.3.3''] True False] True False False\<rparr>"

theorem asked_hops_follow_cache_witness:
  "\<exists>calls. l3_log (reconfigure_l3 sample_conf_params two_hops_db sample_vrf1) = l3_log sample_vrf1 @ calls \<and>
     asked calls (cached_hops sample_vrf1) \<subseteq> cached_hops (reconfigure_l3 sample_conf_params two_hops_db sample_vrf1) \<and>
     nothing_missing sample_env (reconfigure_l3 sample_conf_params two_hops_db sample_vrf1) (asked calls (cached_hops sample_vrf1))"
proof -
  obtain rt where rt: "all_routes sample_vrf1 = [rt]" "rt_key rt = (''static'', ''10.0.0.0/8'')"
    using route_add_effect(3) [OF sample_vrf_ok(2), of sample_env "sample_row 5 ''red'' [ip_row 7 ''1.1.1.1''] False True"]
    by (auto simp: sample_vrf1_def sample_vrf_def rr_key_def sample_row_def)
  have "keys_met two_hops_db sample_vrf1 = {(''static'', ''10.0.0.0/8'')}"
    by (simp add: keys_met_def cache_keys_def rt two_hops_db_def sample_idl_def sample_row_def rr_key_def)
  moreover have "rows_single two_hops_db"
    by (simp add: rows_single_def two_hops_db_def sample_idl_def sample_row_def ip_row_def nh_row_single_def)
  moreover have "re_l3 (cp_recon sample_conf_params) = sample_env" by (simp add: sample_conf_params_def sample_recon_env_def)
  ultimately show ?thesis
    using asked_hops_follow_cache [OF sample_vrf1_ok(1), of "cached_hops sample_vrf1" sample_conf_params two_hops_db]
    by (auto simp: nothing_stale_def nothing_missing_def)
qed

text \<open>
  On the same input: the old nexthop is withdrawn, the resolved one of the two new nexthops is asked for.
\<close>

lemma two_hops_asked:
  "asked (l3_log (reconfigure_l3 sample_conf_params two_hops_db sample_vrf1)) {} =
     {(''10.0.0.0/8'', OFPROTO_NH_IPADDR, ''2.2.2.2'')}"
  by code_simp

definition protocol_change_idl :: route_idl where
  "protocol_change_idl = sample_idl
     [(sample_row 6 ''red'' [ip_row 8 ''1.1.1.1''] True False)\<lparr>rr_from := ''bgp''\<rparr>,
      (sample_row 5 ''red'' [ip_row 7 ''1.1.1.1''] True False)\<lparr>rr_selected := Some False\<rparr>] True False False"

text \<open>
  The calls name a route by its prefix only.  When a prefix moves from one protocol to another in one
  change, the route of the new protocol is added before the one of the old protocol is deleted if its
  row comes first: the cache then holds a hop that the last call withdrew from the switch.
\<close>

lemma protocol_change_withdraws_route:
  "cached_hops (vrf_reconfigure_routes sample_env protocol_change_idl sample_vrf1) = {(''10.0.0.0/8'', OFPROTO_NH_IPADDR, ''1.1.1.1'')} \<and>
   asked (l3_log (vrf_reconfigure_routes sample_env protocol_change_idl sample_vrf1)) {} = {}"
  by code_simp

text \<open>
  A route whose nexthops are replaced by several unresolved ones is left without any entry, while a new route
  with these nexthops gets one so that its packets are copied to the CPU.
\<close>

lemma modified_multipath_without_fallback:
  "asked (l3_log (vrf_route_modify sample_env (hd (all_routes sample_vrf1))
     (sample_row 5 ''red'' [ip_row 8 ''2.2.2.2'', ip_row 9 ''3.3.3.3''] True False) sample_vrf1)) {} = {} \<and>
   asked (l3_log (vrf_route_add sample_env
     (sample_row 5 ''red'' [ip_row 8 ''2.2.2.2'', ip_row 9 ''3.3.3.3''] True False) sample_vrf)) {}
     = {(''10.0.0.0/8'', OFPROTO_NH_IPADDR, ''2.2.2.2'')}"
  by code_simp

end
