(* ===== verification/Bridge_Run.thy ===== *)
theory Bridge_Run
  imports Reconfigure
begin

text \<open>
  One trip of the bridge module through the main loop, src/bridge.c: \<open>bridge_run\<close>, \<open>bridge_wait\<close>, and the
  updates of statistics and status with their timers and transactions.

  A transaction is there or not (its pointer is NULL or not); what \<open>ovsdb_idl_txn_commit\<close> reports, the time, the
  sequence numbers, the lock and the rows are the input \<open>run_input\<close> of a trip.  \<open>time_msec\<close> is read twice where
  the code reads it before and after a walk.  What the trip does besides changing the switch is the list of
  events it adds.
\<close>

section \<open>Data\<close>

datatype controller_role = OFPCR12_ROLE_NOCHANGE | OFPCR12_ROLE_EQUAL | OFPCR12_ROLE_MASTER | OFPCR12_ROLE_SLAVE

record controller_info =
  ci_is_connected :: bool
  ci_role :: controller_role
  ci_pairs :: smap

record ssl_row =
  ssl_private_key :: string
  ssl_certificate :: string
  ssl_ca_cert :: string
  ssl_bootstrap_ca_cert :: bool

record iface_hint =
  ih_br_name :: string
  ih_br_type :: string
  ih_ofp_port :: int

datatype run_event =
    OfprotoRegister
  | OfprotoInit "(string \<times> iface_hint) list"
  | SetFlowRestoreWait bool
  | SslKeyAndCert string string
  | SslCaCert string bool
  | SetCurCfg int
  | TxnCommit
  | DaemonizeComplete
  | SetController string bool "string option" "smap option"
  | SetDatapathVersion string string
  | WriteStatistics smap
  | StatsWalk int
  | StatusWalk u64
  | SetHit neighbor_row smap

record run_input =
  ri_contended :: bool
  ri_has_lock :: bool
  ri_cfg :: bool
  ri_db :: conf_db
  ri_next_cfg :: int
  ri_ssl :: "ssl_row option"
  ri_flow_restore_wait :: bool
  ri_seqno :: u32
  ri_connectivity :: u64
  ri_now :: int
  ri_later :: int
  ri_daemon_status :: txn_status
  ri_stats_status :: txn_status
  ri_status_status :: txn_status
  ri_controllers :: "string list"
  ri_controller_info :: "string \<Rightarrow> (string \<times> controller_info) list \<Rightarrow> (string \<times> controller_info) list"
  ri_datapath_version :: "string \<Rightarrow> string option"

record run_params =
  rp_idl_seqno :: u32

record 'f run_state =
  rs_conf :: "'f conf"
  rs_run_blocks :: "(run_params \<Rightarrow> switch \<Rightarrow> switch) blocks"
  idl_seqno :: u32
  initialized :: bool
  initial_config_done :: bool
  daemonize_txn :: bool
  stats_txn :: bool
  stats_timer :: int
  stats_timer_interval :: int
  status_txn :: bool
  status_txn_try_again :: bool
  connectivity_seqno :: u64
  rs_neighbor_timer_interval :: int
  rs_neighbor_timer :: int
  rs_log :: "run_event list"

abbreviation rs_switch :: "'f run_state \<Rightarrow> switch" where "rs_switch s \<equiv> cf_switch (rs_conf s)"

definition rs_events :: "run_event list \<Rightarrow> 'f run_state \<Rightarrow> 'f run_state" where
  "rs_events es s = s\<lparr>rs_log := rs_log s @ es\<rparr>"

definition on_switch :: "(switch \<Rightarrow> switch) \<Rightarrow> 'f run_state \<Rightarrow> 'f run_state" where
  "on_switch f s = s\<lparr>rs_conf := switch_step f (rs_conf s)\<rparr>"

section \<open>Start\<close>

definition hints_of :: "port_env \<Rightarrow> string \<Rightarrow> string \<Rightarrow> port_cfg list \<Rightarrow> (string \<times> iface_hint) list" where
  "hints_of env name type ports =
     concat (map (\<lambda>p. map (\<lambda>i. (ic_name i, \<lparr>ih_br_name = name, ih_br_type = type, ih_ofp_port = iface_pick_ofport env i\<rparr>)) (pc_interfaces p)) ports)"

definition bridge_init_ofproto :: "port_env \<Rightarrow> ovs_cfg option \<Rightarrow> 'f run_state \<Rightarrow> 'f run_state" where
  "bridge_init_ofproto env cfg s =
     (if initialized s then s
      else let hints = (case cfg of
               None \<Rightarrow> []
             | Some c \<Rightarrow> concat (map (\<lambda>b. hints_of env (bc_name b) (bc_datapath_type b) (bc_ports b)) (oc_bridges c))
                         @ concat (map (\<lambda>v. hints_of env (vc_name v) ''vrf'' (vc_ports v)) (oc_vrfs c)))
           in (rs_events [OfprotoRegister, OfprotoInit hints] s)\<lparr>initialized := True\<rparr>)"

text \<open>Removes all bridges; \<open>bridge_exit\<close> does no more than that.\<close>

definition destroy_bridges :: "recon_env \<Rightarrow> switch \<Rightarrow> switch" where
  "destroy_bridges env w = fold (bridge_destroy env) (all_bridges w) w"

definition destroy_vrfs :: "recon_env \<Rightarrow> switch \<Rightarrow> switch" where
  "destroy_vrfs env w = fold (vrf_destroy env) (all_vrfs w) w"

definition bridge_exit :: "recon_env \<Rightarrow> switch \<Rightarrow> switch" where
  "bridge_exit env w = destroy_bridges env w"

section \<open>Statistics\<close>

definition ofp12_controller_role_to_str :: "controller_role \<Rightarrow> string" where
  "ofp12_controller_role_to_str r =
     (case r of OFPCR12_ROLE_EQUAL \<Rightarrow> ''other'' | OFPCR12_ROLE_MASTER \<Rightarrow> ''master'' | OFPCR12_ROLE_SLAVE \<Rightarrow> ''slave''
      | OFPCR12_ROLE_NOCHANGE \<Rightarrow> ''*** INVALID ROLE ***'')"

text \<open>The status of all bridges is accumulated in one table.\<close>

definition refresh_controller_status :: "run_input \<Rightarrow> switch \<Rightarrow> run_event list" where
  "refresh_controller_status inp w =
     (let info = fold (\<lambda>b. ri_controller_info inp (b_name b)) (all_bridges w) []
      in map (\<lambda>t. case map_of info t of
                None \<Rightarrow> SetController t False None None
              | Some ci \<Rightarrow> SetController t (ci_is_connected ci) (Some (ofp12_controller_role_to_str (ci_role ci))) (Some (ci_pairs ci)))
           (ri_controllers inp))"

text \<open>Refreshing an interface of a bridge or VRF; the interfaces are visited port by port.\<close>

definition ifaces_by_port :: "'a bridge_scheme \<Rightarrow> br_iface list" where
  "ifaces_by_port s = concat (map (port_ifaces s) (br_ports s))"

definition refresh_stats_of :: "port_env \<Rightarrow> sw \<Rightarrow> sw" where
  "refresh_stats_of env s = fold (iface_refresh_stats_br env) (ifaces_by_port s) s"

definition refresh_mirrors :: "mirror_env \<Rightarrow> string \<Rightarrow> switch \<Rightarrow> switch" where
  "refresh_mirrors env n w =
     (case bridge_lookup w n of
        None \<Rightarrow> w
      | Some b \<Rightarrow> put_bridge (b\<lparr>bf_mirrors := fold (mirror_refresh_stats env) (br_mirrors (bf_mirrors b)) (bf_mirrors b)\<rparr>) w)"

definition refresh_all_stats :: "recon_env \<Rightarrow> switch \<Rightarrow> switch" where
  "refresh_all_stats env w =
     (let w = fold (\<lambda>n w. refresh_mirrors (re_mirrors env) n (on_bridge (\<lambda>_. refresh_stats_of (re_ports env)) n w)) (map b_name (all_bridges w)) w
      in fold (on_vrf (\<lambda>_. refresh_stats_of (re_ports env))) (map v_name (all_vrfs w)) w)"

text \<open>
  The calls of \<open>execute_stats_block\<close>: the structure \<open>sblk\<close> is filled in as the loops go and never cleared, so it is
  passed on from one loop to the next.
\<close>

type_synonym stats_calls = "(stats_params \<times> stats_block_id) list"

fun netdev_calls :: "stats_block_id \<Rightarrow> br_iface list \<Rightarrow> stats_params \<Rightarrow> stats_calls \<times> stats_params" where
  "netdev_calls blk [] sblk = ([], sblk)"
| "netdev_calls blk (i # is) sblk =
     (if bi_type i \<noteq> ''system''
      then let sblk = sblk\<lparr>sp_netdev := Some (bi_name i), sp_cfg := Some (ic_name (bi_cfg i))\<rparr>;
               (cs, sblk') = netdev_calls blk is sblk
           in ((sblk, blk) # cs, sblk')
      else netdev_calls blk is sblk)"

fun port_calls :: "stats_block_id \<Rightarrow> stats_block_id \<Rightarrow> 'a bridge_scheme \<Rightarrow> br_port list \<Rightarrow> stats_params \<Rightarrow> stats_calls \<times> stats_params" where
  "port_calls pblk nblk s [] sblk = ([], sblk)"
| "port_calls pblk nblk s (p # ps) sblk =
     (let sblk = sblk\<lparr>sp_port := Some (bp_name p)\<rparr>;
          (cs, sblk') = netdev_calls nblk (port_ifaces s p) sblk;
          (cs', sblk'') = port_calls pblk nblk s ps sblk'
      in ((sblk, pblk) # cs @ cs', sblk''))"

fun bridge_calls :: "br_full list \<Rightarrow> stats_params \<Rightarrow> stats_calls \<times> stats_params" where
  "bridge_calls [] sblk = ([], sblk)"
| "bridge_calls (b # bs) sblk =
     (let sblk = sblk\<lparr>sp_bridge := Some (b_name b)\<rparr>;
          (cs, sblk') = port_calls STATS_PER_BRIDGE_PORT STATS_PER_BRIDGE_NETDEV (bf_bridge b) (br_ports (bf_bridge b)) sblk;
          (cs', sblk'') = bridge_calls bs sblk'
      in ((sblk, STATS_PER_BRIDGE) # cs @ cs', sblk''))"

fun vrf_calls :: "vrf_full list \<Rightarrow> stats_params \<Rightarrow> stats_calls \<times> stats_params" where
  "vrf_calls [] sblk = ([], sblk)"
| "vrf_calls (v # vs) sblk =
     (let sblk = sblk\<lparr>sp_vrf := Some (v_name v)\<rparr>;
          (cs, sblk') = port_calls STATS_PER_VRF_PORT STATS_PER_VRF_NETDEV (vf_up v) (br_ports (vf_up v)) sblk;
          (cs', sblk'') = vrf_calls vs sblk'
      in ((sblk, STATS_PER_VRF) # cs @ cs', sblk''))"

definition no_stats_params :: stats_params where
  "no_stats_params = \<lparr>sp_bridge = None, sp_vrf = None, sp_port = None, sp_netdev = None, sp_cfg = None\<rparr>"

definition stats_block_calls :: "switch \<Rightarrow> stats_calls" where
  "stats_block_calls w =
     (let (cs, sblk) = bridge_calls (all_bridges w) no_stats_params;
          (cs', sblk) = vrf_calls (all_vrfs w) sblk
      in (no_stats_params, STATS_BEGIN) # cs @ cs' @ [(sblk, STATS_END)])"

definition run_stats_block :: "stats_params \<times> stats_block_id \<Rightarrow> switch \<Rightarrow> switch" where
  "run_stats_block c w =
     (let (rc, bl, lg) = execute_stats_block (Some (fst c)) (stats_block_num (snd c)) (g_stats_blocks w) (g_log w)
      in w\<lparr>g_stats_blocks := bl, g_log := lg\<rparr>)"

definition stats_walk :: "recon_env \<Rightarrow> run_input \<Rightarrow> 'f run_state \<Rightarrow> 'f run_state" where
  "stats_walk env inp s =
     (let s = rs_events [StatsWalk (ri_now inp)] s;
          s = on_switch (refresh_all_stats env) s;
          s = rs_events (refresh_controller_status inp (rs_switch s)) s
      in on_switch (\<lambda>w. fold run_stats_block (stats_block_calls w) w) s)"

definition run_stats_update_br :: "recon_env \<Rightarrow> run_input \<Rightarrow> 'f run_state \<Rightarrow> 'f run_state" where
  "run_stats_update_br env inp s =
     (if \<not> ri_cfg inp then s
      else
        let stats_interval = max (smap_get_int (cd_other_config (ri_db inp)) ''stats-update-interval'' 5000) 5000;
            s = (if stats_timer_interval s \<noteq> stats_interval
                 then s\<lparr>stats_timer_interval := stats_interval, stats_timer := LLONG_MIN\<rparr> else s)
        in if ri_now inp \<ge> stats_timer s
           then let s = (if \<not> stats_txn s then (stats_walk env inp s)\<lparr>stats_txn := True\<rparr> else s);
                    s = rs_events [TxnCommit] s
                in if ri_stats_status inp \<noteq> TXN_INCOMPLETE
                   then s\<lparr>stats_timer := ri_later inp + stats_timer_interval s, stats_txn := False\<rparr>
                   else s
           else s)"

section \<open>Status\<close>

text \<open>\<open>iface_refresh_ofproto_status\<close> is empty in this build.\<close>

definition refresh_iface_status :: "port_env \<Rightarrow> vlan_state list \<Rightarrow> bool \<Rightarrow> br_iface \<Rightarrow> sw \<Rightarrow> sw" where
  "refresh_iface_status env vlans again i s =
     (let (i, s) = iface_refresh_netdev_status_br env vlans again i s in put_iface i s)"

definition refresh_status_of :: "port_env \<Rightarrow> vlan_state list \<Rightarrow> bool \<Rightarrow> sw \<Rightarrow> sw" where
  "refresh_status_of env vlans again s = fold (refresh_iface_status env vlans again) (ifaces_by_port s) s"

definition br_refresh_datapath_info :: "run_input \<Rightarrow> br_full \<Rightarrow> run_event" where
  "br_refresh_datapath_info inp b =
     SetDatapathVersion (b_name b)
       (case (if br_ofproto (bf_bridge b) then ri_datapath_version inp (b_name b) else None) of None \<Rightarrow> ''<unknown>'' | Some v \<Rightarrow> v)"

definition status_walk :: "recon_env \<Rightarrow> run_input \<Rightarrow> 'f run_state \<Rightarrow> 'f run_state" where
  "status_walk env inp s =
     (let vlans = map bf_vlans (all_bridges (rs_switch s));
          f = refresh_status_of (re_ports env) vlans (status_txn_try_again s);
          s = rs_events (StatusWalk (ri_connectivity inp) # map (br_refresh_datapath_info inp) (all_bridges (rs_switch s))) s;
          s = on_switch (\<lambda>w. fold (on_bridge (\<lambda>_. f)) (map b_name (all_bridges w)) w) s
      in on_switch (\<lambda>w. fold (on_vrf (\<lambda>_. f)) (map v_name (all_vrfs w)) w) s)"

definition run_status_update_br :: "recon_env \<Rightarrow> run_input \<Rightarrow> 'f run_state \<Rightarrow> 'f run_state" where
  "run_status_update_br env inp s =
     (let s = (if \<not> status_txn s \<and> (ri_connectivity inp \<noteq> connectivity_seqno s \<or> status_txn_try_again s)
               then (status_walk env inp s)\<lparr>connectivity_seqno := ri_connectivity inp, status_txn := True\<rparr> else s)
      in if status_txn s
         then let s = rs_events [TxnCommit] s
              in if ri_status_status inp \<noteq> TXN_INCOMPLETE
                 then s\<lparr>status_txn := False,
                        status_txn_try_again := (\<not> (ri_status_status inp = TXN_SUCCESS \<or> ri_status_status inp = TXN_UNCHANGED))\<rparr>
                 else s
         else s)"

text \<open>Without a row the snapshot is dropped.\<close>

definition run_system_stats :: "run_input \<Rightarrow> 'f run_state \<Rightarrow> 'f run_state" where
  "run_system_stats inp s =
     (let (stats, y) = system_stats_run (cf_stats (rs_conf s));
          s = s\<lparr>rs_conf := (rs_conf s)\<lparr>cf_stats := y\<rparr>\<rparr>
      in case stats of
           None \<Rightarrow> s
         | Some m \<Rightarrow> if ri_cfg inp then rs_events [WriteStatistics m, TxnCommit] s else s)"

definition run_neighbors :: "l3_env \<Rightarrow> run_input \<Rightarrow> 'f run_state \<Rightarrow> fault + 'f run_state" where
  "run_neighbors env inp s =
     (let w = rs_switch s;
          h = \<lparr>hs_vrfs = map (\<lambda>v. vrf.truncate (vrf_l3 (g_l3 w) v)) (all_vrfs w), hs_log = sh_l3_log (g_l3 w), hs_status = [],
               neighbor_timer_interval = rs_neighbor_timer_interval s, neighbor_timer = rs_neighbor_timer s\<rparr>
      in and_then (run_neighbor_update env (idl_neighbors (cd_neighbors (ri_db inp))) (ri_now inp) (ri_later inp) h) (\<lambda>h.
         Inr (let wb = (\<lambda>w. w\<lparr>all_vrfs := map2 (\<lambda>v x. v\<lparr>vf_l3 := (vf_l3 v)\<lparr>all_neighbors := all_neighbors x\<rparr>\<rparr>) (all_vrfs w) (hs_vrfs h),
                                g_l3 := (g_l3 w)\<lparr>sh_l3_log := hs_log h\<rparr>\<rparr>)
              in rs_events (map (\<lambda>(r, m). SetHit r m) (hs_status h))
                   ((on_switch wb s)\<lparr>rs_neighbor_timer_interval := neighbor_timer_interval h, rs_neighbor_timer := neighbor_timer h\<rparr>))))"

section \<open>The trip\<close>

definition null_db :: "conf_db \<Rightarrow> conf_db" where
  "null_db db = db\<lparr>cd_ovs := \<lparr>oc_bridges = [], oc_vrfs = [], oc_system_mac = []\<rparr>, cd_other_config := [], cd_managers := []\<rparr>"

definition row_db :: "run_input \<Rightarrow> conf_db" where
  "row_db inp = (if ri_cfg inp then ri_db inp else null_db (ri_db inp))"

definition run_contended :: "recon_env \<Rightarrow> 'f run_state \<Rightarrow> 'f run_state" where
  "run_contended env s =
     (let s = on_switch (destroy_vrfs env) (on_switch (destroy_bridges env) s)
      in s\<lparr>rs_conf := (rs_conf s)\<lparr>cf_stats := system_stats_enable False (cf_stats (rs_conf s))\<rparr>\<rparr>)"

definition run_prepare :: "'f conf_params \<Rightarrow> run_input \<Rightarrow> 'f run_state \<Rightarrow> 'f run_state" where
  "run_prepare cp inp s =
     (let s = bridge_init_ofproto (re_ports (cp_recon cp)) (if ri_cfg inp then Some (cd_ovs (ri_db inp)) else None) s;
          s = (if ri_cfg inp \<and> ri_flow_restore_wait inp
               then rs_events [SetFlowRestoreWait (smap_get_bool (cd_other_config (ri_db inp)) ''flow-restore-wait'' False)] s else s);
          s = s\<lparr>rs_conf := bridge_run_raw (row_db inp) (rs_conf s)\<rparr>
      in case (if ri_cfg inp then ri_ssl inp else None) of
           None \<Rightarrow> s
         | Some l \<Rightarrow> rs_events [SslKeyAndCert (ssl_private_key l) (ssl_certificate l), SslCaCert (ssl_ca_cert l) (ssl_bootstrap_ca_cert l)] s)"

definition run_reconfigure :: "'f conf_params \<Rightarrow> run_input \<Rightarrow> 'f run_state \<Rightarrow> fault + 'f run_state" where
  "run_reconfigure cp inp s =
     (if ri_seqno inp \<noteq> idl_seqno s
      then and_then (bridge_reconfigure cp (row_db inp) (rs_conf s)) (\<lambda>cs.
        Inr (let s = s\<lparr>rs_conf := cs, idl_seqno := ri_seqno inp\<rparr>;
                 s = (if ri_cfg inp then rs_events [SetCurCfg (ri_next_cfg inp)] s else s)
             in if initial_config_done s
                then (rs_events [TxnCommit] s)\<lparr>status_txn_try_again := True\<rparr>
                else s\<lparr>initial_config_done := True, daemonize_txn := True\<rparr>))
      else Inr s)"

definition run_daemonize :: "run_input \<Rightarrow> 'f run_state \<Rightarrow> 'f run_state" where
  "run_daemonize inp s =
     (if daemonize_txn s
      then let s = rs_events [TxnCommit] s
           in if ri_daemon_status inp \<noteq> TXN_INCOMPLETE then (rs_events [DaemonizeComplete] s)\<lparr>daemonize_txn := False\<rparr> else s
      else s)"

definition run_block_complete :: "run_block_id \<Rightarrow> 'f run_state \<Rightarrow> 'f run_state" where
  "run_block_complete blk s =
     (let (rc, bl, w) = execute_run_block (Some \<lparr>rp_idl_seqno = idl_seqno s\<rparr>) (run_block_num blk) (rs_run_blocks s) (rs_switch s)
      in (on_switch (\<lambda>_. w) s)\<lparr>rs_run_blocks := bl\<rparr>)"

definition bridge_run :: "'f conf_params \<Rightarrow> run_input \<Rightarrow> 'f run_state \<Rightarrow> fault + 'f run_state" where
  "bridge_run cp inp s =
     (if ri_contended inp then Inr (run_contended (cp_recon cp) s)
      else if \<not> ri_has_lock inp then Inr s
      else
        and_then (run_reconfigure cp inp (run_prepare cp inp s)) (\<lambda>s.
          let s = run_daemonize inp s;
              s = run_stats_update_br (cp_recon cp) inp s;
              s = run_status_update_br (cp_recon cp) inp s;
              s = run_system_stats inp s
          in and_then (run_neighbors (re_l3 (cp_recon cp)) inp s) (\<lambda>s. Inr (run_block_complete BLK_RUN_COMPLETE s))))"

section \<open>Waiting\<close>

datatype wake =
    WakeIdl
  | WakeDaemonizeTxn
  | WakeType string
  | WakeOfproto string
  | WakeAt int
  | WakeStatusTxn
  | WakeConnectivity u64
  | WakeLatch

definition STATUS_CHECK_AGAIN_MSEC :: int where "STATUS_CHECK_AGAIN_MSEC = 100"

definition status_update_wait :: "run_input \<Rightarrow> 'f run_state \<Rightarrow> wake list" where
  "status_update_wait inp s =
     (if \<not> ri_has_lock inp then []
      else if status_txn s then [WakeStatusTxn]
      else if status_txn_try_again s then [WakeAt (ri_now inp + STATUS_CHECK_AGAIN_MSEC)]
      else [WakeConnectivity (connectivity_seqno s)])"

definition bridge_wait :: "run_input \<Rightarrow> 'f run_state \<Rightarrow> wake list \<times> 'f run_state" where
  "bridge_wait inp s =
     (let bs = all_bridges (rs_switch s)
      in ([WakeIdl] @ (if daemonize_txn s then [WakeDaemonizeTxn] else [])
          @ map WakeType (cd_datapath_types (ri_db inp))
          @ (if bs \<noteq> [] then map (\<lambda>b. WakeOfproto (b_name b)) bs @ [WakeAt (stats_timer s)] else [])
          @ status_update_wait inp s
          @ (if sy_enabled (cf_stats (rs_conf s)) then [WakeLatch] else []),
          run_block_complete BLK_WAIT_COMPLETE s))"

end
