(* ===== verification/Bridge_Run_Props.thy ===== *)
theory Bridge_Run_Props
  imports Bridge_Run
begin

text \<open>
  Properties of the trips through the main loop: the invariant of the switch holds after every trip, the
  callbacks of the stats blocks come in the documented order with the documented parameters, walks over the
  statistics keep their distance, and the process that started the daemon is notified once.
\<close>

section \<open>The invariant of the switch\<close>

definition run_handler_ok :: "port_env \<Rightarrow> (run_params \<Rightarrow> switch \<Rightarrow> switch) \<Rightarrow> bool" where
  "run_handler_ok env h \<longleftrightarrow> (\<forall>p w. switch_ok env w \<longrightarrow> switch_ok env (h p w) \<and> table_names (h p w) = table_names w)"

definition run_blocks_ok :: "port_env \<Rightarrow> (run_params \<Rightarrow> switch \<Rightarrow> switch) blocks \<Rightarrow> bool" where
  "run_blocks_ok env bl \<longleftrightarrow> blocks_wf MAX_RUN_BLOCKS_NUM bl \<and>
     (\<forall>b. 0 \<le> b \<and> b < int MAX_RUN_BLOCKS_NUM \<longrightarrow> (\<forall>(h, _)\<in>set (blk_handlers bl b). run_handler_ok env h))"

definition trip_inv :: "port_env \<Rightarrow> string list \<times> string list \<Rightarrow> 'f run_state \<Rightarrow> bool" where
  "trip_inv env ns s \<longleftrightarrow> switch_ok env (rs_switch s) \<and> table_names (rs_switch s) = ns \<and> blocks_ok env (fst (cf_recon (rs_conf s)))
     \<and> run_blocks_ok env (rs_run_blocks s)"

lemma rs_events_sel [simp]: "rs_conf (rs_events es s) = rs_conf s" "rs_run_blocks (rs_events es s) = rs_run_blocks s"
  "rs_log (rs_events es s) = rs_log s @ es" "idl_seqno (rs_events es s) = idl_seqno s"
  "stats_txn (rs_events es s) = stats_txn s" "stats_timer (rs_events es s) = stats_timer s" "stats_timer_interval (rs_events es s) = stats_timer_interval s"
  "initial_config_done (rs_events es s) = initial_config_done s" "daemonize_txn (rs_events es s) = daemonize_txn s"
  "status_txn (rs_events es s) = status_txn s" "status_txn_try_again (rs_events es s) = status_txn_try_again s"
  by (simp_all add: rs_events_def)

lemma on_switch_sel [simp]: "rs_switch (on_switch f s) = f (rs_switch s)" "fst (cf_recon (rs_conf (on_switch f s))) = fst (cf_recon (rs_conf s))"
  "rs_run_blocks (on_switch f s) = rs_run_blocks s" "rs_log (on_switch f s) = rs_log s" "idl_seqno (on_switch f s) = idl_seqno s"
  "stats_txn (on_switch f s) = stats_txn s" "stats_timer (on_switch f s) = stats_timer s" "stats_timer_interval (on_switch f s) = stats_timer_interval s"
  "initial_config_done (on_switch f s) = initial_config_done s" "daemonize_txn (on_switch f s) = daemonize_txn s"
  "status_txn (on_switch f s) = status_txn s" "status_txn_try_again (on_switch f s) = status_txn_try_again s"
  by (simp_all add: on_switch_def)

lemma trip_inv_fields [simp]:
  "trip_inv env ns (rs_events es s) = trip_inv env ns s" "trip_inv env ns (s\<lparr>idl_seqno := a\<rparr>) = trip_inv env ns s"
  "trip_inv env ns (s\<lparr>initialized := b\<rparr>) = trip_inv env ns s" "trip_inv env ns (s\<lparr>initial_config_done := b\<rparr>) = trip_inv env ns s"
  "trip_inv env ns (s\<lparr>daemonize_txn := b\<rparr>) = trip_inv env ns s" "trip_inv env ns (s\<lparr>stats_txn := b\<rparr>) = trip_inv env ns s"
  "trip_inv env ns (s\<lparr>stats_timer := t\<rparr>) = trip_inv env ns s" "trip_inv env ns (s\<lparr>stats_timer_interval := t\<rparr>) = trip_inv env ns s"
  "trip_inv env ns (s\<lparr>status_txn := b\<rparr>) = trip_inv env ns s" "trip_inv env ns (s\<lparr>status_txn_try_again := b\<rparr>) = trip_inv env ns s"
  "trip_inv env ns (s\<lparr>connectivity_seqno := c\<rparr>) = trip_inv env ns s" "trip_inv env ns (s\<lparr>rs_neighbor_timer_interval := t\<rparr>) = trip_inv env ns s"
  "trip_inv env ns (s\<lparr>rs_neighbor_timer := t\<rparr>) = trip_inv env ns s"
  by (simp_all add: trip_inv_def)

lemma trip_inv_on_switch:
  assumes "trip_inv env ns s" "\<And>w. switch_ok env w \<Longrightarrow> switch_ok env (f w) \<and> table_names (f w) = table_names w"
  shows "trip_inv env ns (on_switch f s)"
  using assms(1) assms(2) [of "rs_switch s"] by (simp add: trip_inv_def)

lemma fold_keeps:
  assumes "switch_ok env w" "\<And>x w. switch_ok env w \<Longrightarrow> switch_ok env (f x w) \<and> table_names (f x w) = table_names w"
  shows "switch_ok env (fold f xs w) \<and> table_names (fold f xs w) = table_names w"
  by (rule fold_inv [where P = "\<lambda>x. switch_ok env x \<and> table_names x = table_names w"]) (simp_all add: assms)

lemma on_bridge_keeps:
  assumes "switch_ok env w" "\<And>s. tables_ok env s \<Longrightarrow> tables_ok env (f s) \<and> br_cfg (f s) = br_cfg s"
  shows "switch_ok env (on_bridge (\<lambda>_. f) n w) \<and> table_names (on_bridge (\<lambda>_. f) n w) = table_names w"
  using on_bridge_ok [OF assms(1), where q = False and f = "\<lambda>_. f" and n = n] assms(2) by simp

lemma on_vrf_keeps:
  assumes "switch_ok env w" "\<And>s. tables_ok env s \<Longrightarrow> tables_ok env (f s)"
  shows "switch_ok env (on_vrf (\<lambda>_. f) n w) \<and> table_names (on_vrf (\<lambda>_. f) n w) = table_names w"
  using on_vrf_ok [OF assms(1), where q = False and f = "\<lambda>_. f" and n = n] assms(2) by simp

subsection \<open>Statistics and status\<close>

lemma refresh_stats_tables:
  "tables_ok env' (refresh_stats_of env s) = tables_ok env' s \<and> br_cfg (refresh_stats_of env s) = br_cfg s"
proof -
  have "br_ports (fold (iface_refresh_stats_br env) is s) = br_ports s \<and> br_iface_by_name (fold (iface_refresh_stats_br env) is s) = br_iface_by_name s
    \<and> br_ifaces (fold (iface_refresh_stats_br env) is s) = br_ifaces s \<and> br_cfg (fold (iface_refresh_stats_br env) is s) = br_cfg s" for "is"
    by (induction "is" arbitrary: s) simp_all
  then show ?thesis unfolding refresh_stats_of_def using tables_ok_cong by blast
qed

lemma refresh_mirrors_keeps:
  assumes "switch_ok env' w"
  shows "switch_ok env' (refresh_mirrors env n w) \<and> table_names (refresh_mirrors env n w) = table_names w"
proof (cases "bridge_lookup w n")
  case (Some b)
  let ?b = "b\<lparr>bf_mirrors := fold (mirror_refresh_stats env) (br_mirrors (bf_mirrors b)) (bf_mirrors b)\<rparr>"
  have "bridge_ok env' ?b" using bridge_lookup_in [OF Some] assms by (simp add: switch_ok_def bridge_ok_def)
  from put_bridge_ok [OF assms this, where q = False] Some show ?thesis by (simp add: refresh_mirrors_def)
qed (simp add: refresh_mirrors_def assms)

lemma refresh_all_stats_keeps:
  assumes "switch_ok env' w"
  shows "switch_ok env' (refresh_all_stats env w) \<and> table_names (refresh_all_stats env w) = table_names w"
proof -
  have b: "switch_ok env' (refresh_mirrors (re_mirrors env) n (on_bridge (\<lambda>_. refresh_stats_of (re_ports env)) n x))
    \<and> table_names (refresh_mirrors (re_mirrors env) n (on_bridge (\<lambda>_. refresh_stats_of (re_ports env)) n x)) = table_names x"
    if "switch_ok env' x" for n x
  proof -
    have o: "switch_ok env' (on_bridge (\<lambda>_. refresh_stats_of (re_ports env)) n x) \<and> table_names (on_bridge (\<lambda>_. refresh_stats_of (re_ports env)) n x) = table_names x"
      by (rule on_bridge_keeps [OF that]) (simp add: refresh_stats_tables)
    then show ?thesis using refresh_mirrors_keeps [of env' _ "re_mirrors env" n] by metis
  qed
  note 1 = fold_keeps [of env' w "\<lambda>n w. refresh_mirrors (re_mirrors env) n (on_bridge (\<lambda>_. refresh_stats_of (re_ports env)) n w)" "map b_name (all_bridges w)", OF assms b]
  let ?w = "fold (\<lambda>n w. refresh_mirrors (re_mirrors env) n (on_bridge (\<lambda>_. refresh_stats_of (re_ports env)) n w)) (map b_name (all_bridges w)) w"
  have "switch_ok env' (on_vrf (\<lambda>_. refresh_stats_of (re_ports env)) n x) \<and> table_names (on_vrf (\<lambda>_. refresh_stats_of (re_ports env)) n x) = table_names x"
    if "switch_ok env' x" for n x
    by (rule on_vrf_keeps [OF that]) (simp add: refresh_stats_tables)
  from fold_keeps [of env' ?w "on_vrf (\<lambda>_. refresh_stats_of (re_ports env))" "map v_name (all_vrfs ?w)", OF conjunct1 [OF 1] this] 1
  show ?thesis by (simp add: refresh_all_stats_def Let_def)
qed

lemma run_stats_block_keeps:
  "switch_ok env w \<Longrightarrow> switch_ok env (run_stats_block c w) \<and> table_names (run_stats_block c w) = table_names w"
  by (simp add: run_stats_block_def switch_ok_def table_names_def split: prod.split)

lemma stats_walk_keeps: "trip_inv env' ns s \<Longrightarrow> trip_inv env' ns (stats_walk env inp s)"
  unfolding stats_walk_def Let_def
  by (intro trip_inv_on_switch) (simp_all add: trip_inv_on_switch refresh_all_stats_keeps fold_keeps run_stats_block_keeps)

lemma run_stats_update_keeps: "trip_inv env' ns s \<Longrightarrow> trip_inv env' ns (run_stats_update_br env inp s)"
  by (simp add: run_stats_update_br_def Let_def stats_walk_keeps)

lemma ifaces_by_port_in: "i \<in> set (ifaces_by_port s) \<Longrightarrow> i \<in> set (br_iface_by_name s)"
  by (auto simp: ifaces_by_port_def port_ifaces_def List.map_filter_def dest: iface_lookup_br_in)

lemma refresh_status_tables:
  assumes "tables_ok env' s"
  shows "tables_ok env' (refresh_status_of env vlans again s) \<and> br_cfg (refresh_status_of env vlans again s) = br_cfg s"
proof -
  let ?P = "\<lambda>x. same_tables s x \<and> br_ports x = br_ports s \<and> br_cfg x = br_cfg s"
  have wf: "ports_wf env' s" using assms by (simp add: tables_ok_def ports_ok_def)
  have step: "?P (refresh_iface_status env vlans again i x)" if i: "i \<in> set (br_iface_by_name s)" and x: "?P x" for i x
  proof -
    obtain j x' where r: "iface_refresh_netdev_status_br env vlans again i x = (j, x')" by fastforce
    note t = iface_refresh_netdev_status_br_tables [OF r]
    have b: "br_ports x' = br_ports x" using r by (auto simp: iface_refresh_netdev_status_br_def split: if_splits)
    have k: "map iface_key (br_iface_by_name x') = map iface_key (br_iface_by_name s)" using x t(4) by (simp add: same_tables_def)
    have "iface_key i \<in> set (map iface_key (br_iface_by_name x'))" unfolding k using i by simp
    then obtain i' where i': "i' \<in> set (br_iface_by_name x')" "iface_key i' = iface_key i" by auto
    have s': "same_tables s x'" using x t(3) same_tables_trans by blast
    have "ports_wf env' x'" using same_tables_wf(1) [OF s', of env'] wf by blast
    moreover have "iface_key j = iface_key i'" using t(1) i'(2) by simp
    ultimately have "same_tables x' (put_iface j x')" by (rule same_tables_put_iface [OF _ i'(1)])
    with s' have "same_tables s (put_iface j x')" by (rule same_tables_trans)
    then show ?thesis using x b t(6) by (simp add: refresh_iface_status_def r put_iface_def)
  qed
  have P: "?P (fold (refresh_iface_status env vlans again) (ifaces_by_port s) s)"
    by (rule fold_invariant [where Q = "\<lambda>i. i \<in> set (br_iface_by_name s)"]) (erule ifaces_by_port_in, simp, rule step)
  let ?s = "fold (refresh_iface_status env vlans again) (ifaces_by_port s) s"
  have "ports_ok env' ?s = ports_ok env' s" using P by (intro same_tables_wf(2)) blast
  with P assms show ?thesis unfolding refresh_status_of_def by (simp add: tables_ok_def rows_but_def)
qed

lemma status_walk_keeps:
  assumes "trip_inv env' ns s"
  shows "trip_inv env' ns (status_walk env inp s)"
proof -
  let ?f = "refresh_status_of (re_ports env) (map bf_vlans (all_bridges (rs_switch s))) (status_txn_try_again s)"
  have "switch_ok env' (on_bridge (\<lambda>_. ?f) n w) \<and> table_names (on_bridge (\<lambda>_. ?f) n w) = table_names w"
    "switch_ok env' (on_vrf (\<lambda>_. ?f) n w) \<and> table_names (on_vrf (\<lambda>_. ?f) n w) = table_names w" if "switch_ok env' w" for n w
    by (rule on_bridge_keeps [OF that] on_vrf_keeps [OF that]; simp add: refresh_status_tables)+
  then show ?thesis unfolding status_walk_def Let_def using assms
    by (intro trip_inv_on_switch) (simp_all add: fold_keeps)
qed

lemma run_status_update_keeps: "trip_inv env' ns s \<Longrightarrow> trip_inv env' ns (run_status_update_br env inp s)"
  by (simp add: run_status_update_br_def Let_def status_walk_keeps)

lemma run_system_stats_keeps: "trip_inv env ns s \<Longrightarrow> trip_inv env ns (run_system_stats inp s)"
  by (simp add: run_system_stats_def trip_inv_def Let_def split: prod.split option.split)

lemma run_prepare_keeps: "trip_inv env ns s \<Longrightarrow> trip_inv env ns (run_prepare cp inp s)" "idl_seqno (run_prepare cp inp s) = idl_seqno s"
  by (auto simp: run_prepare_def bridge_init_ofproto_def trip_inv_def Let_def split: option.split)

lemma run_daemonize_keeps [simp]: "trip_inv env ns (run_daemonize inp s) = trip_inv env ns s" "idl_seqno (run_daemonize inp s) = idl_seqno s"
  by (simp_all add: run_daemonize_def Let_def)

lemma run_block_num_range: "0 \<le> run_block_num b \<and> run_block_num b < int MAX_RUN_BLOCKS_NUM"
  by (cases b) (simp_all add: MAX_RUN_BLOCKS_NUM_def)

lemma run_handlers_keep:
  assumes "\<forall>(h, _)\<in>set hs. run_handler_ok env h" "switch_ok env w"
  shows "switch_ok env (fold (\<lambda>(h, _). h p) hs w) \<and> table_names (fold (\<lambda>(h, _). h p) hs w) = table_names w"
  using assms
proof (induction hs arbitrary: w)
  case (Cons x hs)
  obtain h k where x: "x = (h, k)" by fastforce
  have "switch_ok env (h p w)" "table_names (h p w) = table_names w" using Cons.prems by (simp_all add: x run_handler_ok_def)
  with Cons.IH [of "h p w"] Cons.prems(1) show ?case by (simp add: x)
qed simp

lemma run_block_complete_keeps:
  assumes "trip_inv env ns s"
  shows "trip_inv env ns (run_block_complete blk s)" "idl_seqno (run_block_complete blk s) = idl_seqno s"
proof -
  let ?p = "\<lparr>rp_idl_seqno = idl_seqno s\<rparr>"
  obtain rc bl w where e: "execute_run_block (Some ?p) (run_block_num blk) (rs_run_blocks s) (rs_switch s) = (rc, bl, w)" by (metis prod_cases3)
  have b: "run_blocks_ok env (rs_run_blocks s)" and w: "switch_ok env (rs_switch s)" using assms by (simp_all add: trip_inv_def)
  then have wf: "blocks_wf MAX_RUN_BLOCKS_NUM (rs_run_blocks s)" by (simp add: run_blocks_ok_def)
  have x: "w = fold (\<lambda>(h, _). h ?p) (blk_handlers (rs_run_blocks s) (run_block_num blk)) (rs_switch s)" "blocks_wf MAX_RUN_BLOCKS_NUM bl"
    "\<forall>c. 0 \<le> c \<and> c < int MAX_RUN_BLOCKS_NUM \<longrightarrow> blk_handlers bl c = blk_handlers (rs_run_blocks s) c"
    using run.execute_ok [OF wf, of "run_block_num blk" ?p "rs_switch s"] run_block_num_range [of blk] by (simp_all add: e)
  have "\<forall>(h, _)\<in>set (blk_handlers (rs_run_blocks s) (run_block_num blk)). run_handler_ok env h" using b run_block_num_range [of blk] by (simp add: run_blocks_ok_def)
  note h = run_handlers_keep [OF this w, of ?p, folded x(1)]
  have "run_blocks_ok env bl" using b x(2,3) by (simp add: run_blocks_ok_def)
  with h assms show "trip_inv env ns (run_block_complete blk s)" by (simp add: run_block_complete_def e trip_inv_def)
  show "idl_seqno (run_block_complete blk s) = idl_seqno s" by (simp add: run_block_complete_def e)
qed

subsection \<open>Hit bits\<close>

text \<open>A walk over the hit bits changes no address and no name.\<close>

definition hit_frame :: "hit_state \<Rightarrow> (string \<times> string list) list" where
  "hit_frame h = map (\<lambda>x. (vrf_name x, map nb_ip_address (all_neighbors x))) (hs_vrfs h)"

lemma put_hit_frame: "vrf_name (put_hit v ip hit x) = vrf_name x" "map nb_ip_address (all_neighbors (put_hit v ip hit x)) = map nb_ip_address (all_neighbors x)"
  by (simp_all add: put_hit_def comp_def if_distrib [of nb_ip_address] cong: if_cong)

lemma read_hit_bit_total:
  assumes "nbr_vrf row \<in> fst ` set (hit_frame h)"
  shows "\<exists>h'. read_hit_bit env row h = Inr h' \<and> hit_frame h' = hit_frame h"
proof -
  have "List.find (\<lambda>v. vrf_name v = nbr_vrf row) (hs_vrfs h) \<noteq> None" using assms by (auto simp: hit_frame_def find_None_iff)
  then obtain v where v: "List.find (\<lambda>v. vrf_name v = nbr_vrf row) (hs_vrfs h) = Some v" by blast
  show ?thesis
    by (auto simp: read_hit_bit_def v Let_def hit_frame_def put_hit_frame comp_def split: option.split prod.split)
qed

lemma read_hit_bits_total:
  assumes "nbr_vrf ` set rows \<subseteq> fst ` set (hit_frame h)"
  shows "\<exists>h'. read_hit_bits env rows h = Inr h' \<and> hit_frame h' = hit_frame h"
  using assms
proof (induction rows arbitrary: h)
  case (Cons row rows)
  obtain h1 where h1: "read_hit_bit env row h = Inr h1" "hit_frame h1 = hit_frame h" using read_hit_bit_total Cons.prems by force
  with Cons.IH [of h1] Cons.prems show ?case by simp
qed simp

lemma run_neighbor_update_total:
  assumes "nbr_vrf ` set rows \<subseteq> fst ` set (hit_frame h)"
  shows "\<exists>h'. run_neighbor_update env rows now later h = Inr h' \<and> hit_frame h' = hit_frame h"
proof -
  let ?h = "if neighbor_timer_interval h \<noteq> NEIGHBOR_HIT_BIT_UPDATE_INTERVAL
    then h\<lparr>neighbor_timer_interval := NEIGHBOR_HIT_BIT_UPDATE_INTERVAL, neighbor_timer := LLONG_MIN\<rparr> else h"
  have f: "hit_frame ?h = hit_frame h" by (simp add: hit_frame_def)
  obtain h1 where "read_hit_bits env rows ?h = Inr h1" "hit_frame h1 = hit_frame h"
    using read_hit_bits_total [of rows ?h env] assms unfolding f by blast
  with f show ?thesis by (auto simp: run_neighbor_update_def Let_def hit_frame_def)
qed

lemma run_neighbors_ok:
  assumes s: "trip_inv env' ns s" and v: "nbr_vrf ` set (idl_neighbors (cd_neighbors (ri_db inp))) \<subseteq> set (snd ns)"
  shows "\<exists>s'. run_neighbors env inp s = Inr s' \<and> trip_inv env' ns s' \<and> idl_seqno s' = idl_seqno s"
proof -
  define w where "w = rs_switch s"
  define h where "h = \<lparr>hs_vrfs = map (\<lambda>v. vrf.truncate (vrf_l3 (g_l3 w) v)) (all_vrfs w), hs_log = sh_l3_log (g_l3 w), hs_status = [],
    neighbor_timer_interval = rs_neighbor_timer_interval s, neighbor_timer = rs_neighbor_timer s\<rparr>"
  have f: "hit_frame h = map (\<lambda>v. (v_name v, nb_ips (vf_l3 v))) (all_vrfs w)"
    by (simp add: h_def hit_frame_def vrf.truncate_def vrf_l3_def nb_ips_def)
  have "nbr_vrf ` set (idl_neighbors (cd_neighbors (ri_db inp))) \<subseteq> fst ` set (hit_frame h)"
    using s v by (auto simp: f w_def trip_inv_def table_names_def image_image)
  then obtain h' where h': "run_neighbor_update env (idl_neighbors (cd_neighbors (ri_db inp))) (ri_now inp) (ri_later inp) h = Inr h'" "hit_frame h' = hit_frame h"
    using run_neighbor_update_total by blast
  define wb :: "switch \<Rightarrow> switch" where "wb = (\<lambda>w. w\<lparr>all_vrfs := map2 (\<lambda>v x. v\<lparr>vf_l3 := (vf_l3 v)\<lparr>all_neighbors := all_neighbors x\<rparr>\<rparr>) (all_vrfs w) (hs_vrfs h'),
    g_l3 := (g_l3 w)\<lparr>sh_l3_log := hs_log h'\<rparr>\<rparr>)"
  have len: "length (hs_vrfs h') = length (all_vrfs w)" using arg_cong [OF h'(2), of length] by (simp add: f) (simp add: hit_frame_def)
  have ips: "map nb_ip_address (all_neighbors (hs_vrfs h' ! i)) = nb_ips (vf_l3 (all_vrfs w ! i))" if "i < length (all_vrfs w)" for i
    using arg_cong [OF h'(2), of "\<lambda>xs. snd (xs ! i)"] that len by (simp add: f) (simp add: hit_frame_def)
  have l3: "l3_ok (y\<lparr>all_neighbors := ns\<rparr>)" if "l3_ok y" "map nb_ip_address ns = nb_ips y" for y :: l3 and ns
    using that by (simp add: l3_ok_def cache_ok_def cache_wf_def cache_inv_def nb_ips_def)
  have names: "map v_name (all_vrfs (wb w)) = map v_name (all_vrfs w)"
    by (rule nth_equalityI) (simp_all add: wb_def len)
  have ok: "switch_ok env' w" using s by (simp add: trip_inv_def w_def)
  have "vrf_ok env' x" if "x \<in> set (all_vrfs (wb w))" for x
  proof -
    from that obtain i where i: "i < length (all_vrfs w)" "x = (all_vrfs w ! i)\<lparr>vf_l3 := (vf_l3 (all_vrfs w ! i))\<lparr>all_neighbors := all_neighbors (hs_vrfs h' ! i)\<rparr>\<rparr>"
      by (auto simp: wb_def set_zip in_set_conv_nth len)
    have "vrf_ok env' (all_vrfs w ! i)" using ok i(1) by (simp add: switch_ok_def)
    then show ?thesis using l3 ips [OF i(1)] by (simp add: i(2) vrf_ok_def)
  qed
  moreover have "all_bridges (wb w) = all_bridges w" by (simp add: wb_def)
  ultimately have "switch_ok env' (wb w)" "table_names (wb w) = table_names w" using ok names by (simp_all add: switch_ok_def table_names_def)
  then have "trip_inv env' ns (on_switch wb s)" using s by (simp add: trip_inv_def flip: w_def)
  moreover have "run_neighbors env inp s = Inr (rs_events (map (\<lambda>(r, m). SetHit r m) (hs_status h'))
      ((on_switch wb s)\<lparr>rs_neighbor_timer_interval := neighbor_timer_interval h', rs_neighbor_timer := neighbor_timer h'\<rparr>))"
    using h'(1) by (simp add: run_neighbors_def Let_def wb_def h_def w_def)
  ultimately show ?thesis by simp
qed

subsection \<open>A whole trip\<close>

lemma updates_seqno [simp]:
  "idl_seqno (run_stats_update_br env inp s) = idl_seqno s" "idl_seqno (run_status_update_br env inp s) = idl_seqno s"
  "idl_seqno (run_system_stats inp s) = idl_seqno s"
  by (simp_all add: run_stats_update_br_def stats_walk_def run_status_update_br_def status_walk_def run_system_stats_def Let_def split: prod.split option.split)

lemma run_reconfigure_ok:
  assumes s: "trip_inv (re_ports (cp_recon cp)) ns s" and l: "ofproto_laws (re_ports (cp_recon cp))"
    and m: "ether_aton (cp_recon cp) (oc_system_mac (cd_ovs (row_db inp))) = Some ea"
  shows "\<exists>s' ns'. run_reconfigure cp inp s = Inr s' \<and> trip_inv (re_ports (cp_recon cp)) ns' s' \<and> idl_seqno s' = ri_seqno inp
    \<and> (if ri_seqno inp = idl_seqno s then ns' = ns
        else creates (cp_recon cp) \<longrightarrow> set (fst ns') = bc_name ` set (oc_bridges (cd_ovs (row_db inp))) \<and> set (snd ns') = vc_name ` set (oc_vrfs (cd_ovs (row_db inp))))"
proof (cases "ri_seqno inp = idl_seqno s")
  case True
  with s show ?thesis by (intro exI [of _ s] exI [of _ ns]) (simp add: run_reconfigure_def)
next
  case False
  have "switch_ok (re_ports (cp_recon cp)) (rs_switch s)" "blocks_ok (re_ports (cp_recon cp)) (fst (cf_recon (rs_conf s)))"
    using s by (simp_all add: trip_inv_def)
  then obtain ns' cs2 where r: "bridge_reconfigure cp (row_db inp) (rs_conf s) = Inr (bridge_run_raw (row_db inp) cs2)"
    "st_ok (re_ports (cp_recon cp)) ns' True (cf_recon cs2)"
    "creates (cp_recon cp) \<longrightarrow> set (fst ns') = bc_name ` set (oc_bridges (cd_ovs (row_db inp))) \<and> set (snd ns') = vc_name ` set (oc_vrfs (cd_ovs (row_db inp)))"
    using reconfigure_parts [OF _ _ l m] by metis
  let ?s = "s\<lparr>rs_conf := bridge_run_raw (row_db inp) cs2, idl_seqno := ri_seqno inp\<rparr>"
  let ?t = "if ri_cfg inp then rs_events [SetCurCfg (ri_next_cfg inp)] ?s else ?s"
  have "trip_inv (re_ports (cp_recon cp)) ns' ?t" using r(2) s by (simp add: trip_inv_def st_ok_def)
  moreover have "idl_seqno ?t = ri_seqno inp" by simp
  moreover have "run_reconfigure cp inp s = Inr (if initial_config_done ?t then (rs_events [TxnCommit] ?t)\<lparr>status_txn_try_again := True\<rparr>
      else ?t\<lparr>initial_config_done := True, daemonize_txn := True\<rparr>)"
    using False by (simp add: run_reconfigure_def r(1) Let_def)
  ultimately show ?thesis using False r(3) by (intro exI [of _ "if initial_config_done ?t then (rs_events [TxnCommit] ?t)\<lparr>status_txn_try_again := True\<rparr>
      else ?t\<lparr>initial_config_done := True, daemonize_txn := True\<rparr>"] exI [of _ ns']) simp
qed

text \<open>What holds between two trips.\<close>

definition run_ok :: "'f conf_params \<Rightarrow> 'f run_state \<Rightarrow> bool" where
  "run_ok cp s \<longleftrightarrow> switch_ok (re_ports (cp_recon cp)) (rs_switch s) \<and> blocks_ok (re_ports (cp_recon cp)) (fst (cf_recon (rs_conf s)))
     \<and> run_blocks_ok (re_ports (cp_recon cp)) (rs_run_blocks s)"

lemma run_ok_inv: "run_ok cp s \<longleftrightarrow> trip_inv (re_ports (cp_recon cp)) (table_names (rs_switch s)) s"
  by (simp add: run_ok_def trip_inv_def)

lemma trip_ok:
  assumes "run_ok cp s" "ofproto_laws (re_ports (cp_recon cp))" "creates (cp_recon cp)" "\<not> ri_contended inp" "ri_has_lock inp" "ri_cfg inp"
    "ether_aton (cp_recon cp) (oc_system_mac (cd_ovs (ri_db inp))) = Some ea"
    "nbr_vrf ` set (idl_neighbors (cd_neighbors (ri_db inp))) \<subseteq> vc_name ` set (oc_vrfs (cd_ovs (ri_db inp)))"
    "ri_seqno inp = idl_seqno s \<Longrightarrow> v_name ` set (all_vrfs (rs_switch s)) = vc_name ` set (oc_vrfs (cd_ovs (ri_db inp)))"
  shows "\<exists>s'. bridge_run cp inp s = Inr s' \<and> run_ok cp s' \<and> idl_seqno s' = ri_seqno inp
    \<and> v_name ` set (all_vrfs (rs_switch s')) = vc_name ` set (oc_vrfs (cd_ovs (ri_db inp)))"
proof -
  let ?E = "re_ports (cp_recon cp)" and ?V = "vc_name ` set (oc_vrfs (cd_ovs (ri_db inp)))"
  have db: "row_db inp = ri_db inp" using assms(6) by (simp add: row_db_def)
  define s0 where "s0 = run_prepare cp inp s"
  have s0: "trip_inv ?E (table_names (rs_switch s)) s0" "idl_seqno s0 = idl_seqno s"
    using run_prepare_keeps(1) [of ?E _ s cp inp] run_prepare_keeps(2) assms(1) by (simp_all add: s0_def run_ok_inv)
  obtain s1 ns where s1: "run_reconfigure cp inp s0 = Inr s1" "trip_inv ?E ns s1" "idl_seqno s1 = ri_seqno inp"
    "if ri_seqno inp = idl_seqno s then ns = table_names (rs_switch s) else set (snd ns) = ?V"
    using run_reconfigure_ok [OF s0(1) assms(2), of inp ea] assms(3,7) db s0(2) by (auto split: if_splits)
  have ns: "set (snd ns) = ?V" using s1(4) assms(9) by (auto simp: table_names_def split: if_splits)
  define s2 where "s2 = run_system_stats inp (run_status_update_br (cp_recon cp) inp (run_stats_update_br (cp_recon cp) inp (run_daemonize inp s1)))"
  have s2: "trip_inv ?E ns s2" "idl_seqno s2 = ri_seqno inp" using s1(2,3)
    by (simp_all add: s2_def run_system_stats_keeps run_status_update_keeps run_stats_update_keeps)
  obtain s3 where s3: "run_neighbors (re_l3 (cp_recon cp)) inp s2 = Inr s3" "trip_inv ?E ns s3" "idl_seqno s3 = ri_seqno inp"
    using run_neighbors_ok [OF s2(1), of inp "re_l3 (cp_recon cp)"] assms(8) ns s2(2) by auto
  have "bridge_run cp inp s = Inr (run_block_complete BLK_RUN_COMPLETE s3)"
    using assms(4,5) s1(1) s3(1) by (simp add: bridge_run_def Let_def flip: s0_def s2_def)
  moreover have t: "trip_inv ?E ns (run_block_complete BLK_RUN_COMPLETE s3)" "idl_seqno (run_block_complete BLK_RUN_COMPLETE s3) = ri_seqno inp"
    using run_block_complete_keeps [OF s3(2)] s3(3) by simp_all
  moreover have "v_name ` set (all_vrfs (rs_switch (run_block_complete BLK_RUN_COMPLETE s3))) = ?V"
    using t(1) ns by (auto simp: trip_inv_def table_names_def)
  ultimately show ?thesis by (auto simp: run_ok_def trip_inv_def)
qed

text \<open>
  With the lock held and a System row whose MAC address parses, a trip through the main loop returns: no NULL pointer is
  dereferenced, provided every Neighbor row names a VRF of the configuration and, if nothing changed, the VRFs agree with the
  rows already.  The trip keeps the invariant of the switch, leaves exactly the configured VRFs, and remembers the sequence
  number, so that the conditions hold again for the next trip.
\<close>

theorem trip_returns:
  assumes "run_ok cp s" "ofproto_laws (re_ports (cp_recon cp))" "creates (cp_recon cp)" "\<not> ri_contended inp" "ri_has_lock inp" "ri_cfg inp"
    "ether_aton (cp_recon cp) (oc_system_mac (cd_ovs (ri_db inp))) = Some ea"
    "nbr_vrf ` set (idl_neighbors (cd_neighbors (ri_db inp))) \<subseteq> vc_name ` set (oc_vrfs (cd_ovs (ri_db inp)))"
    "ri_seqno inp = idl_seqno s \<Longrightarrow> v_name ` set (all_vrfs (rs_switch s)) = vc_name ` set (oc_vrfs (cd_ovs (ri_db inp)))"
  shows "\<exists>s'. bridge_run cp inp s = Inr s' \<and> run_ok cp s' \<and> idl_seqno s' = ri_seqno inp
    \<and> v_name ` set (all_vrfs (rs_switch s')) = vc_name ` set (oc_vrfs (cd_ovs (ri_db inp)))"
  by (rule trip_ok [OF assms])

definition sample_run_state :: "nat run_state" where
  "sample_run_state = \<lparr>rs_conf = sample_conf_state, rs_run_blocks = blocks_boot, idl_seqno = 0, initialized = False, initial_config_done = False,
     daemonize_txn = False, stats_txn = False, stats_timer = 0, stats_timer_interval = 0, status_txn = False, status_txn_try_again = False,
     connectivity_seqno = 0, rs_neighbor_timer_interval = 0, rs_neighbor_timer = 0, rs_log = []\<rparr>"

definition sample_input :: run_input where
  "sample_input = \<lparr>ri_contended = False, ri_has_lock = True, ri_cfg = True, ri_db = sample_conf_db, ri_next_cfg = 1, ri_ssl = None, ri_flow_restore_wait = False,
     ri_seqno = 1, ri_connectivity = 1, ri_now = 1000, ri_later = 1001, ri_daemon_status = TXN_SUCCESS, ri_stats_status = TXN_SUCCESS,
     ri_status_status = TXN_SUCCESS, ri_controllers = [], ri_controller_info = (\<lambda>_ i. i), ri_datapath_version = (\<lambda>_. None)\<rparr>"

lemma sample_run_ok: "run_ok sample_conf_params sample_run_state"
proof -
  have "run_blocks_ok sample_port_env blocks_boot" by (simp add: run_blocks_ok_def run.invar_boot run.handlers_boot)
  then show ?thesis using sample_switch_ok sample_blocks_ok
    by (simp add: run_ok_def sample_run_state_def sample_conf_state_def sample_conf_params_def sample_recon_env_def)
qed

lemma sample_trip_env: "ofproto_laws (re_ports (cp_recon sample_conf_params))" "creates (cp_recon sample_conf_params)"
  "ether_aton (cp_recon sample_conf_params) (oc_system_mac (cd_ovs (ri_db sample_input))) = Some ''aa''"
  using sample_port_env_laws
  by (simp_all add: ofproto_laws_def sample_conf_params_def sample_recon_env_def creates_def sample_input_def sample_conf_db_def sample_ovs_def)

theorem trip_returns_witness:
  "\<exists>s'. bridge_run sample_conf_params sample_input sample_run_state = Inr s' \<and> run_ok sample_conf_params s' \<and> idl_seqno s' = 1
    \<and> v_name ` set (all_vrfs (rs_switch s')) = {''vrf_default''}"
proof -
  have i: "\<not> ri_contended sample_input" "ri_has_lock sample_input" "ri_cfg sample_input" "ri_seqno sample_input = 1" "idl_seqno sample_run_state = 0"
    "vc_name ` set (oc_vrfs (cd_ovs (ri_db sample_input))) = {''vrf_default''}" "idl_neighbors (cd_neighbors (ri_db sample_input)) = []"
    by (simp_all add: sample_input_def sample_run_state_def sample_conf_db_def sample_ovs_def sample_neighbor_idl_def)
  from trip_returns [OF sample_run_ok sample_trip_env(1,2) i(1-3) sample_trip_env(3)] i(4-7) show ?thesis by simp
qed

section \<open>The callbacks of the stats blocks\<close>

text \<open>The parameters that plugins/stats-blocks.h documents for each block, and the calls it promises.\<close>

definition documented :: "stats_params \<times> stats_block_id \<Rightarrow> stats_block_id \<times> string option list" where
  "documented c = (let p = fst c in (snd c, case snd c of
     STATS_PER_BRIDGE \<Rightarrow> [sp_bridge p]
   | STATS_PER_BRIDGE_PORT \<Rightarrow> [sp_bridge p, sp_port p]
   | STATS_PER_BRIDGE_NETDEV \<Rightarrow> [sp_bridge p, sp_port p, sp_netdev p]
   | STATS_PER_VRF \<Rightarrow> [sp_vrf p]
   | STATS_PER_VRF_PORT \<Rightarrow> [sp_vrf p, sp_port p]
   | STATS_PER_VRF_NETDEV \<Rightarrow> [sp_vrf p, sp_port p, sp_netdev p]
   | _ \<Rightarrow> []))"

definition promised_ports :: "stats_block_id \<Rightarrow> stats_block_id \<Rightarrow> string \<Rightarrow> 'a bridge_scheme \<Rightarrow> br_port list \<Rightarrow> (stats_block_id \<times> string option list) list" where
  "promised_ports pblk nblk n s ps = concat (map (\<lambda>p. (pblk, [Some n, Some (bp_name p)])
     # map (\<lambda>i. (nblk, [Some n, Some (bp_name p), Some (bi_name i)])) (filter (\<lambda>i. bi_type i \<noteq> ''system'') (port_ifaces s p))) ps)"

definition promised_calls :: "switch \<Rightarrow> (stats_block_id \<times> string option list) list" where
  "promised_calls w = (STATS_BEGIN, [])
     # concat (map (\<lambda>b. (STATS_PER_BRIDGE, [Some (b_name b)])
         # promised_ports STATS_PER_BRIDGE_PORT STATS_PER_BRIDGE_NETDEV (b_name b) (bf_bridge b) (br_ports (bf_bridge b))) (all_bridges w))
     @ concat (map (\<lambda>v. (STATS_PER_VRF, [Some (v_name v)])
         # promised_ports STATS_PER_VRF_PORT STATS_PER_VRF_NETDEV (v_name v) (vf_up v) (br_ports (vf_up v))) (all_vrfs w))
     @ [(STATS_END, [])]"

text \<open>What the loops leave alone in the structure.\<close>

lemma netdev_calls_keep:
  "sp_bridge (snd (netdev_calls blk is p)) = sp_bridge p \<and> sp_vrf (snd (netdev_calls blk is p)) = sp_vrf p \<and> sp_port (snd (netdev_calls blk is p)) = sp_port p"
  by (induction blk "is" p rule: netdev_calls.induct) (auto simp: Let_def split: prod.split)

lemma port_calls_keep:
  "sp_bridge (snd (port_calls a b s ps p)) = sp_bridge p \<and> sp_vrf (snd (port_calls a b s ps p)) = sp_vrf p"
proof (induction ps arbitrary: p)
  case (Cons x ps)
  then show ?case using netdev_calls_keep by (simp add: Let_def case_prod_unfold)
qed simp

lemma netdev_calls_promised:
  "map documented (fst (netdev_calls STATS_PER_BRIDGE_NETDEV is p)) =
     map (\<lambda>i. (STATS_PER_BRIDGE_NETDEV, [sp_bridge p, sp_port p, Some (bi_name i)])) (filter (\<lambda>i. bi_type i \<noteq> ''system'') is)"
  "map documented (fst (netdev_calls STATS_PER_VRF_NETDEV is p)) =
     map (\<lambda>i. (STATS_PER_VRF_NETDEV, [sp_vrf p, sp_port p, Some (bi_name i)])) (filter (\<lambda>i. bi_type i \<noteq> ''system'') is)"
  by (induction "is" arbitrary: p) (simp_all add: documented_def Let_def case_prod_unfold)

lemma port_calls_promised:
  "sp_bridge p = Some n \<Longrightarrow> map documented (fst (port_calls STATS_PER_BRIDGE_PORT STATS_PER_BRIDGE_NETDEV s ps p)) = promised_ports STATS_PER_BRIDGE_PORT STATS_PER_BRIDGE_NETDEV n s ps"
  "sp_vrf p = Some n \<Longrightarrow> map documented (fst (port_calls STATS_PER_VRF_PORT STATS_PER_VRF_NETDEV s ps p)) = promised_ports STATS_PER_VRF_PORT STATS_PER_VRF_NETDEV n s ps"
  by (induction ps arbitrary: p)
    (simp_all add: promised_ports_def documented_def Let_def case_prod_unfold netdev_calls_promised netdev_calls_keep)

lemma bridge_calls_promised:
  "map documented (fst (bridge_calls bs p)) = concat (map (\<lambda>b. (STATS_PER_BRIDGE, [Some (b_name b)])
     # promised_ports STATS_PER_BRIDGE_PORT STATS_PER_BRIDGE_NETDEV (b_name b) (bf_bridge b) (br_ports (bf_bridge b))) bs)"
  by (induction bs arbitrary: p) (simp_all add: documented_def Let_def case_prod_unfold port_calls_promised)

lemma vrf_calls_promised:
  "map documented (fst (vrf_calls vs p)) = concat (map (\<lambda>v. (STATS_PER_VRF, [Some (v_name v)])
     # promised_ports STATS_PER_VRF_PORT STATS_PER_VRF_NETDEV (v_name v) (vf_up v) (br_ports (vf_up v))) vs)"
  by (induction vs arbitrary: p) (simp_all add: documented_def Let_def case_prod_unfold port_calls_promised)


section \<open>Timers and transactions\<close>

text \<open>Most parts of a trip neither walk over the statistics nor notify the parent.\<close>

definition walk_times :: "run_event list \<Rightarrow> int list" where
  "walk_times es = List.map_filter (\<lambda>e. case e of StatsWalk t \<Rightarrow> Some t | _ \<Rightarrow> None) es"

definition notifications :: "run_event list \<Rightarrow> nat" where
  "notifications es = length (filter (\<lambda>e. e = DaemonizeComplete) es)"

lemma walk_times_append [simp]: "walk_times (a @ b) = walk_times a @ walk_times b" "walk_times [] = []" "walk_times [StatsWalk t] = [t]"
  by (simp_all add: walk_times_def List.map_filter_def)

lemma notifications_append [simp]: "notifications (a @ b) = notifications a + notifications b" "notifications [] = 0" "notifications [DaemonizeComplete] = 1"
  by (simp_all add: notifications_def)

definition quiet :: "run_event list \<Rightarrow> bool" where
  "quiet es \<longleftrightarrow> walk_times es = [] \<and> notifications es = 0"

lemma quiet_append [simp]: "quiet (a @ b) \<longleftrightarrow> quiet a \<and> quiet b" "quiet []"
  by (auto simp: quiet_def)

lemma quiet_Cons: "quiet (e # es) \<longleftrightarrow> quiet [e] \<and> quiet es"
  using quiet_append(1) [of "[e]" es] by simp

lemma quiet_Cons2: "quiet (e # e' # es) \<longleftrightarrow> quiet [e] \<and> quiet (e' # es)"
  using quiet_Cons [of e "e' # es"] by simp

lemma quiet_events [simp]:
  "quiet [TxnCommit]" "quiet [OfprotoRegister]" "quiet [OfprotoInit hs]" "quiet [SetFlowRestoreWait b]" "quiet [SslKeyAndCert k c]" "quiet [SslCaCert c b]"
  "quiet [SetCurCfg n]" "quiet [SetController t b r sm]" "quiet [SetDatapathVersion d v]" "quiet [WriteStatistics m]" "quiet [StatusWalk q]" "quiet [SetHit w m]"
  by (simp_all add: quiet_def walk_times_def notifications_def List.map_filter_simps)

lemma quiet_map: "(\<And>x. quiet [f x]) \<Longrightarrow> quiet (map f xs)"
proof (induction xs)
  case (Cons x xs)
  then show ?case using quiet_Cons [of "f x" "map f xs"] by simp
qed simp

definition quiet_step :: "'f run_state \<Rightarrow> 'f run_state \<Rightarrow> bool" where
  "quiet_step s s' \<longleftrightarrow> (\<exists>es. rs_log s' = rs_log s @ es \<and> quiet es) \<and> stats_txn s' = stats_txn s \<and> stats_timer s' = stats_timer s
     \<and> stats_timer_interval s' = stats_timer_interval s \<and> initial_config_done s' = initial_config_done s \<and> daemonize_txn s' = daemonize_txn s"

lemma quiet_step_refl [simp]: "quiet_step s s"
  by (simp add: quiet_step_def)

lemma quiet_step_trans: "quiet_step s s1 \<Longrightarrow> quiet_step s1 s2 \<Longrightarrow> quiet_step s s2"
  by (auto simp: quiet_step_def)

lemma quiet_step_fields [simp]:
  "quiet_step s (s'\<lparr>rs_conf := c\<rparr>) = quiet_step s s'" "quiet_step s (s'\<lparr>initialized := b\<rparr>) = quiet_step s s'" "quiet_step s (s'\<lparr>idl_seqno := a\<rparr>) = quiet_step s s'"
  "quiet_step s (s'\<lparr>status_txn := b\<rparr>) = quiet_step s s'" "quiet_step s (s'\<lparr>status_txn_try_again := b\<rparr>) = quiet_step s s'"
  "quiet_step s (s'\<lparr>connectivity_seqno := q\<rparr>) = quiet_step s s'" "quiet_step s (s'\<lparr>rs_neighbor_timer_interval := t\<rparr>) = quiet_step s s'"
  "quiet_step s (s'\<lparr>rs_neighbor_timer := t\<rparr>) = quiet_step s s'" "quiet_step s (s'\<lparr>rs_run_blocks := bl\<rparr>) = quiet_step s s'"
  "quiet_step s (on_switch f s') = quiet_step s s'"
  by (simp_all add: quiet_step_def)

lemma quiet_step_events: "quiet_step s s' \<Longrightarrow> quiet es \<Longrightarrow> quiet_step s (rs_events es s')"
  by (auto simp: quiet_step_def)

lemma run_prepare_quiet: "quiet_step s (run_prepare cp inp s)"
  by (auto simp: run_prepare_def bridge_init_ofproto_def Let_def quiet_Cons2 intro!: quiet_step_events split: option.split)

lemma status_walk_quiet: "quiet_step s (status_walk env inp s)"
proof -
  have "quiet (map (br_refresh_datapath_info inp) bs)" for bs by (rule quiet_map) (simp add: br_refresh_datapath_info_def)
  then have "quiet (StatusWalk q # map (br_refresh_datapath_info inp) bs)" for q bs
    using quiet_Cons [of "StatusWalk q" "map (br_refresh_datapath_info inp) bs"] by simp
  then show ?thesis by (simp add: status_walk_def Let_def quiet_step_events)
qed

lemma run_status_quiet: "quiet_step s (run_status_update_br env inp s)"
  using status_walk_quiet [of s env inp] by (simp add: run_status_update_br_def Let_def quiet_step_events)

lemma run_system_stats_quiet: "quiet_step s (run_system_stats inp s)"
  by (auto simp: run_system_stats_def Let_def quiet_Cons2 intro!: quiet_step_events split: prod.split option.split)

lemma run_neighbors_quiet: "run_neighbors env inp s = Inr s' \<Longrightarrow> quiet_step s s'"
  by (auto simp: run_neighbors_def and_then_def Let_def intro!: quiet_step_events quiet_map split: sum.splits prod.split)

lemma run_block_complete_quiet: "quiet_step s (run_block_complete blk s)"
  by (simp add: run_block_complete_def split: prod.split)

lemma run_contended_quiet: "quiet_step s (run_contended env s)"
  by (simp add: run_contended_def Let_def)

text \<open>A trip is three steps that matter between quiet ones.\<close>

lemma bridge_run_parts:
  assumes "bridge_run cp inp s = Inr s'"
  obtains (quiet) "quiet_step s s'" "ri_contended inp \<or> \<not> ri_has_lock inp"
  | (full) s1 s2 where "quiet_step s s1" "idl_seqno s1 = idl_seqno s" "run_reconfigure cp inp s1 = Inr s2"
      "quiet_step (run_stats_update_br (cp_recon cp) inp (run_daemonize inp s2)) s'"
proof (cases "ri_contended inp \<or> \<not> ri_has_lock inp")
  case True
  then have "quiet_step s s'" using assms run_contended_quiet [of s "cp_recon cp"] by (auto simp: bridge_run_def split: if_splits)
  then show ?thesis using True by (rule quiet)
next
  case False
  let ?s1 = "run_prepare cp inp s"
  obtain s2 s3 where r: "run_reconfigure cp inp ?s1 = Inr s2"
    "run_neighbors (re_l3 (cp_recon cp)) inp (run_system_stats inp (run_status_update_br (cp_recon cp) inp
       (run_stats_update_br (cp_recon cp) inp (run_daemonize inp s2)))) = Inr s3" "s' = run_block_complete BLK_RUN_COMPLETE s3"
    using assms False by (auto simp: bridge_run_def and_then_def Let_def split: sum.splits)
  let ?t = "run_stats_update_br (cp_recon cp) inp (run_daemonize inp s2)"
  have "quiet_step ?t (run_status_update_br (cp_recon cp) inp ?t)" by (rule run_status_quiet)
  from quiet_step_trans [OF this run_system_stats_quiet]
  have "quiet_step ?t (run_system_stats inp (run_status_update_br (cp_recon cp) inp ?t))" .
  from quiet_step_trans [OF quiet_step_trans [OF this run_neighbors_quiet [OF r(2)]] run_block_complete_quiet]
  have "quiet_step ?t s'" by (simp add: r(3))
  then show ?thesis by (rule full [OF run_prepare_quiet run_prepare_keeps(2) r(1)])
qed

lemma run_reconfigure_flags:
  assumes "run_reconfigure cp inp s = Inr s'"
  shows "quiet_step s s' \<or> \<not> initial_config_done s \<and> (\<exists>x. quiet_step s x \<and> s' = x\<lparr>initial_config_done := True, daemonize_txn := True\<rparr>)"
proof (cases "ri_seqno inp \<noteq> idl_seqno s")
  case True
  then obtain cs where r: "s' = (let s = s\<lparr>rs_conf := cs, idl_seqno := ri_seqno inp\<rparr>;
                 s = (if ri_cfg inp then rs_events [SetCurCfg (ri_next_cfg inp)] s else s)
             in if initial_config_done s
                then (rs_events [TxnCommit] s)\<lparr>status_txn_try_again := True\<rparr>
                else s\<lparr>initial_config_done := True, daemonize_txn := True\<rparr>)"
    using assms by (auto simp: run_reconfigure_def and_then_def split: sum.splits)
  let ?t = "s\<lparr>rs_conf := cs, idl_seqno := ri_seqno inp\<rparr>"
  let ?x = "if ri_cfg inp then rs_events [SetCurCfg (ri_next_cfg inp)] ?t else ?t"
  have q: "quiet_step s ?x" using quiet_step_events [of s ?t "[SetCurCfg (ri_next_cfg inp)]"] by simp
  have d: "initial_config_done ?x = initial_config_done s" by simp
  show ?thesis
  proof (cases "initial_config_done s")
    case True
    then have "s' = (rs_events [TxnCommit] ?x)\<lparr>status_txn_try_again := True\<rparr>" using r d unfolding Let_def by presburger
    with quiet_step_events [OF q, of "[TxnCommit]"] show ?thesis by simp
  next
    case False
    then have "s' = ?x\<lparr>initial_config_done := True, daemonize_txn := True\<rparr>" using r d unfolding Let_def by presburger
    with q False show ?thesis by blast
  qed
qed (use assms in \<open>simp add: run_reconfigure_def\<close>)

lemma controller_status_quiet: "quiet (refresh_controller_status inp w)"
  unfolding refresh_controller_status_def Let_def by (rule quiet_map) (simp split: option.split)

text \<open>The effect of the statistics update on log and timer.\<close>

definition stats_interval :: "run_input \<Rightarrow> int" where
  "stats_interval inp = max (smap_get_int (cd_other_config (ri_db inp)) ''stats-update-interval'' 5000) 5000"

lemma stats_walk_sel [simp]: "stats_timer_interval (stats_walk env inp s) = stats_timer_interval s" "stats_timer (stats_walk env inp s) = stats_timer s"
  "walk_times (rs_log (stats_walk env inp s)) = walk_times (rs_log s) @ [ri_now inp]" "notifications (rs_log (stats_walk env inp s)) = notifications (rs_log s)"
  "initial_config_done (stats_walk env inp s) = initial_config_done s" "daemonize_txn (stats_walk env inp s) = daemonize_txn s"
proof -
  have "walk_times (StatsWalk t # es) = t # walk_times es" "notifications (StatsWalk t # es) = notifications es" for t es
    by (simp_all add: walk_times_def notifications_def List.map_filter_simps)
  then show "walk_times (rs_log (stats_walk env inp s)) = walk_times (rs_log s) @ [ri_now inp]"
    "notifications (rs_log (stats_walk env inp s)) = notifications (rs_log s)"
    using controller_status_quiet [of inp "refresh_all_stats env (rs_switch s)"] by (simp_all add: stats_walk_def Let_def quiet_def)
qed (simp_all add: stats_walk_def Let_def)

lemma stats_update_flags [simp]: "notifications (rs_log (run_stats_update_br env inp s)) = notifications (rs_log s)"
  "initial_config_done (run_stats_update_br env inp s) = initial_config_done s" "daemonize_txn (run_stats_update_br env inp s) = daemonize_txn s"
  by (simp_all add: run_stats_update_br_def Let_def) (simp add: notifications_def)

lemma daemonize_stats [simp]: "stats_timer_interval (run_daemonize inp s) = stats_timer_interval s" "stats_timer (run_daemonize inp s) = stats_timer s"
  "stats_txn (run_daemonize inp s) = stats_txn s" "walk_times (rs_log (run_daemonize inp s)) = walk_times (rs_log s)"
  by (simp_all add: run_daemonize_def Let_def) (simp add: walk_times_def List.map_filter_simps)

subsection \<open>Notifying the parent\<close>

inductive trips :: "'f conf_params \<Rightarrow> 'f run_state \<Rightarrow> bool" for cp where
  start: "\<lbrakk>rs_log s = []; \<not> initial_config_done s; \<not> daemonize_txn s\<rbrakk> \<Longrightarrow> trips cp s"
| trip: "\<lbrakk>trips cp s; bridge_run cp inp s = Inr s'\<rbrakk> \<Longrightarrow> trips cp s'"

definition notified_ok :: "'f run_state \<Rightarrow> bool" where
  "notified_ok s \<longleftrightarrow> (daemonize_txn s \<longrightarrow> initial_config_done s)
     \<and> notifications (rs_log s) = (if initial_config_done s \<and> \<not> daemonize_txn s then 1 else 0)"

lemma notified_quiet: "quiet_step s s' \<Longrightarrow> notified_ok s' = notified_ok s"
  by (auto simp: quiet_step_def notified_ok_def quiet_def)

lemma notified_reconfigure:
  assumes "notified_ok s" "run_reconfigure cp inp s = Inr s'"
  shows "notified_ok s'"
  using run_reconfigure_flags [OF assms(2)]
proof (elim disjE conjE exE)
  fix x
  assume x: "\<not> initial_config_done s" "quiet_step s x" "s' = x\<lparr>initial_config_done := True, daemonize_txn := True\<rparr>"
  then have "notified_ok x" "\<not> initial_config_done x" using assms(1) notified_quiet by (auto simp: quiet_step_def)
  then show ?thesis by (simp add: x(3) notified_ok_def)
qed (simp add: notified_quiet assms(1))

lemma notified_daemonize: "notified_ok s \<Longrightarrow> notified_ok (run_daemonize inp s)"
  by (auto simp: notified_ok_def run_daemonize_def Let_def notifications_def)

text \<open>
  C28: In every sequence of trips from the start of the daemon, the process that started it is notified at most once, and exactly
  once the first configuration has been processed and its transaction has come to an end.
\<close>

theorem parent_notified_once:
  assumes "trips cp s"
  shows "notifications (rs_log s) = (if initial_config_done s \<and> \<not> daemonize_txn s then 1 else 0)"
proof -
  from assms have "notified_ok s"
  proof (induction rule: trips.induct)
    case (trip s inp s')
    from trip(2) show ?case
    proof (cases rule: bridge_run_parts)
      case quiet
      with trip(3) show ?thesis by (simp add: notified_quiet)
    next
      case (full s1 s2)
      have "notified_ok s2" using notified_reconfigure [OF _ full(3)] notified_quiet [OF full(1)] trip(3) by simp
      then have "notified_ok (run_daemonize inp s2)" by (rule notified_daemonize)
      then show ?thesis using notified_quiet [OF full(4)] by (simp add: notified_ok_def)
    qed
  qed (simp add: notified_ok_def)
  then show ?thesis by (simp add: notified_ok_def)
qed

lemma reconfigure_done: "run_reconfigure cp inp s = Inr s' \<Longrightarrow> ri_seqno inp \<noteq> idl_seqno s \<Longrightarrow> initial_config_done s'"
  by (auto simp: run_reconfigure_def and_then_def Let_def split: sum.splits if_splits)

lemma first_trip_notifies:
  assumes "bridge_run cp inp s = Inr s'" "\<not> ri_contended inp" "ri_has_lock inp" "ri_seqno inp \<noteq> idl_seqno s" "ri_daemon_status inp \<noteq> TXN_INCOMPLETE"
  shows "initial_config_done s'" "\<not> daemonize_txn s'"
proof -
  from assms(1) have "initial_config_done s' \<and> \<not> daemonize_txn s'"
  proof (cases rule: bridge_run_parts)
    case (full s1 s2)
    have "initial_config_done s2" using reconfigure_done [OF full(3)] full(2) assms(4) by simp
    then show ?thesis using full(4) assms(5) by (auto simp: quiet_step_def run_daemonize_def Let_def)
  qed (use assms in blast)
  then show "initial_config_done s'" "\<not> daemonize_txn s'" by simp_all
qed

lemma sample_trip: "\<exists>s'. bridge_run sample_conf_params sample_input sample_run_state = Inr s'"
proof -
  have i: "\<not> ri_contended sample_input" "ri_has_lock sample_input" "ri_cfg sample_input" "ri_seqno sample_input = 1" "idl_seqno sample_run_state = 0"
    "idl_neighbors (cd_neighbors (ri_db sample_input)) = []"
    by (simp_all add: sample_input_def sample_run_state_def sample_conf_db_def sample_neighbor_idl_def)
  from trip_ok [OF sample_run_ok sample_trip_env(1,2) i(1-3) sample_trip_env(3)] i(4-6) show ?thesis by auto
qed

theorem parent_notified_once_witness:
  "\<exists>s'. bridge_run sample_conf_params sample_input sample_run_state = Inr s' \<and> notifications (rs_log s') = 1"
proof -
  obtain s' where r: "bridge_run sample_conf_params sample_input sample_run_state = Inr s'" using sample_trip by blast
  have "trips sample_conf_params sample_run_state" by (rule trips.start) (simp_all add: sample_run_state_def)
  then have t: "trips sample_conf_params s'" using r by (rule trips.trip)
  have "initial_config_done s'" "\<not> daemonize_txn s'" using first_trip_notifies [OF r] by (simp_all add: sample_input_def sample_run_state_def)
  with parent_notified_once [OF t] r show ?thesis by simp
qed

subsection \<open>The distance between walks\<close>

inductive timed_trips :: "'f conf_params \<Rightarrow> int \<Rightarrow> 'f run_state \<Rightarrow> int \<Rightarrow> bool" for cp k where
  start: "\<lbrakk>rs_log s = []; \<not> stats_txn s\<rbrakk> \<Longrightarrow> timed_trips cp k s t"
| trip: "\<lbrakk>timed_trips cp k s t; t \<le> ri_now inp; ri_now inp \<le> ri_later inp; stats_interval inp = k; bridge_run cp inp s = Inr s'\<rbrakk>
    \<Longrightarrow> timed_trips cp k s' (ri_later inp)"

definition spaced_ok :: "int \<Rightarrow> int \<Rightarrow> 'f run_state \<Rightarrow> bool" where
  "spaced_ok k t s \<longleftrightarrow> sorted_wrt (\<lambda>a b. a + k \<le> b) (walk_times (rs_log s)) \<and> (\<forall>a\<in>set (walk_times (rs_log s)). a \<le> t)
     \<and> (walk_times (rs_log s) \<noteq> [] \<longrightarrow> stats_timer_interval s = k \<and> 5000 \<le> k)
     \<and> (\<not> stats_txn s \<longrightarrow> (\<forall>a\<in>set (walk_times (rs_log s)). a + k \<le> stats_timer s))"

lemma spaced_quiet: "quiet_step s s' \<Longrightarrow> spaced_ok k t s' = spaced_ok k t s"
  by (auto simp: quiet_step_def spaced_ok_def quiet_def)

lemma spaced_reconfigure:
  assumes "spaced_ok k t s" "run_reconfigure cp inp s = Inr s'"
  shows "spaced_ok k t s'"
  using run_reconfigure_flags [OF assms(2)]
proof (elim disjE conjE exE)
  fix x
  assume x: "quiet_step s x" "s' = x\<lparr>initial_config_done := True, daemonize_txn := True\<rparr>"
  have "spaced_ok k t x" using assms(1) by (simp add: spaced_quiet [OF x(1)])
  then show ?thesis by (simp add: x(2) spaced_ok_def)
qed (simp add: spaced_quiet assms(1))

lemma spaced_later: "spaced_ok k t s \<Longrightarrow> t \<le> t' \<Longrightarrow> spaced_ok k t' s"
  by (auto simp: spaced_ok_def)

lemma spaced_stats:
  assumes "spaced_ok k t s" "t \<le> ri_now inp" "ri_now inp \<le> ri_later inp" "stats_interval inp = k"
  shows "spaced_ok k (ri_later inp) (run_stats_update_br env inp s)"
proof (cases "ri_cfg inp")
  case False
  with spaced_later [OF assms(1)] assms(2,3) show ?thesis by (simp add: run_stats_update_br_def)
next
  case True
  define s0 where "s0 = (if stats_timer_interval s \<noteq> k then s\<lparr>stats_timer_interval := k, stats_timer := LLONG_MIN\<rparr> else s)"
  have s0: "spaced_ok k t s0" "stats_timer_interval s0 = k" using assms(1) by (auto simp: s0_def spaced_ok_def)
  define s1 where "s1 = (if \<not> stats_txn s0 then (stats_walk env inp s0)\<lparr>stats_txn := True\<rparr> else s0)"
  have r: "run_stats_update_br env inp s = (if ri_now inp \<ge> stats_timer s0
      then if ri_stats_status inp \<noteq> TXN_INCOMPLETE
           then (rs_events [TxnCommit] s1)\<lparr>stats_timer := ri_later inp + k, stats_txn := False\<rparr>
           else rs_events [TxnCommit] s1
      else s0)"
    using True assms(4) s0(2) by (simp add: run_stats_update_br_def Let_def s0_def s1_def stats_interval_def)
  show ?thesis
  proof (cases "ri_now inp \<ge> stats_timer s0")
    case True
    have w: "sorted_wrt (\<lambda>a b. a + k \<le> b) (walk_times (rs_log s1))" "\<forall>a\<in>set (walk_times (rs_log s1)). a \<le> ri_later inp"
      "stats_timer_interval s1 = k" "stats_txn s1"
      using s0 True assms(2,3) by (auto simp: s1_def spaced_ok_def sorted_wrt_append)
    have "5000 \<le> k" using assms(4) by (auto simp: stats_interval_def)
    have q: "walk_times [TxnCommit] = []" by (simp add: walk_times_def List.map_filter_simps)
    from w \<open>5000 \<le> k\<close> show ?thesis by (auto simp: r True spaced_ok_def q)
  next
    case False
    then show ?thesis using spaced_later [OF s0(1)] assms(2,3) by (simp add: r)
  qed
qed

text \<open>
  C29: As long as the configured interval stays the same and the clock does not run backwards, two walks over the statistics are
  at least that interval apart, however often the main loop runs and however long a transaction takes; the interval is never
  less than five seconds.
\<close>

theorem stats_walks_spaced:
  assumes "timed_trips cp k s t" "walk_times (rs_log s) = as @ a # b # bs"
  shows "a + k \<le> b \<and> 5000 \<le> k"
proof -
  from assms(1) have "spaced_ok k t s"
  proof (induction rule: timed_trips.induct)
    case (trip s t inp s')
    from trip(5) show ?case
    proof (cases rule: bridge_run_parts)
      case quiet
      with spaced_later [OF trip(6)] trip(2,3) show ?thesis by (simp add: spaced_quiet)
    next
      case (full s1 s2)
      have "spaced_ok k t s2" using spaced_reconfigure [OF _ full(3)] spaced_quiet [OF full(1)] trip(6) by simp
      then have "spaced_ok k t (run_daemonize inp s2)" by (simp add: spaced_ok_def)
      from spaced_stats [OF this trip(2-4)] show ?thesis using spaced_quiet [OF full(4)] by simp
    qed
  qed (simp add: spaced_ok_def)
  with assms(2) show ?thesis by (auto simp: spaced_ok_def sorted_wrt_append)
qed

text \<open>A trip that is due walks and sets the timer.\<close>

definition stats_view :: "'f run_state \<Rightarrow> int list \<times> bool \<times> int \<times> int" where
  "stats_view s = (walk_times (rs_log s), stats_txn s, stats_timer s, stats_timer_interval s)"

lemma stats_view_quiet: "quiet_step s s' \<Longrightarrow> stats_view s' = stats_view s"
  by (auto simp: quiet_step_def stats_view_def quiet_def)

lemma due_trip_walks:
  assumes "bridge_run cp inp s = Inr s'" "\<not> ri_contended inp" "ri_has_lock inp" "ri_cfg inp" "ri_stats_status inp \<noteq> TXN_INCOMPLETE"
    and "\<not> stats_txn s" "(if stats_timer_interval s = stats_interval inp then stats_timer s else LLONG_MIN) \<le> ri_now inp"
  shows "stats_view s' = (walk_times (rs_log s) @ [ri_now inp], False, ri_later inp + stats_interval inp, stats_interval inp)"
  using assms(1)
proof (cases rule: bridge_run_parts)
  case (full s1 s2)
  have "stats_view s2 = stats_view s1" using run_reconfigure_flags [OF full(3)] stats_view_quiet by (auto simp: stats_view_def)
  then have v: "stats_view (run_daemonize inp s2) = stats_view s" using stats_view_quiet [OF full(1)] by (simp add: stats_view_def)
  have "walk_times [TxnCommit] = []" by (simp add: walk_times_def List.map_filter_simps)
  with v have "stats_view (run_stats_update_br (cp_recon cp) inp (run_daemonize inp s2)) =
      (walk_times (rs_log s) @ [ri_now inp], False, ri_later inp + stats_interval inp, stats_interval inp)"
    using assms(4-7) by (auto simp: run_stats_update_br_def Let_def stats_view_def stats_interval_def split: if_splits)
  then show ?thesis using stats_view_quiet [OF full(4)] by simp
qed (use assms in blast)

theorem stats_walks_spaced_witness:
  "\<exists>s. timed_trips sample_conf_params 5000 s 9001 \<and> walk_times (rs_log s) = [1000, 9000] \<and> (1000::int) + 5000 \<le> 9000"
proof -
  let ?i = "sample_input\<lparr>ri_now := 9000, ri_later := 9001\<rparr>"
  have i: "\<not> ri_contended sample_input" "ri_has_lock sample_input" "ri_cfg sample_input" "ri_stats_status sample_input \<noteq> TXN_INCOMPLETE"
    "ri_now sample_input = 1000" "ri_later sample_input = 1001" "ri_seqno sample_input = 1" "idl_seqno sample_run_state = 0"
    "idl_neighbors (cd_neighbors (ri_db sample_input)) = []" "stats_interval sample_input = 5000" "stats_interval ?i = 5000"
    by (simp_all add: sample_input_def sample_run_state_def sample_conf_db_def sample_neighbor_idl_def stats_interval_def smap_get_int_def smap_get_def)
  obtain s1 where s1: "bridge_run sample_conf_params sample_input sample_run_state = Inr s1" "run_ok sample_conf_params s1" "idl_seqno s1 = 1"
    "v_name ` set (all_vrfs (rs_switch s1)) = vc_name ` set (oc_vrfs (cd_ovs (ri_db sample_input)))"
    using trip_ok [OF sample_run_ok sample_trip_env(1,2) i(1-3) sample_trip_env(3)] i(7-9) by auto
  obtain s2 where s2: "bridge_run sample_conf_params ?i s1 = Inr s2"
    using trip_ok [OF s1(2) sample_trip_env(1,2), of ?i "''aa''"] i s1(3,4) sample_trip_env(3) by auto
  have v1: "stats_view s1 = ([1000], False, 6001, 5000)"
    using due_trip_walks [OF s1(1)] i by (simp add: sample_run_state_def LLONG_MIN_def)
  have v2: "walk_times (rs_log s2) = [1000, 9000]"
    using due_trip_walks [OF s2] i v1 by (simp add: stats_view_def)
  have "timed_trips sample_conf_params 5000 sample_run_state 0" by (rule timed_trips.start) (simp_all add: sample_run_state_def)
  from timed_trips.trip [OF this, of sample_input s1] have "timed_trips sample_conf_params 5000 s1 1001" using i s1(1) by simp
  from timed_trips.trip [OF this, of ?i s2] have t: "timed_trips sample_conf_params 5000 s2 9001" using i s2 by simp
  from stats_walks_spaced [OF t, of "[]" 1000 9000 "[]"] t v2 show ?thesis by auto
qed

section \<open>Losing the lock\<close>

lemma destroy_all_bridges: "all_bridges (fold (bridge_destroy env) bs w) = filter (\<lambda>x. b_name x \<notin> b_name ` set bs) (all_bridges w)"
  "all_vrfs (fold (bridge_destroy env) bs w) = all_vrfs w"
  by (induction bs arbitrary: w) (auto intro: filter_cong)

lemma destroy_all_vrfs: "all_vrfs (fold (vrf_destroy env) vs w) = filter (\<lambda>x. v_name x \<notin> v_name ` set vs) (all_vrfs w)"
  "all_bridges (fold (vrf_destroy env) vs w) = all_bridges w"
  by (induction vs arbitrary: w) (auto intro: filter_cong)

text \<open>When another process holds the lock, every bridge and VRF is destroyed and the collection of statistics ends.\<close>

lemma contended_trip:
  assumes "ri_contended inp"
  shows "\<exists>s'. bridge_run cp inp s = Inr s' \<and> all_bridges (rs_switch s') = [] \<and> all_vrfs (rs_switch s') = [] \<and> \<not> sy_enabled (cf_stats (rs_conf s'))
    \<and> idl_seqno s' = idl_seqno s \<and> rs_log s' = rs_log s"
proof -
  let ?w = "destroy_vrfs (cp_recon cp) (destroy_bridges (cp_recon cp) (rs_switch s))"
  have "all_bridges ?w = []" "all_vrfs ?w = []"
    by (auto simp: destroy_vrfs_def destroy_bridges_def destroy_all_bridges destroy_all_vrfs)
  with assms show ?thesis by (simp add: bridge_run_def run_contended_def Let_def system_stats_enable_def)
qed

text \<open>On exit the bridges are destroyed, but not the VRFs.\<close>

lemma exit_keeps_vrfs: "all_bridges (bridge_exit env w) = []" "all_vrfs (bridge_exit env w) = all_vrfs w"
  by (auto simp: bridge_exit_def destroy_bridges_def destroy_all_bridges)

end
