(* ===== verification/Sflow_Cli.thy ===== *)
theory Sflow_Cli
  imports Bridge_Run
begin

text \<open>
  The sFlow commands, src/cli/sflow_vty.c: the handlers behind the commands, the rows they write and the text they print.

  The rows the handlers read and write are one record; a handler works on the rows of its transaction, and
  \<open>ce_finish\<close> is what the shell's commit makes of the rows before and the rows asked for.  The parser of addresses, the
  lookup of rows by name and the constants of other packages are parameters.  The shell checks the arguments against the
  syntax in the \<open>DEFUN\<close>s before it calls a handler; \<open>args_ok\<close> states that syntax.
\<close>

section \<open>Data\<close>

definition MAX_COLLECTOR_LENGTH :: nat where "MAX_COLLECTOR_LENGTH = 89"

definition OVSDB_SFLOW_GLOBAL_ROW_NAME :: string where "OVSDB_SFLOW_GLOBAL_ROW_NAME = ''global''"

record sflow_cli_row = sflow_row +
  sf_uuid :: nat
  sf_name :: string

record cli_iface =
  cif_name :: string
  cif_statistics :: "(string \<times> int) list option"

record sflow_db =
  db_system :: bool
  db_sflow_ref :: "nat option"
  db_sflow :: "sflow_cli_row list"
  db_ports :: "sflow_port_row list"
  db_ifaces :: "cli_iface list"

datatype cmd_result = CMD_SUCCESS | CMD_WARNING | CMD_OVSDB_FAILURE

datatype cli_node = CONFIG_NODE | INTERFACE_NODE | LINK_AGGREGATION_NODE | ENABLE_NODE

record vty =
  vty_node :: cli_node
  vty_index :: string

record cli_env =
  ce_sflow :: sflow_env
  ce_value_true :: string
  ce_value_false :: string
  DEFAULT_VRF_NAME :: string
  SFL_DEFAULT_COLLECTOR_PORT :: nat
  VTY_NEWLINE :: string
  ce_prefix :: "string \<Rightarrow> string option"
  ce_start :: bool
  ce_finish :: "sflow_db \<Rightarrow> sflow_db \<Rightarrow> txn_status \<times> sflow_db"
  ce_new_uuid :: "sflow_db \<Rightarrow> nat"
  ce_column :: "string list \<Rightarrow> string list"
  ce_port_find :: "sflow_port_row list \<Rightarrow> string \<Rightarrow> sflow_port_row option"
  ce_interface_find :: "cli_iface list \<Rightarrow> string \<Rightarrow> cli_iface option"

text \<open>Result, text printed, rows afterwards.\<close>

type_synonym reply = "cmd_result \<times> string \<times> sflow_db"

definition line :: "cli_env \<Rightarrow> string \<Rightarrow> string" where
  "line env s = s @ VTY_NEWLINE env"

section \<open>The C library\<close>

text \<open>
  \<open>strncpy\<close> into a buffer that was cleared, and \<open>strtok\<close> on a buffer.  The second result of \<open>strtok\<close> is what the next call with
  NULL continues with.  A buffer without a NUL character is read past its end unless a separator comes first.
\<close>

abbreviation NUL :: char where "NUL \<equiv> CHR 0x00"

definition strncpy_buffer :: "nat \<Rightarrow> string \<Rightarrow> string" where
  "strncpy_buffer n s = take n (s @ replicate n NUL)"

definition strtok :: "string \<Rightarrow> string \<Rightarrow> fault + string option \<times> string" where
  "strtok delims buf =
     (let s = dropWhile (\<lambda>c. c \<in> set delims) buf in
      case s of
        [] \<Rightarrow> Inl Out_of_bounds
      | c # _ \<Rightarrow>
          if c = NUL then Inr (None, s)
          else let tok = takeWhile (\<lambda>c. c \<notin> set delims \<and> c \<noteq> NUL) s in
               case drop (length tok) s of
                 [] \<Rightarrow> Inl Out_of_bounds
               | c # cs \<Rightarrow> Inr (Some tok, if c = NUL then c # cs else cs))"

section \<open>Rows and transactions\<close>

definition sflow_first :: "sflow_db \<Rightarrow> sflow_cli_row option" where
  "sflow_first db = (case db_sflow db of [] \<Rightarrow> None | r # _ \<Rightarrow> Some r)"

definition put_sflow :: "sflow_cli_row \<Rightarrow> sflow_db \<Rightarrow> sflow_db" where
  "put_sflow r db = db\<lparr>db_sflow := map (\<lambda>x. if sf_uuid x = sf_uuid r then r else x) (db_sflow db)\<rparr>"

definition sflow_insert :: "cli_env \<Rightarrow> sflow_db \<Rightarrow> sflow_cli_row \<times> sflow_db" where
  "sflow_insert env db =
     (let r = \<lparr>sf_targets = [], sf_sampling = None, sf_polling = None, sf_header = None, sf_max_datagram = None, sf_agent = None,
               sf_agent_addr_family = None, sf_uuid = ce_new_uuid env db, sf_name = OVSDB_SFLOW_GLOBAL_ROW_NAME\<rparr>
      in (r, db\<lparr>db_sflow := db_sflow db @ [r]\<rparr>))"

definition first_or_insert :: "cli_env \<Rightarrow> sflow_db \<Rightarrow> sflow_cli_row \<times> sflow_db" where
  "first_or_insert env db = (case sflow_first db of None \<Rightarrow> sflow_insert env db | Some r \<Rightarrow> (r, db))"

definition config_finish :: "cli_env \<Rightarrow> sflow_db \<Rightarrow> sflow_db \<Rightarrow> reply" where
  "config_finish env db db' =
     (let (txn_status, d) = ce_finish env db db'
      in (if txn_status = TXN_SUCCESS \<or> txn_status = TXN_UNCHANGED then CMD_SUCCESS else CMD_OVSDB_FAILURE, [], d))"

definition config_abort :: "cmd_result \<Rightarrow> string \<Rightarrow> sflow_db \<Rightarrow> reply" where
  "config_abort rc out db = (rc, out, db)"

section \<open>Show\<close>

definition packets :: "(string \<times> int) list \<Rightarrow> string \<Rightarrow> u64" where
  "packets datum key = (case map_of datum key of None \<Rightarrow> 0 | Some v \<Rightarrow> word_of_int v)"

definition sflow_aggregate_sample_count :: "sflow_db \<Rightarrow> u64" where
  "sflow_aggregate_sample_count db =
     fold (\<lambda>i total. case cif_statistics i of
             None \<Rightarrow> total
           | Some datum \<Rightarrow> total + packets datum ''sflow_ingress_packets'' + packets datum ''sflow_egress_packets'')
       (db_ifaces db) 0"

text \<open>The parts of a target, and its line in the listing.\<close>

definition split_target :: "string \<Rightarrow> fault + string option \<times> string option \<times> string option" where
  "split_target t =
     and_then (strtok ''/'' (strncpy_buffer MAX_COLLECTOR_LENGTH t)) (\<lambda>(ip, rest).
     and_then (strtok ''/'' rest) (\<lambda>(port, rest).
     and_then (strtok [] rest) (\<lambda>(vrf, _).
       Inr (case (port, vrf) of
              (Some p, None) \<Rightarrow> if atoi p = 0 then (ip, None, Some p) else (ip, Some p, None)
            | _ \<Rightarrow> (ip, port, vrf)))))"

definition target_text :: "cli_env \<Rightarrow> string \<Rightarrow> fault + string option" where
  "target_text env t =
     and_then (split_target t) (\<lambda>(ip, port, vrf). Inr (
       case ip of
         None \<Rightarrow> None
       | Some i \<Rightarrow> Some (
           case (port, vrf) of
             (Some p, Some v) \<Rightarrow> t
           | (Some p, None) \<Rightarrow> t @ ''/'' @ DEFAULT_VRF_NAME env
           | (None, Some v) \<Rightarrow> i @ ''/'' @ show_nat (SFL_DEFAULT_COLLECTOR_PORT env) @ ''/'' @ v
           | (None, None) \<Rightarrow> t @ ''/'' @ show_nat (SFL_DEFAULT_COLLECTOR_PORT env) @ ''/'' @ DEFAULT_VRF_NAME env)))"

fun show_targets :: "cli_env \<Rightarrow> nat \<Rightarrow> string list \<Rightarrow> fault + string" where
  "show_targets env i [] = Inr []"
| "show_targets env i (t # ts) =
     and_then (target_text env t) (\<lambda>x.
     and_then (show_targets env (Suc i) ts) (\<lambda>rest.
       Inr ((case x of
               None \<Rightarrow> []
             | Some s \<Rightarrow> line env ((if i = 0 then ''         '' else ''                              '') @ s)) @ rest)))"

definition show_u64 :: "int \<Rightarrow> string" where
  "show_u64 v = show_nat (unat (word_of_int v :: u64))"

definition number_line :: "cli_env \<Rightarrow> string \<Rightarrow> int option \<Rightarrow> u32 \<Rightarrow> string" where
  "number_line env label c def = line env (label @ (case c of None \<Rightarrow> show_nat (unat def) | Some v \<Rightarrow> show_u64 v))"

definition sflow_show :: "cli_env \<Rightarrow> sflow_db \<Rightarrow> fault + reply" where
  "sflow_show env db =
     (case sflow_first db of
        None \<Rightarrow> Inr (CMD_SUCCESS, line env ''sFlow not yet configured.'', db)
      | Some r \<Rightarrow>
          if \<not> db_system db then Inr (CMD_SUCCESS, [], db)
          else and_then (show_targets env 0 (sf_targets r)) (\<lambda>targets. Inr (CMD_SUCCESS,
            VTY_NEWLINE env @ line env ''sFlow Configuration ''
            @ line env ''-----------------------------------------''
            @ line env (''sFlow                         '' @ (if db_sflow_ref db \<noteq> None then ''enabled'' else ''disabled''))
            @ (if sf_targets r \<noteq> [] then ''Collector IP/Port/Vrf'' else line env ''Collector IP/Port/Vrf         Not set'')
            @ targets
            @ line env (''Agent Interface               '' @ (case sf_agent r of None \<Rightarrow> ''Not set'' | Some a \<Rightarrow> a))
            @ line env (''Agent Address Family          '' @ (case sf_agent_addr_family r of None \<Rightarrow> ''ipv4'' | Some a \<Rightarrow> a))
            @ number_line env ''Sampling Rate                 '' (sf_sampling r) (SFL_DEFAULT_SAMPLING_RATE (ce_sflow env))
            @ number_line env ''Polling Interval              '' (sf_polling r) (SFL_DEFAULT_POLLING_INTERVAL (ce_sflow env))
            @ number_line env ''Header Size                   '' (sf_header r) (SFL_DEFAULT_HEADER_SIZE (ce_sflow env))
            @ number_line env ''Max Datagram Size             '' (sf_max_datagram r) (SFL_DEFAULT_DATAGRAM_SIZE (ce_sflow env))
            @ line env (''Number of Samples             '' @ show_nat (unat (sflow_aggregate_sample_count db))),
            db)))"

definition port_enabled :: "cli_env \<Rightarrow> sflow_db \<Rightarrow> string \<Rightarrow> bool" where
  "port_enabled env db name =
     (case Option.bind (ce_port_find env (db_ports db) name) (\<lambda>p. smap_get (sp_other_config p) (SFLOW_PER_INTERFACE_KEY (ce_sflow env))) of
        None \<Rightarrow> True
      | Some v \<Rightarrow> take (length (ce_value_true env)) v = ce_value_true env)"

definition sflow_show_intf_statistics :: "cli_env \<Rightarrow> string \<Rightarrow> sflow_db \<Rightarrow> fault + reply" where
  "sflow_show_intf_statistics env name db =
     (case sflow_first db of
        None \<Rightarrow> Inr (CMD_SUCCESS, line env ''sFlow not yet configured.'', db)
      | Some r \<Rightarrow>
          if \<not> db_system db then Inr (CMD_SUCCESS, [], db)
          else case ce_interface_find env (db_ifaces db) name of
                 None \<Rightarrow> Inr (CMD_SUCCESS, line env ''Invalid interface.'', db)
               | Some i \<Rightarrow>
                   (case cif_statistics i of
                      None \<Rightarrow> Inl Null_dereference
                    | Some datum \<Rightarrow> Inr (CMD_SUCCESS,
                        VTY_NEWLINE env @ line env (''sFlow Configuration - Interface '' @ name)
                        @ line env ''-----------------------------------------''
                        @ line env (''sFlow                         '' @ (if db_sflow_ref db \<noteq> None \<and> port_enabled env db name then ''enabled'' else ''disabled''))
                        @ number_line env ''Sampling Rate                 '' (sf_sampling r) (SFL_DEFAULT_SAMPLING_RATE (ce_sflow env))
                        @ line env (''Number of Samples             ''
                            @ show_nat (unat (packets datum ''sflow_ingress_packets'' + packets datum ''sflow_egress_packets''))),
                        db)))"

section \<open>Configuration\<close>

definition sflow_set_port_config :: "cli_env \<Rightarrow> string \<Rightarrow> bool \<Rightarrow> sflow_db \<Rightarrow> reply" where
  "sflow_set_port_config env index on db =
     (if \<not> ce_start env then config_abort CMD_OVSDB_FAILURE [] db
      else if \<not> db_system db then config_abort CMD_SUCCESS [] db
      else case ce_port_find env (db_ports db) index of
             None \<Rightarrow> config_abort CMD_SUCCESS [] db
           | Some p \<Rightarrow>
               let value = (if on then ce_value_true env else ce_value_false env);
                   key = SFLOW_PER_INTERFACE_KEY (ce_sflow env);
                   oc = (if sp_other_config p = [] then [(key, value)] else smap_replace (sp_other_config p) key value)
               in config_finish env db
                    (db\<lparr>db_ports := map (\<lambda>x. if sp_name x = sp_name p then x\<lparr>sp_other_config := oc\<rparr> else x) (db_ports db)\<rparr>))"

definition sflow_set_global_status :: "cli_env \<Rightarrow> bool \<Rightarrow> sflow_db \<Rightarrow> reply" where
  "sflow_set_global_status env status db =
     (if \<not> ce_start env then config_abort CMD_OVSDB_FAILURE [] db
      else if \<not> db_system db then config_abort CMD_SUCCESS [] db
      else if status then
        (if db_sflow_ref db \<noteq> None then config_abort CMD_SUCCESS (line env ''sFlow already enabled.'') db
         else let (r, db') = first_or_insert env db in config_finish env db (db'\<lparr>db_sflow_ref := Some (sf_uuid r)\<rparr>))
      else
        (if sflow_first db \<noteq> None \<and> db_sflow_ref db \<noteq> None then config_finish env db (db\<lparr>db_sflow_ref := None\<rparr>)
         else config_abort CMD_SUCCESS (line env ''sFlow already disabled.'') db))"

text \<open>The four numeric columns are written by functions of the same shape.\<close>

definition set_number :: "(int option \<Rightarrow> sflow_cli_row \<Rightarrow> sflow_cli_row) \<Rightarrow> cli_env \<Rightarrow> int option \<Rightarrow> sflow_db \<Rightarrow> reply" where
  "set_number column env v db =
     (if \<not> ce_start env then config_abort CMD_OVSDB_FAILURE [] db
      else if sflow_first db = None \<and> v = None then config_abort CMD_SUCCESS (line env ''No sFlow configuration present.'') db
      else let (r, db') = first_or_insert env db in config_finish env db (put_sflow (column v r) db'))"

definition sflow_set_sampling_rate :: "cli_env \<Rightarrow> int option \<Rightarrow> sflow_db \<Rightarrow> reply" where
  "sflow_set_sampling_rate = set_number (\<lambda>v. sf_sampling_update (\<lambda>_. v))"

definition sflow_set_header_size :: "cli_env \<Rightarrow> int option \<Rightarrow> sflow_db \<Rightarrow> reply" where
  "sflow_set_header_size = set_number (\<lambda>v. sf_header_update (\<lambda>_. v))"

definition sflow_set_max_datagram_size :: "cli_env \<Rightarrow> int option \<Rightarrow> sflow_db \<Rightarrow> reply" where
  "sflow_set_max_datagram_size = set_number (\<lambda>v. sf_max_datagram_update (\<lambda>_. v))"

definition sflow_set_polling :: "cli_env \<Rightarrow> int option \<Rightarrow> sflow_db \<Rightarrow> reply" where
  "sflow_set_polling = set_number (\<lambda>v. sf_polling_update (\<lambda>_. v))"

text \<open>The comparison of a new collector with the targets; the result is the message of a refusal.\<close>

fun collector_clash :: "string \<Rightarrow> string option \<Rightarrow> nat \<Rightarrow> string list \<Rightarrow> fault + string option" where
  "collector_clash ip port n [] = Inr (if n = 3 then Some ''Maximum of 3 sFlow collectors allowed.'' else None)"
| "collector_clash ip port n (t # ts) =
     and_then (strtok ''/'' (strncpy_buffer MAX_COLLECTOR_LENGTH t)) (\<lambda>(collector_ip, rest).
     and_then (strtok ''/'' rest) (\<lambda>(collector_port, _).
       case collector_ip of
         None \<Rightarrow> Inl Null_dereference
       | Some i \<Rightarrow>
           if ip = i then
             (case (collector_port, port) of
                (Some q, Some p) \<Rightarrow>
                  if p = q then Inr (Some ''sFlow collector already present.'')
                  else if n = 3 then Inr (Some ''Maximum of 3 sFlow collectors allowed.'')
                  else collector_clash ip port n ts
              | (None, None) \<Rightarrow> Inr (Some ''sFlow collector already present.'')
              | _ \<Rightarrow> collector_clash ip port n ts)
           else collector_clash ip port n ts))"

definition sflow_collector_add :: "cli_env \<Rightarrow> sflow_cli_row \<Rightarrow> string \<Rightarrow> string \<Rightarrow> string option \<Rightarrow> fault + (string + sflow_cli_row)" where
  "sflow_collector_add env r collector ip port =
     and_then (collector_clash ip port (length (sf_targets r)) (sf_targets r)) (\<lambda>msg. Inr (
       case msg of
         Some m \<Rightarrow> Inl m
       | None \<Rightarrow> Inr (r\<lparr>sf_targets := ce_column env (sf_targets r @ [collector])\<rparr>)))"

definition sflow_collector_remove :: "cli_env \<Rightarrow> sflow_cli_row \<Rightarrow> string \<Rightarrow> string + sflow_cli_row" where
  "sflow_collector_remove env r collector =
     (if sf_targets r = [] then Inl ''No sFlow collector present.''
      else if collector \<notin> set (sf_targets r) then Inl ''sFlow collector not found.''
      else Inr (r\<lparr>sf_targets := ce_column env (filter (\<lambda>t. t \<noteq> collector) (sf_targets r))\<rparr>))"

definition collector_string :: "string \<Rightarrow> string option \<Rightarrow> string option \<Rightarrow> string" where
  "collector_string ip port vrf =
     take (MAX_COLLECTOR_LENGTH - 1)
       (case (port, vrf) of
          (None, None) \<Rightarrow> ip
        | (Some p, None) \<Rightarrow> ip @ ''/'' @ p
        | (None, Some v) \<Rightarrow> ip @ ''/'' @ v
        | (Some p, Some v) \<Rightarrow> ip @ ''/'' @ p @ ''/'' @ v)"

definition store_collector :: "cli_env \<Rightarrow> string \<Rightarrow> string option \<Rightarrow> string option \<Rightarrow> bool \<Rightarrow> sflow_db \<Rightarrow> fault + reply" where
  "store_collector env ip port vrf on db =
     (if sflow_first db = None \<and> \<not> on then Inr (config_abort CMD_SUCCESS (line env ''No sFlow configuration present.'') db)
      else
        let (r, db') = first_or_insert env db;
            collector = collector_string ip port vrf
        in and_then (if on then sflow_collector_add env r collector ip port else Inr (sflow_collector_remove env r collector)) (\<lambda>x.
             case x of
               Inl msg \<Rightarrow> Inr (config_abort CMD_SUCCESS (line env msg) db)
             | Inr r' \<Rightarrow> Inr (config_finish env db (put_sflow r' db'))))"

definition sflow_set_collector :: "cli_env \<Rightarrow> string \<Rightarrow> string option \<Rightarrow> string option \<Rightarrow> bool \<Rightarrow> sflow_db \<Rightarrow> fault + reply" where
  "sflow_set_collector env ip port vrf on db =
     (if \<not> ce_start env then Inr (config_abort CMD_OVSDB_FAILURE [] db)
      else case ce_prefix env ip of
             None \<Rightarrow> Inr (config_abort CMD_WARNING (line env ''Malformed address format'') db)
           | Some prefix_str \<Rightarrow>
               and_then (strtok ''/'' (prefix_str @ [NUL])) (\<lambda>(prefix_copy, _).
                 case prefix_copy of
                   None \<Rightarrow> Inl Null_dereference
                 | Some p \<Rightarrow>
                     if p \<noteq> ip
                     then Inr (config_abort CMD_OVSDB_FAILURE (''Invalid IP address. Valid address: '' @ takeWhile (\<lambda>c. c = CHR ''/'') prefix_str @ p) db)
                     else if (case vrf of None \<Rightarrow> False | Some v \<Rightarrow> v \<noteq> DEFAULT_VRF_NAME env)
                     then Inr (config_abort CMD_SUCCESS (line env ''Only vrf_default is permitted.'') db)
                     else store_collector env ip port vrf on db))"

definition sflow_set_agent_interface :: "cli_env \<Rightarrow> string option \<Rightarrow> string option \<Rightarrow> bool \<Rightarrow> sflow_db \<Rightarrow> reply" where
  "sflow_set_agent_interface env interface family on db =
     (if \<not> ce_start env then config_abort CMD_OVSDB_FAILURE [] db
      else if on \<and> Option.bind interface (ce_interface_find env (db_ifaces db)) = None
      then config_abort CMD_SUCCESS (line env ''Invalid interface'') db
      else if \<not> on \<and> sflow_first db = None
      then config_abort CMD_SUCCESS (line env ''No sFlow configuration present.'') db
      else let (r, db') = first_or_insert env db
           in config_finish env db (put_sflow (r\<lparr>sf_agent := interface, sf_agent_addr_family := family\<rparr>) db'))"

section \<open>Commands\<close>

definition cli_sflow_set_status :: "cli_env \<Rightarrow> vty \<Rightarrow> sflow_db \<Rightarrow> reply" where
  "cli_sflow_set_status env v db =
     (if vty_node v = INTERFACE_NODE \<or> vty_node v = LINK_AGGREGATION_NODE then sflow_set_port_config env (vty_index v) True db
      else sflow_set_global_status env True db)"

definition cli_sflow_no_set_status :: "cli_env \<Rightarrow> vty \<Rightarrow> sflow_db \<Rightarrow> reply" where
  "cli_sflow_no_set_status env v db =
     (if vty_node v = INTERFACE_NODE \<or> vty_node v = LINK_AGGREGATION_NODE then sflow_set_port_config env (vty_index v) False db
      else sflow_set_global_status env False db)"

definition cli_flow_set_sampling_rate :: "cli_env \<Rightarrow> string \<Rightarrow> sflow_db \<Rightarrow> reply" where
  "cli_flow_set_sampling_rate env arg db = sflow_set_sampling_rate env (Some (atoi arg)) db"

definition cli_sflow_no_set_sampling_rate :: "cli_env \<Rightarrow> sflow_db \<Rightarrow> reply" where
  "cli_sflow_no_set_sampling_rate env db = sflow_set_sampling_rate env None db"

definition cli_sflow_set_collector :: "cli_env \<Rightarrow> string \<Rightarrow> string option \<Rightarrow> string option \<Rightarrow> sflow_db \<Rightarrow> fault + reply" where
  "cli_sflow_set_collector env ip port vrf db = sflow_set_collector env ip port vrf True db"

definition cli_sflow_no_set_collector :: "cli_env \<Rightarrow> string \<Rightarrow> string option \<Rightarrow> string option \<Rightarrow> sflow_db \<Rightarrow> fault + reply" where
  "cli_sflow_no_set_collector env ip port vrf db = sflow_set_collector env ip port vrf False db"

definition cli_sflow_set_agent_interface :: "cli_env \<Rightarrow> string \<Rightarrow> sflow_db \<Rightarrow> reply" where
  "cli_sflow_set_agent_interface env interface db = sflow_set_agent_interface env (Some interface) None True db"

definition cli_sflow_set_agent_interface_family :: "cli_env \<Rightarrow> string \<Rightarrow> string \<Rightarrow> sflow_db \<Rightarrow> reply" where
  "cli_sflow_set_agent_interface_family env interface family db = sflow_set_agent_interface env (Some interface) (Some family) True db"

definition cli_sflow_no_set_agent_interface :: "cli_env \<Rightarrow> sflow_db \<Rightarrow> reply" where
  "cli_sflow_no_set_agent_interface env db = sflow_set_agent_interface env None None False db"

definition cli_sflow_set_header_size :: "cli_env \<Rightarrow> string \<Rightarrow> sflow_db \<Rightarrow> reply" where
  "cli_sflow_set_header_size env arg db = sflow_set_header_size env (Some (atoi arg)) db"

definition cli_sflow_no_set_header_size :: "cli_env \<Rightarrow> sflow_db \<Rightarrow> reply" where
  "cli_sflow_no_set_header_size env db = sflow_set_header_size env None db"

definition cli_sflow_set_max_datagram_size :: "cli_env \<Rightarrow> string \<Rightarrow> sflow_db \<Rightarrow> reply" where
  "cli_sflow_set_max_datagram_size env arg db = sflow_set_max_datagram_size env (Some (atoi arg)) db"

definition cli_sflow_no_set_max_datagram_size :: "cli_env \<Rightarrow> sflow_db \<Rightarrow> reply" where
  "cli_sflow_no_set_max_datagram_size env db = sflow_set_max_datagram_size env None db"

definition cli_sflow_set_polling :: "cli_env \<Rightarrow> string \<Rightarrow> sflow_db \<Rightarrow> reply" where
  "cli_sflow_set_polling env arg db = sflow_set_polling env (Some (atoi arg)) db"

definition cli_sflow_no_set_polling :: "cli_env \<Rightarrow> sflow_db \<Rightarrow> reply" where
  "cli_sflow_no_set_polling env db = sflow_set_polling env None db"

definition cli_sflow_show :: "cli_env \<Rightarrow> sflow_db \<Rightarrow> fault + reply" where
  "cli_sflow_show env db = sflow_show env db"

definition cli_sflow_show_intf_statistics :: "cli_env \<Rightarrow> string \<Rightarrow> sflow_db \<Rightarrow> fault + reply" where
  "cli_sflow_show_intf_statistics env name db = sflow_show_intf_statistics env name db"

text \<open>A command with the arguments the shell passes on, and the element the shell knows it by.\<close>

datatype sflow_cmd =
    Set_status
  | No_set_status
  | Set_sampling_rate string
  | No_set_sampling_rate
  | Set_collector string "string option" "string option"
  | No_set_collector string "string option" "string option"
  | Set_agent_interface string
  | Set_agent_interface_family string string
  | No_set_agent_interface
  | Set_header_size string
  | No_set_header_size
  | Set_max_datagram_size string
  | No_set_max_datagram_size
  | Set_polling string
  | No_set_polling
  | Show_sflow
  | Show_intf_statistics string

definition dispatch :: "cli_env \<Rightarrow> vty \<Rightarrow> sflow_cmd \<Rightarrow> sflow_db \<Rightarrow> fault + reply" where
  "dispatch env v cmd db =
     (case cmd of
        Set_status \<Rightarrow> Inr (cli_sflow_set_status env v db)
      | No_set_status \<Rightarrow> Inr (cli_sflow_no_set_status env v db)
      | Set_sampling_rate a \<Rightarrow> Inr (cli_flow_set_sampling_rate env a db)
      | No_set_sampling_rate \<Rightarrow> Inr (cli_sflow_no_set_sampling_rate env db)
      | Set_collector ip port vrf \<Rightarrow> cli_sflow_set_collector env ip port vrf db
      | No_set_collector ip port vrf \<Rightarrow> cli_sflow_no_set_collector env ip port vrf db
      | Set_agent_interface i \<Rightarrow> Inr (cli_sflow_set_agent_interface env i db)
      | Set_agent_interface_family i f \<Rightarrow> Inr (cli_sflow_set_agent_interface_family env i f db)
      | No_set_agent_interface \<Rightarrow> Inr (cli_sflow_no_set_agent_interface env db)
      | Set_header_size a \<Rightarrow> Inr (cli_sflow_set_header_size env a db)
      | No_set_header_size \<Rightarrow> Inr (cli_sflow_no_set_header_size env db)
      | Set_max_datagram_size a \<Rightarrow> Inr (cli_sflow_set_max_datagram_size env a db)
      | No_set_max_datagram_size \<Rightarrow> Inr (cli_sflow_no_set_max_datagram_size env db)
      | Set_polling a \<Rightarrow> Inr (cli_sflow_set_polling env a db)
      | No_set_polling \<Rightarrow> Inr (cli_sflow_no_set_polling env db)
      | Show_sflow \<Rightarrow> cli_sflow_show env db
      | Show_intf_statistics i \<Rightarrow> cli_sflow_show_intf_statistics env i db)"

text \<open>A session: the commands one after the other, the rows of each being what the one before left.\<close>

fun session :: "cli_env \<Rightarrow> (vty \<times> sflow_cmd) list \<Rightarrow> sflow_db \<Rightarrow> fault + (cmd_result \<times> string) list \<times> sflow_db" where
  "session env [] db = Inr ([], db)"
| "session env ((v, cmd) # cmds) db =
     and_then (dispatch env v cmd db) (\<lambda>(rc, out, db).
     and_then (session env cmds db) (\<lambda>(rs, db). Inr ((rc, out) # rs, db)))"

text \<open>The nodes \<open>cli_post_init\<close> installs each command in.\<close>

definition cli_post_init :: "sflow_cmd \<Rightarrow> cli_node list" where
  "cli_post_init cmd =
     (case cmd of
        Set_status \<Rightarrow> [CONFIG_NODE, INTERFACE_NODE, LINK_AGGREGATION_NODE]
      | No_set_status \<Rightarrow> [CONFIG_NODE, INTERFACE_NODE, LINK_AGGREGATION_NODE]
      | Show_sflow \<Rightarrow> [ENABLE_NODE]
      | Show_intf_statistics _ \<Rightarrow> [ENABLE_NODE]
      | _ \<Rightarrow> [CONFIG_NODE])"

text \<open>The syntax of the arguments: \<open><lo-hi>\<close> is a decimal number in that range.\<close>

definition in_range :: "int \<Rightarrow> int \<Rightarrow> string \<Rightarrow> bool" where
  "in_range lo hi a \<longleftrightarrow> a \<noteq> [] \<and> list_all is_digit a \<and> lo \<le> atoi a \<and> atoi a \<le> hi"

definition port_syntax :: "string option \<Rightarrow> bool" where
  "port_syntax port \<longleftrightarrow> (case port of None \<Rightarrow> True | Some p \<Rightarrow> in_range 0 65535 p)"

definition args_ok :: "sflow_cmd \<Rightarrow> bool" where
  "args_ok cmd \<longleftrightarrow>
     (case cmd of
        Set_sampling_rate a \<Rightarrow> in_range 1 1000000000 a
      | Set_collector ip port vrf \<Rightarrow> port_syntax port
      | No_set_collector ip port vrf \<Rightarrow> port_syntax port
      | Set_agent_interface_family i f \<Rightarrow> f = ''ipv4'' \<or> f = ''ipv6''
      | Set_header_size a \<Rightarrow> in_range 64 256 a
      | Set_max_datagram_size a \<Rightarrow> in_range 200 9000 a
      | Set_polling a \<Rightarrow> in_range 0 3600 a
      | _ \<Rightarrow> True)"

section \<open>What the switch reads\<close>

text \<open>The row that the System row refers to, and the options that \<open>bridge_configure_sflow\<close> makes of it.\<close>

definition system_sflow :: "sflow_db \<Rightarrow> sflow_row option" where
  "system_sflow db =
     Option.bind (db_sflow_ref db) (\<lambda>u. map_option sflow_row.truncate (List.find (\<lambda>r. sf_uuid r = u) (db_sflow db)))"

definition agent_options :: "cli_env \<Rightarrow> sflow_db \<Rightarrow> u32 \<Rightarrow> sflow_options option" where
  "agent_options env db number = fst (bridge_configure_sflow (ce_sflow env) (db_ports db) (system_sflow db) number)"

end
