(* ===== verification/Sflow_Props.thy ===== *)
theory Sflow_Props
  imports Sflow_Cli
begin

text \<open>
  Properties of the sFlow commands: no session faults and the sFlow row stays within the limits the commands advertise; the
  collectors are a set of at most three under the two collector commands; and what a command stores is what the sFlow agents of
  the switch are configured with.  The locale \<open>numeric_setting\<close> is what the four numeric settings share.
\<close>

section \<open>Contract of the shell, and the invariant\<close>

definition cli_laws :: "cli_env \<Rightarrow> bool" where
  "cli_laws env \<longleftrightarrow>
     (\<forall>db db'. snd (ce_finish env db db') = (if fst (ce_finish env db db') \<in> {TXN_SUCCESS, TXN_UNCHANGED} then db' else db))
     \<and> (\<forall>xs. distinct (ce_column env xs) \<and> set (ce_column env xs) = set xs)
     \<and> (\<forall>ps n p. ce_port_find env ps n = Some p \<longrightarrow> p \<in> set ps \<and> sp_name p = n)
     \<and> (\<forall>is n i. ce_interface_find env is n = Some i \<longrightarrow> i \<in> set is \<and> cif_name i = n)
     \<and> (\<forall>ip t. ce_prefix env ip = Some t \<longrightarrow> t \<noteq> [] \<and> hd t \<noteq> CHR ''/'' \<and> hd t \<noteq> NUL)"

definition target_ok :: "string \<Rightarrow> bool" where
  "target_ok t \<longleftrightarrow> t \<noteq> [] \<and> hd t \<noteq> CHR ''/'' \<and> hd t \<noteq> NUL \<and> length t < MAX_COLLECTOR_LENGTH"

definition column_in :: "int \<Rightarrow> int \<Rightarrow> int option \<Rightarrow> bool" where
  "column_in lo hi c \<longleftrightarrow> (case c of None \<Rightarrow> True | Some v \<Rightarrow> lo \<le> v \<and> v \<le> hi)"

definition row_ok :: "cli_iface list \<Rightarrow> sflow_cli_row \<Rightarrow> bool" where
  "row_ok is r \<longleftrightarrow>
     sf_name r = OVSDB_SFLOW_GLOBAL_ROW_NAME
     \<and> (length (sf_targets r) \<le> 3 \<and> distinct (sf_targets r) \<and> list_all target_ok (sf_targets r))
     \<and> (column_in 1 1000000000 (sf_sampling r) \<and> column_in 0 3600 (sf_polling r)
        \<and> column_in 64 256 (sf_header r) \<and> column_in 200 9000 (sf_max_datagram r))
     \<and> (set_option (sf_agent r) \<subseteq> cif_name ` set is \<and> set_option (sf_agent_addr_family r) \<subseteq> {''ipv4'', ''ipv6''})"

definition sflow_db_ok :: "sflow_db \<Rightarrow> bool" where
  "sflow_db_ok db \<longleftrightarrow>
     length (db_sflow db) \<le> 1
     \<and> list_all (row_ok (db_ifaces db)) (db_sflow db)
     \<and> set_option (db_sflow_ref db) \<subseteq> sf_uuid ` set (db_sflow db)
     \<and> list_all (\<lambda>i. cif_statistics i \<noteq> None) (db_ifaces db)"

section \<open>Strings\<close>

lemma strtok_total:
  assumes "NUL \<in> set buf" "NUL \<notin> set d"
  shows "\<exists>tok rest. strtok d buf = Inr (tok, rest) \<and> NUL \<in> set rest"
proof -
  define s where "s = dropWhile (\<lambda>c. c \<in> set d) buf"
  have "set buf = set (takeWhile (\<lambda>c. c \<in> set d) buf) \<union> set s" unfolding s_def set_append [symmetric] by simp
  then have n: "NUL \<in> set s" using assms by (auto dest: set_takeWhileD)
  then obtain c cs where c: "s = c # cs" by (cases s) auto
  define tok where "tok = takeWhile (\<lambda>c. c \<notin> set d \<and> c \<noteq> NUL) s"
  have "NUL \<notin> set tok" using set_takeWhileD [of NUL "\<lambda>c. c \<notin> set d \<and> c \<noteq> NUL" s] by (auto simp: tok_def)
  moreover have "tok @ drop (length tok) s = s"
    unfolding tok_def dropWhile_eq_drop [of "\<lambda>c. c \<notin> set d \<and> c \<noteq> NUL" s, symmetric] by (rule takeWhile_dropWhile_id)
  ultimately have r: "NUL \<in> set (drop (length tok) s)" using n by (metis Un_iff set_append)
  then obtain e es where e: "drop (length tok) s = e # es" by (cases "drop (length tok) s") auto
  have "strtok d buf = (if c = NUL then Inr (None, s) else Inr (Some tok, if e = NUL then e # es else es))"
    unfolding strtok_def Let_def s_def [symmetric] tok_def [symmetric] e by (simp add: c)
  then show ?thesis using n r e by auto
qed

lemma strtok_first:
  assumes "buf \<noteq> []" "hd buf \<notin> set d" "hd buf \<noteq> NUL" "NUL \<in> set buf" "NUL \<notin> set d"
  shows "\<exists>rest. strtok d buf = Inr (Some (takeWhile (\<lambda>c. c \<notin> set d \<and> c \<noteq> NUL) buf), rest) \<and> NUL \<in> set rest"
proof -
  obtain tok rest where t: "strtok d buf = Inr (tok, rest)" "NUL \<in> set rest" using strtok_total [OF assms(4,5)] by blast
  have "dropWhile (\<lambda>c. c \<in> set d) buf = buf" using assms(1,2) by (cases buf) auto
  with t(1) assms(1,3) have "tok = Some (takeWhile (\<lambda>c. c \<notin> set d \<and> c \<noteq> NUL) buf)"
    by (cases buf) (auto simp: strtok_def Let_def split: list.splits if_splits)
  with t show ?thesis by blast
qed

lemma target_buffer:
  assumes "target_ok t"
  shows "strncpy_buffer MAX_COLLECTOR_LENGTH t \<noteq> []" "hd (strncpy_buffer MAX_COLLECTOR_LENGTH t) = hd t"
    "NUL \<in> set (strncpy_buffer MAX_COLLECTOR_LENGTH t)"
  using assms by (auto simp: strncpy_buffer_def target_ok_def hd_append MAX_COLLECTOR_LENGTH_def)

lemma target_tokens:
  assumes "target_ok t"
  shows "\<exists>ip rest port rest'. strtok ''/'' (strncpy_buffer MAX_COLLECTOR_LENGTH t) = Inr (Some ip, rest)
    \<and> strtok ''/'' rest = Inr (port, rest') \<and> NUL \<in> set rest'"
proof -
  obtain ip rest where "strtok ''/'' (strncpy_buffer MAX_COLLECTOR_LENGTH t) = Inr (Some ip, rest)" "NUL \<in> set rest"
    using strtok_first [of "strncpy_buffer MAX_COLLECTOR_LENGTH t" "''/''"] target_buffer [OF assms] assms by (auto simp: target_ok_def)
  moreover from this(2) obtain port rest' where "strtok ''/'' rest = Inr (port, rest')" "NUL \<in> set rest'"
    using strtok_total [of rest "''/''"] by auto
  ultimately show ?thesis by blast
qed

lemma show_targets_total: "list_all target_ok ts \<Longrightarrow> \<exists>s. show_targets env i ts = Inr s"
proof (induction ts arbitrary: i)
  case (Cons t ts)
  from Cons.prems obtain ip rest port rest' where k: "strtok ''/'' (strncpy_buffer MAX_COLLECTOR_LENGTH t) = Inr (Some ip, rest)"
    "strtok ''/'' rest = Inr (port, rest')" "NUL \<in> set rest'" using target_tokens [of t] by auto
  obtain vrf r where "strtok [] rest' = Inr (vrf, r)" using strtok_total [OF k(3), of "[]"] by auto
  with k have "\<exists>x. target_text env t = Inr x" by (auto simp: target_text_def split_target_def and_then_def split: option.splits)
  with Cons.IH [of "Suc i"] Cons.prems show ?case by (auto simp: and_then_def)
qed simp

lemma collector_clash_total: "list_all target_ok ts \<Longrightarrow> \<exists>m. collector_clash ip port n ts = Inr m"
proof (induction ts)
  case (Cons t ts)
  from Cons.prems obtain i rest q rest' where "strtok ''/'' (strncpy_buffer MAX_COLLECTOR_LENGTH t) = Inr (Some i, rest)"
    "strtok ''/'' rest = Inr (q, rest')" using target_tokens [of t] by auto
  with Cons.IH Cons.prems show ?case by (auto simp: and_then_def split: option.splits)
qed simp

lemma collector_clash_full: "collector_clash ip port 3 ts \<noteq> Inr None"
  by (induction ts) (auto simp: and_then_def split: sum.splits option.splits)

section \<open>Transactions\<close>

lemma config_finish_cases:
  assumes "cli_laws env"
  obtains (committed) "config_finish env db db' = (CMD_SUCCESS, [], db')" | (failed) "config_finish env db db' = (CMD_OVSDB_FAILURE, [], db)"
proof -
  have "snd (ce_finish env db db') = (if fst (ce_finish env db db') \<in> {TXN_SUCCESS, TXN_UNCHANGED} then db' else db)"
    using assms by (simp add: cli_laws_def)
  then show thesis using that by (auto simp: config_finish_def case_prod_unfold split: if_splits)
qed

text \<open>A reply that keeps the invariant, and the rows unless the command succeeded.\<close>

definition safe_reply :: "sflow_db \<Rightarrow> reply \<Rightarrow> bool" where
  "safe_reply db x \<longleftrightarrow> sflow_db_ok (snd (snd x)) \<and> (fst x = CMD_SUCCESS \<or> snd (snd x) = db)"

lemma safe_abort [simp]: "safe_reply db (config_abort rc out db) = sflow_db_ok db" "safe_reply db (rc, out, db) = sflow_db_ok db"
  by (simp_all add: safe_reply_def config_abort_def)

text \<open>A handler that may fault does not, and its reply is safe.\<close>

definition safe_result :: "sflow_db \<Rightarrow> fault + reply \<Rightarrow> bool" where
  "safe_result db x \<longleftrightarrow> (case x of Inl _ \<Rightarrow> False | Inr y \<Rightarrow> safe_reply db y)"

lemma safe_result_simps [simp]: "safe_result db (Inr y) = safe_reply db y" "\<not> safe_result db (Inl e)"
  by (simp_all add: safe_result_def)

lemma safe_finish: "cli_laws env \<Longrightarrow> sflow_db_ok db \<Longrightarrow> sflow_db_ok db' \<Longrightarrow> safe_reply db (config_finish env db db')"
  by (rule config_finish_cases [of env db db']) (auto simp: safe_reply_def)

definition fresh_row_ok :: "sflow_db \<Rightarrow> sflow_cli_row \<Rightarrow> sflow_db \<Rightarrow> bool" where
  "fresh_row_ok db r db' \<longleftrightarrow> db' = db\<lparr>db_sflow := [r]\<rparr> \<and> row_ok (db_ifaces db) r \<and> set_option (db_sflow_ref db) \<subseteq> {sf_uuid r}"

lemma sflow_first_ok:
  assumes "sflow_db_ok db"
  shows "db_sflow db = (case sflow_first db of None \<Rightarrow> [] | Some r \<Rightarrow> [r])"
  using assms by (cases "db_sflow db") (auto simp: sflow_db_ok_def sflow_first_def)

lemma first_or_insert_ok:
  assumes "sflow_db_ok db" "first_or_insert env db = (r, db')"
  shows "fresh_row_ok db r db'"
  using assms sflow_first_ok [OF assms(1)]
  by (auto simp: fresh_row_ok_def first_or_insert_def sflow_insert_def Let_def row_ok_def column_in_def sflow_db_ok_def split: option.splits)

lemma put_sflow_ok:
  assumes "sflow_db_ok db" "fresh_row_ok db r db'" "sf_uuid r' = sf_uuid r" "row_ok (db_ifaces db) r'"
  shows "sflow_db_ok (put_sflow r' db')" "db_sflow (put_sflow r' db') = [r']"
  using assms by (auto simp: sflow_db_ok_def fresh_row_ok_def put_sflow_def)

lemma safe_put:
  assumes "cli_laws env" "sflow_db_ok db" "\<And>r. row_ok (db_ifaces db) r \<Longrightarrow> row_ok (db_ifaces db) (f r) \<and> sf_uuid (f r) = sf_uuid r"
  shows "safe_reply db (let (r, db') = first_or_insert env db in config_finish env db (put_sflow (f r) db'))"
proof (cases "first_or_insert env db")
  case (Pair r db')
  with first_or_insert_ok [OF assms(2)] have k: "fresh_row_ok db r db'" by blast
  then have "row_ok (db_ifaces db) (f r) \<and> sf_uuid (f r) = sf_uuid r" using assms(3) by (simp add: fresh_row_ok_def)
  with k Pair show ?thesis using safe_finish [OF assms(1,2)] put_sflow_ok(1) [OF assms(2) k] by auto
qed

lemma safe_set_number:
  assumes "cli_laws env" "sflow_db_ok db" "\<And>r. row_ok (db_ifaces db) r \<Longrightarrow> row_ok (db_ifaces db) (column v r) \<and> sf_uuid (column v r) = sf_uuid r"
  shows "safe_reply db (set_number column env v db)"
  using safe_put [OF assms] assms(2) by (simp add: set_number_def)

lemma safe_sampling: "cli_laws env \<Longrightarrow> sflow_db_ok db \<Longrightarrow> column_in 1 1000000000 v \<Longrightarrow> safe_reply db (sflow_set_sampling_rate env v db)"
  unfolding sflow_set_sampling_rate_def by (rule safe_set_number) (auto simp: row_ok_def)

lemma safe_polling: "cli_laws env \<Longrightarrow> sflow_db_ok db \<Longrightarrow> column_in 0 3600 v \<Longrightarrow> safe_reply db (sflow_set_polling env v db)"
  unfolding sflow_set_polling_def by (rule safe_set_number) (auto simp: row_ok_def)

lemma safe_header: "cli_laws env \<Longrightarrow> sflow_db_ok db \<Longrightarrow> column_in 64 256 v \<Longrightarrow> safe_reply db (sflow_set_header_size env v db)"
  unfolding sflow_set_header_size_def by (rule safe_set_number) (auto simp: row_ok_def)

lemma safe_max_datagram: "cli_laws env \<Longrightarrow> sflow_db_ok db \<Longrightarrow> column_in 200 9000 v \<Longrightarrow> safe_reply db (sflow_set_max_datagram_size env v db)"
  unfolding sflow_set_max_datagram_size_def by (rule safe_set_number) (auto simp: row_ok_def)

lemma safe_global:
  assumes "cli_laws env" "sflow_db_ok db"
  shows "safe_reply db (sflow_set_global_status env on db)"
proof -
  obtain r db' where f: "first_or_insert env db = (r, db')" by (cases "first_or_insert env db")
  have "sflow_db_ok (db'\<lparr>db_sflow_ref := Some (sf_uuid r)\<rparr>)"
    using first_or_insert_ok [OF assms(2) f] assms(2) by (auto simp: fresh_row_ok_def sflow_db_ok_def)
  moreover have "sflow_db_ok (db\<lparr>db_sflow_ref := None\<rparr>)" using assms(2) by (auto simp: sflow_db_ok_def)
  ultimately show ?thesis using assms(2) safe_finish [OF assms] by (simp add: sflow_set_global_status_def f)
qed

lemma safe_port: "cli_laws env \<Longrightarrow> sflow_db_ok db \<Longrightarrow> safe_reply db (sflow_set_port_config env n on db)"
  by (auto simp: sflow_set_port_config_def Let_def sflow_db_ok_def split: option.splits intro!: safe_finish)

lemma safe_agent:
  assumes "cli_laws env" "sflow_db_ok db" "set_option family \<subseteq> {''ipv4'', ''ipv6''}" "on \<or> interface = None"
  shows "safe_reply db (sflow_set_agent_interface env interface family on db)"
proof (cases "on \<and> Option.bind interface (ce_interface_find env (db_ifaces db)) = None")
  case False
  have i: "set_option interface \<subseteq> cif_name ` set (db_ifaces db)"
  proof (cases interface)
    case (Some n)
    with False assms(4) obtain i where "ce_interface_find env (db_ifaces db) n = Some i" by auto
    with assms(1) have "i \<in> set (db_ifaces db) \<and> cif_name i = n" by (simp add: cli_laws_def)
    with Some show ?thesis by auto
  qed simp
  show ?thesis using False assms(2) safe_put [OF assms(1,2), of "\<lambda>r. r\<lparr>sf_agent := interface, sf_agent_addr_family := family\<rparr>"] i assms(3)
    by (auto simp: sflow_set_agent_interface_def row_ok_def)
qed (simp add: sflow_set_agent_interface_def assms(2))

section \<open>Collectors\<close>

lemma prefix_token:
  assumes "cli_laws env" "ce_prefix env ip = Some t"
  shows "\<exists>p rest. strtok ''/'' (t @ [NUL]) = Inr (Some p, rest) \<and> p \<noteq> [] \<and> hd p \<noteq> CHR ''/'' \<and> hd p \<noteq> NUL"
proof -
  from assms have k: "t \<noteq> []" "hd t \<noteq> CHR ''/''" "hd t \<noteq> NUL" by (auto simp: cli_laws_def)
  then obtain rest where "strtok ''/'' (t @ [NUL]) = Inr (Some (takeWhile (\<lambda>c. c \<notin> set ''/'' \<and> c \<noteq> NUL) (t @ [NUL])), rest)"
    using strtok_first [of "t @ [NUL]" "''/''"] by auto
  with k show ?thesis by (cases t) auto
qed

lemma collector_string_ok: "ip \<noteq> [] \<Longrightarrow> hd ip \<noteq> CHR ''/'' \<Longrightarrow> hd ip \<noteq> NUL \<Longrightarrow> target_ok (collector_string ip port vrf)"
  by (cases ip) (auto simp: target_ok_def collector_string_def MAX_COLLECTOR_LENGTH_def split: option.splits)

text \<open>The first two parts of a target, which is what a new collector is compared with.\<close>

definition target_key :: "string \<Rightarrow> string \<times> string option" where
  "target_key t =
     (case strtok ''/'' (strncpy_buffer MAX_COLLECTOR_LENGTH t) of
        Inr (Some ip, rest) \<Rightarrow> (case strtok ''/'' rest of Inr (port, _) \<Rightarrow> (ip, port) | _ \<Rightarrow> ([], None))
      | _ \<Rightarrow> ([], None))"

lemma collector_clash_iff:
  "list_all target_ok ts \<Longrightarrow> collector_clash ip port n ts = Inr None \<longleftrightarrow> n \<noteq> 3 \<and> (\<forall>t\<in>set ts. target_key t \<noteq> (ip, port))"
proof (induction ts)
  case (Cons t ts)
  from Cons.prems obtain i rest q rest' where "strtok ''/'' (strncpy_buffer MAX_COLLECTOR_LENGTH t) = Inr (Some i, rest)"
    "strtok ''/'' rest = Inr (q, rest')" using target_tokens [of t] by auto
  with Cons.IH Cons.prems show ?case by (cases q; cases port) (auto simp: and_then_def target_key_def)
qed simp

lemma column_le:
  assumes "cli_laws env"
  shows "distinct (ce_column env xs)" "set (ce_column env xs) = set xs" "length (ce_column env xs) \<le> length xs"
proof -
  show d: "distinct (ce_column env xs)" "set (ce_column env xs) = set xs" using assms by (simp_all add: cli_laws_def)
  show "length (ce_column env xs) \<le> length xs" using d card_length [of xs] by (metis distinct_card)
qed

lemma collector_add_ok:
  assumes "cli_laws env" "row_ok is r" "target_ok c"
  shows "\<exists>x. sflow_collector_add env r c ip port = Inr x
    \<and> (\<forall>r'. x = Inr r' \<longrightarrow> row_ok is r' \<and> sf_uuid r' = sf_uuid r)"
proof -
  have l: "list_all target_ok (sf_targets r)" "length (sf_targets r) \<le> 3" using assms(2) by (auto simp: row_ok_def)
  obtain m where m: "collector_clash ip port (length (sf_targets r)) (sf_targets r) = Inr m" using collector_clash_total [OF l(1)] by blast
  show ?thesis
  proof (cases m)
    case None
    with m collector_clash_iff [OF l(1)] have "length (sf_targets r) \<noteq> 3" by auto
    then have "length (ce_column env (sf_targets r @ [c])) \<le> 3" using column_le(3) [OF assms(1), of "sf_targets r @ [c]"] l(2) by simp
    moreover have "list_all target_ok (ce_column env (sf_targets r @ [c]))" using l(1) assms(3) column_le(2) [OF assms(1)] by (auto simp: list_all_iff)
    ultimately show ?thesis using m None assms(2) column_le(1) [OF assms(1)]
      by (auto simp: sflow_collector_add_def and_then_def row_ok_def)
  qed (use m in \<open>simp add: sflow_collector_add_def and_then_def\<close>)
qed

lemma collector_remove_ok:
  assumes "cli_laws env" "row_ok is r" "sflow_collector_remove env r c = Inr r'"
  shows "row_ok is r' \<and> sf_uuid r' = sf_uuid r"
proof -
  let ?ts = "filter (\<lambda>t. t \<noteq> c) (sf_targets r)"
  have "length (ce_column env ?ts) \<le> length (sf_targets r)"
    using column_le(3) [OF assms(1), of ?ts] length_filter_le [of "\<lambda>t. t \<noteq> c" "sf_targets r"] by linarith
  moreover have "list_all target_ok (ce_column env ?ts)" using assms(2) column_le(2) [OF assms(1)] by (auto simp: list_all_iff row_ok_def)
  ultimately show ?thesis using assms(2,3) column_le(1) [OF assms(1)]
    by (auto simp: sflow_collector_remove_def row_ok_def split: if_splits)
qed

lemma store_collector_ok:
  assumes "cli_laws env" "sflow_db_ok db" "ip \<noteq> []" "hd ip \<noteq> CHR ''/''" "hd ip \<noteq> NUL"
  shows "safe_result db (store_collector env ip port vrf on db)"
proof -
  let ?c = "collector_string ip port vrf"
  obtain r db' where f: "first_or_insert env db = (r, db')" by (cases "first_or_insert env db")
  note k = first_or_insert_ok [OF assms(2) f]
  then have r: "row_ok (db_ifaces db) r" by (simp add: fresh_row_ok_def)
  have "\<exists>x. (if on then sflow_collector_add env r ?c ip port else Inr (sflow_collector_remove env r ?c)) = Inr x
    \<and> (\<forall>r'. x = Inr r' \<longrightarrow> row_ok (db_ifaces db) r' \<and> sf_uuid r' = sf_uuid r)"
  proof (cases on)
    case True
    with collector_add_ok [OF assms(1) r collector_string_ok [OF assms(3-5), of port vrf], of ip port] show ?thesis by simp
  qed (use collector_remove_ok [OF assms(1) r, of ?c] in simp)
  then obtain x where x: "(if on then sflow_collector_add env r ?c ip port else Inr (sflow_collector_remove env r ?c)) = Inr x"
    "\<forall>r'. x = Inr r' \<longrightarrow> row_ok (db_ifaces db) r' \<and> sf_uuid r' = sf_uuid r" by blast
  have "store_collector env ip port vrf on db = (if sflow_first db = None \<and> \<not> on then Inr (config_abort CMD_SUCCESS (line env ''No sFlow configuration present.'') db)
      else case x of Inl msg \<Rightarrow> Inr (config_abort CMD_SUCCESS (line env msg) db) | Inr r' \<Rightarrow> Inr (config_finish env db (put_sflow r' db')))"
    unfolding store_collector_def f Let_def prod.case x(1) by (simp add: and_then_def)
  then show ?thesis using x(2) assms(2) safe_finish [OF assms(1,2)] put_sflow_ok(1) [OF assms(2) k] by (auto split: sum.splits)
qed

lemma safe_collector:
  assumes "cli_laws env" "sflow_db_ok db"
  shows "safe_result db (sflow_set_collector env ip port vrf on db)"
proof (cases "ce_prefix env ip")
  case (Some t)
  then obtain p rest where p: "strtok ''/'' (t @ [NUL]) = Inr (Some p, rest)" "p \<noteq> []" "hd p \<noteq> CHR ''/''" "hd p \<noteq> NUL"
    using prefix_token [OF assms(1)] by blast
  have "safe_result db (store_collector env p port vrf on db)" by (rule store_collector_ok [OF assms p(2-4)])
  with assms(2) Some p(1) show ?thesis by (auto simp: sflow_set_collector_def and_then_def)
qed (simp add: sflow_set_collector_def assms(2))

section \<open>Sessions\<close>

lemma safe_show:
  assumes "cli_laws env" "sflow_db_ok db"
  shows "safe_result db (sflow_show env db)" "safe_result db (sflow_show_intf_statistics env n db)"
proof -
  have "\<And>r. sflow_first db = Some r \<Longrightarrow> list_all target_ok (sf_targets r)"
    using sflow_first_ok [OF assms(2)] assms(2) by (auto simp: sflow_db_ok_def row_ok_def)
  then have "\<And>r. sflow_first db = Some r \<Longrightarrow> \<exists>s. show_targets env 0 (sf_targets r) = Inr s" using show_targets_total by blast
  then show "safe_result db (sflow_show env db)" using assms(2) by (auto simp: sflow_show_def and_then_def split: option.splits sum.splits)
  have "\<And>i. ce_interface_find env (db_ifaces db) n = Some i \<Longrightarrow> cif_statistics i \<noteq> None"
    using assms by (auto simp: cli_laws_def sflow_db_ok_def list_all_iff)
  then show "safe_result db (sflow_show_intf_statistics env n db)"
    using assms(2) by (auto simp: sflow_show_intf_statistics_def split: option.splits)
qed

lemma in_range_column: "in_range lo hi a \<Longrightarrow> column_in lo hi (Some (atoi a))"
  by (simp add: in_range_def column_in_def)

lemma column_in_None [simp]: "column_in lo hi None"
  by (simp add: column_in_def)

lemmas handler_defs = cli_sflow_set_status_def cli_sflow_no_set_status_def cli_flow_set_sampling_rate_def cli_sflow_no_set_sampling_rate_def
  cli_sflow_set_collector_def cli_sflow_no_set_collector_def cli_sflow_set_agent_interface_def cli_sflow_set_agent_interface_family_def
  cli_sflow_no_set_agent_interface_def cli_sflow_set_header_size_def cli_sflow_no_set_header_size_def cli_sflow_set_max_datagram_size_def
  cli_sflow_no_set_max_datagram_size_def cli_sflow_set_polling_def cli_sflow_no_set_polling_def cli_sflow_show_def cli_sflow_show_intf_statistics_def

lemma dispatch_safe:
  assumes "cli_laws env" "sflow_db_ok db" "args_ok cmd"
  shows "safe_result db (dispatch env v cmd db)"
  using assms(3)
  by (cases cmd) (simp_all add: dispatch_def handler_defs args_ok_def in_range_column safe_sampling [OF assms(1,2)] safe_polling [OF assms(1,2)]
    safe_header [OF assms(1,2)] safe_max_datagram [OF assms(1,2)] safe_global [OF assms(1,2)] safe_port [OF assms(1,2)] safe_agent [OF assms(1,2)]
    safe_collector [OF assms(1,2)] safe_show [OF assms(1,2)])

lemma session_ok:
  assumes "cli_laws env" "sflow_db_ok db" "list_all (\<lambda>(v, cmd). args_ok cmd) cmds"
  shows "\<exists>rs db'. session env cmds db = Inr (rs, db') \<and> length rs = length cmds \<and> sflow_db_ok db'"
  using assms(2,3)
proof (induction cmds arbitrary: db)
  case (Cons x cmds)
  obtain v cmd where x: "x = (v, cmd)" by (cases x)
  have "safe_result db (dispatch env v cmd db)" using dispatch_safe [OF assms(1) Cons.prems(1)] Cons.prems(2) x by simp
  then obtain rc out db1 where d: "dispatch env v cmd db = Inr (rc, out, db1)" "sflow_db_ok db1"
    by (cases "dispatch env v cmd db") (auto simp: safe_reply_def)
  obtain rs db' where "session env cmds db1 = Inr (rs, db')" "length rs = length cmds" "sflow_db_ok db'" using Cons.IH [OF d(2)] Cons.prems(2) by auto
  with d x show ?case by (simp add: and_then_def)
qed simp

text \<open>
  C32: No sequence of sFlow commands whose arguments match the declared syntax reads past a buffer or dereferences NULL, whatever
  commits fail on the way.  There is at most one sFlow row, which the System row refers to if sFlow is enabled; it has at most three
  collectors, all different, numbers in the ranges of the commands, and an agent interface that exists.
\<close>

theorem sflow_sessions_safe:
  assumes "cli_laws env" "sflow_db_ok db" "list_all (\<lambda>(v, cmd). args_ok cmd) cmds"
  shows "\<exists>rs db'. session env cmds db = Inr (rs, db') \<and> length rs = length cmds \<and> sflow_db_ok db'"
  by (rule session_ok [OF assms])

definition sample_cli_env :: cli_env where
  "sample_cli_env = \<lparr>ce_sflow = \<lparr>SFL_DEFAULT_SAMPLING_RATE = 4096, SFL_DEFAULT_POLLING_INTERVAL = 30, SFL_DEFAULT_HEADER_SIZE = 128,
      SFL_DEFAULT_DATAGRAM_SIZE = 1400, SFLOW_PER_INTERFACE_KEY = ''sflow'', DEFAULT_BRIDGE_NAME = ''bridge_normal''\<rparr>,
    ce_value_true = ''true'', ce_value_false = ''false'', DEFAULT_VRF_NAME = ''vrf_default'', SFL_DEFAULT_COLLECTOR_PORT = 6343,
    VTY_NEWLINE = [CHR 0x0A], ce_prefix = (\<lambda>ip. if ip = [] \<or> hd ip = CHR ''/'' \<or> hd ip = NUL then None else Some (ip @ ''/32'')),
    ce_start = True, ce_finish = (\<lambda>db db'. (TXN_SUCCESS, db')), ce_new_uuid = (\<lambda>db. length (db_sflow db)), ce_column = remdups,
    ce_port_find = (\<lambda>ps n. List.find (\<lambda>p. sp_name p = n) ps), ce_interface_find = (\<lambda>is n. List.find (\<lambda>i. cif_name i = n) is)\<rparr>"

definition sample_sflow_db :: sflow_db where
  "sample_sflow_db = \<lparr>db_system = True, db_sflow_ref = None, db_sflow = [],
     db_ports = [\<lparr>sp_name = ''1'', sp_ip4_address = Some ''10.0.0.1/24'', sp_ip6_address = None, sp_other_config = []\<rparr>],
     db_ifaces = [\<lparr>cif_name = ''1'', cif_statistics = Some [(''sflow_ingress_packets'', 3)]\<rparr>]\<rparr>"

abbreviation config_vty :: vty where "config_vty \<equiv> \<lparr>vty_node = CONFIG_NODE, vty_index = []\<rparr>"

definition sample_cmds :: "(vty \<times> sflow_cmd) list" where
  "sample_cmds = [(config_vty, Set_status), (config_vty, Set_collector ''1.2.3.4'' (Some ''0'') None), (config_vty, Set_sampling_rate ''20''),
     (config_vty, Set_agent_interface_family ''1'' ''ipv4''), (config_vty, Show_sflow)]"

lemma sample_cli_laws: "cli_laws sample_cli_env"
  by (auto simp: cli_laws_def sample_cli_env_def find_Some_iff split: if_splits)

lemma sample_sflow_ok: "sflow_db_ok sample_sflow_db" "list_all (\<lambda>(v, cmd). args_ok cmd) sample_cmds"
  by code_simp+

lemma sample_cmds_length: "length sample_cmds = 5"
  by (simp add: sample_cmds_def)

theorem sflow_sessions_safe_witness: "\<exists>rs db'. session sample_cli_env sample_cmds sample_sflow_db = Inr (rs, db') \<and> length rs = 5 \<and> sflow_db_ok db'"
  using sflow_sessions_safe [OF sample_cli_laws sample_sflow_ok] unfolding sample_cmds_length .

section \<open>From the command to the agent\<close>

lemma first_or_insert_ref: "db_sflow_ref (snd (first_or_insert env db)) = db_sflow_ref db"
  by (simp add: first_or_insert_def sflow_insert_def Let_def split: option.splits)

lemma set_number_ref:
  assumes "cli_laws env" "set_number column env v db = (rc, out, db')"
  shows "db_sflow_ref db' = db_sflow_ref db"
proof -
  obtain r d where f: "first_or_insert env db = (r, d)" by (cases "first_or_insert env db")
  have "db_sflow_ref (put_sflow (column v r) d) = db_sflow_ref db" using first_or_insert_ref [of env db] by (simp add: f put_sflow_def)
  with assms(2) show ?thesis
    by (cases rule: config_finish_cases [OF assms(1), of db "put_sflow (column v r) d"]) (auto simp: set_number_def f config_abort_def split: if_splits)
qed

locale numeric_setting =
  fixes command :: "cli_env \<Rightarrow> int option \<Rightarrow> sflow_db \<Rightarrow> reply"
    and column :: "int option \<Rightarrow> sflow_cli_row \<Rightarrow> sflow_cli_row"
    and field :: "u32 \<Rightarrow> sflow_options \<Rightarrow> sflow_options"
    and default :: "sflow_env \<Rightarrow> u32"
  assumes command_shape: "command = set_number column"
    and column_uuid: "sf_uuid (column v r) = sf_uuid r"
    and column_field: "fst (bridge_configure_sflow env ports (Some (sflow_row.truncate (column v r))) n)
      = map_option (field (u32_column v (default env))) (fst (bridge_configure_sflow env ports (Some (sflow_row.truncate r)) n))"
begin

lemma reaches_agent:
  assumes "cli_laws env" "sflow_db_ok db" "command env v db = (CMD_SUCCESS, out, db')"
  shows "agent_options env db' n = map_option (field (u32_column v (default (ce_sflow env)))) (agent_options env db n)"
proof (cases "sflow_first db")
  case None
  then have "db_sflow_ref db = None" using sflow_first_ok [OF assms(2)] assms(2) by (auto simp: sflow_db_ok_def)
  moreover from this have "db_sflow_ref db' = None" using set_number_ref [OF assms(1)] assms(3) by (simp add: command_shape)
  ultimately show ?thesis by (simp add: agent_options_def system_sflow_def bridge_configure_sflow_def)
next
  case (Some r)
  then have r: "db_sflow db = [r]" using sflow_first_ok [OF assms(2)] by simp
  have "config_finish env db (put_sflow (column v r) db) = (CMD_SUCCESS, out, db')"
    using assms(3) Some by (auto simp: command_shape set_number_def config_abort_def first_or_insert_def split: if_splits)
  then have "db' = put_sflow (column v r) db" by (cases rule: config_finish_cases [OF assms(1), of db "put_sflow (column v r) db"]) auto
  then have "db_sflow db' = [column v r]" "db_sflow_ref db' = db_sflow_ref db" "db_ports db' = db_ports db" using r by (auto simp: put_sflow_def column_uuid)
  moreover have "set_option (db_sflow_ref db) \<subseteq> {sf_uuid r}" using assms(2) r by (simp add: sflow_db_ok_def)
  ultimately show ?thesis using column_field [of "ce_sflow env" "db_ports db" v r n] r
    by (cases "db_sflow_ref db") (simp_all add: agent_options_def system_sflow_def column_uuid, simp add: bridge_configure_sflow_def)
qed

end

interpretation sampling_rate: numeric_setting sflow_set_sampling_rate "\<lambda>v. sf_sampling_update (\<lambda>_. v)"
  "\<lambda>x. oso_sampling_rate_update (\<lambda>_. x)" SFL_DEFAULT_SAMPLING_RATE
  by unfold_locales (simp_all add: sflow_set_sampling_rate_def bridge_configure_sflow_def sflow_row.truncate_def)

interpretation polling_interval: numeric_setting sflow_set_polling "\<lambda>v. sf_polling_update (\<lambda>_. v)"
  "\<lambda>x. oso_polling_interval_update (\<lambda>_. x)" SFL_DEFAULT_POLLING_INTERVAL
  by unfold_locales (simp_all add: sflow_set_polling_def bridge_configure_sflow_def sflow_row.truncate_def)

interpretation header_size: numeric_setting sflow_set_header_size "\<lambda>v. sf_header_update (\<lambda>_. v)"
  "\<lambda>x. oso_header_len_update (\<lambda>_. x)" SFL_DEFAULT_HEADER_SIZE
  by unfold_locales (simp_all add: sflow_set_header_size_def bridge_configure_sflow_def sflow_row.truncate_def)

interpretation max_datagram: numeric_setting sflow_set_max_datagram_size "\<lambda>v. sf_max_datagram_update (\<lambda>_. v)"
  "\<lambda>x. oso_max_datagram_update (\<lambda>_. x)" SFL_DEFAULT_DATAGRAM_SIZE
  by unfold_locales (simp_all add: sflow_set_max_datagram_size_def bridge_configure_sflow_def sflow_row.truncate_def)

text \<open>What a numeric command does to the options of every agent; \<open>show\<close> does nothing to them.\<close>

definition setting_of :: "cli_env \<Rightarrow> sflow_cmd \<Rightarrow> (sflow_options \<Rightarrow> sflow_options) option" where
  "setting_of env cmd =
     (case cmd of
        Set_sampling_rate a \<Rightarrow> Some (oso_sampling_rate_update (\<lambda>_. word_of_int (atoi a)))
      | No_set_sampling_rate \<Rightarrow> Some (oso_sampling_rate_update (\<lambda>_. SFL_DEFAULT_SAMPLING_RATE (ce_sflow env)))
      | Set_polling a \<Rightarrow> Some (oso_polling_interval_update (\<lambda>_. word_of_int (atoi a)))
      | No_set_polling \<Rightarrow> Some (oso_polling_interval_update (\<lambda>_. SFL_DEFAULT_POLLING_INTERVAL (ce_sflow env)))
      | Set_header_size a \<Rightarrow> Some (oso_header_len_update (\<lambda>_. word_of_int (atoi a)))
      | No_set_header_size \<Rightarrow> Some (oso_header_len_update (\<lambda>_. SFL_DEFAULT_HEADER_SIZE (ce_sflow env)))
      | Set_max_datagram_size a \<Rightarrow> Some (oso_max_datagram_update (\<lambda>_. word_of_int (atoi a)))
      | No_set_max_datagram_size \<Rightarrow> Some (oso_max_datagram_update (\<lambda>_. SFL_DEFAULT_DATAGRAM_SIZE (ce_sflow env)))
      | _ \<Rightarrow> None)"

lemmas reaches_agent = sampling_rate.reaches_agent polling_interval.reaches_agent header_size.reaches_agent max_datagram.reaches_agent

text \<open>
  C33: When a numeric sFlow command succeeds, the sFlow agents that the next reconfiguration sets up differ from those it would have
  set up before in that one option, which has the value of the argument, or the default of the base library for the \<open>no\<close> form.
\<close>

theorem numeric_settings_reach_agent:
  assumes "cli_laws env" "sflow_db_ok db" "dispatch env v cmd db = Inr (CMD_SUCCESS, out, db')" "setting_of env cmd = Some change"
  shows "agent_options env db' n = map_option change (agent_options env db n)"
  using assms(3,4) reaches_agent [OF assms(1,2)]
  by (cases cmd) (auto simp: setting_of_def dispatch_def handler_defs u32_column_def)

definition sample_row :: sflow_cli_row where
  "sample_row = \<lparr>sf_targets = [''1.2.3.4''], sf_sampling = None, sf_polling = Some 10, sf_header = None, sf_max_datagram = None,
     sf_agent = None, sf_agent_addr_family = None, sf_uuid = 0, sf_name = ''global''\<rparr>"

definition enabled_db :: sflow_db where
  "enabled_db = sample_sflow_db\<lparr>db_sflow_ref := Some 0, db_sflow := [sample_row]\<rparr>"

definition sampled_db :: sflow_db where
  "sampled_db = sample_sflow_db\<lparr>db_sflow_ref := Some 0, db_sflow := [sample_row\<lparr>sf_sampling := Some 20\<rparr>]\<rparr>"

lemma enabled_db_ok: "sflow_db_ok enabled_db"
  by code_simp

lemma sampled: "dispatch sample_cli_env config_vty (Set_sampling_rate ''20'') enabled_db = Inr (CMD_SUCCESS, [], sampled_db)"
proof -
  have "atoi ''20'' = 20" by code_simp
  then show ?thesis
    by (simp add: dispatch_def handler_defs sflow_set_sampling_rate_def set_number_def first_or_insert_def sflow_first_def enabled_db_def sample_cli_env_def
      config_finish_def put_sflow_def sampled_db_def)
qed

theorem numeric_settings_reach_agent_witness:
  "agent_options sample_cli_env sampled_db 0
   = map_option (oso_sampling_rate_update (\<lambda>_. word_of_int (atoi ''20''))) (agent_options sample_cli_env enabled_db 0)"
  by (rule numeric_settings_reach_agent [OF sample_cli_laws enabled_db_ok sampled]) (simp add: setting_of_def)

section \<open>Collectors as a set\<close>

definition collectors :: "sflow_db \<Rightarrow> string set" where
  "collectors db = \<Union> (set (map (\<lambda>r. set (sf_targets r)) (db_sflow db)))"

definition collectors_after :: "string \<Rightarrow> string option \<Rightarrow> string option \<Rightarrow> bool \<Rightarrow> string set \<Rightarrow> string set" where
  "collectors_after ip port vrf on T =
     (if on then (if card T = 3 \<or> (ip, port) \<in> target_key ` T then T else insert (collector_string ip port vrf) T)
      else T - {collector_string ip port vrf})"

lemma collectors_row: "db_sflow db = [r] \<Longrightarrow> collectors db = set (sf_targets r)"
  by (simp add: collectors_def)

lemma agent_targets:
  assumes "sflow_db_ok db" "agent_options env db n = Some o'"
  shows "set (oso_targets o') = collectors db"
proof -
  obtain u r where "db_sflow_ref db = Some u" "db_sflow db = [r]" "sf_uuid r = u"
    using assms sflow_first_ok [OF assms(1)]
    by (cases "db_sflow_ref db"; cases "sflow_first db") (auto simp: agent_options_def system_sflow_def bridge_configure_sflow_def sflow_db_ok_def)
  with assms(2) show ?thesis by (auto simp: agent_options_def system_sflow_def bridge_configure_sflow_def collectors_def sflow_row.truncate_def)
qed

lemma store_collector_set:
  assumes "cli_laws env" "sflow_db_ok db" "\<And>d d'. fst (ce_finish env d d') = TXN_SUCCESS" "ip \<noteq> []" "hd ip \<noteq> CHR ''/''" "hd ip \<noteq> NUL"
  shows "\<exists>out db'. store_collector env ip port vrf on db = Inr (CMD_SUCCESS, out, db') \<and> collectors db' = collectors_after ip port vrf on (collectors db)"
proof -
  let ?c = "collector_string ip port vrf"
  obtain r d where f: "first_or_insert env db = (r, d)" by (cases "first_or_insert env db")
  note k = first_or_insert_ok [OF assms(2) f]
  then have r: "row_ok (db_ifaces db) r" by (simp add: fresh_row_ok_def)
  have T: "collectors db = set (sf_targets r)"
    using sflow_first_ok [OF assms(2)] f by (cases "sflow_first db") (auto simp: first_or_insert_def sflow_insert_def Let_def collectors_def)
  have fin: "\<And>d'. config_finish env db d' = (CMD_SUCCESS, [], d')"
    using assms(1,3) by (simp add: config_finish_def cli_laws_def case_prod_unfold)
  have card: "card (set (sf_targets r)) = length (sf_targets r)" "list_all target_ok (sf_targets r)" using r by (auto simp: row_ok_def distinct_card)
  have put: "\<And>ts. sf_uuid (r\<lparr>sf_targets := ts\<rparr>) = sf_uuid r \<Longrightarrow> collectors (put_sflow (r\<lparr>sf_targets := ts\<rparr>) d) = set ts"
    using k by (simp add: put_sflow_def fresh_row_ok_def collectors_def)
  show ?thesis
  proof (cases on)
    case True
    obtain m where m: "collector_clash ip port (length (sf_targets r)) (sf_targets r) = Inr m" using collector_clash_total [OF card(2)] by blast
    have "m = None \<longleftrightarrow> \<not> (card (collectors db) = 3 \<or> (ip, port) \<in> target_key ` collectors db)"
      using collector_clash_iff [OF card(2), of ip port "length (sf_targets r)"] m card(1) T by (auto simp: image_iff)
    with True m show ?thesis unfolding store_collector_def f Let_def prod.case
      by (cases m) (auto simp: sflow_collector_add_def and_then_def collectors_after_def config_abort_def fin put column_le(2) [OF assms(1)] T)
  next
    case False
    have "sf_targets r = []" if "sflow_first db = None" using that f by (auto simp: first_or_insert_def sflow_insert_def Let_def)
    with False show ?thesis unfolding store_collector_def f Let_def prod.case
      by (auto simp: sflow_collector_remove_def and_then_def collectors_after_def config_abort_def fin put column_le(2) [OF assms(1)] T)
  qed
qed

text \<open>
  C34: The collector commands implement a set of at most three collectors: with an address in canonical form, a permitted VRF and
  commits that succeed, the first adds the collector unless the set is full or has one whose first two parts are the address and the
  port, and the second removes it.  The targets of every agent the switch sets up are that set.
\<close>

theorem collectors_as_a_set:
  assumes "cli_laws env" "sflow_db_ok db" "ce_start env" "\<And>d d'. fst (ce_finish env d d') = TXN_SUCCESS"
    "ce_prefix env ip = Some t" "strtok ''/'' (t @ [NUL]) = Inr (Some ip, rest)" "set_option vrf \<subseteq> {DEFAULT_VRF_NAME env}"
  shows "\<exists>out db'. sflow_set_collector env ip port vrf on db = Inr (CMD_SUCCESS, out, db')
    \<and> collectors db' = collectors_after ip port vrf on (collectors db) \<and> card (collectors db') \<le> 3
    \<and> set_option (map_option (\<lambda>o'. set (oso_targets o')) (agent_options env db' n)) \<subseteq> {collectors db'}"
proof -
  obtain p rest' where p: "strtok ''/'' (t @ [NUL]) = Inr (Some p, rest')" "p \<noteq> []" "hd p \<noteq> CHR ''/''" "hd p \<noteq> NUL"
    using prefix_token [OF assms(1,5)] by blast
  with assms(6) have ip: "ip \<noteq> []" "hd ip \<noteq> CHR ''/''" "hd ip \<noteq> NUL" by auto
  obtain out db' where s: "store_collector env ip port vrf on db = Inr (CMD_SUCCESS, out, db')"
    "collectors db' = collectors_after ip port vrf on (collectors db)" using store_collector_set [OF assms(1,2,4) ip] by blast
  have "sflow_set_collector env ip port vrf on db = Inr (CMD_SUCCESS, out, db')"
    using assms(3,5,6,7) s(1) by (auto simp: sflow_set_collector_def and_then_def split: option.splits)
  moreover have ok: "sflow_db_ok db'" using store_collector_ok [OF assms(1,2) ip, of port vrf on] s(1) by (simp add: safe_reply_def)
  moreover have "card (collectors db') \<le> 3"
    using ok sflow_first_ok [OF ok] by (cases "sflow_first db'") (auto simp: collectors_def sflow_db_ok_def row_ok_def distinct_card)
  moreover have "set_option (map_option (\<lambda>o'. set (oso_targets o')) (agent_options env db' n)) \<subseteq> {collectors db'}"
    using agent_targets [OF ok, of env n] by (cases "agent_options env db' n") auto
  ultimately show ?thesis using s(2) by blast
qed

theorem collectors_as_a_set_witness:
  "\<exists>out db'. sflow_set_collector sample_cli_env ''5.6.7.8'' (Some ''99'') None True enabled_db = Inr (CMD_SUCCESS, out, db')
    \<and> collectors db' = collectors_after ''5.6.7.8'' (Some ''99'') None True (collectors enabled_db) \<and> card (collectors db') \<le> 3
    \<and> set_option (map_option (\<lambda>o'. set (oso_targets o')) (agent_options sample_cli_env db' 0)) \<subseteq> {collectors db'}"
proof (rule collectors_as_a_set [OF sample_cli_laws enabled_db_ok])
  show "ce_start sample_cli_env" by code_simp
  show "fst (ce_finish sample_cli_env d d') = TXN_SUCCESS" for d d' by (simp add: sample_cli_env_def)
  show "ce_prefix sample_cli_env ''5.6.7.8'' = Some ''5.6.7.8/32''" by code_simp
  show "strtok ''/'' (''5.6.7.8/32'' @ [NUL]) = Inr (Some ''5.6.7.8'', ''32'' @ [NUL])" by code_simp
qed simp

text \<open>Adding a collector that is not there and removing it again restores the set.\<close>

lemma collector_added_and_removed:
  "collector_string ip port vrf \<notin> T \<Longrightarrow> (ip, port) \<notin> target_key ` T \<Longrightarrow> card T \<noteq> 3 \<Longrightarrow>
    collectors_after ip port vrf False (collectors_after ip port vrf True T) = T"
  by (auto simp: collectors_after_def)

text \<open>
  The comparison reads a VRF in second place as a port: one collector written with and without the default VRF counts twice,
  though the listing shows the same line for both.  And a port 0, which the syntax allows, is listed as a VRF.
\<close>

lemma same_collector_twice:
  "collector_clash ''1.2.3.4'' None 1 [''1.2.3.4/vrf_default''] = Inr None" "collector_clash ''1.2.3.4'' None 1 [''1.2.3.4''] \<noteq> Inr None"
  by code_simp+

lemma sample_split:
  "split_target ''1.2.3.4'' = Inr (Some ''1.2.3.4'', None, None)" "split_target ''1.2.3.4/vrf_default'' = Inr (Some ''1.2.3.4'', None, Some ''vrf_default'')"
  "split_target ''1.2.3.4/0'' = Inr (Some ''1.2.3.4'', None, Some ''0'')"
  by code_simp+

lemma same_collector_listed:
  assumes "DEFAULT_VRF_NAME env = ''vrf_default''"
  shows "target_text env ''1.2.3.4'' = target_text env ''1.2.3.4/vrf_default''"
  by (simp add: target_text_def sample_split and_then_def assms)

lemma port_zero_listed_as_vrf: "target_text env ''1.2.3.4/0'' = Inr (Some (''1.2.3.4/'' @ show_nat (SFL_DEFAULT_COLLECTOR_PORT env) @ ''/0''))"
  by (simp add: target_text_def sample_split and_then_def)

section \<open>Ports\<close>

text \<open>Enabling or disabling sFlow on a port is what the switch reads back, and concerns no other port.\<close>

lemma port_setting_reaches_agent:
  assumes "cli_laws env" "sflow_set_port_config env n on db = (CMD_SUCCESS, out, db')" "ce_start env" "db_system db"
    "ce_port_find env (db_ports db) n = Some p" "ce_value_true env \<noteq> ''false''" "ce_value_false env = ''false''"
    "take (length (DEFAULT_BRIDGE_NAME (ce_sflow env))) n \<noteq> DEFAULT_BRIDGE_NAME (ce_sflow env)"
  shows "set (sflow_ports_disabled (ce_sflow env) (db_ports db'))
    = (if on then set (sflow_ports_disabled (ce_sflow env) (db_ports db)) - {n} else insert n (set (sflow_ports_disabled (ce_sflow env) (db_ports db))))"
proof -
  have p: "p \<in> set (db_ports db)" "sp_name p = n" using assms(1,5) by (auto simp: cli_laws_def)
  define oc where "oc = (if sp_other_config p = [] then [(SFLOW_PER_INTERFACE_KEY (ce_sflow env), if on then ce_value_true env else ce_value_false env)]
    else smap_replace (sp_other_config p) (SFLOW_PER_INTERFACE_KEY (ce_sflow env)) (if on then ce_value_true env else ce_value_false env))"
  define d where "d = db\<lparr>db_ports := map (\<lambda>x. if sp_name x = n then x\<lparr>sp_other_config := oc\<rparr> else x) (db_ports db)\<rparr>"
  have "config_finish env db d = (CMD_SUCCESS, out, db')"
    unfolding oc_def d_def using assms(2-5) p(2) by (simp add: sflow_set_port_config_def Let_def)
  then have d': "db' = d" by (cases rule: config_finish_cases [OF assms(1), of db d]) auto
  have oc: "oc \<noteq> []" "smap_get_bool oc (SFLOW_PER_INTERFACE_KEY (ce_sflow env)) True = on"
    using assms(6,7) by (auto simp: oc_def smap_get_bool_def smap_get_def smap_replace_def)
  let ?off = "\<lambda>x. take (length (DEFAULT_BRIDGE_NAME (ce_sflow env))) (sp_name x) \<noteq> DEFAULT_BRIDGE_NAME (ce_sflow env) \<and> sp_other_config x \<noteq> []
    \<and> \<not> smap_get_bool (sp_other_config x) (SFLOW_PER_INTERFACE_KEY (ce_sflow env)) True"
  have "sflow_ports_disabled (ce_sflow env) (map (\<lambda>x. if sp_name x = n then x\<lparr>sp_other_config := oc\<rparr> else x) ps)
    = map sp_name (filter (\<lambda>x. if sp_name x = n then \<not> on else ?off x) ps)" for ps
    using oc assms(8) by (induction ps) (auto simp: sflow_ports_disabled_def)
  then have "set (sflow_ports_disabled (ce_sflow env) (db_ports db')) = sp_name ` {x \<in> set (db_ports db). if sp_name x = n then \<not> on else ?off x}"
    by (simp add: d' d_def)
  moreover have "set (sflow_ports_disabled (ce_sflow env) (db_ports db)) = sp_name ` {x \<in> set (db_ports db). ?off x}" by (simp add: sflow_ports_disabled_def)
  ultimately show ?thesis using p by (cases on) (auto simp: image_iff)
qed

section \<open>The listing\<close>

text \<open>The numbers in the listing are those the agents are set up with.\<close>

lemma number_line_agent:
  assumes "column_in lo hi c" "0 \<le> lo" "hi < 2 ^ 32"
  shows "number_line env label c def = line env (label @ show_nat (unat (u32_column c def)))"
proof (cases c)
  case (Some v)
  with assms have "unat (word_of_int v :: u64) = nat v" "unat (word_of_int v :: u32) = nat v" by (auto simp: column_in_def unat_eq_nat_uint uint_word_of_int)
  with Some show ?thesis by (simp add: number_line_def u32_column_def show_u64_def)
qed (simp add: number_line_def u32_column_def)

text \<open>The number of samples is the sum over the interfaces, modulo the width of the counter.\<close>

lemma sample_count_sum:
  "sflow_aggregate_sample_count db = (\<Sum>i\<leftarrow>db_ifaces db. case cif_statistics i of None \<Rightarrow> 0
     | Some datum \<Rightarrow> packets datum ''sflow_ingress_packets'' + packets datum ''sflow_egress_packets'')"
proof -
  have "fold (\<lambda>i total. case cif_statistics i of None \<Rightarrow> total
      | Some datum \<Rightarrow> total + packets datum ''sflow_ingress_packets'' + packets datum ''sflow_egress_packets'') xs acc
    = acc + (\<Sum>i\<leftarrow>xs. case cif_statistics i of None \<Rightarrow> 0
      | Some datum \<Rightarrow> packets datum ''sflow_ingress_packets'' + packets datum ''sflow_egress_packets'')" for xs acc
    by (induction xs arbitrary: acc) (auto split: option.splits simp: algebra_simps)
  from this [of "db_ifaces db" 0] show ?thesis unfolding sflow_aggregate_sample_count_def by simp
qed

text \<open>The handler for a port runs only in the nodes whose index is a port.\<close>

lemma port_nodes: "node \<in> set (cli_post_init cmd) \<Longrightarrow> node = INTERFACE_NODE \<or> node = LINK_AGGREGATION_NODE \<Longrightarrow> cmd = Set_status \<or> cmd = No_set_status"
  by (cases cmd) (auto simp: cli_post_init_def)

end
