(* ===== verification/Daemon.thy ===== *)
theory Daemon
  imports Subsystem Bufmon Plugins Bridge_Run_Props
begin

text \<open>
  The daemon, src/ovs-vswitchd.c: options, start, the main loop and the shutdown, and what src/bridge.c contributes to them
  (\<open>bridge_init\<close>, \<open>wait_for_config_complete\<close>, memory usage and the commands of the control socket).

  The state is one record with the states of the four modules.  What a trip through the loop depends on is its input: the
  sequence number, the lock and the rows, which are the same for all modules because only \<open>bridge_run\<close> lets the IDL run.
  \<open>main\<close> is given by its start, the body of its loop and its shutdown; the loop runs over the inputs of its trips.
\<close>

section \<open>Options\<close>

text \<open>What \<open>getopt_long\<close> returns; the options of the base library are handled there.\<close>

datatype cmd_option =
    OPT_HELP
  | OPT_VERSION
  | OPT_MLOCKALL
  | OPT_UNIXCTL string
  | OPT_PLUGINS string
  | OPT_LIBRARY string
  | OPT_PEER_CA_CERT string
  | OPT_BOOTSTRAP_CA_CERT string
  | OPT_ENABLE_DUMMY "string option"
  | OPT_DISABLE_SYSTEM
  | OPT_UNRECOGNIZED
  | OPT_DPDK string

datatype proc_exit = EXIT_SUCCESS | EXIT_FAILURE | FATAL string

record start_opts =
  want_mlockall :: bool
  unixctl_path :: "string option"
  plugins_path :: "string option"
  so_library :: "cmd_option list"

fun parse_option_list :: "cmd_option list \<Rightarrow> start_opts \<Rightarrow> proc_exit + start_opts" where
  "parse_option_list [] o' = Inr o'"
| "parse_option_list (c # cs) o' =
     (case c of
        OPT_HELP \<Rightarrow> Inl EXIT_SUCCESS
      | OPT_VERSION \<Rightarrow> Inl EXIT_SUCCESS
      | OPT_MLOCKALL \<Rightarrow> parse_option_list cs (o'\<lparr>want_mlockall := True\<rparr>)
      | OPT_UNIXCTL p \<Rightarrow> parse_option_list cs (o'\<lparr>unixctl_path := Some p\<rparr>)
      | OPT_PLUGINS p \<Rightarrow> parse_option_list cs (o'\<lparr>plugins_path := Some p\<rparr>)
      | OPT_UNRECOGNIZED \<Rightarrow> Inl EXIT_FAILURE
      | OPT_DPDK _ \<Rightarrow> Inl (FATAL ''--dpdk must be given at beginning of command line.'')
      | _ \<Rightarrow> parse_option_list cs (o'\<lparr>so_library := so_library o' @ [c]\<rparr>))"

definition no_opts :: start_opts where
  "no_opts = \<lparr>want_mlockall = False, unixctl_path = None, plugins_path = None, so_library = []\<rparr>"

definition parse_options :: "string \<Rightarrow> cmd_option list \<Rightarrow> string list \<Rightarrow> proc_exit + string \<times> start_opts" where
  "parse_options rundir cs args =
     (case parse_option_list cs no_opts of
        Inl e \<Rightarrow> Inl e
      | Inr o' \<Rightarrow>
          (case args of
             [] \<Rightarrow> Inr (''unix:'' @ rundir @ ''/db.sock'', o')
           | [a] \<Rightarrow> Inr (a, o')
           | _ \<Rightarrow> Inl (FATAL ''at most one non-option argument accepted; use --help for usage'')))"

section \<open>Start\<close>

text \<open>The columns whose changes the IDL is told not to report, and those it is told not to replicate at all.\<close>

definition init_columns :: "idl_call list" where
  "init_columns =
    [Omit_alert ''open_vswitch'' ''cur_cfg'', Omit_alert ''open_vswitch'' ''statistics'', Omit ''open_vswitch'' ''external_ids'',
     Omit ''open_vswitch'' ''db_version'', Omit_alert ''bridge'' ''datapath_id'', Omit_alert ''bridge'' ''datapath_version'',
     Omit_alert ''bridge'' ''status'', Omit ''bridge'' ''external_ids'', Omit_alert ''port'' ''status'', Omit_alert ''port'' ''statistics'',
     Omit_alert ''port'' ''bond_active_slave'', Omit ''port'' ''external_ids'', Omit_alert ''interface'' ''admin_state'',
     Omit_alert ''interface'' ''duplex'', Omit_alert ''interface'' ''link_speed'', Omit_alert ''interface'' ''link_state'',
     Omit_alert ''interface'' ''pause'', Omit_alert ''neighbor'' ''status'', Omit_alert ''interface'' ''link_resets'',
     Omit_alert ''interface'' ''mac_in_use'', Omit_alert ''interface'' ''mtu'', Omit_alert ''interface'' ''ofport'',
     Omit_alert ''interface'' ''statistics'', Omit_alert ''interface'' ''status'', Omit_alert ''interface'' ''lacp_current'',
     Omit_alert ''interface'' ''error'', Omit ''interface'' ''external_ids'', Omit_alert ''interface'' ''hw_intf_info'',
     Omit_alert ''interface'' ''pm_info'', Omit_alert ''interface'' ''user_config'', Omit_alert ''mirror'' ''statistics'',
     Omit_alert ''mirror'' ''mirror_status'', Omit_alert ''controller'' ''is_connected'', Omit_alert ''controller'' ''role'',
     Omit_alert ''controller'' ''status'', Omit ''controller'' ''external_ids'', Omit ''manager'' ''external_ids'',
     Omit ''manager'' ''inactivity_probe'', Omit ''manager'' ''is_connected'', Omit ''manager'' ''max_backoff'', Omit ''manager'' ''status'',
     Omit ''ssl'' ''external_ids'', Omit ''vlan'' ''admin'', Omit ''vlan'' ''description'', Omit ''vlan'' ''oper_state_reason'',
     Omit ''nexthop'' ''status'', Omit ''nexthop'' ''external_ids'', Omit ''fan'' ''status'', Omit ''fan'' ''direction'', Omit ''fan'' ''name'',
     Omit ''fan'' ''rpm'', Omit ''fan'' ''other_config'', Omit ''fan'' ''hw_config'', Omit ''fan'' ''external_ids'', Omit ''fan'' ''speed'',
     Omit ''temp_sensor'' ''status'', Omit ''temp_sensor'' ''name'', Omit ''temp_sensor'' ''min'', Omit ''temp_sensor'' ''fan_state'',
     Omit ''temp_sensor'' ''max'', Omit ''temp_sensor'' ''other_config'', Omit ''temp_sensor'' ''location'', Omit ''temp_sensor'' ''hw_config'',
     Omit ''temp_sensor'' ''external_ids'', Omit ''temp_sensor'' ''temperature'']"

definition init_columns_l3 :: "idl_call list" where
  "init_columns_l3 =
    [Omit ''bgp_aspath_filter'' ''deny'', Omit ''bgp_aspath_filter'' ''name'', Omit ''bgp_aspath_filter'' ''permit'',
     Omit ''bgp_community_filter'' ''deny'', Omit ''bgp_community_filter'' ''name'', Omit ''bgp_community_filter'' ''permit'',
     Omit ''bgp_community_filter'' ''type'', Omit ''bgp_route'' ''aggregate'', Omit ''bgp_route'' ''aggregator'',
     Omit ''bgp_route'' ''aggregator_as'', Omit ''bgp_route'' ''aspath'', Omit ''bgp_route'' ''community'', Omit ''bgp_route'' ''creation_time'',
     Omit ''bgp_route'' ''ecommunity'', Omit ''bgp_route'' ''flags'', Omit ''bgp_route'' ''local_pref'', Omit ''bgp_route'' ''origin'',
     Omit ''bgp_route'' ''protocol_iBGP'', Omit ''bgp_route'' ''protocol_internal'', Omit ''bgp_route'' ''prefix'',
     Omit ''bgp_route'' ''bgp_nexthops'', Omit ''bgp_route'' ''address_family'', Omit ''bgp_route'' ''sub_address_family'',
     Omit ''bgp_route'' ''distance'', Omit ''bgp_route'' ''metric'', Omit ''bgp_route'' ''vrf'', Omit ''bgp_route'' ''path_attributes'',
     Omit ''bgp_route'' ''peer'', Omit ''bgp_route'' ''weight'', Omit ''bgp_nexthop'' ''ip_address'', Omit ''bgp_nexthop'' ''type'',
     Omit ''bgp_neighbor'' ''advertisement_interval'', Omit ''bgp_neighbor'' ''is_peer_group'', Omit ''bgp_neighbor'' ''description'',
     Omit ''bgp_neighbor'' ''shutdown'', Omit ''bgp_neighbor'' ''bgp_peer_group'', Omit ''bgp_neighbor'' ''local_interface'',
     Omit ''bgp_neighbor'' ''remote_as'', Omit ''bgp_neighbor'' ''allow_as_in'', Omit ''bgp_neighbor'' ''local_as'',
     Omit ''bgp_neighbor'' ''weight'', Omit ''bgp_neighbor'' ''tcp_port_number'', Omit ''bgp_neighbor'' ''advertisement_interval'',
     Omit ''bgp_neighbor'' ''maximum_prefix_limit'', Omit ''bgp_neighbor'' ''inbound_soft_reconfiguration'',
     Omit ''bgp_neighbor'' ''remove_private_as'', Omit ''bgp_neighbor'' ''passive'', Omit ''bgp_neighbor'' ''password'',
     Omit ''bgp_neighbor'' ''timers'', Omit ''bgp_neighbor'' ''route_maps'', Omit ''bgp_neighbor'' ''prefix_lists'',
     Omit ''bgp_neighbor'' ''aspath_filters'', Omit ''bgp_neighbor'' ''statistics'', Omit ''bgp_neighbor'' ''status'',
     Omit ''bgp_neighbor'' ''external_ids'', Omit ''bgp_neighbor'' ''other_config'', Omit ''bgp_neighbor'' ''ebgp_multihop'',
     Omit ''bgp_neighbor'' ''ttl_security_hops'', Omit ''bgp_neighbor'' ''update_source'', Omit ''bgp_router'' ''always_compare_med'',
     Omit ''bgp_router'' ''bgp_neighbors'', Omit ''bgp_router'' ''deterministic_med'', Omit ''bgp_router'' ''external_ids'',
     Omit ''bgp_router'' ''fast_external_failover'', Omit ''bgp_router'' ''gr_stale_timer'', Omit ''bgp_router'' ''log_neighbor_changes'',
     Omit ''bgp_router'' ''maximum_paths'', Omit ''bgp_router'' ''networks'', Omit ''bgp_router'' ''other_config'',
     Omit ''bgp_router'' ''redistribute'', Omit ''bgp_router'' ''redistribute_route_map'', Omit ''bgp_router'' ''router_id'',
     Omit ''bgp_router'' ''status'', Omit ''bgp_router'' ''timers'', Omit ''route'' ''metric'', Omit ''route'' ''protocol_private'',
     Omit ''route'' ''protocol_specific'']"

definition no_params :: blk_params where
  "no_params = \<lparr>bp_ofproto = None, bp_br = None, bp_vrf = None, bp_port = None\<rparr>"

definition bridge_init :: "u32 \<Rightarrow> 'f run_state \<Rightarrow> idl_call list \<times> 'f run_state" where
  "bridge_init seqno s =
     (init_columns @ init_columns_l3,
      s\<lparr>idl_seqno := seqno, rs_conf := recon_step (run_block BLK_BRIDGE_INIT no_params) (rs_conf s)\<rparr>)"

text \<open>What the IDL shows between two calls of \<open>ovsdb_idl_run\<close>: the lock and \<open>cur_cfg\<close> of the System row, if there is one.\<close>

record idl_view =
  iv_has_lock :: bool
  iv_cur_cfg :: "int option"

text \<open>Both loops of \<open>wait_for_config_complete\<close> run the IDL until a condition holds; \<open>None\<close> means that it never did.\<close>

fun wait_until :: "(idl_view \<Rightarrow> bool) \<Rightarrow> idl_view \<Rightarrow> idl_view list \<Rightarrow> (idl_view \<times> idl_view list) option" where
  "wait_until c v [] = (if c v then Some (v, []) else None)"
| "wait_until c v (v' # vs) = (if c v then Some (v, v' # vs) else wait_until c v' vs)"

definition system_configured :: "idl_view \<Rightarrow> bool" where
  "system_configured v \<longleftrightarrow> (case iv_cur_cfg v of None \<Rightarrow> False | Some n \<Rightarrow> n \<ge> 1)"

definition wait_for_config_complete :: "idl_view \<Rightarrow> idl_view list \<Rightarrow> (idl_view \<times> idl_view list) option" where
  "wait_for_config_complete v vs =
     (case wait_until iv_has_lock v vs of None \<Rightarrow> None | Some (v, vs) \<Rightarrow> wait_until system_configured v vs)"

section \<open>The daemon\<close>

datatype main_event =
    MemoryRun
  | TypeMemoryUsage string
  | OfprotoMemoryUsage string
  | UnixctlRun
  | NetdevRun
  | PollBlock "wake list" bool
  | UnixctlDestroy
  | ServiceStop

record 'f main_env =
  me_conf :: "'f conf_params"
  me_netdev :: netdev_env
  me_names :: bufmon_names
  me_ltdl :: ltdl_env
  me_bufmon_class :: "bufmon_class option"

record 'f daemon =
  dm_bridge :: "'f run_state"
  dm_subsys :: subsys
  dm_bufmon :: bufmon
  dm_loader :: loader
  dm_columns :: "idl_call list"
  dm_exiting :: bool
  dm_log :: "main_event list"

record main_input =
  mi_run :: run_input
  mi_system :: "system_row option"
  mi_bufmon_system :: "(smap \<times> smap) option"
  mi_bufmon_modified :: bool
  mi_bufmon_rows :: "bufmon_row list"
  mi_stamp :: string
  mi_should_report :: bool
  mi_exit_command :: bool
  mi_service_stop :: bool

definition dm_events :: "main_event list \<Rightarrow> 'f daemon \<Rightarrow> 'f daemon" where
  "dm_events es d = d\<lparr>dm_log := dm_log d @ es\<rparr>"

text \<open>\<open>plugins_init\<close> comes before \<open>bridge_init\<close>, so that plugins can register for its block.\<close>

definition main_start :: "'f main_env \<Rightarrow> string option \<Rightarrow> u32 \<Rightarrow> 'f daemon \<Rightarrow> (fault + 'f daemon) option" where
  "main_start env path seqno d =
     (case plugins_init (me_ltdl env) path (dm_loader d) of
        None \<Rightarrow> None
      | Some r \<Rightarrow> Some (
          and_then r (\<lambda>l.
            let (columns, b) = bridge_init seqno (dm_bridge d)
            in and_then (plugins_netdev_register (me_ltdl env) l) (\<lambda>l.
                 let (bm_columns, m) = bufmon_init seqno (dm_bufmon d)
                 in Inr (d\<lparr>dm_bridge := b, dm_subsys := subsystem_init seqno (dm_subsys d), dm_bufmon := m,
                           dm_loader := l, dm_columns := columns @ bm_columns, dm_exiting := False\<rparr>)))))"

definition bridge_get_memory_usage :: "conf_db \<Rightarrow> switch \<Rightarrow> main_event list" where
  "bridge_get_memory_usage db w = map TypeMemoryUsage (cd_datapath_types db) @ map (\<lambda>b. OfprotoMemoryUsage (b_name b)) (all_bridges w)"

definition bufmon_view :: "main_input \<Rightarrow> bufmon_idl" where
  "bufmon_view inp = \<lparr>bi_seqno = ri_seqno (mi_run inp), bi_lock_contended = ri_contended (mi_run inp), bi_has_lock = ri_has_lock (mi_run inp),
     bi_system = mi_bufmon_system inp, bi_system_modified = mi_bufmon_modified inp, bi_rows = mi_bufmon_rows inp\<rparr>"

definition bufmon_wait :: "bool \<Rightarrow> bufmon \<Rightarrow> wake list" where
  "bufmon_wait has_lock s = (if has_lock \<and> bc_enabled (bufmon_cfg s) then [WakeLatch] else [])"

text \<open>The calls of one trip, in the order of the code; \<open>subsystem_wait\<close> is empty.\<close>

definition main_body :: "'f main_env \<Rightarrow> main_input \<Rightarrow> 'f daemon \<Rightarrow> fault + 'f daemon" where
  "main_body env inp d =
     (let r = mi_run inp;
          d = dm_events (MemoryRun # (if mi_should_report inp then bridge_get_memory_usage (ri_db r) (rs_switch (dm_bridge d)) else [])) d
      in and_then (bridge_run (me_conf env) r (dm_bridge d)) (\<lambda>b.
         and_then (subsystem_run (me_netdev env) (ri_has_lock r) (ri_seqno r) (mi_system inp) (ri_now r) (ri_later r) (dm_subsys d)) (\<lambda>s.
         and_then (bufmon_run (me_names env) (me_bufmon_class env) (bufmon_view inp) (mi_stamp inp) (dm_bufmon d)) (\<lambda>m.
         let exiting = (dm_exiting d \<or> mi_exit_command inp);
             d = dm_events [UnixctlRun, NetdevRun] d
         in and_then (plugins_run (me_ltdl env) (dm_loader d)) (\<lambda>l.
            let (wakes, b) = bridge_wait r b;
                wakes = wakes @ bufmon_wait (ri_has_lock r) m
            in and_then (plugins_wait (me_ltdl env) l) (\<lambda>l.
               Inr ((dm_events [PollBlock wakes exiting] d)\<lparr>dm_bridge := b, dm_subsys := s, dm_bufmon := m, dm_loader := l,
                      dm_exiting := exiting \<or> mi_service_stop inp\<rparr>)))))))"

definition main_shutdown :: "'f main_env \<Rightarrow> 'f daemon \<Rightarrow> fault + 'f daemon" where
  "main_shutdown env d =
     (let d = d\<lparr>dm_bridge := on_switch (bridge_exit (cp_recon (me_conf env))) (dm_bridge d)\<rparr>
      in and_then (subsystem_exit (dm_subsys d)) (\<lambda>s.
         let d = dm_events [UnixctlDestroy] (d\<lparr>dm_subsys := s\<rparr>)
         in and_then (plugins_destroy (me_ltdl env) (dm_loader d)) (\<lambda>l. Inr (dm_events [ServiceStop] (d\<lparr>dm_loader := l\<rparr>)))))"

text \<open>The loop over the inputs of its trips; \<open>None\<close> means that it has used them up and still runs.\<close>

fun main_loop :: "'f main_env \<Rightarrow> main_input list \<Rightarrow> 'f daemon \<Rightarrow> (fault + 'f daemon) option" where
  "main_loop env [] d = (if dm_exiting d then Some (main_shutdown env d) else None)"
| "main_loop env (inp # inps) d =
     (if dm_exiting d then Some (main_shutdown env d)
      else case main_body env inp d of
             Inl e \<Rightarrow> Some (Inl e)
           | Inr d \<Rightarrow> main_loop env inps d)"

text \<open>The whole of \<open>main\<close>: the process exits, faults, still runs, or returns.\<close>

datatype 'f outcome = Exited proc_exit | Faulted fault | Still_running | Returned "'f daemon"

definition vswitchd_main ::
  "'f main_env \<Rightarrow> string \<Rightarrow> cmd_option list \<Rightarrow> string list \<Rightarrow> bool \<Rightarrow> u32 \<Rightarrow> idl_view \<Rightarrow> idl_view list \<Rightarrow> main_input list \<Rightarrow> 'f daemon \<Rightarrow> 'f outcome" where
  "vswitchd_main env rundir cs args unixctl_created seqno v vs inps d =
     (case parse_options rundir cs args of
        Inl e \<Rightarrow> Exited e
      | Inr (remote, o') \<Rightarrow>
          if \<not> unixctl_created then Exited EXIT_FAILURE
          else case main_start env (plugins_path o') seqno d of
                 None \<Rightarrow> Still_running
               | Some (Inl f) \<Rightarrow> Faulted f
               | Some (Inr d) \<Rightarrow>
                   (case wait_for_config_complete v vs of
                      None \<Rightarrow> Still_running
                    | Some _ \<Rightarrow>
                        (case main_loop env inps d of
                           None \<Rightarrow> Still_running
                         | Some (Inl f) \<Rightarrow> Faulted f
                         | Some (Inr d) \<Rightarrow> Returned d)))"

section \<open>Commands of the control socket\<close>

datatype unixctl_reply = Reply string | Reply_error string

definition bridge_unixctl_dump_flows :: "(string \<Rightarrow> string) \<Rightarrow> string \<Rightarrow> switch \<Rightarrow> unixctl_reply" where
  "bridge_unixctl_dump_flows all_flows name w =
     (case bridge_lookup w name of None \<Rightarrow> Reply_error ''Unknown bridge'' | Some b \<Rightarrow> Reply (all_flows (b_name b)))"

text \<open>The bridges whose controllers are reconnected, and the reply.\<close>

definition bridge_unixctl_reconnect :: "string option \<Rightarrow> switch \<Rightarrow> string list \<times> unixctl_reply" where
  "bridge_unixctl_reconnect arg w =
     (case arg of
        Some name \<Rightarrow> (case bridge_lookup w name of None \<Rightarrow> ([], Reply_error ''Unknown bridge'') | Some b \<Rightarrow> ([b_name b], Reply []))
      | None \<Rightarrow> (map b_name (all_bridges w), Reply []))"

abbreviation nl :: string where "nl \<equiv> [CHR 0x0A]"

definition dump_vlan_data :: "(vlan \<Rightarrow> string) \<Rightarrow> vlan \<Rightarrow> string" where
  "dump_vlan_data cfg_ptr v =
     ''VLAN '' @ show_int (vl_vid v) @ '':'' @ nl
     @ ''  name               :'' @ vl_name v @ nl
     @ ''  cfg                :'' @ cfg_ptr v @ nl
     @ ''  hw_vlan_cfg:enable :'' @ (if vl_enable v then ''1'' else ''0'') @ nl"

text \<open>\<open>strtol\<close> in base 10 is \<open>atoi\<close> with saturation at the width of a long.\<close>

definition strtol :: "string \<Rightarrow> int" where
  "strtol a = max (- (2 ^ 63)) (min (2 ^ 63 - 1) (atoi a))"

text \<open>
  The pointer \<open>vlan\<close> lives across the bridges: it is what the lookup found, and NULL after the walk over all VLANs, whose node is the
  first member of the structure.
\<close>

fun show_vlans :: "(vlan \<Rightarrow> string) \<Rightarrow> string option \<Rightarrow> vlan option \<Rightarrow> br_full list \<Rightarrow> string" where
  "show_vlans cfg_ptr arg vlan [] = []"
| "show_vlans cfg_ptr arg vlan (b # bs) =
     ''========== Bridge '' @ b_name b @ '' =========='' @ nl
     @ (let vlan = (case arg of
                      None \<Rightarrow> vlan
                    | Some a \<Rightarrow> if int32 (strtol a) > 0 then vlan_lookup_by_vid (bf_vlans b) (int32 (strtol a)) else vlan_lookup_by_name (bf_vlans b) a)
        in case (arg, vlan) of
             (Some a, None) \<Rightarrow> ''VLAN '' @ a @ '' is not in this bridge.'' @ nl @ show_vlans cfg_ptr arg vlan bs
           | (_, Some v) \<Rightarrow> dump_vlan_data cfg_ptr v @ show_vlans cfg_ptr arg vlan bs
           | (None, None) \<Rightarrow> concat (map (dump_vlan_data cfg_ptr) (br_vlans (bf_vlans b))) @ show_vlans cfg_ptr arg None bs)"

definition vlan_unixctl_show :: "(vlan \<Rightarrow> string) \<Rightarrow> string option \<Rightarrow> switch \<Rightarrow> unixctl_reply" where
  "vlan_unixctl_show cfg_ptr arg w = Reply (show_vlans cfg_ptr arg None (all_bridges w))"

end
