(* ===== verification/Daemon_Props.thy ===== *)
theory Daemon_Props
  imports Daemon
begin

text \<open>
  Properties of the daemon as a whole: a trip through the main loop returns and leaves all modules consistent and at the same
  sequence number; what ends the loop, and what the shutdown then does; that the columns the bridge module writes do not wake it up
  again; and what the commands of the control socket report.
\<close>

section \<open>Subsystems\<close>

lemma seqno_frame [simp]:
  "ss_idl_seqno (emit e s) = ss_idl_seqno s" "ss_idl_seqno (stats_block p b s) = ss_idl_seqno s"
  "ss_idl_seqno (iface_refresh_stats env i s) = ss_idl_seqno s" "ss_idl_seqno (put_subsystem ss s) = ss_idl_seqno s"
  "ss_idl_seqno (snd (iface_refresh_netdev_status env i s)) = ss_idl_seqno s"
proof -
  show e: "ss_idl_seqno (emit e s) = ss_idl_seqno s" for e s by (simp add: emit_def)
  show "ss_idl_seqno (stats_block p b s) = ss_idl_seqno s" by (simp add: stats_block_def split: prod.split)
  show "ss_idl_seqno (iface_refresh_stats env i s) = ss_idl_seqno s" using e by (simp add: iface_refresh_stats_def)
  show "ss_idl_seqno (put_subsystem ss s) = ss_idl_seqno s" by (simp add: put_subsystem_def)
  show "ss_idl_seqno (snd (iface_refresh_netdev_status env i s)) = ss_idl_seqno s"
    using e by (auto simp: iface_refresh_netdev_status_def split: option.split)
qed

lemma refresh_ifaces_frame:
  "map if_name (fst (refresh_ifaces env is s)) = map if_name is \<and> map if_subsystem (fst (refresh_ifaces env is s)) = map if_subsystem is
   \<and> all_subsystems (snd (refresh_ifaces env is s)) = all_subsystems s \<and> ss_idl_seqno (snd (refresh_ifaces env is s)) = ss_idl_seqno s"
  by (induction "is" arbitrary: s) (simp_all add: Let_def case_prod_unfold)

definition subsys_at :: "u32 \<Rightarrow> string list \<Rightarrow> subsys \<Rightarrow> bool" where
  "subsys_at seqno names s \<longleftrightarrow> subsys_inv s \<and> map ss_name (all_subsystems s) = names \<and> ss_idl_seqno s = seqno"

lemma put_refreshed:
  assumes "subsys_at n names s" "ifaces_ok ss"
  shows "subsys_at n names (put_subsystem (ss\<lparr>iface_by_name := fst (refresh_ifaces env (iface_by_name ss) s)\<rparr>) (snd (refresh_ifaces env (iface_by_name ss) s)))"
proof -
  let ?is = "fst (refresh_ifaces env (iface_by_name ss) s)"
  have f: "map if_name ?is = map if_name (iface_by_name ss)" "map if_subsystem ?is = map if_subsystem (iface_by_name ss)"
    "all_subsystems (snd (refresh_ifaces env (iface_by_name ss) s)) = all_subsystems s"
    "ss_idl_seqno (snd (refresh_ifaces env (iface_by_name ss) s)) = ss_idl_seqno s"
    using refresh_ifaces_frame [of env "iface_by_name ss" s] by auto
  have "if_subsystem ` set ?is = if_subsystem ` set (iface_by_name ss)" using f(2) by (metis list.set_map)
  with assms(2) have "\<forall>i\<in>set ?is. if_subsystem i = None" by (auto simp: ifaces_ok_def)
  with f(1) assms(2) have "ifaces_ok (ss\<lparr>iface_by_name := ?is\<rparr>)" by (simp add: ifaces_ok_def)
  moreover have n: "map ss_name (map (\<lambda>x. if ss_name x = ss_name ss then ss\<lparr>iface_by_name := ?is\<rparr> else x) (all_subsystems s)) = map ss_name (all_subsystems s)" by simp
  ultimately show ?thesis using assms(1) f(3,4) by (auto simp: subsys_at_def subsys_inv_def put_subsystem_def n simp del: map_map)
qed

lemma run_status_update_at:
  "subsys_at n names s \<Longrightarrow> \<forall>ss\<in>set sss. ifaces_ok ss \<Longrightarrow> subsys_at n names (run_status_update env sss s)"
proof (induction sss arbitrary: s)
  case (Cons ss sss)
  then show ?case using put_refreshed [OF Cons.prems(1), of ss env] by (simp add: Let_def case_prod_unfold)
qed simp

lemma stats_frame:
  "all_subsystems (snd (stats_of_ifaces env is x)) = all_subsystems (snd x) \<and> ss_idl_seqno (snd (stats_of_ifaces env is x)) = ss_idl_seqno (snd x)"
  by (induction "is" arbitrary: x) (auto simp: Let_def split: prod.splits)

lemma stats_subsystems_frame:
  "all_subsystems (snd (stats_of_subsystems env sss x)) = all_subsystems (snd x) \<and> ss_idl_seqno (snd (stats_of_subsystems env sss x)) = ss_idl_seqno (snd x)"
proof (induction sss arbitrary: x)
  case (Cons ss sss)
  obtain sblk s where x: "x = (sblk, s)" by (cases x)
  define y where "y = stats_of_ifaces env (iface_by_name ss) (sblk, stats_block sblk STATS_PER_SUBSYSTEM s)"
  have "all_subsystems (snd y) = all_subsystems s \<and> ss_idl_seqno (snd y) = ss_idl_seqno s" using stats_frame by (simp add: y_def)
  moreover have "stats_of_subsystems env (ss # sss) x = stats_of_subsystems env sss ((fst y)\<lparr>sb_netdev := None\<rparr>, snd y)"
    by (simp add: x y_def case_prod_unfold Let_def)
  ultimately show ?case using Cons.IH [of "((fst y)\<lparr>sb_netdev := None\<rparr>, snd y)"] x by simp
next
  case Nil
  show ?case by (cases x) simp
qed

lemma run_stats_update_at:
  assumes "subsys_at n names s"
  shows "\<exists>s'. Subsystem.run_stats_update env (Some c) now later s = Inr s' \<and> subsys_at n names s'"
  using assms stats_subsystems_frame by (auto simp: run_stats_update_def Let_def case_prod_unfold subsys_at_def subsys_inv_def)

lemma subsystem_run_ok:
  assumes "subsys_inv s" "seqno \<noteq> ss_idl_seqno s \<Longrightarrow> list_all (still_wanted (sys_subsystems c)) (all_subsystems s)"
  shows "\<exists>s'. subsystem_run env True seqno (Some c) now later s = Inr s' \<and> subsys_inv s' \<and> ss_idl_seqno s' = seqno
    \<and> ss_name ` set (all_subsystems s') = (if seqno = ss_idl_seqno s then ss_name ` set (all_subsystems s) else sr_name ` set (sys_subsystems c))"
proof -
  have "\<exists>s1. (if seqno \<noteq> ss_idl_seqno s then map_sum id (\<lambda>s. s\<lparr>ss_idl_seqno := seqno\<rparr>) (subsystem_reconfigure env (sys_subsystems c) s) else Inr s) = Inr s1
      \<and> subsys_inv s1 \<and> ss_idl_seqno s1 = seqno
      \<and> ss_name ` set (all_subsystems s1) = (if seqno = ss_idl_seqno s then ss_name ` set (all_subsystems s) else sr_name ` set (sys_subsystems c))"
    using subsystem_reconfigure_result [OF assms(1), of "sys_subsystems c" env] assms by (auto simp: list_all_iff subsys_inv_def)
  then obtain s1 where s1: "(if seqno \<noteq> ss_idl_seqno s then map_sum id (\<lambda>s. s\<lparr>ss_idl_seqno := seqno\<rparr>) (subsystem_reconfigure env (sys_subsystems c) s) else Inr s) = Inr s1"
    "subsys_at seqno (map ss_name (all_subsystems s1)) s1"
    "ss_name ` set (all_subsystems s1) = (if seqno = ss_idl_seqno s then ss_name ` set (all_subsystems s) else sr_name ` set (sys_subsystems c))"
    by (auto simp: subsys_at_def)
  have "subsys_at seqno (map ss_name (all_subsystems s1)) (run_status_update env (all_subsystems s1) s1)"
    using run_status_update_at [OF s1(2), of "all_subsystems s1" env] s1(2) by (simp add: subsys_at_def subsys_inv_def)
  from run_stats_update_at [OF this, of env c now later] obtain s2 where
    s2: "Subsystem.run_stats_update env (Some c) now later (run_status_update env (all_subsystems s1) s1) = Inr s2"
      "subsys_at seqno (map ss_name (all_subsystems s1)) s2" by blast
  have "subsystem_run env True seqno (Some c) now later s = Inr s2"
    unfolding subsystem_run_def option.case s1(1) using s2(1) by simp
  moreover have "ss_name ` set (all_subsystems s2) = ss_name ` set (all_subsystems s1)" using s2(2) by (metis subsys_at_def list.set_map)
  ultimately show ?thesis using s2(2) s1(3) by (auto simp: subsys_at_def)
qed

section \<open>Buffer counters\<close>

text \<open>The array, if a sample waits in it, is large enough for the rows, and no row is explicitly disabled.\<close>

definition bufmon_fits :: "bufmon_row list \<Rightarrow> bufmon \<Rightarrow> bool" where
  "bufmon_fits rows s \<longleftrightarrow> list_all (\<lambda>r. bm_enabled r \<noteq> Some False) rows
     \<and> (bufmon_latch s \<longrightarrow> (case g_counter_list s of None \<Rightarrow> False | Some l \<Rightarrow> length (listed rows) \<le> length l))"

definition writable :: "bufmon_row list \<Rightarrow> bufmon \<Rightarrow> bool" where
  "writable rows s \<longleftrightarrow> (bc_enabled (bufmon_cfg s) \<and> bufmon_latch s \<longrightarrow>
     listed rows = [] \<or> (case g_counter_list s of None \<Rightarrow> False | Some l \<Rightarrow> length (listed rows) \<le> length l))"

lemma write_counters_total:
  "listed rows = [] \<or> (\<exists>cts. l = Some cts \<and> i + length (listed rows) \<le> length cts) \<Longrightarrow> \<exists>ws. write_counters rows i l = Inr ws"
proof (induction rows arbitrary: i)
  case (Cons r rows)
  show ?case
  proof (cases "bm_enabled r")
    case None
    with Cons.prems have "listed rows = [] \<or> (\<exists>cts. l = Some cts \<and> i + length (listed rows) \<le> length cts)" by simp
    from Cons.IH [OF this] None show ?thesis by simp
  next
    case (Some b)
    with Cons.prems obtain cts where l: "l = Some cts" "Suc i + length (listed rows) \<le> length cts" by auto
    then obtain ws where "write_counters rows (Suc i) l = Inr ws" using Cons.IH [of "Suc i"] by auto
    with l Some show ?thesis by simp
  qed
qed simp

lemma config_frame [simp]:
  "g_counter_list (bufmon_counter_config_update r s) = g_counter_list s" "bufmon_latch (bufmon_counter_config_update r s) = bufmon_latch s"
  "g_counter_list (bufmon_system_config_update nm pl conf s) = g_counter_list s"
  by (simp_all add: bufmon_counter_config_update_def bufmon_set_counter_config_def bufmon_system_config_update_def bufmon_set_system_config_def
    bufmon_enable_stats_def bufmon_class_register_def Let_def split: option.splits)

lemma config_latch: "bufmon_latch (bufmon_system_config_update nm pl conf s) \<Longrightarrow> bufmon_latch s"
  by (auto simp: bufmon_system_config_update_def bufmon_set_system_config_def bufmon_enable_stats_def bufmon_class_register_def Let_def
    split: option.splits if_splits)

lemma config_fold [simp]:
  "g_counter_list (fold bufmon_counter_config_update rs s) = g_counter_list s" "bufmon_latch (fold bufmon_counter_config_update rs s) = bufmon_latch s"
  by (induction rs arbitrary: s) simp_all

lemma fits_writable: "bufmon_fits rows s \<Longrightarrow> writable rows s"
  by (simp add: bufmon_fits_def writable_def)

lemma created_writable:
  assumes "list_all (\<lambda>r. bm_enabled r \<noteq> Some False) rows"
  shows "\<exists>s'. bufmon_create_counters_list rows s = Inr s' \<and> writable rows s'"
proof -
  have "bm_enabled r = None" if "bm_enabled r \<noteq> Some False" "\<not> row_enabled r" for r
    using that by (cases "bm_enabled r") (auto simp: row_enabled_def)
  then have "listed rows = []" if "\<not> list_ex row_enabled rows" using that assms by (auto simp: filter_empty_conv list_ex_iff list_all_iff)
  then show ?thesis using assms by (auto simp: create_counters_list_result writable_def list_all_iff)
qed

lemma bufmon_reconfigure_ok:
  assumes "bufmon_fits (bi_rows idl) s"
  shows "\<exists>s'. bufmon_reconfigure nm pl idl s = Inr s' \<and> writable (bi_rows idl) s'"
proof (cases "\<exists>conf info. bi_system idl = Some (conf, info) \<and> conf \<noteq> []")
  case True
  then obtain conf info where c: "bi_system idl = Some (conf, info)" "conf \<noteq> []" by blast
  define s1 where "s1 = fold bufmon_counter_config_update (filter row_changed (bi_rows idl)) s"
  define s2 where "s2 = (if bi_system_modified idl then bufmon_system_config_update nm pl conf s1 else s1)"
  have "g_counter_list s2 = g_counter_list s" "bufmon_latch s2 \<Longrightarrow> bufmon_latch s"
    using config_latch [of nm pl conf s1] by (auto simp: s1_def s2_def split: if_splits)
  with assms have "bufmon_fits (bi_rows idl) s2" by (auto simp: bufmon_fits_def)
  moreover have "bufmon_reconfigure nm pl idl s = (if list_ex row_changed (bi_rows idl) then bufmon_create_counters_list (bi_rows idl) s2 else Inr s2)"
    by (simp add: bufmon_reconfigure_def c s1_def s2_def Let_def)
  ultimately show ?thesis using created_writable [of "bi_rows idl" s2] fits_writable by (auto simp: bufmon_fits_def)
qed (use assms fits_writable in \<open>auto simp: bufmon_reconfigure_def split: option.splits\<close>)

lemma bufmon_update_ok:
  assumes "writable rows s" "bc_enabled (bufmon_cfg s)" "bufmon_latch s"
  shows "\<exists>s'. bufmon_ovsdb_update nm rows info stamp (s\<lparr>bufmon_latch := False\<rparr>) = Inr s' \<and> bm_idl_seqno s' = bm_idl_seqno s"
proof -
  have "listed rows = [] \<or> (\<exists>cts. g_counter_list s = Some cts \<and> 0 + length (listed rows) \<le> length cts)"
    using assms by (auto simp: writable_def split: option.splits)
  from write_counters_total [OF this] show ?thesis by (auto simp: bufmon_ovsdb_update_def)
qed

lemma bufmon_run_ok:
  assumes "bufmon_fits (bi_rows idl) s" "\<not> bi_lock_contended idl" "bi_has_lock idl"
  shows "\<exists>s'. bufmon_run nm pl idl stamp s = Inr s' \<and> bm_idl_seqno s' = bi_seqno idl"
proof -
  have "\<exists>s1. (if bi_seqno idl \<noteq> bm_idl_seqno s then map_sum id (\<lambda>s. s\<lparr>bm_idl_seqno := bi_seqno idl\<rparr>) (bufmon_reconfigure nm pl idl s) else Inr s) = Inr s1
      \<and> writable (bi_rows idl) s1 \<and> bm_idl_seqno s1 = bi_seqno idl"
    using bufmon_reconfigure_ok [OF assms(1), of nm pl] fits_writable [OF assms(1)] by (auto simp: writable_def)
  then obtain s1 where s1: "(if bi_seqno idl \<noteq> bm_idl_seqno s then map_sum id (\<lambda>s. s\<lparr>bm_idl_seqno := bi_seqno idl\<rparr>) (bufmon_reconfigure nm pl idl s) else Inr s) = Inr s1"
    "writable (bi_rows idl) s1" "bm_idl_seqno s1 = bi_seqno idl" by blast
  then show ?thesis using assms(2,3) bufmon_update_ok [OF s1(2), of nm "map_option snd (bi_system idl)" stamp]
    unfolding bufmon_run_def s1(1) by (cases "bc_enabled (bufmon_cfg s1) \<and> bufmon_latch s1") auto
qed

section \<open>Plugins\<close>

text \<open>No stored class pointer dangles.\<close>

definition loader_ok :: "loader \<Rightarrow> bool" where
  "loader_ok l \<longleftrightarrow> list_all (\<lambda>(_, c). c \<noteq> None) (pl_data l)"

lemma hooks_ok:
  assumes "loader_ok l"
  shows "\<exists>l'. PLUGINS_CALL f hs l = Inr l' \<and> loader_ok l' \<and> pl_data l' = pl_data l \<and> (\<exists>es. pl_log l' = pl_log l @ es)"
proof -
  have "\<forall>h\<in>set hs. map_of (pl_data l) h \<noteq> Some None" using assms by (auto simp: loader_ok_def list_all_iff dest: map_of_SomeD)
  from PLUGINS_CALL_log [OF this, of f] assms show ?thesis by (auto simp: loader_ok_def)
qed

section \<open>A trip of the daemon\<close>

definition daemon_ok :: "'f main_env \<Rightarrow> 'f daemon \<Rightarrow> bool" where
  "daemon_ok env d \<longleftrightarrow> run_ok (me_conf env) (dm_bridge d) \<and> subsys_inv (dm_subsys d) \<and> loader_ok (dm_loader d)"

text \<open>
  What a trip needs of the rows: the lock is held, there is a System row with a MAC address that parses, neighbors name configured VRFs,
  no physical interface disappears, no counter is explicitly disabled, and rows change only with the sequence number.
\<close>

definition rows_ok :: "'f main_env \<Rightarrow> main_input \<Rightarrow> 'f daemon \<Rightarrow> bool" where
  "rows_ok env inp d \<longleftrightarrow>
     (let r = mi_run inp; db = ri_db r; vrfs = vc_name ` set (oc_vrfs (cd_ovs db))
      in \<not> ri_contended r \<and> ri_has_lock r \<and> ri_cfg r \<and> ether_aton (cp_recon (me_conf env)) (oc_system_mac (cd_ovs db)) \<noteq> None
         \<and> nbr_vrf ` set (idl_neighbors (cd_neighbors db)) \<subseteq> vrfs
         \<and> (ri_seqno r = idl_seqno (dm_bridge d) \<longrightarrow> v_name ` set (all_vrfs (rs_switch (dm_bridge d))) = vrfs)
         \<and> (case mi_system inp of
              None \<Rightarrow> False
            | Some c \<Rightarrow> ri_seqno r = ss_idl_seqno (dm_subsys d) \<or> list_all (still_wanted (sys_subsystems c)) (all_subsystems (dm_subsys d)))
         \<and> bufmon_fits (mi_bufmon_rows inp) (dm_bufmon d))"

lemma bridge_wait_ok:
  assumes "run_ok cp b"
  shows "run_ok cp (snd (bridge_wait inp b))" "idl_seqno (snd (bridge_wait inp b)) = idl_seqno b"
    "v_name ` set (all_vrfs (rs_switch (snd (bridge_wait inp b)))) = v_name ` set (all_vrfs (rs_switch b))"
proof -
  have w: "snd (bridge_wait inp b) = run_block_complete BLK_WAIT_COMPLETE b" by (simp add: bridge_wait_def Let_def)
  note k = run_block_complete_keeps [OF assms [unfolded run_ok_inv], of BLK_WAIT_COMPLETE]
  show "run_ok cp (snd (bridge_wait inp b))" "idl_seqno (snd (bridge_wait inp b)) = idl_seqno b" using k w by (simp_all add: run_ok_def trip_inv_def)
  have "map v_name (all_vrfs (rs_switch (run_block_complete BLK_WAIT_COMPLETE b))) = map v_name (all_vrfs (rs_switch b))"
    using k(1) by (simp add: trip_inv_def table_names_def)
  then show "v_name ` set (all_vrfs (rs_switch (snd (bridge_wait inp b)))) = v_name ` set (all_vrfs (rs_switch b))"
    unfolding w by (metis list.set_map)
qed

lemma main_body_ok:
  assumes "daemon_ok env d" "ofproto_laws (re_ports (cp_recon (me_conf env)))" "creates (cp_recon (me_conf env))" "rows_ok env inp d"
  shows "\<exists>d'. main_body env inp d = Inr d' \<and> daemon_ok env d'
    \<and> idl_seqno (dm_bridge d') = ri_seqno (mi_run inp) \<and> ss_idl_seqno (dm_subsys d') = ri_seqno (mi_run inp) \<and> bm_idl_seqno (dm_bufmon d') = ri_seqno (mi_run inp)
    \<and> v_name ` set (all_vrfs (rs_switch (dm_bridge d'))) = vc_name ` set (oc_vrfs (cd_ovs (ri_db (mi_run inp))))
    \<and> dm_exiting d' = (dm_exiting d \<or> mi_exit_command inp \<or> mi_service_stop inp)"
proof -
  let ?r = "mi_run inp" and ?E = "me_ltdl env"
  define d1 where "d1 = dm_events (MemoryRun # (if mi_should_report inp then bridge_get_memory_usage (ri_db ?r) (rs_switch (dm_bridge d)) else [])) d"
  have d1: "dm_bridge d1 = dm_bridge d" "dm_subsys d1 = dm_subsys d" "dm_bufmon d1 = dm_bufmon d" "dm_loader d1 = dm_loader d" "dm_exiting d1 = dm_exiting d"
    by (simp_all add: d1_def dm_events_def)
  have ok: "run_ok (me_conf env) (dm_bridge d)" "subsys_inv (dm_subsys d)" "loader_ok (dm_loader d)" using assms(1) by (simp_all add: daemon_ok_def)
  obtain c where c: "mi_system inp = Some c" "ri_seqno ?r \<noteq> ss_idl_seqno (dm_subsys d) \<Longrightarrow> list_all (still_wanted (sys_subsystems c)) (all_subsystems (dm_subsys d))"
    using assms(4) by (auto simp: rows_ok_def Let_def split: option.splits)
  obtain b where b: "bridge_run (me_conf env) ?r (dm_bridge d) = Inr b" "run_ok (me_conf env) b" "idl_seqno b = ri_seqno ?r"
    "v_name ` set (all_vrfs (rs_switch b)) = vc_name ` set (oc_vrfs (cd_ovs (ri_db ?r)))"
    using trip_ok [OF ok(1) assms(2,3), of ?r] assms(4) by (auto simp: rows_ok_def Let_def)
  have lock: "ri_has_lock ?r" using assms(4) by (simp add: rows_ok_def Let_def)
  obtain s where s: "subsystem_run (me_netdev env) (ri_has_lock ?r) (ri_seqno ?r) (Some c) (ri_now ?r) (ri_later ?r) (dm_subsys d) = Inr s"
    "subsys_inv s" "ss_idl_seqno s = ri_seqno ?r" using subsystem_run_ok [OF ok(2) c(2), where seqno = "ri_seqno ?r" and env = "me_netdev env" and now = "ri_now ?r" and later = "ri_later ?r"] lock by auto
  obtain m where m: "bufmon_run (me_names env) (me_bufmon_class env) (bufmon_view inp) (mi_stamp inp) (dm_bufmon d) = Inr m" "bm_idl_seqno m = ri_seqno ?r"
    using bufmon_run_ok [of "bufmon_view inp" "dm_bufmon d" "me_names env" "me_bufmon_class env" "mi_stamp inp"] assms(4)
    by (auto simp: bufmon_view_def rows_ok_def Let_def)
  obtain l where l: "plugins_run ?E (dm_loader d) = Inr l" "loader_ok l" using hooks_ok [OF ok(3), of Hook_run "lt_dlhandle_iterate ?E (dm_loader d)"] by (auto simp: plugins_run_def)
  obtain l' where l': "plugins_wait ?E l = Inr l'" "loader_ok l'" using hooks_ok [OF l(2), of Hook_wait "lt_dlhandle_iterate ?E l"] by (auto simp: plugins_wait_def)
  note w = bridge_wait_ok [OF b(2), of ?r]
  show ?thesis
    unfolding main_body_def Let_def d1_def [symmetric]
    using b s m l l' c(1) w d1 by (simp add: case_prod_unfold dm_events_def daemon_ok_def and_then_def)
qed


definition sample_env :: "nat main_env" where
  "sample_env = \<lparr>me_conf = sample_conf_params, me_netdev = sample_netdev, me_names = sample_bufmon_names, me_ltdl = sample_ltdl, me_bufmon_class = None\<rparr>"

definition sample_daemon :: "nat daemon" where
  "sample_daemon = \<lparr>dm_bridge = sample_run_state, dm_subsys = empty_subsys, dm_bufmon = sample_bufmon, dm_loader = loader_boot,
     dm_columns = [], dm_exiting = False, dm_log = []\<rparr>"

definition sample_main_input :: main_input where
  "sample_main_input = \<lparr>mi_run = sample_input, mi_system = Some \<lparr>sys_subsystems = [], sys_other_config = []\<rparr>, mi_bufmon_system = None,
     mi_bufmon_modified = False, mi_bufmon_rows = [], mi_stamp = [], mi_should_report = False, mi_exit_command = True, mi_service_stop = False\<rparr>"

lemma sample_daemon_ok: "daemon_ok sample_env sample_daemon"
  using sample_run_ok by (simp add: daemon_ok_def sample_env_def sample_daemon_def subsys_inv_def empty_subsys_def loader_ok_def loader_boot_def)

lemma sample_rows_ok: "rows_ok sample_env sample_main_input sample_daemon"
  by (simp add: rows_ok_def sample_env_def sample_daemon_def sample_main_input_def sample_input_def sample_run_state_def bufmon_fits_def sample_bufmon_def Let_def
    empty_subsys_def sample_conf_db_def sample_conf_params_def sample_recon_env_def sample_ovs_def sample_neighbor_idl_def)


section \<open>The end of the loop\<close>

definition asked_to_stop :: "main_input \<Rightarrow> bool" where
  "asked_to_stop inp \<longleftrightarrow> mi_exit_command inp \<or> mi_service_stop inp"

lemma main_body_exiting: "main_body env inp d = Inr d' \<Longrightarrow> dm_exiting d' = (dm_exiting d \<or> asked_to_stop inp)"
  by (auto simp: main_body_def Let_def and_then_def dm_events_def asked_to_stop_def split: sum.splits prod.splits)

text \<open>The loop runs exactly to the first trip in which it is asked to stop, and then shuts down; until then it goes on.\<close>

lemma loop_ends_on_request:
  assumes "\<not> dm_exiting d" "for_each (main_body env) (pre @ [inp]) d = Inr d'" "list_all (\<lambda>i. \<not> asked_to_stop i) pre" "asked_to_stop inp"
  shows "main_loop env (pre @ inp # post) d = Some (main_shutdown env d')"
  using assms
proof (induction pre arbitrary: d)
  case Nil
  then have "main_body env inp d = Inr d'" by (cases "main_body env inp d") (simp_all add: and_then_def)
  with main_body_exiting [OF this] Nil show ?case by (cases post) simp_all
next
  case (Cons i pre)
  then obtain d1 where d1: "main_body env i d = Inr d1" "for_each (main_body env) (pre @ [inp]) d1 = Inr d'"
    by (cases "main_body env i d") (simp_all add: and_then_def)
  with Cons.IH [OF _ d1(2)] main_body_exiting [OF d1(1)] Cons.prems show ?case by simp
qed

lemma loop_goes_on:
  assumes "\<not> dm_exiting d" "for_each (main_body env) inps d = Inr d'" "list_all (\<lambda>i. \<not> asked_to_stop i) inps"
  shows "main_loop env inps d = None"
  using assms
proof (induction inps arbitrary: d)
  case (Cons i inps)
  then obtain d1 where d1: "main_body env i d = Inr d1" "for_each (main_body env) inps d1 = Inr d'"
    by (cases "main_body env i d") (simp_all add: and_then_def)
  with Cons.IH [OF _ d1(2)] main_body_exiting [OF d1(1)] Cons.prems show ?case by simp
qed simp

lemma shutdown_result:
  assumes "subsys_inv (dm_subsys d)" "loader_ok (dm_loader d)"
  shows "if list_ex (\<lambda>ss. iface_by_name ss \<noteq> []) (all_subsystems (dm_subsys d)) then main_shutdown env d = Inl Null_dereference
    else \<exists>d' l. main_shutdown env d = Inr d' \<and> all_bridges (rs_switch (dm_bridge d')) = [] \<and> all_subsystems (dm_subsys d') = []
      \<and> PLUGINS_CALL Hook_destroy (lt_dlhandle_iterate (me_ltdl env) (dm_loader d)) (dm_loader d) = Inr l \<and> dm_loader d' = l\<lparr>pl_registered := False\<rparr>"
proof -
  have s: "subsystem_exit (dm_subsys d) = (if \<forall>ss\<in>set (all_subsystems (dm_subsys d)). iface_by_name ss = []
      then Inr ((dm_subsys d)\<lparr>all_subsystems := []\<rparr>) else Inl Null_dereference)"
    using destroy_subsystems_result [of "all_subsystems (dm_subsys d)" "dm_subsys d"] assms(1) by (simp add: subsystem_exit_def subsys_inv_def)
  obtain l where l: "PLUGINS_CALL Hook_destroy (lt_dlhandle_iterate (me_ltdl env) (dm_loader d)) (dm_loader d) = Inr l" using hooks_ok [OF assms(2)] by blast
  show ?thesis using exit_keeps_vrfs(1)
    by (auto simp: main_shutdown_def s l plugins_destroy_def and_then_def dm_events_def Let_def list_ex_iff)
qed

text \<open>
  C14: The shutdown dereferences NULL as soon as there is a physical interface: \<open>subsystem_exit\<close> destroys the interfaces, and
  \<open>iface_destroy\<close> goes through a pointer that no code assigns.  The plugins are then not destroyed.  Without interfaces it removes all
  bridges and subsystems and calls the destroy hook of the plugins.
\<close>

theorem shutdown_outcome:
  assumes "subsys_inv (dm_subsys d)" "loader_ok (dm_loader d)"
  shows "if list_ex (\<lambda>ss. iface_by_name ss \<noteq> []) (all_subsystems (dm_subsys d)) then main_shutdown env d = Inl Null_dereference
    else \<exists>d' l. main_shutdown env d = Inr d' \<and> all_bridges (rs_switch (dm_bridge d')) = [] \<and> all_subsystems (dm_subsys d') = []
      \<and> PLUGINS_CALL Hook_destroy (lt_dlhandle_iterate (me_ltdl env) (dm_loader d)) (dm_loader d) = Inr l \<and> dm_loader d' = l\<lparr>pl_registered := False\<rparr>"
  using assms by (rule shutdown_result)

definition populated_daemon :: "nat daemon" where
  "populated_daemon = sample_daemon\<lparr>dm_subsys := one_iface\<rparr>"

theorem shutdown_outcome_witness: "main_shutdown sample_env populated_daemon = Inl Null_dereference"
proof -
  have "subsys_inv (dm_subsys populated_daemon)" "loader_ok (dm_loader populated_daemon)"
    by (simp_all add: populated_daemon_def sample_daemon_def subsys_inv_def ifaces_ok_def one_iface_def empty_subsys_def loader_ok_def loader_boot_def)
  from shutdown_outcome [OF this, of sample_env] show ?thesis
    by (simp add: populated_daemon_def sample_daemon_def one_iface_def)
qed

section \<open>Waiting for the configuration\<close>

text \<open>The daemon waits exactly until the lock is held, and from there until the System row says that it is configured.\<close>

lemma wait_until_iff:
  "wait_until c v vs = Some (w, ws) \<longleftrightarrow> (\<exists>pre. v # vs = pre @ w # ws \<and> c w \<and> list_all (\<lambda>x. \<not> c x) pre)"
proof (induction c v vs rule: wait_until.induct)
  case (1 c v)
  show ?case by (auto simp: Cons_eq_append_conv)
next
  case (2 c v v' vs)
  show ?case
  proof (cases "c v")
    case True
    then show ?thesis by (auto simp: Cons_eq_append_conv intro: exI [of _ "[]"])
  next
    case False
    with 2 have "wait_until c v (v' # vs) = Some (w, ws) \<longleftrightarrow> (\<exists>pre. v' # vs = pre @ w # ws \<and> c w \<and> list_all (\<lambda>x. \<not> c x) pre)" by simp
    also have "\<dots> \<longleftrightarrow> (\<exists>pre. v # v' # vs = pre @ w # ws \<and> c w \<and> list_all (\<lambda>x. \<not> c x) pre)"
      using False by (auto simp: Cons_eq_append_conv [of v "v' # vs"])
    finally show ?thesis .
  qed
qed

lemma config_complete_iff:
  "wait_for_config_complete v vs \<noteq> None \<longleftrightarrow> (\<exists>pre w ws. v # vs = pre @ w # ws \<and> iv_has_lock w \<and> list_all (\<lambda>x. \<not> iv_has_lock x) pre \<and> list_ex system_configured (w # ws))"
proof -
  have some: "wait_until c v vs \<noteq> None \<longleftrightarrow> list_ex c (v # vs)" for c v vs by (induction c v vs rule: wait_until.induct) auto
  show ?thesis
  proof (cases "wait_until iv_has_lock v vs")
    case None
    then have n: "\<not> list_ex iv_has_lock (v # vs)" using some by blast
    have "\<not> iv_has_lock w" if "v # vs = pre @ w # ws" for pre w ws using n unfolding that by simp
    with None show ?thesis unfolding wait_for_config_complete_def by auto
  next
    case (Some x)
    obtain w ws where x: "x = (w, ws)" by (cases x)
    with Some wait_until_iff [of iv_has_lock v vs w ws] obtain pre where
      p: "v # vs = pre @ w # ws" "iv_has_lock w" "list_all (\<lambda>x. \<not> iv_has_lock x) pre" by blast
    have unique: "w' # ws' = w # ws" if "v # vs = pre' @ w' # ws'" "iv_has_lock w'" "list_all (\<lambda>x. \<not> iv_has_lock x) pre'" for pre' w' ws'
    proof -
      have "wait_until iv_has_lock v vs = Some (w', ws')" unfolding wait_until_iff using that by blast
      with Some x show ?thesis by simp
    qed
    have "(\<exists>pre w ws. v # vs = pre @ w # ws \<and> iv_has_lock w \<and> list_all (\<lambda>x. \<not> iv_has_lock x) pre \<and> list_ex system_configured (w # ws))
      \<longleftrightarrow> list_ex system_configured (w # ws)" (is "?l \<longleftrightarrow> ?r")
    proof
      assume ?l
      then obtain pre' w' ws' where "v # vs = pre' @ w' # ws'" "iv_has_lock w'" "list_all (\<lambda>x. \<not> iv_has_lock x) pre'" "list_ex system_configured (w' # ws')" by blast
      with unique [OF this(1-3)] show ?r by simp
    qed (use p in blast)
    with some [of system_configured w ws] Some x show ?thesis by (simp add: wait_for_config_complete_def)
  qed
qed

section \<open>From the start to the end\<close>

lemma open_plugin_ok:
  assumes "loader_ok l" "fresh_handle env l f"
  shows "loader_ok (plugins_open_plugin env f l)"
  using assms by (auto simp: plugins_open_plugin_def loader_ok_def fresh_handle_def lt_dlcaller_set_data_def pl_event_def Let_def list_all_iff
    split: option.splits)

lemma open_all_ok:
  assumes "loader_ok l" "loaded l" "\<forall>f\<in>set fs. fresh_handle env l f" "distinct (List.map_filter (lt_dlopenadvise env) fs)"
  shows "loader_ok (fold (plugins_open_plugin env) fs l)"
  using assms
proof (induction fs arbitrary: l)
  case (Cons f fs)
  have "lt_dlopenadvise env g = None \<or> lt_dlopenadvise env g \<noteq> lt_dlopenadvise env f" if "g \<in> set fs" for g
    using Cons.prems(4) that by (force simp: List.map_filter_def split: option.splits if_splits)
  then have "\<forall>g\<in>set fs. fresh_handle env (plugins_open_plugin env f l) g"
    using Cons.prems open_plugin_loaded(2) [of l env f] by simp
  moreover have "distinct (List.map_filter (lt_dlopenadvise env) fs)" using Cons.prems(4) by (auto simp: List.map_filter_simps split: option.splits)
  moreover have "loaded (plugins_open_plugin env f l)" using Cons.prems by (intro open_plugin_loaded(1)) simp_all
  moreover have "loader_ok (plugins_open_plugin env f l)" using Cons.prems by (intro open_plugin_ok) simp_all
  ultimately show ?case using Cons.IH by simp
qed simp

lemma call_init_data: "call_init n m l = Inr l' \<Longrightarrow> pl_data l' = pl_data l"
  by (auto simp: call_init_def pl_event_def split: option.splits)

lemma init_listed_data: "init_listed ns l = Inr l' \<Longrightarrow> pl_data l' = pl_data l"
  by (induction ns arbitrary: l) (auto dest: call_init_data split: sum.splits option.splits)

lemma init_rest_data: "init_rest ns l = Inr l' \<Longrightarrow> pl_data l' = pl_data l"
  by (induction ns arbitrary: l rule: list.induct) (auto dest: call_init_data split: sum.splits if_splits)

lemma initialization_data: "plugins_initializaton env l = Some (Inr l') \<Longrightarrow> pl_data l' = pl_data l"
  by (auto simp: plugins_initializaton_def dest!: init_listed_data init_rest_data split: option.splits sum.splits)

text \<open>What the loader needs to get through the start.\<close>

definition plugins_fine :: "ltdl_env \<Rightarrow> string option \<Rightarrow> bool" where
  "plugins_fine env path \<longleftrightarrow> path \<noteq> Some ''none'' \<and> lt_dlinit env \<and> lt_interface_register env \<and> lt_advise env
     \<and> distinct_modules env (lt_files env (case path of None \<Rightarrow> ovs_pluginsdir env | Some p \<Rightarrow> p))
     \<and> (case get_yaml_plugins env of Some (Inr yl) \<Rightarrow> length (case yl of None \<Rightarrow> [] | Some ns \<Rightarrow> ns) < 2 ^ 31 | _ \<Rightarrow> False)"

lemma plugins_init_ok:
  assumes "plugins_fine env path"
  shows "\<exists>l. plugins_init env path loader_boot = Some (Inr l) \<and> loader_ok l"
proof -
  let ?fs = "lt_files env (case path of None \<Rightarrow> ovs_pluginsdir env | Some p \<Rightarrow> p)" and ?l = "loader_boot\<lparr>pl_registered := True\<rparr>"
  obtain yl where yl: "get_yaml_plugins env = Some (Inr yl)" "length (case yl of None \<Rightarrow> [] | Some ns \<Rightarrow> ns) < 2 ^ 31"
    using assms by (auto simp: plugins_fine_def split: option.splits sum.splits)
  have b: "loaded ?l" "loader_ok ?l" by (simp_all add: loaded_def loader_boot_def shash_wf_def loader_ok_def)
  have m: "distinct_modules env ?fs" using assms by (simp add: plugins_fine_def)
  then have f: "\<forall>f\<in>set ?fs. fresh_handle env ?l f" "distinct (List.map_filter (lt_dlopenadvise env) ?fs)"
    by (auto simp: distinct_modules_def list_all_iff fresh_handle_def loader_boot_def split: option.splits)
  obtain l where l: "plugins_initializaton env (fold (plugins_open_plugin env) ?fs ?l) = Some (Inr l)"
    using plugins_initializaton_log [OF open_all_loaded [OF b(1) f] yl] by blast
  have "loader_ok l" using open_all_ok [OF b(2,1) f] initialization_data [OF l] by (simp add: loader_ok_def)
  moreover have "plugins_init env path loader_boot = Some (Inr l)" using assms l by (simp add: plugins_init_def plugins_fine_def Let_def loader_boot_def)
  ultimately show ?thesis by blast
qed

text \<open>The start loads the plugins, gives them the block of \<open>bridge_init\<close>, and leaves every module at the sequence number of the database.\<close>

lemma start_ok:
  assumes "run_ok (me_conf env) (dm_bridge d)" "subsys_inv (dm_subsys d)" "dm_loader d = loader_boot" "plugins_fine (me_ltdl env) path"
  shows "\<exists>d'. main_start env path seqno d = Some (Inr d') \<and> daemon_ok env d' \<and> \<not> dm_exiting d'
    \<and> idl_seqno (dm_bridge d') = seqno \<and> ss_idl_seqno (dm_subsys d') = seqno \<and> bm_idl_seqno (dm_bufmon d') = seqno"
proof -
  let ?E = "re_ports (cp_recon (me_conf env))" and ?L = "me_ltdl env"
  obtain l where l: "plugins_init ?L path loader_boot = Some (Inr l)" "loader_ok l" using plugins_init_ok [OF assms(4)] by blast
  obtain l' where l': "plugins_netdev_register ?L l = Inr l'" "loader_ok l'"
    using hooks_ok [OF l(2), of Hook_netdev_register "lt_dlhandle_iterate ?L l"] by (auto simp: plugins_netdev_register_def)
  define b where "b = snd (bridge_init seqno (dm_bridge d))"
  let ?c = "rs_conf (dm_bridge d)"
  have "st_ok ?E (table_names (snd (cf_recon ?c))) False (run_block BLK_BRIDGE_INIT no_params (cf_recon ?c))"
    by (rule run_block_ok) (use assms(1) in \<open>simp add: st_ok_def run_ok_def\<close>)
  then have "run_ok (me_conf env) b" "idl_seqno b = seqno"
    using assms(1) by (simp_all add: b_def bridge_init_def run_ok_def st_ok_def recon_step_def)
  moreover have "subsys_inv (subsystem_init seqno (dm_subsys d))" using assms(2) by (simp add: subsystem_init_def subsys_inv_def)
  ultimately show ?thesis using l l' assms(3)
    by (auto simp: main_start_def and_then_def daemon_ok_def b_def case_prod_unfold Let_def subsystem_init_def bufmon_init_def)
qed

text \<open>Inputs each of which is well-formed in the state its trip begins in.\<close>

fun fed :: "'f main_env \<Rightarrow> main_input list \<Rightarrow> 'f daemon \<Rightarrow> bool" where
  "fed env [] d = True"
| "fed env (inp # inps) d \<longleftrightarrow> rows_ok env inp d \<and> (case main_body env inp d of Inl _ \<Rightarrow> True | Inr d' \<Rightarrow> fed env inps d')"

lemma trips_ok:
  assumes "daemon_ok env d" "ofproto_laws (re_ports (cp_recon (me_conf env)))" "creates (cp_recon (me_conf env))" "fed env inps d"
  shows "\<exists>d'. for_each (main_body env) inps d = Inr d' \<and> daemon_ok env d'"
  using assms(1,4)
proof (induction inps arbitrary: d)
  case (Cons inp inps)
  obtain d1 where "main_body env inp d = Inr d1" "daemon_ok env d1" using main_body_ok [OF Cons.prems(1) assms(2,3), of inp] Cons.prems(2) by auto
  with Cons show ?case by (simp add: and_then_def)
qed simp

text \<open>Whether the physical side has interfaces, which the shutdown cannot remove.\<close>

definition has_ifaces :: "'f daemon \<Rightarrow> bool" where
  "has_ifaces d \<longleftrightarrow> list_ex (\<lambda>ss. iface_by_name ss \<noteq> []) (all_subsystems (dm_subsys d))"


lemma main_start_fields:
  assumes "main_start env path seqno d = Some (Inr d0)"
  shows "idl_seqno (dm_bridge d0) = seqno" "dm_subsys d0 = subsystem_init seqno (dm_subsys d)" "dm_bufmon d0 = snd (bufmon_init seqno (dm_bufmon d))"
  using assms by (auto simp: main_start_def and_then_def bridge_init_def Let_def split: option.splits sum.splits prod.splits)

definition sample_views :: "idl_view list" where
  "sample_views = [\<lparr>iv_has_lock = True, iv_cur_cfg = None\<rparr>, \<lparr>iv_has_lock = True, iv_cur_cfg = Some 1\<rparr>]"


section \<open>Columns\<close>

text \<open>The columns that the events of a trip write.\<close>

fun written :: "run_event \<Rightarrow> (string \<times> string) list" where
  "written (SetCurCfg _) = [(''open_vswitch'', ''cur_cfg'')]"
| "written (SetController _ _ _ _) = [(''controller'', ''is_connected''), (''controller'', ''role''), (''controller'', ''status'')]"
| "written (SetDatapathVersion _ _) = [(''bridge'', ''datapath_version'')]"
| "written (WriteStatistics _) = [(''open_vswitch'', ''statistics'')]"
| "written (SetHit _ _) = [(''neighbor'', ''status'')]"
| "written _ = []"

text \<open>None of them reports its changes back to the daemon, so what a trip writes does not cause another reconfiguration.\<close>

lemma own_columns:
  "x \<in> {(''open_vswitch'', ''cur_cfg''), (''controller'', ''is_connected''), (''controller'', ''role''), (''controller'', ''status''),
     (''bridge'', ''datapath_version''), (''open_vswitch'', ''statistics''), (''neighbor'', ''status'')} \<Longrightarrow>
   Omit (fst x) (snd x) \<notin> set (init_columns @ init_columns_l3) \<and> Omit_alert (fst x) (snd x) \<in> set (init_columns @ init_columns_l3)"
  unfolding set_append by (elim insertE emptyE; hypsubst; simp add: init_columns_def init_columns_l3_def)

lemma own_writes_silent: "list_all (\<lambda>(t, c). column_mode (fst (bridge_init seqno s)) t c Alert = Monitor) (written e)"
  by (cases e) (simp_all add: bridge_init_def column_mode_meet own_columns [of "(_, _)", simplified] min_def less_eq_idl_mode_def)

text \<open>So after the start no write of a trip, whether of the bridge module or of the buffer monitor, wakes the daemon again.\<close>

lemma start_silences_own_writes:
  assumes "main_start env path seqno d = Some (Inr d0)"
  shows "list_all (\<lambda>(t, c). column_mode (dm_columns d0) t c Alert = Monitor) (written e)"
    "column_mode (dm_columns d0) (fst (written_column x)) (snd (written_column x)) Alert = Monitor"
proof -
  have cols: "dm_columns d0 = fst (bridge_init seqno (dm_bridge d)) @ fst (bufmon_init seqno (dm_bufmon d))"
    using assms by (auto simp: main_start_def and_then_def Let_def split: option.splits sum.splits prod.splits)
  have omit: "Omit t c \<notin> set (fst (bufmon_init seqno (dm_bufmon d)))" for t c by (simp add: bufmon_init_def)
  show "list_all (\<lambda>(t, c). column_mode (dm_columns d0) t c Alert = Monitor) (written e)"
    using own_writes_silent [of seqno "dm_bridge d" e] omit
    by (auto simp: cols column_mode_meet list_all_iff split: if_splits)
  have "Omit (fst (written_column x)) (snd (written_column x)) \<notin> set (fst (bridge_init seqno (dm_bridge d)))"
    by (cases x) (simp_all add: bridge_init_def init_columns_def init_columns_l3_def)
  then show "column_mode (dm_columns d0) (fst (written_column x)) (snd (written_column x)) Alert = Monitor"
    using bufmon_writes_silent [of x seqno "dm_bufmon d"] omit by (simp add: cols column_mode_meet min_def less_eq_idl_mode_def)
qed

section \<open>Listing VLANs\<close>

text \<open>Without an argument the listing has every VLAN of every bridge.\<close>

lemma vlan_show_all:
  "vlan_unixctl_show ptr None w = Reply (concat (map (\<lambda>b. ''========== Bridge '' @ b_name b @ '' =========='' @ nl
     @ concat (map (dump_vlan_data ptr) (br_vlans (bf_vlans b)))) (all_bridges w)))"
proof -
  have "show_vlans ptr None None bs = concat (map (\<lambda>b. ''========== Bridge '' @ b_name b @ '' =========='' @ nl
     @ concat (map (dump_vlan_data ptr) (br_vlans (bf_vlans b)))) bs)" for bs by (induction bs) simp_all
  then show ?thesis by (simp add: vlan_unixctl_show_def)
qed

text \<open>A VLAN whose name starts with digits cannot be listed by that name.\<close>

lemma vlan_name_with_digits: "show_vlans ptr (Some ''10G'') None [b] = show_vlans ptr (Some ''10G'') None [b\<lparr>bf_vlans := (bf_vlans b)\<lparr>br_vlans := filter (\<lambda>v. vl_vid v = 10) (br_vlans (bf_vlans b))\<rparr>\<rparr>]"
proof -
  have a: "int32 (strtol ''10G'') = 10" by code_simp
  have "List.find (\<lambda>v. vl_vid v = 10) (filter (\<lambda>v. vl_vid v = 10) vs) = List.find (\<lambda>v. vl_vid v = 10) vs" for vs :: "vlan list"
    by (induction vs) auto
  then show ?thesis by (simp add: a vlan_lookup_by_vid_def Let_def)
qed

end
